(* ===== verification/Prelude.thy ===== *)
theory Prelude
  imports Main "HOL-Library.Multiset"
begin

text \<open>
  Shared material of the development: the result type that stands for Go's
  \<^verbatim>\<open>(T, error)\<close> returns, the codec interface every encoder/decoder pair of the
  program satisfies, decimal printing and parsing as \<^verbatim>\<open>fmt\<close> and \<^verbatim>\<open>time.Parse\<close>
  do it, and the facts on stable sorting and on lists the components share.
\<close>

named_theorems go_unfold \<open>definitions of small helper operations\<close>
named_theorems codec_simps \<open>decode-after-encode equations of the codecs\<close>

section \<open>Results\<close>

text \<open>A Go function that returns a value and an error is a function into
  \<open>'e + 'a\<close>: \<open>Inl\<close> is the non-nil error, \<open>Inr\<close> the value returned with a nil error.\<close>

definition bind_result :: "'e + 'a \<Rightarrow> ('a \<Rightarrow> 'e + 'b) \<Rightarrow> 'e + 'b" where
  "bind_result r f = (case r of Inl e \<Rightarrow> Inl e | Inr a \<Rightarrow> f a)"

definition map_err :: "('e \<Rightarrow> 'f) \<Rightarrow> 'e + 'a \<Rightarrow> 'f + 'a" where
  "map_err g r = (case r of Inl e \<Rightarrow> Inl (g e) | Inr a \<Rightarrow> Inr a)"

fun map_result :: "('a \<Rightarrow> 'e + 'b) \<Rightarrow> 'a list \<Rightarrow> 'e + 'b list" where
  "map_result f [] = Inr []"
| "map_result f (x # xs) =
     (case f x of Inl e \<Rightarrow> Inl e
      | Inr y \<Rightarrow> (case map_result f xs of Inl e \<Rightarrow> Inl e | Inr ys \<Rightarrow> Inr (y # ys)))"

lemma bind_result_simps [simp]:
  "bind_result (Inl e) f = Inl e"
  "bind_result (Inr a) f = f a"
  by (simp_all add: bind_result_def)

lemma map_err_simps [simp]:
  "map_err g (Inl e) = Inl (g e)"
  "map_err g (Inr a) = Inr a"
  by (simp_all add: map_err_def)

lemma map_result_all:
  assumes "\<And>x. x \<in> set xs \<Longrightarrow> f x = Inr (g x)"
  shows "map_result f xs = Inr (map g xs)"
  using assms by (induction xs) auto

lemma map_result_length: "map_result f xs = Inr ys \<Longrightarrow> length ys = length xs"
  by (induction xs arbitrary: ys) (auto split: sum.splits)

section \<open>Codecs\<close>

text \<open>
  The contract of an encoder and its decoder: on the values the program writes
  (\<open>ok\<close>), decoding what was encoded gives the value back. Dates, wall-clock
  times, timestamps, statuses, release strategies, intents and booking results
  are all instances.
\<close>

locale codec =
  fixes enc :: "'a \<Rightarrow> 'b"
    and dec :: "'b \<Rightarrow> 'e + 'a"
    and ok :: "'a \<Rightarrow> bool"
  assumes dec_enc: "ok x \<Longrightarrow> dec (enc x) = Inr x"
begin

lemma enc_inject: "ok x \<Longrightarrow> ok y \<Longrightarrow> enc x = enc y \<longleftrightarrow> x = y"
  by (metis dec_enc sum.inject(2))

lemma enc_inj_on: "inj_on enc {x. ok x}"
  by (rule inj_onI) (simp add: enc_inject)

lemma dec_enc_list: "(\<And>x. x \<in> set xs \<Longrightarrow> ok x) \<Longrightarrow> map_result dec (map enc xs) = Inr xs"
  by (induction xs) (auto simp: dec_enc)

lemma enc_list_inject:
  "(\<And>x. x \<in> set xs \<Longrightarrow> ok x) \<Longrightarrow> (\<And>y. y \<in> set ys \<Longrightarrow> ok y) \<Longrightarrow>
   map enc xs = map enc ys \<longleftrightarrow> xs = ys"
  by (metis dec_enc_list sum.inject(2))

end

text \<open>A codec that keeps a view of the value only: what is decoded is the view of what was encoded.\<close>

locale view_codec =
  fixes enc :: "'a \<Rightarrow> 'b"
    and dec :: "'b \<Rightarrow> 'e + 'a"
    and ok :: "'a \<Rightarrow> bool"
    and view :: "'a \<Rightarrow> 'a"
  assumes dec_view: "ok x \<Longrightarrow> dec (enc x) = Inr (view x)"
begin

lemma dec_view_list: "(\<And>x. x \<in> set xs \<Longrightarrow> ok x) \<Longrightarrow> map_result dec (map enc xs) = Inr (map view xs)"
  by (induction xs) (auto simp: dec_view)

lemma enc_view_eq: "ok x \<Longrightarrow> ok y \<Longrightarrow> enc x = enc y \<Longrightarrow> view x = view y"
  by (metis dec_view sum.inject(2))

end

sublocale codec \<subseteq> view_codec enc dec ok "\<lambda>x. x"
  by unfold_locales (rule dec_enc)

section \<open>Decimal numerals\<close>

definition digits :: string where
  "digits = ''0123456789''"

definition digit_char :: "nat \<Rightarrow> char" where
  "digit_char n = digits ! n"

fun index_of :: "'a \<Rightarrow> 'a list \<Rightarrow> nat" where
  "index_of x [] = 0"
| "index_of x (y # ys) = (if x = y then 0 else Suc (index_of x ys))"

definition is_digit :: "char \<Rightarrow> bool" where
  "is_digit c \<longleftrightarrow> c \<in> set digits"

definition digit_val :: "char \<Rightarrow> nat" where
  "digit_val c = index_of c digits"

text \<open>\<^verbatim>\<open>strconv.Itoa\<close> on a non-negative number.\<close>

fun show_nat :: "nat \<Rightarrow> string" where
  "show_nat n = (if n < 10 then [digit_char n] else show_nat (n div 10) @ [digit_char (n mod 10)])"

declare show_nat.simps [simp del]

definition zero_pad :: "nat \<Rightarrow> string \<Rightarrow> string" where
  "zero_pad w s = replicate (w - length s) CHR ''0'' @ s"

text \<open>The verb \<^verbatim>\<open>%0<w>d\<close> of \<^verbatim>\<open>fmt\<close>: the sign counts towards the width.\<close>

definition fmt_int :: "nat \<Rightarrow> int \<Rightarrow> string" where
  "fmt_int w n = (if n < 0 then CHR ''-'' # zero_pad (w - 1) (show_nat (nat (- n)))
                  else zero_pad w (show_nat (nat n)))"

abbreviation show_int :: "int \<Rightarrow> string" where
  "show_int n \<equiv> fmt_int 0 n"

text \<open>The value of a string of digits, \<open>None\<close> if some character is not a digit.\<close>

fun read_digits :: "nat \<Rightarrow> string \<Rightarrow> nat option" where
  "read_digits acc [] = Some acc"
| "read_digits acc (c # cs) = (if is_digit c then read_digits (10 * acc + digit_val c) cs else None)"

lemma less_10_cases:
  "(n::nat) < 10 \<Longrightarrow> n = 0 \<or> n = 1 \<or> n = 2 \<or> n = 3 \<or> n = 4 \<or> n = 5 \<or> n = 6 \<or> n = 7 \<or> n = 8 \<or> n = 9"
  by arith

lemma is_digit_digit_char [simp]: "n < 10 \<Longrightarrow> is_digit (digit_char n)"
  by (simp add: is_digit_def digit_char_def digits_def nth_Cons' del: set_simps)
    (auto dest!: less_10_cases)

lemma digit_val_digit_char [simp]: "n < 10 \<Longrightarrow> digit_val (digit_char n) = n"
  by (auto dest!: less_10_cases simp: digit_val_def digit_char_def digits_def)

lemma digit_char_inject: "m < 10 \<Longrightarrow> n < 10 \<Longrightarrow> digit_char m = digit_char n \<longleftrightarrow> m = n"
  by (metis digit_val_digit_char)

lemma digit_char_digit_val: "is_digit c \<Longrightarrow> digit_char (digit_val c) = c"
  by (auto simp: is_digit_def digit_val_def digit_char_def digits_def)

lemma read_digits_append:
  "read_digits a (xs @ ys) = (case read_digits a xs of None \<Rightarrow> None | Some b \<Rightarrow> read_digits b ys)"
  by (induction xs arbitrary: a) auto

lemma read_digits_show_nat: "read_digits 0 (show_nat n) = Some n"
proof (induction n rule: show_nat.induct)
  case (1 n)
  show ?case
  proof (cases "n < 10")
    case True
    then show ?thesis by (simp add: show_nat.simps)
  next
    case False
    with "1.IH" show ?thesis
      by (simp add: show_nat.simps [of n] read_digits_append)
  qed
qed

lemma read_digits_zeros: "read_digits 0 (replicate k CHR ''0'' @ s) = read_digits 0 s"
proof (induction k)
  case (Suc k)
  have "is_digit CHR ''0''" "digit_val CHR ''0'' = 0"
    by (simp_all add: is_digit_def digit_val_def digits_def)
  with Suc show ?case by simp
qed simp

lemma read_digits_zero_pad [simp]: "read_digits 0 (zero_pad w (show_nat n)) = Some n"
  by (simp add: zero_pad_def read_digits_zeros read_digits_show_nat)

lemma show_nat_inject: "show_nat m = show_nat n \<longleftrightarrow> m = n"
  by (metis option.inject read_digits_show_nat)

lemma zero_pad_show_inject: "zero_pad w (show_nat m) = zero_pad w (show_nat n) \<longleftrightarrow> m = n"
  by (metis option.inject read_digits_zero_pad)

lemma show_nat_digits: "c \<in> set (show_nat n) \<Longrightarrow> is_digit c"
proof (induction n rule: show_nat.induct)
  case (1 n)
  then show ?case
    by (cases "n < 10") (auto simp: show_nat.simps [of n])
qed

lemma show_nat_nonempty [simp]: "show_nat n \<noteq> []"
  by (simp add: show_nat.simps [of n])

lemma zero_pad_digits: "c \<in> set (zero_pad w (show_nat n)) \<Longrightarrow> is_digit c"
  by (auto simp: zero_pad_def is_digit_def digits_def dest!: show_nat_digits)

lemma fmt_int_nonneg_digits: "0 \<le> n \<Longrightarrow> c \<in> set (fmt_int w n) \<Longrightarrow> is_digit c"
  by (auto simp: fmt_int_def dest: zero_pad_digits)

lemma not_is_digit_minus: "\<not> is_digit CHR ''-''"
  by (simp add: is_digit_def digits_def)

lemma hd_zero_pad: "is_digit (hd (zero_pad w (show_nat n)))"
proof -
  have "zero_pad w (show_nat n) \<noteq> []" by (simp add: zero_pad_def)
  then show ?thesis by (rule zero_pad_digits [OF hd_in_set])
qed

lemma fmt_int_inject: "fmt_int w m = fmt_int w n \<longleftrightarrow> m = n"
proof -
  have neq: "CHR ''-'' # xs \<noteq> zero_pad v (show_nat k)" for xs v k
    using hd_zero_pad [of v k] not_is_digit_minus by (metis list.sel(1))
  show ?thesis
    using neq neq [symmetric] by (auto simp: fmt_int_def zero_pad_show_inject)
qed

lemma show_nat_2: "10 \<le> n \<Longrightarrow> n < 100 \<Longrightarrow> show_nat n = [digit_char (n div 10), digit_char (n mod 10)]"
  by (simp add: show_nat.simps [of n] show_nat.simps [of "n div 10"])

lemma digit_char_0 [simp]: "digit_char 0 = CHR ''0''"
  by (simp add: digit_char_def digits_def)

lemma fmt_2: "0 \<le> n \<Longrightarrow> n < 100 \<Longrightarrow>
  fmt_int 2 n = [digit_char (nat n div 10), digit_char (nat n mod 10)]"
proof (cases "nat n < 10")
  case True
  then show "0 \<le> n \<Longrightarrow> ?thesis"
    by (simp add: fmt_int_def zero_pad_def show_nat.simps)
next
  case False
  then show "0 \<le> n \<Longrightarrow> n < 100 \<Longrightarrow> ?thesis"
    by (simp add: fmt_int_def zero_pad_def show_nat_2)
qed

lemma fmt_4:
  assumes "0 \<le> n" "n < 10000"
  shows "fmt_int 4 n = [digit_char (nat n div 1000), digit_char (nat n div 100 mod 10),
     digit_char (nat n div 10 mod 10), digit_char (nat n mod 10)]"
proof -
  define k where "k = nat n"
  have k: "k < 10000" using assms by (simp add: k_def)
  have s: "show_nat k = (if k < 10 then [digit_char k]
      else if k < 100 then [digit_char (k div 10), digit_char (k mod 10)]
      else if k < 1000 then [digit_char (k div 100), digit_char (k div 10 mod 10), digit_char (k mod 10)]
      else [digit_char (k div 1000), digit_char (k div 100 mod 10),
            digit_char (k div 10 mod 10), digit_char (k mod 10)])"
    using k by (simp add: show_nat.simps [of k] show_nat.simps [of "k div 10"]
        show_nat.simps [of "k div 100"] show_nat.simps [of "k div 1000"] div_mult2_eq [symmetric]
        div_less_iff_less_mult)
  have r: "replicate 3 CHR ''0'' = ''000''" "replicate 2 CHR ''0'' = ''00''"
    by (simp_all add: eval_nat_numeral)
  have f: "fmt_int 4 n = zero_pad 4 (show_nat k)"
    using assms by (simp add: fmt_int_def k_def)
  show ?thesis
    unfolding f k_def [symmetric]
    using k by (simp add: s zero_pad_def r)
qed

lemma find_filter: "(\<And>r. P r \<Longrightarrow> Q r) \<Longrightarrow> find P xs = find P (filter Q xs)"
  by (induction xs) auto

end
