(* ===== verification/GoTime.thy ===== *)
theory GoTime
  imports Prelude "HOL-Library.Monad_Syntax"
begin

text \<open>
  The parts of Go's \<^verbatim>\<open>time\<close> package the program computes with. An instant
  (\<^verbatim>\<open>time.Time\<close>) is the number of nanoseconds since Go's zero time,
  0001-01-01T00:00:00Z, so that \<^verbatim>\<open>IsZero\<close> is equality with \<open>0\<close>; the location a
  \<^verbatim>\<open>time.Time\<close> carries only affects how it is displayed and is passed where the
  code projects an instant (\<^verbatim>\<open>In\<close>, \<^verbatim>\<open>Date\<close>). A duration is a signed 64-bit number of
  nanoseconds; \<^verbatim>\<open>Sub\<close> saturates. The theory has the proleptic Gregorian calendar
  with its round trip, zone lookup with transitions, \<^verbatim>\<open>time.Date\<close>, and the layouts
  \<^verbatim>\<open>2006-01-02\<close>, \<^verbatim>\<open>15:04:05\<close>, \<^verbatim>\<open>15:04\<close> and \<^verbatim>\<open>RFC3339Nano\<close>.
\<close>

type_synonym instant = int
type_synonym duration = int

definition second :: duration where
  "second = 1000000000"

definition millisecond :: duration where
  "millisecond = 1000000"

definition max_duration :: duration where
  "max_duration = 2 ^ 63 - 1"

definition min_duration :: duration where
  "min_duration = - (2 ^ 63)"

text \<open>\<^verbatim>\<open>Time.UnixMilli\<close>.\<close>

definition unix_milli :: "instant \<Rightarrow> int" where
  "unix_milli t = (t - 62135596800 * second) div millisecond"

definition unix_sec :: "instant \<Rightarrow> int" where
  "unix_sec t = (t - 62135596800 * second) div second"

text \<open>\<^verbatim>\<open>time.UnixMilli\<close> and \<^verbatim>\<open>time.Unix(s, 0)\<close>.\<close>

definition from_unix_milli :: "int \<Rightarrow> instant" where
  "from_unix_milli ms = ms * millisecond + 62135596800 * second"

definition from_unix_sec :: "int \<Rightarrow> instant" where
  "from_unix_sec s = s * second + 62135596800 * second"

lemma unix_milli_inverse: "unix_milli (from_unix_milli ms) = ms"
  by (simp add: unix_milli_def from_unix_milli_def millisecond_def)

lemma from_unix_milli_trunc: "from_unix_milli (unix_milli t) = t - t mod millisecond"
proof -
  have "(t - 62135596800 * second) div millisecond = t div millisecond - 62135596800 * 1000"
    using div_mult_self1 [of millisecond t "- 62135596800000"] by (simp add: second_def millisecond_def)
  then show ?thesis
    by (simp add: from_unix_milli_def unix_milli_def second_def millisecond_def minus_mod_eq_div_mult)
qed

text \<open>\<^verbatim>\<open>Time.Sub\<close>: the difference, saturated at the ends of int64.\<close>

definition time_sub :: "instant \<Rightarrow> instant \<Rightarrow> duration" where
  "time_sub t u = max min_duration (min max_duration (t - u))"

text \<open>Go's integer division rounds towards zero; this is its value for a positive divisor.\<close>

definition quot :: "int \<Rightarrow> int \<Rightarrow> int" where
  "quot a b = (if a \<ge> 0 then a div b else - ((- a) div b))"

definition is_zero :: "instant \<Rightarrow> bool" where
  "is_zero t \<longleftrightarrow> t = 0"

lemma time_sub_pos_iff [simp]: "0 < time_sub t u \<longleftrightarrow> u < t"
  by (auto simp: time_sub_def max_duration_def min_duration_def)

lemma time_sub_le_0_iff [simp]: "time_sub t u \<le> 0 \<longleftrightarrow> t \<le> u"
  by (auto simp: time_sub_def max_duration_def min_duration_def)

lemma time_sub_exact:
  "min_duration \<le> t - u \<Longrightarrow> t - u \<le> max_duration \<Longrightarrow> time_sub t u = t - u"
  by (simp add: time_sub_def)

section \<open>The calendar\<close>

text \<open>Years are counted from 1 March, so that the leap day is the last of its year;
  \<open>days_before_year y\<close> is the number of days from 1 March of year 0.\<close>

definition days_before_year :: "int \<Rightarrow> int" where
  "days_before_year y = 365 * y + y div 4 - y div 100 + y div 400"

definition month_start :: "int \<Rightarrow> int" where
  "month_start mp = (153 * mp + 2) div 5"

text \<open>Days since 0001-01-01. Months outside 1..12 carry into the year and days
  outside the month carry on, as \<^verbatim>\<open>time.Date\<close> normalises them.\<close>

definition days_from_civil :: "int \<Rightarrow> int \<Rightarrow> int \<Rightarrow> int" where
  "days_from_civil y m d =
     days_before_year (y + (m - 3) div 12) + month_start ((m - 3) mod 12) + d - 1 - 306"

definition civil_of_march :: "int \<Rightarrow> int \<Rightarrow> int \<times> int \<times> int" where
  "civil_of_march y doy =
     (let mp = (5 * doy + 2) div 153
      in (y + (mp + 2) div 12, (mp + 2) mod 12 + 1, doy - month_start mp + 1))"

definition march_split :: "int \<Rightarrow> int \<times> int" where
  "march_split z =
     (let n400 = z div 146097; d400 = z mod 146097;
          n100 = min 3 (d400 div 36524); d100 = d400 - 36524 * n100;
          n4 = d100 div 1461; d4 = d100 mod 1461;
          n1 = min 3 (d4 div 365)
      in (400 * n400 + 100 * n100 + 4 * n4 + n1, d4 - 365 * n1))"

definition civil_from_days :: "int \<Rightarrow> int \<times> int \<times> int" where
  "civil_from_days n = (case march_split (n + 306) of (y, doy) \<Rightarrow> civil_of_march y doy)"

definition is_leap :: "int \<Rightarrow> bool" where
  "is_leap y \<longleftrightarrow> y mod 4 = 0 \<and> (y mod 100 \<noteq> 0 \<or> y mod 400 = 0)"

definition days_in :: "int \<Rightarrow> int \<Rightarrow> int" where
  "days_in m y = (if m = 2 then (if is_leap y then 29 else 28)
                  else if m \<in> {4, 6, 9, 11} then 30 else 31)"

definition valid_civil :: "int \<Rightarrow> int \<Rightarrow> int \<Rightarrow> bool" where
  "valid_civil y m d \<longleftrightarrow> 1 \<le> m \<and> m \<le> 12 \<and> 1 \<le> d \<and> d \<le> days_in m y"

text \<open>A quotient clipped at \<open>3\<close>, as the century and the year of a cycle are.\<close>

lemma clipped_div:
  assumes "0 \<le> (d::int)" "d \<le> 4 * k" "0 < k"
  shows "0 \<le> min 3 (d div k)" "0 \<le> d - k * min 3 (d div k)" "d - k * min 3 (d div k) \<le> k"
    "d - k * min 3 (d div k) = k \<Longrightarrow> min 3 (d div k) = 3 \<and> d = 4 * k"
proof -
  define q r where "q = d div k" and "r = d mod k"
  have d: "d = k * q + r" "0 \<le> r" "r < k" "0 \<le> q"
    using assms by (simp_all add: q_def r_def pos_imp_zdiv_nonneg_iff)
  consider "q \<le> 3" | "4 \<le> q" by linarith
  then have "0 \<le> min 3 q \<and> 0 \<le> d - k * min 3 q \<and> d - k * min 3 q \<le> k \<and>
    (d - k * min 3 q = k \<longrightarrow> min 3 q = 3 \<and> d = 4 * k)"
  proof cases
    case 1
    then show ?thesis using d by auto
  next
    case 2
    then have "4 * k \<le> k * q" using assms by simp
    then have "d = 4 * k" using d assms by linarith
    then show ?thesis using 2 assms by simp
  qed
  then show "0 \<le> min 3 (d div k)" "0 \<le> d - k * min 3 (d div k)" "d - k * min 3 (d div k) \<le> k"
    "d - k * min 3 (d div k) = k \<Longrightarrow> min 3 (d div k) = 3 \<and> d = 4 * k"
    unfolding q_def by blast+
qed

text \<open>The position of a March-based year in its 400-year cycle.\<close>

lemma days_before_year_cycle:
  assumes "0 \<le> b" "b \<le> 3" "0 \<le> c" "c \<le> 24" "0 \<le> e" "e \<le> 3"
  shows "days_before_year (400 * a + 100 * b + 4 * c + e) = 146097 * a + 36524 * b + 1461 * c + 365 * e"
proof -
  let ?y = "400 * a + 100 * b + 4 * c + e"
  have "?y div 4 = 100 * a + 25 * b + c" using assms by arith
  moreover have "?y div 100 = 4 * a + b" using assms by arith
  moreover have "?y div 400 = a" using assms by arith
  ultimately show ?thesis by (simp add: days_before_year_def)
qed

lemma march_split_bounds:
  assumes "march_split z = (y, doy)"
  obtains a b c e where "y = 400 * a + 100 * b + 4 * c + e"
    "z = 146097 * a + 36524 * b + 1461 * c + 365 * e + doy"
    "0 \<le> b" "b \<le> 3" "0 \<le> c" "c \<le> 24" "0 \<le> e" "e \<le> 3" "0 \<le> doy" "doy \<le> 365"
    "doy = 365 \<Longrightarrow> e = 3 \<and> (c = 24 \<longrightarrow> b = 3)"
proof -
  define d400 where "d400 = z mod 146097"
  define b where "b = min 3 (d400 div 36524)"
  define d100 where "d100 = d400 - 36524 * b"
  define c where "c = d100 div 1461"
  define d4 where "d4 = d100 mod 1461"
  define e where "e = min 3 (d4 div 365)"
  have d400: "0 \<le> d400" "d400 < 146097" "z = 146097 * (z div 146097) + d400"
    by (simp_all add: d400_def)
  have b: "0 \<le> b" "b \<le> 3" using d400 by (simp_all add: b_def)
  have d100: "0 \<le> d100" "d100 \<le> 36524" "d100 = 36524 \<Longrightarrow> b = 3"
    using clipped_div [of d400 36524] d400(1,2) by (auto simp: b_def d100_def)
  have c: "0 \<le> c" "c \<le> 24" "d100 = 1461 * c + d4" using d100 by (simp_all add: c_def d4_def)
  have d4: "0 \<le> d4" "d4 \<le> 1460" "c = 24 \<Longrightarrow> d4 \<le> 1460 \<and> (d4 = 1460 \<longrightarrow> d100 = 36524)"
    using c by (simp_all add: d4_def)
  have e: "0 \<le> e" "e \<le> 3" using d4 by (simp_all add: e_def)
  have doy: "0 \<le> d4 - 365 * e" "d4 - 365 * e \<le> 365" "d4 - 365 * e = 365 \<Longrightarrow> d4 = 1460 \<and> e = 3"
    using clipped_div [of d4 365] d4(1,2) by (auto simp: e_def)
  have "march_split z = (400 * (z div 146097) + 100 * b + 4 * c + e, d4 - 365 * e)"
    by (simp only: march_split_def Let_def d400_def b_def d100_def c_def d4_def e_def)
  then have y: "y = 400 * (z div 146097) + 100 * b + 4 * c + e" "doy = d4 - 365 * e"
    using assms by (simp_all only: prod.inject)
  have z: "z = 146097 * (z div 146097) + 36524 * b + 1461 * c + 365 * e + doy"
    using d400(3) c(3) y(2) d100_def by linarith
  have last: "e = 3 \<and> (c = 24 \<longrightarrow> b = 3)" if "doy = 365"
    using doy(3) d4(3) d100(3) that y(2) by auto
  show thesis
    using that [OF y(1) z b c(1,2) e _ _ last] doy(1,2) y(2) by simp
qed

lemma month_of_doy:
  assumes "0 \<le> doy" "doy \<le> 365"
  defines "mp \<equiv> (5 * doy + 2) div 153"
  shows "0 \<le> mp" "mp \<le> 11" "month_start mp \<le> doy" "doy < month_start (mp + 1)"
  using assms unfolding month_start_def by simp_all

lemma month_shift:
  assumes "0 \<le> (mp::int)" "mp \<le> 11"
  shows "((mp + 2) mod 12 + 1 - 3) div 12 = - ((mp + 2) div 12)"
    "((mp + 2) mod 12 + 1 - 3) mod 12 = mp"
proof -
  consider "mp \<le> 9" | "mp = 10" | "mp = 11" using assms by linarith
  then have "((mp + 2) mod 12 + 1 - 3) div 12 = - ((mp + 2) div 12) \<and>
    ((mp + 2) mod 12 + 1 - 3) mod 12 = mp"
    by cases (use assms in \<open>simp_all add: mod_pos_pos_trivial div_pos_pos_trivial\<close>)
  then show "((mp + 2) mod 12 + 1 - 3) div 12 = - ((mp + 2) div 12)"
    "((mp + 2) mod 12 + 1 - 3) mod 12 = mp" by simp_all
qed

text \<open>Printing the date of a day number and counting its days again is the identity.\<close>

lemma days_from_civil_from_days:
  assumes "civil_from_days n = (y, m, d)"
  shows "days_from_civil y m d = n"
proof -
  obtain y' doy where s: "march_split (n + 306) = (y', doy)" by fastforce
  from s obtain a b c e where dec: "y' = 400 * a + 100 * b + 4 * c + e"
    "n + 306 = 146097 * a + 36524 * b + 1461 * c + 365 * e + doy"
    "0 \<le> b" "b \<le> 3" "0 \<le> c" "c \<le> 24" "0 \<le> e" "e \<le> 3" "0 \<le> doy" "doy \<le> 365"
    by (rule march_split_bounds)
  define mp where "mp = (5 * doy + 2) div 153"
  have mp: "0 \<le> mp" "mp \<le> 11" using month_of_doy dec(9,10) by (simp_all add: mp_def)
  have ymd: "y = y' + (mp + 2) div 12" "m = (mp + 2) mod 12 + 1" "d = doy - month_start mp + 1"
    using assms s by (simp_all add: civil_from_days_def civil_of_march_def Let_def mp_def)
  have "(m - 3) div 12 = - ((mp + 2) div 12)" "(m - 3) mod 12 = mp"
    using month_shift [OF mp] unfolding ymd by simp_all
  then have "days_from_civil y m d = days_before_year y' + doy - 306"
    by (simp add: days_from_civil_def ymd)
  also have "days_before_year y' = 146097 * a + 36524 * b + 1461 * c + 365 * e"
    unfolding dec(1) using dec(3-8) by (rule days_before_year_cycle)
  finally show ?thesis using dec(2) by simp
qed

lemma civil_from_days_inject: "civil_from_days m = civil_from_days n \<longleftrightarrow> m = n"
  by (metis days_from_civil_from_days prod_cases3)

text \<open>Leap years in terms of the March-based cycle: year \<open>y + 1\<close> is leap when \<open>y\<close> is the
  last of its group of four, and not the last of a century unless of the cycle.\<close>

lemma is_leap_cycle:
  assumes "0 \<le> b" "b \<le> 3" "0 \<le> c" "c \<le> 24" "0 \<le> e" "e \<le> 3"
  shows "is_leap (400 * a + 100 * b + 4 * c + e + 1) \<longleftrightarrow> e = 3 \<and> (c = 24 \<longrightarrow> b = 3)"
proof -
  let ?y = "400 * a + 100 * b + 4 * c + e + 1"
  have "?y = (e + 1) + 4 * (100 * a + 25 * b + c)" by simp
  then have "?y mod 4 = (e + 1) mod 4" by (metis mod_mult_self2)
  moreover have "(e + 1) mod 4 = 0 \<longleftrightarrow> e = 3" using assms(5,6) by presburger
  ultimately have 4: "?y mod 4 = 0 \<longleftrightarrow> e = 3" by simp
  have 100: "?y mod 100 = (4 * c + e + 1) mod 100"
  proof -
    have "?y = (4 * c + e + 1) + 100 * (4 * a + b)" by simp
    then show ?thesis by (metis mod_mult_self2)
  qed
  have 400: "?y mod 400 = (100 * b + 4 * c + e + 1) mod 400"
  proof -
    have "?y = (100 * b + 4 * c + e + 1) + 400 * a" by simp
    then show ?thesis by (metis mod_mult_self2)
  qed
  have b: "b = 0 \<or> b = 1 \<or> b = 2 \<or> b = 3" using assms(1,2) by arith
  show ?thesis
    unfolding is_leap_def 4 100 400 using assms(3-6) b
    by (cases "e = 3"; cases "c = 24") (auto simp: mod_pos_pos_trivial)
qed

lemma month_start_values:
  "month_start 0 = 0" "month_start 1 = 31" "month_start 2 = 61" "month_start 3 = 92"
  "month_start 4 = 122" "month_start 5 = 153" "month_start 6 = 184" "month_start 7 = 214"
  "month_start 8 = 245" "month_start 9 = 275" "month_start 10 = 306" "month_start 11 = 337"
  "month_start 12 = 367"
  by (simp_all add: month_start_def)

lemma month_index_cases:
  assumes "0 \<le> (mp::int)" "mp \<le> 11"
  obtains "mp = 0" | "mp = 1" | "mp = 2" | "mp = 3" | "mp = 4" | "mp = 5" | "mp = 6" | "mp = 7"
    | "mp = 8" | "mp = 9" | "mp = 10" | "mp = 11"
proof -
  have "mp = 0 \<or> mp = 1 \<or> mp = 2 \<or> mp = 3 \<or> mp = 4 \<or> mp = 5 \<or> mp = 6 \<or> mp = 7
    \<or> mp = 8 \<or> mp = 9 \<or> mp = 10 \<or> mp = 11"
    using assms by arith
  then show thesis using that by blast
qed

lemma month_length:
  assumes "0 \<le> mp" "mp \<le> 10"
  shows "month_start (mp + 1) - month_start mp = days_in ((mp + 2) mod 12 + 1) y"
proof -
  have "mp \<le> 11" using assms by simp
  with assms(1) show ?thesis
    by (cases mp rule: month_index_cases)
      (use assms(2) in \<open>simp_all add: month_start_values days_in_def\<close>)
qed

lemma civil_from_days_valid:
  assumes "civil_from_days n = (y, m, d)"
  shows "valid_civil y m d"
proof -
  obtain y' doy where s: "march_split (n + 306) = (y', doy)" by fastforce
  from s obtain a b c e where dec: "y' = 400 * a + 100 * b + 4 * c + e"
    "0 \<le> b" "b \<le> 3" "0 \<le> c" "c \<le> 24" "0 \<le> e" "e \<le> 3" "0 \<le> doy" "doy \<le> 365"
    and last: "doy = 365 \<Longrightarrow> e = 3 \<and> (c = 24 \<longrightarrow> b = 3)"
    by (rule march_split_bounds) blast
  define mp where "mp = (5 * doy + 2) div 153"
  note mp = month_of_doy [OF dec(8,9), folded mp_def]
  have ymd: "y = y' + (mp + 2) div 12" "m = (mp + 2) mod 12 + 1" "d = doy - month_start mp + 1"
    using assms s by (simp_all add: civil_from_days_def civil_of_march_def Let_def mp_def)
  have "d \<le> days_in m y"
  proof (cases "mp = 11")
    case True
    then have m: "m = 2" "y = y' + 1" "month_start mp = 337"
      using ymd by (simp_all add: month_start_values)
    have "doy = 365 \<Longrightarrow> is_leap y"
      using last is_leap_cycle [OF dec(2-7), of a] by (simp add: m dec(1))
    then show ?thesis using m ymd(3) dec(9) by (cases "doy = 365") (auto simp: days_in_def)
  next
    case False
    then have "month_start (mp + 1) - month_start mp = days_in m y"
      using mp(1,2) month_length [of mp y] by (simp add: ymd(2))
    then show ?thesis using mp(4) ymd(3) by simp
  qed
  moreover have "1 \<le> m" "m \<le> 12" "1 \<le> d"
    using mp ymd by (simp_all add: pos_mod_bound [of 12, simplified] add.commute [of 1])
  ultimately show ?thesis by (simp add: valid_civil_def)
qed

lemma clipped_div_unique:
  assumes "0 \<le> r" "r \<le> (k::int)" "0 < k" "0 \<le> q" "q \<le> 3" "r = k \<Longrightarrow> q = 3"
  shows "min 3 ((k * q + r) div k) = q"
proof (cases "r = k")
  case True
  then have "q = 3" using assms(6) by simp
  then have "k * q + r = k * 4" using True by simp
  then have "(k * q + r) div k = 4" using assms(3) by simp
  then show ?thesis using \<open>q = 3\<close> by simp
next
  case False
  then show ?thesis using assms by (simp add: div_pos_pos_trivial)
qed

lemma march_split_unique:
  assumes "0 \<le> b" "b \<le> 3" "0 \<le> c" "c \<le> 24" "0 \<le> e" "e \<le> 3" "0 \<le> doy" "doy \<le> 365"
    and last: "doy = 365 \<Longrightarrow> e = 3 \<and> (c = 24 \<longrightarrow> b = 3)"
  shows "march_split (146097 * a + 36524 * b + 1461 * c + 365 * e + doy) =
    (400 * a + 100 * b + 4 * c + e, doy)"
proof -
  define d4 where "d4 = 365 * e + doy"
  define d100 where "d100 = 1461 * c + d4"
  define d400 where "d400 = 36524 * b + d100"
  have d4: "0 \<le> d4" "d4 \<le> 1460" "d4 = 1460 \<Longrightarrow> doy = 365"
    using assms by (auto simp: d4_def)
  have d100: "0 \<le> d100" "d100 \<le> 36524"
    using assms(3,4) d4(1,2) by (auto simp: d100_def)
  have top: "c = 24 \<and> d4 = 1460" if "d100 = 36524"
  proof
    show "d4 = 1460" using that assms(4) d4(2) unfolding d100_def by linarith
    then show "c = 24" using that unfolding d100_def by linarith
  qed
  have d400: "0 \<le> d400" "d400 < 146097"
    using assms d100 by (auto simp: d400_def)
  have z: "146097 * a + 36524 * b + 1461 * c + 365 * e + doy = 146097 * a + d400"
    by (simp add: d4_def d100_def d400_def)
  have "min 3 (d400 div 36524) = b"
    unfolding d400_def using assms(1,2) d100 top d4(3) last by (intro clipped_div_unique) auto
  moreover have "d100 div 1461 = c" "d100 mod 1461 = d4"
    unfolding d100_def using d4 by simp_all
  moreover have "min 3 (d4 div 365) = e"
    unfolding d4_def using assms(5-8) last by (intro clipped_div_unique) auto
  moreover have "(146097 * a + d400) div 146097 = a" "(146097 * a + d400) mod 146097 = d400"
    using d400 by simp_all
  ultimately have "march_split (146097 * a + d400) = (400 * a + 100 * b + 4 * c + e, d4 - 365 * e)"
    by (simp only: march_split_def Let_def d400_def add_diff_cancel_left')
  then show ?thesis by (simp only: z d4_def add_diff_cancel_left')
qed

text \<open>A valid date is the date of its day number.\<close>

lemma civil_from_days_from_civil:
  assumes "valid_civil y m d"
  shows "civil_from_days (days_from_civil y m d) = (y, m, d)"
proof -
  define y' mp where "y' = y + (m - 3) div 12" and "mp = (m - 3) mod 12"
  have v: "1 \<le> m" "m \<le> 12" "1 \<le> d" "d \<le> days_in m y" using assms by (auto simp: valid_civil_def)
  have mp: "0 \<le> mp" "mp \<le> 11" by (simp_all add: mp_def)
  have "m = 1 \<or> m = 2 \<or> 3 \<le> m" using v by arith
  then have my: "m = (mp + 2) mod 12 + 1" "y = y' + (mp + 2) div 12"
    using v(2) by (auto simp: mp_def y'_def mod_pos_pos_trivial div_pos_pos_trivial)
  define a b c e where "a = y' div 400" and "b = y' mod 400 div 100"
    and "c = y' mod 100 div 4" and "e = y' mod 4"
  have abce: "y' = 400 * a + 100 * b + 4 * c + e" "0 \<le> b" "b \<le> 3" "0 \<le> c" "c \<le> 24" "0 \<le> e" "e \<le> 3"
  proof -
    have "y' mod 400 mod 100 = y' mod 100" "y' mod 100 mod 4 = y' mod 4"
      by (simp_all add: mod_mod_cancel)
    then show "y' = 400 * a + 100 * b + 4 * c + e"
      using mult_div_mod_eq [of 400 y'] mult_div_mod_eq [of 100 "y' mod 400"]
        mult_div_mod_eq [of 4 "y' mod 100"]
      unfolding a_def b_def c_def e_def by linarith
    have "0 \<le> y' mod 400" "y' mod 400 < 400" "0 \<le> y' mod 100" "y' mod 100 < 100" by simp_all
    then show "0 \<le> b" "b \<le> 3" "0 \<le> c" "c \<le> 24" unfolding b_def c_def by linarith+
  qed (simp_all add: e_def)
  define doy where "doy = month_start mp + d - 1"
  have len: "doy < month_start (mp + 1) \<and> doy \<le> 365 \<and> (doy = 365 \<longrightarrow> mp = 11 \<and> is_leap (y' + 1))"
    using mp v(3,4) unfolding my doy_def
    by (cases mp rule: month_index_cases)
      (auto simp: month_start_values days_in_def split: if_splits)
  have doy0: "0 \<le> doy" "month_start mp \<le> doy" using v(3) mp by (simp_all add: doy_def month_start_def)
  have last: "e = 3 \<and> (c = 24 \<longrightarrow> b = 3)" if "doy = 365"
    using is_leap_cycle [OF abce(2-7), of a] len that abce(1) by simp
  have "days_from_civil y m d + 306 = days_before_year y' + doy"
    by (simp add: days_from_civil_def y'_def mp_def doy_def)
  also have "days_before_year y' = 146097 * a + 36524 * b + 1461 * c + 365 * e"
    unfolding abce(1) using abce(2-7) by (rule days_before_year_cycle)
  finally have "march_split (days_from_civil y m d + 306) = (y', doy)"
    using march_split_unique [OF abce(2-7) doy0(1), of a] len last abce(1) by simp
  moreover have "(5 * doy + 2) div 153 = mp"
  proof (rule int_div_pos_eq)
    show "5 * doy + 2 = 153 * mp + (5 * doy + 2 - 153 * mp)" by simp
    show "0 \<le> 5 * doy + 2 - 153 * mp" using doy0(2) unfolding month_start_def by linarith
    define X where "X = month_start (mp + 1)"
    have "5 * X \<le> 153 * (mp + 1) + 2" unfolding X_def month_start_def
      using mult_div_mod_eq [of 5 "153 * (mp + 1) + 2"] pos_mod_sign [of 5 "153 * (mp + 1) + 2"]
      by linarith
    moreover have "doy < X" using len by (simp add: X_def)
    ultimately show "5 * doy + 2 - 153 * mp < 153" by simp
  qed
  ultimately show ?thesis
    by (simp add: civil_from_days_def civil_of_march_def my(1) [symmetric] my(2) [symmetric] doy_def)
qed

section \<open>Locations and wall clocks\<close>

text \<open>A \<^verbatim>\<open>*time.Location\<close>: its name, the offset in force before the first
  transition, and the transitions as (start in seconds since year 1, offset in
  seconds), ascending. \<open>lookup_zone\<close> returns the offset in force at a second
  together with the interval it is valid in, as the package's own lookup does.\<close>

datatype location = Location (loc_name: string) (loc_base: int) (loc_trans: "(int \<times> int) list")

definition alpha :: int where
  "alpha = - (2 ^ 63)"

definition omega :: int where
  "omega = 2 ^ 63 - 1"

fun lookup_trans :: "int \<Rightarrow> int \<Rightarrow> (int \<times> int) list \<Rightarrow> int \<Rightarrow> int \<times> int \<times> int" where
  "lookup_trans off start [] u = (off, start, omega)"
| "lookup_trans off start ((t, off') # ts) u =
     (if u < t then (off, start, t) else lookup_trans off' t ts u)"

definition lookup_zone :: "location \<Rightarrow> int \<Rightarrow> int \<times> int \<times> int" where
  "lookup_zone l u = lookup_trans (loc_base l) alpha (loc_trans l) u"

definition zone_offset :: "location \<Rightarrow> int \<Rightarrow> int" where
  "zone_offset l u = fst (lookup_zone l u)"

definition utc :: location where
  "utc = Location ''UTC'' 0 []"

definition fixed_zone :: "string \<Rightarrow> int \<Rightarrow> location" where
  "fixed_zone n off = Location n off []"

text \<open>The correction \<^verbatim>\<open>time.Date\<close> applies to a wall-clock second count: look the zone up
  as if the count were UTC, and once more if the corrected second falls outside the
  interval that offset is valid in.\<close>

definition wall_to_utc :: "location \<Rightarrow> int \<Rightarrow> int" where
  "wall_to_utc l w =
     (case lookup_zone l w of (off, start, stop) \<Rightarrow>
        if off = 0 then w
        else if w - off < start \<or> stop \<le> w - off then w - zone_offset l (w - off)
        else w - off)"

definition go_date :: "int \<Rightarrow> int \<Rightarrow> int \<Rightarrow> int \<Rightarrow> int \<Rightarrow> int \<Rightarrow> int \<Rightarrow> location \<Rightarrow> instant" where
  "go_date y m d h mi s ns l =
     second * wall_to_utc l (86400 * days_from_civil y m d + 3600 * h + 60 * mi + s) + ns"

text \<open>The wall-clock seconds of an instant in a location, and its components.\<close>

definition wall_secs :: "instant \<Rightarrow> location \<Rightarrow> int" where
  "wall_secs t l = t div second + zone_offset l (t div second)"

definition date_in :: "instant \<Rightarrow> location \<Rightarrow> int \<times> int \<times> int" where
  "date_in t l = civil_from_days (wall_secs t l div 86400)"

definition clock_in :: "instant \<Rightarrow> location \<Rightarrow> int \<times> int \<times> int" where
  "clock_in t l =
     (let s = wall_secs t l mod 86400 in (s div 3600, s mod 3600 div 60, s mod 60))"

text \<open>\<^verbatim>\<open>Time.AddDate(0, 0, n)\<close>: the same wall clock, \<open>n\<close> calendar days later.\<close>

definition add_days :: "instant \<Rightarrow> int \<Rightarrow> location \<Rightarrow> instant" where
  "add_days t n l =
     (case date_in t l of (y, m, d) \<Rightarrow> case clock_in t l of (h, mi, s) \<Rightarrow>
        go_date y m (d + n) h mi s (t mod second) l)"

lemma zone_offset_fixed [simp]: "zone_offset (fixed_zone n off) u = off"
  by (simp add: zone_offset_def lookup_zone_def fixed_zone_def)

lemma zone_offset_utc [simp]: "zone_offset utc u = 0"
  by (simp add: zone_offset_def lookup_zone_def utc_def)

lemma wall_to_utc_utc [simp]: "wall_to_utc utc w = w"
  by (simp add: wall_to_utc_def lookup_zone_def utc_def)

lemma wall_to_utc_fixed [simp]: "wall_to_utc (fixed_zone n off) w = w - off"
  by (simp add: wall_to_utc_def lookup_zone_def fixed_zone_def zone_offset_def)

lemma second_pos [simp]: "0 < second" "second \<noteq> 0"
  by (simp_all add: second_def)

lemma go_date_div [simp]:
  "0 \<le> ns \<Longrightarrow> ns < second \<Longrightarrow> go_date y m d h mi s ns l div second =
     wall_to_utc l (86400 * days_from_civil y m d + 3600 * h + 60 * mi + s)"
  by (simp add: go_date_def)

lemma days_from_civil_add: "days_from_civil y m (d + n) = days_from_civil y m d + n"
  by (simp add: days_from_civil_def)

text \<open>A wall-clock count is well placed in a location when reading the instant
  \<^verbatim>\<open>time.Date\<close> gives for it back in that location shows the same wall clock. This
  fails exactly inside a spring-forward gap.\<close>

definition wall_exact :: "location \<Rightarrow> int \<Rightarrow> bool" where
  "wall_exact l w \<longleftrightarrow> wall_to_utc l w + zone_offset l (wall_to_utc l w) = w"

lemma wall_exact_utc [simp]: "wall_exact utc w"
  by (simp add: wall_exact_def)

lemma wall_exact_fixed [simp]: "wall_exact (fixed_zone n off) w"
  by (simp add: wall_exact_def)

lemma wall_secs_go_date:
  assumes "0 \<le> ns" "ns < second"
    and "wall_exact l (86400 * days_from_civil y m d + 3600 * h + 60 * mi + s)"
  shows "wall_secs (go_date y m d h mi s ns l) l = 86400 * days_from_civil y m d + 3600 * h + 60 * mi + s"
  using assms by (simp add: wall_secs_def wall_exact_def)

lemma date_in_midnight:
  assumes "wall_exact l (86400 * days_from_civil y m d)"
  shows "date_in (go_date y m d 0 0 0 0 l) l = civil_from_days (days_from_civil y m d)"
    and "clock_in (go_date y m d 0 0 0 0 l) l = (0, 0, 0)"
  using wall_secs_go_date [of 0 l y m d 0 0 0] assms
  by (simp_all add: date_in_def clock_in_def)

lemma go_date_mod_second [simp]: "go_date y m d h mi s 0 l mod second = 0"
  by (simp add: go_date_def)

text \<open>Calendar subtraction from a midnight lands on the midnight that many days away.\<close>

lemma add_days_midnight:
  assumes "wall_exact l (86400 * days_from_civil y m d)"
  shows "add_days (go_date y m d 0 0 0 0 l) n l = go_date y m (d + n) 0 0 0 0 l"
proof -
  obtain y' m' d' where c: "civil_from_days (days_from_civil y m d) = (y', m', d')"
    by (metis prod_cases3)
  then have "days_from_civil y' m' d' = days_from_civil y m d"
    by (rule days_from_civil_from_days)
  then show ?thesis
    using date_in_midnight [OF assms] c
    by (simp add: add_days_def go_date_def days_from_civil_add)
qed

end
