(* ===== verification/TimeFormat.thy ===== *)
theory TimeFormat
  imports GoTime
begin

text \<open>
  Printing and parsing of the layouts the program uses: \<^verbatim>\<open>RFC3339Nano\<close> in UTC (the
  form of every persisted timestamp and of the hash inputs), \<^verbatim>\<open>2006-01-02\<close>,
  \<^verbatim>\<open>15:04:05\<close> and \<^verbatim>\<open>15:04\<close>. The parsers follow \<^verbatim>\<open>time.Parse\<close>: a two-digit field is
  exactly two digits, the hour of a \<^verbatim>\<open>15\<close> layout is one or two, a fraction after the
  seconds is accepted although the layout has none, and trailing text is an error.
\<close>

section \<open>Printing\<close>

text \<open>\<^verbatim>\<open>appendInt\<close> of the time package: unlike \<^verbatim>\<open>%04d\<close>, the sign is outside the width.\<close>

definition append_int :: "nat \<Rightarrow> int \<Rightarrow> string" where
  "append_int w n = (if n < 0 then CHR ''-'' # zero_pad w (show_nat (nat (- n)))
                     else zero_pad w (show_nat (nat n)))"

definition strip_zeros :: "string \<Rightarrow> string" where
  "strip_zeros s = rev (dropWhile (\<lambda>c. c = CHR ''0'') (rev s))"

definition frac_text :: "int \<Rightarrow> string" where
  "frac_text ns = (let ds = strip_zeros (zero_pad 9 (show_nat (nat ns)))
                   in if ds = [] then [] else CHR ''.'' # ds)"

definition date_text :: "int \<times> int \<times> int \<Rightarrow> string" where
  "date_text = (\<lambda>(y, m, d). append_int 4 y @ ''-'' @ append_int 2 m @ ''-'' @ append_int 2 d)"

definition clock_text :: "int \<times> int \<times> int \<Rightarrow> string" where
  "clock_text = (\<lambda>(h, mi, s). append_int 2 h @ '':'' @ append_int 2 mi @ '':'' @ append_int 2 s)"

text \<open>\<^verbatim>\<open>t.UTC().Format(time.RFC3339Nano)\<close>\<close>

definition rfc3339nano :: "instant \<Rightarrow> string" where
  "rfc3339nano t =
     date_text (date_in t utc) @ ''T'' @ clock_text (clock_in t utc) @ frac_text (t mod second) @ ''Z''"

text \<open>\<^verbatim>\<open>t.UTC().Format("2006-01-02T15:04:05.000Z")\<close>: always three digits of milliseconds.\<close>

definition format_millis :: "instant \<Rightarrow> string" where
  "format_millis t = date_text (date_in t utc) @ ''T'' @ clock_text (clock_in t utc) @ ''.'' @
     append_int 3 (t mod second div millisecond) @ ''Z''"

section \<open>Parsing\<close>

fun get2 :: "string \<Rightarrow> (int \<times> string) option" where
  "get2 (a # b # r) =
     (if is_digit a \<and> is_digit b then Some (int (10 * digit_val a + digit_val b), r) else None)"
| "get2 _ = None"

fun get12 :: "string \<Rightarrow> (int \<times> string) option" where
  "get12 [] = None"
| "get12 [a] = (if is_digit a then Some (int (digit_val a), []) else None)"
| "get12 (a # b # r) =
     (if \<not> is_digit a then None
      else if is_digit b then Some (int (10 * digit_val a + digit_val b), r)
      else Some (int (digit_val a), b # r))"

fun get4 :: "string \<Rightarrow> (int \<times> string) option" where
  "get4 (a # b # c # d # r) =
     (if is_digit a \<and> is_digit b \<and> is_digit c \<and> is_digit d
      then Some (int (1000 * digit_val a + 100 * digit_val b + 10 * digit_val c + digit_val d), r)
      else None)"
| "get4 _ = None"

fun expect :: "char \<Rightarrow> string \<Rightarrow> string option" where
  "expect c [] = None"
| "expect c (x # xs) = (if x = c then Some xs else None)"

definition guard_some :: "bool \<Rightarrow> unit option" where
  "guard_some b = (if b then Some () else None)"

text \<open>Nanoseconds of a run of fraction digits; digits beyond the ninth are dropped.\<close>

definition frac_nanos :: "string \<Rightarrow> int" where
  "frac_nanos ds = (case read_digits 0 (take 9 ds) of None \<Rightarrow> 0
                    | Some n \<Rightarrow> int n * 10 ^ (9 - length (take 9 ds)))"

text \<open>The optional fraction after the seconds, with the separators \<open>seps\<close> that start one.\<close>

definition get_frac :: "string \<Rightarrow> string \<Rightarrow> int \<times> string" where
  "get_frac seps s =
     (case s of c # c' # r \<Rightarrow>
        if c \<in> set seps \<and> is_digit c'
        then (frac_nanos (takeWhile is_digit (c' # r)), dropWhile is_digit (c' # r))
        else (0, s)
      | _ \<Rightarrow> (0, s))"

definition parse_ymd :: "string \<Rightarrow> ((int \<times> int \<times> int) \<times> string) option" where
  "parse_ymd s = do {
     (y, s) \<leftarrow> get4 s; s \<leftarrow> expect CHR ''-'' s;
     (m, s) \<leftarrow> get2 s; guard_some (1 \<le> m \<and> m \<le> 12); s \<leftarrow> expect CHR ''-'' s;
     (d, s) \<leftarrow> get2 s; guard_some (valid_civil y m d);
     Some ((y, m, d), s) }"

definition parse_hms :: "(string \<Rightarrow> (int \<times> string) option) \<Rightarrow> string
    \<Rightarrow> ((int \<times> int \<times> int) \<times> string) option" where
  "parse_hms get_hour s = do {
     (h, s) \<leftarrow> get_hour s; guard_some (h < 24); s \<leftarrow> expect CHR '':'' s;
     (mi, s) \<leftarrow> get2 s; guard_some (mi < 60); s \<leftarrow> expect CHR '':'' s;
     (sec, s) \<leftarrow> get2 s; guard_some (sec < 60);
     Some ((h, mi, sec), s) }"

definition parse_hm :: "string \<Rightarrow> ((int \<times> int) \<times> string) option" where
  "parse_hm s = do {
     (h, s) \<leftarrow> get12 s; guard_some (h < 24); s \<leftarrow> expect CHR '':'' s;
     (mi, s) \<leftarrow> get2 s; guard_some (mi < 60);
     Some ((h, mi), s) }"

text \<open>\<^verbatim>\<open>time.Parse(time.RFC3339Nano, s)\<close> on the UTC form, the only one the program writes.\<close>

definition parse_rfc3339 :: "string \<Rightarrow> instant option" where
  "parse_rfc3339 s = do {
     ((y, m, d), s) \<leftarrow> parse_ymd s; s \<leftarrow> expect CHR ''T'' s;
     ((h, mi, sec), s) \<leftarrow> parse_hms get2 s;
     (let (ns, s) = get_frac ''.'' s in do {
        s \<leftarrow> expect CHR ''Z'' s; guard_some (s = []);
        Some (go_date y m d h mi sec ns utc) }) }"

text \<open>\<^verbatim>\<open>time.Parse(time.RFC3339Nano, s)\<close> on any text: the hour may be one digit, a comma may start
  the fraction, and the zone may be an offset.\<close>

definition get_zone :: "string \<Rightarrow> (int \<times> string) option" where
  "get_zone s = (case s of [] \<Rightarrow> None
     | c # r \<Rightarrow> if c = CHR ''Z'' then Some (0, r)
         else if c = CHR ''+'' \<or> c = CHR ''-'' then do {
           (h, r) \<leftarrow> get2 r; r \<leftarrow> expect CHR '':'' r; (mi, r) \<leftarrow> get2 r; guard_some (h \<le> 24 \<and> mi \<le> 60);
           Some ((if c = CHR ''-'' then - 1 else 1) * (3600 * h + 60 * mi), r) }
         else None)"

definition parse_rfc3339_any :: "string \<Rightarrow> instant option" where
  "parse_rfc3339_any s = do {
     ((y, m, d), s) \<leftarrow> parse_ymd s; s \<leftarrow> expect CHR ''T'' s;
     ((h, mi, sec), s) \<leftarrow> parse_hms get12 s;
     (let (ns, s) = get_frac ''.,'' s in do {
        (off, s) \<leftarrow> get_zone s; guard_some (s = []);
        Some (go_date y m d h mi sec ns utc - off * second) }) }"

section \<open>Round trips\<close>

lemma guard_some_simps [simp]:
  "b \<Longrightarrow> guard_some b = Some ()" "\<not> b \<Longrightarrow> guard_some b = None"
  by (simp_all add: guard_some_def)

lemma append_int_fmt [simp]: "0 \<le> n \<Longrightarrow> append_int w n = fmt_int w n"
  by (simp add: append_int_def fmt_int_def)

lemma nat_digits_2: "n < 100 \<Longrightarrow> 10 * (n div 10) + n mod 10 = (n::nat)" "n < 100 \<Longrightarrow> n div 10 < (10::nat)"
  by (simp_all add: div_less_iff_less_mult)

lemma get2_fmt [simp]: "0 \<le> n \<Longrightarrow> n < 100 \<Longrightarrow> get2 (fmt_int 2 n @ r) = Some (n, r)"
  by (simp add: fmt_2 div_less_iff_less_mult)

lemma get12_fmt [simp]: "0 \<le> n \<Longrightarrow> n < 100 \<Longrightarrow> get12 (fmt_int 2 n @ r) = Some (n, r)"
  by (simp add: fmt_2 div_less_iff_less_mult)

lemma get4_fmt [simp]:
  assumes "0 \<le> n" "n < 10000"
  shows "get4 (fmt_int 4 n @ r) = Some (n, r)"
proof -
  define k where "k = nat n"
  have k: "k < 10000" "n = int k" using assms by (simp_all add: k_def)
  have q: "k div 100 = k div 10 div 10" "k div 1000 = k div 10 div 10 div 10"
    by (simp_all add: div_mult2_eq [symmetric])
  have "1000 * (k div 1000) + 100 * (k div 100 mod 10) + 10 * (k div 10 mod 10) + k mod 10 = k"
    using mult_div_mod_eq [of 10 k] mult_div_mod_eq [of 10 "k div 10"]
      mult_div_mod_eq [of 10 "k div 10 div 10"] unfolding q by linarith
  then show ?thesis
    using assms k(1) by (simp add: fmt_4 k_def [symmetric] div_less_iff_less_mult k(2) del: of_nat_add of_nat_mult)
qed

lemma parse_ymd_text:
  assumes "valid_civil y m d" "0 \<le> y" "y < 10000"
  shows "parse_ymd (date_text (y, m, d) @ r) = Some ((y, m, d), r)"
proof -
  have "d \<le> 31" "1 \<le> d" "1 \<le> m" "m \<le> 12"
    using assms(1) by (auto simp: valid_civil_def days_in_def split: if_splits)
  then show ?thesis using assms by (simp add: parse_ymd_def date_text_def)
qed

lemma parse_hms_text:
  assumes "0 \<le> h" "h < 24" "0 \<le> mi" "mi < 60" "0 \<le> s" "s < 60"
    and "\<And>n r. 0 \<le> n \<Longrightarrow> n < 100 \<Longrightarrow> get_hour (fmt_int 2 n @ r) = Some (n, r)"
  shows "parse_hms get_hour (clock_text (h, mi, s) @ r) = Some ((h, mi, s), r)"
  using assms by (simp add: parse_hms_def clock_text_def)

lemma length_show_nat: "n < 10 ^ k \<Longrightarrow> 0 < k \<Longrightarrow> length (show_nat n) \<le> k"
proof (induction n arbitrary: k rule: show_nat.induct)
  case (1 n)
  show ?case
  proof (cases "n < 10")
    case True
    then show ?thesis using "1.prems" by (simp add: show_nat.simps)
  next
    case False
    then obtain j where k: "k = Suc j" "0 < j"
      using "1.prems" by (metis One_nat_def Suc_pred neq0_conv power_one_right)
    then have "n div 10 < 10 ^ j" using "1.prems" by (simp add: div_less_iff_less_mult mult.commute)
    then have "length (show_nat (n div 10)) \<le> j" using "1.IH" [OF False] k(2) by blast
    then show ?thesis using False k by (simp add: show_nat.simps [of n])
  qed
qed

lemma length_zero_pad: "n < 10 ^ w \<Longrightarrow> 0 < w \<Longrightarrow> length (zero_pad w (show_nat n)) = w"
  using length_show_nat [of n w] by (simp add: zero_pad_def)

lemma read_digits_replicate:
  "read_digits a (replicate k CHR ''0'') = Some (a * 10 ^ k)"
proof (induction k arbitrary: a)
  case (Suc k)
  have "is_digit CHR ''0''" "digit_val CHR ''0'' = 0"
    by (simp_all add: is_digit_def digit_val_def digits_def)
  with Suc show ?case by simp
qed simp

lemma strip_zeros_split: "\<exists>k. s = strip_zeros s @ replicate k CHR ''0''"
proof -
  let ?z = "takeWhile (\<lambda>c. c = CHR ''0'') (rev s)"
  have "s = rev (?z @ dropWhile (\<lambda>c. c = CHR ''0'') (rev s))" by simp
  moreover have "rev ?z = replicate (length ?z) CHR ''0''"
  proof -
    have "\<forall>c \<in> set (rev ?z). c = CHR ''0''" by (auto dest: set_takeWhileD)
    then show ?thesis by (metis length_rev replicate_length_same)
  qed
  ultimately show ?thesis unfolding strip_zeros_def by (metis rev_append)
qed

lemma frac_nanos_strip:
  assumes "n < 10 ^ 9"
  shows "frac_nanos (strip_zeros (zero_pad 9 (show_nat n))) = int n"
    and "\<forall>c \<in> set (strip_zeros (zero_pad 9 (show_nat n))). is_digit c"
proof -
  let ?s = "zero_pad 9 (show_nat n)"
  obtain k where k: "?s = strip_zeros ?s @ replicate k CHR ''0''" using strip_zeros_split by blast
  have len: "length ?s = 9" using assms by (simp add: length_zero_pad)
  then have l: "length (strip_zeros ?s) = 9 - k" "k \<le> 9"
    using k by (metis add_diff_cancel_right' length_append length_replicate, metis le_add2 length_append length_replicate)
  have "read_digits 0 ?s = Some n" by simp
  then obtain v where v: "read_digits 0 (strip_zeros ?s) = Some v" "v * 10 ^ k = n"
    by (subst (asm) k) (auto simp: read_digits_append read_digits_replicate split: option.splits)
  have "frac_nanos (strip_zeros ?s) = int v * 10 ^ k"
    using v(1) l by (simp add: frac_nanos_def)
  also have "\<dots> = int n" using v(2) by (metis of_nat_mult of_nat_numeral of_nat_power)
  finally show "frac_nanos (strip_zeros ?s) = int n" .
  show "\<forall>c \<in> set (strip_zeros ?s). is_digit c"
    by (metis k Un_iff set_append zero_pad_digits)
qed

lemma get_frac_text:
  assumes "0 \<le> ns" "ns < second"
  shows "get_frac ''.'' (frac_text ns @ ''Z'') = (ns, ''Z'')"
proof -
  have n: "nat ns < 10 ^ 9" using assms by (simp add: second_def)
  note f = frac_nanos_strip [OF n]
  define ds where "ds = strip_zeros (zero_pad 9 (show_nat (nat ns)))"
  have ft: "frac_text ns = (if ds = [] then [] else CHR ''.'' # ds)"
    by (simp add: frac_text_def Let_def ds_def)
  have Z: "\<not> is_digit CHR ''Z''" by (simp add: is_digit_def digits_def)
  show ?thesis
  proof (cases ds)
    case Nil
    then have "ns = 0" using f(1) assms by (simp add: ds_def frac_nanos_def)
    moreover have "frac_text ns = []" using Nil by (simp add: ft)
    ultimately show ?thesis by (simp add: get_frac_def)
  next
    case (Cons c r)
    then have "is_digit c" "\<forall>x \<in> set r. is_digit x" using f(2) by (auto simp: ds_def)
    then have "takeWhile is_digit (ds @ ''Z'') = ds" "dropWhile is_digit (ds @ ''Z'') = ''Z''"
      using Z by (simp_all add: Cons takeWhile_append dropWhile_append)
    then show ?thesis
      using f(1) assms Cons \<open>is_digit c\<close> ds_def
      by (simp add: ft get_frac_def)
  qed
qed

definition year_of :: "instant \<Rightarrow> int" where
  "year_of t = fst (date_in t utc)"

text \<open>Instants whose UTC year has at most four digits, the range RFC 3339 covers.\<close>

definition rfc_range :: "instant \<Rightarrow> bool" where
  "rfc_range t \<longleftrightarrow> 0 \<le> year_of t \<and> year_of t < 10000"

lemma clock_in_bounds:
  assumes "clock_in t l = (h, mi, s)"
  shows "0 \<le> h" "h < 24" "0 \<le> mi" "mi < 60" "0 \<le> s" "s < 60"
    "3600 * h + 60 * mi + s = wall_secs t l mod 86400"
proof -
  define x where "x = wall_secs t l mod 86400"
  have x: "0 \<le> x" "x < 86400" by (simp_all add: x_def)
  have e: "h = x div 3600" "mi = x mod 3600 div 60" "s = x mod 60"
    using assms by (simp_all add: clock_in_def Let_def x_def)
  have m: "x mod 3600 mod 60 = x mod 60" by (simp add: mod_mod_cancel)
  show "0 \<le> h" "h < 24" "0 \<le> mi" "mi < 60" "0 \<le> s" "s < 60"
    using x unfolding e by (simp_all add: div_less_iff_less_mult pos_imp_zdiv_nonneg_iff)
  show "3600 * h + 60 * mi + s = wall_secs t l mod 86400"
    using mult_div_mod_eq [of 3600 x] mult_div_mod_eq [of 60 "x mod 3600"] m
    unfolding e x_def [symmetric] by linarith
qed

lemma go_date_of_parts:
  assumes "date_in t utc = (y, m, d)" "clock_in t utc = (h, mi, s)"
  shows "go_date y m d h mi s ns utc = t - t mod second + ns"
proof -
  have days: "days_from_civil y m d = wall_secs t utc div 86400"
    using assms(1) days_from_civil_from_days by (auto simp: date_in_def)
  show ?thesis
    using clock_in_bounds(7) [OF assms(2)] days mult_div_mod_eq [of 86400 "wall_secs t utc"]
    by (simp add: go_date_def add.assoc wall_secs_def minus_mod_eq_mult_div)
qed

text \<open>A printed text is read back, whatever fraction was printed.\<close>

lemma parse_printed:
  assumes "rfc_range t" "get_frac ''.'' (f @ ''Z'') = (ns, ''Z'')"
  shows "parse_rfc3339 (date_text (date_in t utc) @ ''T'' @ clock_text (clock_in t utc) @ f @ ''Z'') = Some (t - t mod second + ns)"
proof -
  obtain y m d where c: "date_in t utc = (y, m, d)" by (metis prod_cases3)
  obtain h mi s where k: "clock_in t utc = (h, mi, s)" by (metis prod_cases3)
  note kb = clock_in_bounds [OF k]
  have v: "valid_civil y m d" using c civil_from_days_valid by (auto simp: date_in_def)
  have y: "0 \<le> y" "y < 10000" using assms c by (simp_all add: rfc_range_def year_of_def)
  show ?thesis
    using parse_ymd_text [OF v y] parse_hms_text [OF kb(1-6), of get2] go_date_of_parts [OF c k] assms(2)
    by (simp add: parse_rfc3339_def c k)
qed

lemma parse_rfc3339_text:
  assumes "rfc_range t"
  shows "parse_rfc3339 (rfc3339nano t) = Some t"
  using parse_printed [OF assms get_frac_text [of "t mod second"]] by (simp add: rfc3339nano_def)

lemma get_frac_millis:
  assumes "0 \<le> n" "n < 1000"
  shows "get_frac ''.'' ((''.'' @ append_int 3 n) @ ''Z'') = (n * millisecond, ''Z'')"
proof -
  define ds where "ds = zero_pad 3 (show_nat (nat n))"
  have l: "length ds = 3" using length_zero_pad [of "nat n" 3] assms by (simp add: ds_def)
  have "is_digit CHR ''0''" by (simp add: is_digit_def digits_def)
  then have dig: "\<forall>c \<in> set ds. is_digit c"
    using show_nat_digits by (auto simp: ds_def zero_pad_def)
  have Z: "\<not> is_digit CHR ''Z''" by (simp add: is_digit_def digits_def)
  obtain c r where cr: "ds = c # r" using l by (cases ds) auto
  have "takeWhile is_digit (ds @ ''Z'') = ds" "dropWhile is_digit (ds @ ''Z'') = ''Z''"
    using Z dig by (simp_all add: takeWhile_append dropWhile_append)
  moreover have "frac_nanos ds = n * millisecond"
    using assms l by (simp add: frac_nanos_def) (simp add: ds_def millisecond_def)
  ultimately show ?thesis
    using assms dig by (simp add: append_int_def ds_def [symmetric] get_frac_def cr)
qed

lemma parse_format_millis:
  assumes "rfc_range t"
  shows "parse_rfc3339 (format_millis t) = Some (t - t mod millisecond)"
proof -
  have s: "second = millisecond * 1000" by (simp add: second_def millisecond_def)
  have "t mod second div millisecond * millisecond = t mod second - t mod millisecond"
    unfolding s by (simp add: minus_mod_eq_div_mult [symmetric] mod_mod_cancel)
  moreover have "0 \<le> t mod second div millisecond" "t mod second div millisecond < 1000"
    by (simp_all add: pos_imp_zdiv_nonneg_iff div_less_iff_less_mult second_def millisecond_def)
  ultimately show ?thesis
    using parse_printed [OF assms get_frac_millis [of "t mod second div millisecond"]] by (simp add: format_millis_def)
qed

text \<open>What the UTC reader accepts the general reader accepts, as the same instant.\<close>

lemma get12_of_get2: "get2 s = Some r \<Longrightarrow> get12 s = Some r"
  by (cases s rule: get2.cases) (auto split: if_splits)

lemma parse_hms_any: "parse_hms get2 s = Some r \<Longrightarrow> parse_hms get12 s = Some r"
  by (auto simp: parse_hms_def bind_eq_Some_conv dest: get12_of_get2)

lemma get_frac_any: "get_frac ''.'' s = (ns, r) \<Longrightarrow> expect CHR ''Z'' r = Some x \<Longrightarrow> get_frac ''.,'' s = (ns, r)"
  by (auto simp: get_frac_def split: list.splits if_splits)

lemma parse_rfc3339_any: "parse_rfc3339 s = Some t \<Longrightarrow> parse_rfc3339_any s = Some t"
proof -
  assume t: "parse_rfc3339 s = Some t"
  then obtain y m d s1 s2 h mi sec s3 where
    p: "parse_ymd s = Some ((y, m, d), s1)" "expect CHR ''T'' s1 = Some s2" "parse_hms get2 s2 = Some ((h, mi, sec), s3)"
    unfolding parse_rfc3339_def by (auto simp: bind_eq_Some_conv)
  obtain ns s4 where f: "get_frac ''.'' s3 = (ns, s4)" by fastforce
  then have e: "expect CHR ''Z'' s4 = Some []" and g: "t = go_date y m d h mi sec ns utc"
    using t p by (auto simp: parse_rfc3339_def bind_eq_Some_conv guard_some_def split: if_splits)
  have "s4 = ''Z''" using e by (cases s4) (auto split: if_splits)
  then show ?thesis
    using p g parse_hms_any [OF p(3)] get_frac_any [OF f e]
    by (simp add: parse_rfc3339_any_def get_zone_def guard_some_def)
qed

lemma rfc3339nano_inject: "rfc_range t \<Longrightarrow> rfc_range u \<Longrightarrow> rfc3339nano t = rfc3339nano u \<longleftrightarrow> t = u"
  by (metis option.inject parse_rfc3339_text)

section \<open>Years grow with time\<close>

lemma div_pred:
  assumes "0 < (k::int)"
  shows "(y - 1) div k = y div k - (if k dvd y then 1 else 0)"
proof (cases "k dvd y")
  case True
  then obtain q where "y = k * q" by blast
  moreover have "(k * q - 1) div k = q - 1"
    using assms by (intro int_div_pos_eq [where r = "k - 1"]) (simp_all add: algebra_simps)
  ultimately show ?thesis using assms by simp
next
  case False
  then have "y mod k \<noteq> 0" by (simp add: dvd_eq_mod_eq_0)
  moreover have "0 \<le> y mod k" "y mod k < k" using assms by simp_all
  moreover have "y - 1 = k * (y div k) + (y mod k - 1)" by (simp add: algebra_simps)
  ultimately have "(y - 1) div k = y div k"
    by (intro int_div_pos_eq [where r = "y mod k - 1"]) linarith+
  then show ?thesis using False by simp
qed

lemma days_before_year_step: "days_before_year (y - 1) + 365 \<le> days_before_year y"
proof -
  have "100 dvd y \<Longrightarrow> 4 dvd y" by (rule dvd_trans [of 4 100]) simp
  then show ?thesis by (simp add: days_before_year_def div_pred)
qed

lemma days_before_year_mono: "x \<le> y \<Longrightarrow> days_before_year x \<le> days_before_year y"
proof (induction y rule: int_ge_induct)
  case (step i)
  then show ?case using days_before_year_step [of "i + 1"] by simp
qed simp

lemma month_offset_bounds:
  assumes "valid_civil y m d"
  shows "days_before_year (y - 1) \<le> days_from_civil y m d" "days_from_civil y m d < days_before_year y"
proof -
  have m: "1 \<le> m" "m \<le> 12" and d: "1 \<le> d" "d \<le> 31"
    using assms by (auto simp: valid_civil_def days_in_def split: if_splits)
  have d2: "m = 2 \<Longrightarrow> d \<le> 29" using assms by (auto simp: valid_civil_def days_in_def split: if_splits)
  have "m = 1 \<or> m = 2 \<or> m = 3 \<or> m = 4 \<or> m = 5 \<or> m = 6 \<or> m = 7 \<or> m = 8 \<or> m = 9 \<or> m = 10 \<or> m = 11 \<or> m = 12"
    using m by arith
  then have "days_before_year (y - 1) \<le> days_from_civil y m d \<and> days_from_civil y m d < days_before_year y"
    using d d2 days_before_year_step [of y]
    by (elim disjE) (simp_all add: days_from_civil_def month_start_values)
  then show "days_before_year (y - 1) \<le> days_from_civil y m d" "days_from_civil y m d < days_before_year y"
    by auto
qed

lemma civil_year_mono: "m \<le> n \<Longrightarrow> fst (civil_from_days m) \<le> fst (civil_from_days n)"
proof (rule ccontr)
  assume mn: "m \<le> n" "\<not> fst (civil_from_days m) \<le> fst (civil_from_days n)"
  obtain y a d where m: "civil_from_days m = (y, a, d)" by (metis prod_cases3)
  obtain z b e where n: "civil_from_days n = (z, b, e)" by (metis prod_cases3)
  have "m = days_from_civil y a d" "n = days_from_civil z b e"
    using m n days_from_civil_from_days by (metis (mono_tags, lifting) old.prod.case)+
  moreover have "days_before_year z \<le> days_before_year (y - 1)"
    using mn m n by (intro days_before_year_mono) simp
  ultimately show False
    using mn(1) month_offset_bounds(1) [OF civil_from_days_valid [OF m]]
      month_offset_bounds(2) [OF civil_from_days_valid [OF n]] by linarith
qed

lemma year_of_mono: "t \<le> u \<Longrightarrow> year_of t \<le> year_of u"
  by (simp add: year_of_def date_in_def wall_secs_def civil_year_mono zdiv_mono1)

lemma rfc_range_between: "rfc_range t \<Longrightarrow> rfc_range u \<Longrightarrow> t \<le> v \<Longrightarrow> v \<le> u \<Longrightarrow> rfc_range v"
  using year_of_mono [of t v] year_of_mono [of v u] by (simp add: rfc_range_def)

end
