(* ===== verification/Domain.thy ===== *)
theory Domain
  imports TimeFormat
begin

text \<open>
  The values of \<^verbatim>\<open>internal/domain\<close>: identifiers, calendar dates and wall-clock times
  with their text forms, venues, release strategies, slot preferences and
  intents, the canonical texts behind \<^verbatim>\<open>Intent.Hash\<close> and \<^verbatim>\<open>IdempotencyKey\<close>. SHA-256 is
  the parameter \<open>sha\<close> of the two digests (the lower-case hex of the sum); what is
  proved of the digests is proved of the texts that are hashed.
\<close>

type_synonym user_id = string
type_synonym provider_id = string
type_synonym snipe_id = string
type_synonym intent_hash = string
type_synonym account_id = string
type_synonym quest_id = string

section \<open>Dates and wall-clock times\<close>

datatype date = Date (d_year: int) (d_month: int) (d_day: int)

definition date_string :: "date \<Rightarrow> string" where
  "date_string d = fmt_int 4 (d_year d) @ ''-'' @ fmt_int 2 (d_month d) @ ''-'' @ fmt_int 2 (d_day d)"

definition ParseDate :: "string \<Rightarrow> string + date" where
  "ParseDate s = (case parse_ymd s of
       Some ((y, m, d), []) \<Rightarrow> Inr (Date y m d)
     | _ \<Rightarrow> Inl (''date '' @ s))"

definition zero_date :: date where
  "zero_date = Date 0 0 0"

definition date_is_zero :: "date \<Rightarrow> bool" where
  "date_is_zero d \<longleftrightarrow> d = zero_date"

definition date_at :: "date \<Rightarrow> location \<Rightarrow> instant" where
  "date_at d l = go_date (d_year d) (d_month d) (d_day d) 0 0 0 0 l"

datatype walltime = WallTime (wt_hour: int) (wt_minute: int) (wt_second: int)

definition walltime_string :: "walltime \<Rightarrow> string" where
  "walltime_string w = fmt_int 2 (wt_hour w) @ '':'' @ fmt_int 2 (wt_minute w) @ '':'' @ fmt_int 2 (wt_second w)"

definition ParseWallTime :: "string \<Rightarrow> string + walltime" where
  "ParseWallTime s =
     (let fallback = (case parse_hm s of
            Some ((h, mi), []) \<Rightarrow> Inr (WallTime h mi 0)
          | _ \<Rightarrow> Inl (''walltime '' @ s))
      in case parse_hms get12 s of
           Some ((h, mi, sec), r) \<Rightarrow>
             if snd (get_frac ''.,'' r) = [] then Inr (WallTime h mi sec) else fallback
         | None \<Rightarrow> fallback)"

text \<open>\<^verbatim>\<open>wallTimeAfter\<close> (and its copy \<^verbatim>\<open>wallTimeAfterPub\<close> in the planner).\<close>

definition wallTimeAfter :: "walltime \<Rightarrow> walltime \<Rightarrow> bool" where
  "wallTimeAfter a b =
     (if wt_hour a \<noteq> wt_hour b then wt_hour b < wt_hour a
      else if wt_minute a \<noteq> wt_minute b then wt_minute b < wt_minute a
      else wt_second b < wt_second a)"

text \<open>The order of wall-clock times, as a linear order of the type.\<close>

instantiation walltime :: linorder
begin

definition less_eq_walltime :: "walltime \<Rightarrow> walltime \<Rightarrow> bool" where
  "less_eq_walltime a b \<longleftrightarrow> \<not> wallTimeAfter a b"

definition less_walltime :: "walltime \<Rightarrow> walltime \<Rightarrow> bool" where
  "less_walltime a b \<longleftrightarrow> wallTimeAfter b a"

instance
proof
  fix x y z :: walltime
  show "(x < y) = (x \<le> y \<and> \<not> y \<le> x)" "x \<le> x"
    by (auto simp: less_walltime_def less_eq_walltime_def wallTimeAfter_def)
  show "x \<le> y \<Longrightarrow> y \<le> z \<Longrightarrow> x \<le> z"
    by (auto simp: less_eq_walltime_def wallTimeAfter_def split: if_splits)
  show "x \<le> y \<Longrightarrow> y \<le> x \<Longrightarrow> x = y"
    by (auto simp: less_eq_walltime_def wallTimeAfter_def walltime.expand split: if_splits)
  show "x \<le> y \<or> y \<le> x"
    by (auto simp: less_eq_walltime_def wallTimeAfter_def)
qed

end

definition valid_date :: "date \<Rightarrow> bool" where
  "valid_date d \<longleftrightarrow> valid_civil (d_year d) (d_month d) (d_day d) \<and> 0 \<le> d_year d \<and> d_year d < 10000"

definition valid_walltime :: "walltime \<Rightarrow> bool" where
  "valid_walltime w \<longleftrightarrow> 0 \<le> wt_hour w \<and> wt_hour w < 24 \<and> 0 \<le> wt_minute w \<and> wt_minute w < 60
     \<and> 0 \<le> wt_second w \<and> wt_second w < 60"

lemma date_string_text:
  "0 \<le> d_year d \<Longrightarrow> 0 \<le> d_month d \<Longrightarrow> 0 \<le> d_day d \<Longrightarrow>
   date_string d = date_text (d_year d, d_month d, d_day d)"
  by (simp add: date_string_def date_text_def)

lemma walltime_string_text:
  "valid_walltime w \<Longrightarrow> walltime_string w = clock_text (wt_hour w, wt_minute w, wt_second w)"
  by (simp add: walltime_string_def clock_text_def valid_walltime_def)

lemma ParseDate_string: "valid_date d \<Longrightarrow> ParseDate (date_string d) = Inr d"
  using parse_ymd_text [of "d_year d" "d_month d" "d_day d" "[]"]
  by (auto simp: ParseDate_def valid_date_def date_string_text valid_civil_def)

lemma ParseWallTime_string: "valid_walltime w \<Longrightarrow> ParseWallTime (walltime_string w) = Inr w"
  using parse_hms_text [of "wt_hour w" "wt_minute w" "wt_second w" get12 "[]"]
  by (simp add: ParseWallTime_def walltime_string_text valid_walltime_def get_frac_def)

interpretation date_codec: codec date_string ParseDate valid_date
  by unfold_locales (rule ParseDate_string)

interpretation walltime_codec: codec walltime_string ParseWallTime valid_walltime
  by unfold_locales (rule ParseWallTime_string)

text \<open>What \<open>ParseDate\<close> accepts is a date of the calendar.\<close>

lemma get4_bounds: "get4 s = Some (y, r) \<Longrightarrow> 0 \<le> y \<and> y < 10000"
proof (induction s rule: get4.induct)
  case (1 a b c d r')
  have v: "int (digit_val x) \<le> 9" if "is_digit x" for x
    using that by (auto simp: is_digit_def digits_def digit_val_def)
  from 1 have "is_digit a" "is_digit b" "is_digit c" "is_digit d"
    and y: "y = int (1000 * digit_val a + 100 * digit_val b + 10 * digit_val c + digit_val d)"
    by (auto split: if_splits)
  then show ?case using v [of a] v [of b] v [of c] v [of d] by simp
qed auto

lemma ParseDate_valid: "ParseDate s = Inr d \<Longrightarrow> valid_date d"
  by (auto simp: ParseDate_def parse_ymd_def valid_date_def guard_some_def bind_eq_Some_conv
      dest!: get4_bounds split: option.splits list.splits if_splits)

section \<open>Venues, release strategies, intents\<close>

record venue_ref =
  vr_provider :: provider_id
  vr_ref :: string

definition venue_ref_string :: "venue_ref \<Rightarrow> string" where
  "venue_ref_string v = vr_provider v @ '':'' @ vr_ref v"

record venue =
  v_provider :: provider_id
  v_ref :: string
  v_name :: string
  v_tz :: "location option"

definition AsRef :: "venue \<Rightarrow> venue_ref" where
  "AsRef v = \<lparr>vr_provider = v_provider v, vr_ref = v_ref v\<rparr>"

datatype venue_error = VenueProviderRequired | VenueRefRequired | ErrVenueMissingTZ

definition venue_validate :: "venue \<Rightarrow> venue_error option" where
  "venue_validate v =
     (if v_provider v = [] then Some VenueProviderRequired
      else if v_ref v = [] then Some VenueRefRequired
      else if v_tz v = None then Some ErrVenueMissingTZ
      else None)"

record booking_policy =
  bp_max_concurrent :: int
  bp_poll_floor :: duration
  bp_details_serial :: bool

datatype release_strategy =
    ExplicitRelease (rel_at: instant)
  | DiscoveredRelease (rel_probe_from: instant) (rel_probe_until: instant)
  | ContinuousRelease (rel_until: instant)

record slot_preference =
  sp_time :: walltime
  sp_table_type :: string

record intent =
  i_user :: user_id
  i_venue :: venue_ref
  i_date :: date
  i_party_size :: int
  i_slot_prefs :: "slot_preference list"
  i_release :: "release_strategy option"

abbreviation newline :: string where
  "newline \<equiv> [CHR 0x0A]"

abbreviation utcNanos :: "instant \<Rightarrow> string" where
  "utcNanos \<equiv> rfc3339nano"

fun writeReleaseHash :: "release_strategy option \<Rightarrow> string" where
  "writeReleaseHash None = ''release=<nil>'' @ newline"
| "writeReleaseHash (Some (ExplicitRelease at)) = ''release=explicit at='' @ utcNanos at @ newline"
| "writeReleaseHash (Some (DiscoveredRelease from til)) =
     ''release=discovered from='' @ utcNanos from @ '' until='' @ utcNanos til @ newline"
| "writeReleaseHash (Some (ContinuousRelease til)) = ''release=continuous until='' @ utcNanos til @ newline"

definition slot_line :: "slot_preference \<Rightarrow> string" where
  "slot_line p = ''slot='' @ walltime_string (sp_time p) @ ''/'' @ sp_table_type p @ newline"

definition intent_canonical :: "intent \<Rightarrow> string" where
  "intent_canonical i =
     ''user='' @ i_user i @ newline @
     ''venue='' @ venue_ref_string (i_venue i) @ newline @
     ''date='' @ date_string (i_date i) @ newline @
     ''party='' @ show_int (i_party_size i) @ newline @
     concat (map slot_line (i_slot_prefs i)) @
     writeReleaseHash (i_release i)"

definition Hash :: "(string \<Rightarrow> string) \<Rightarrow> intent \<Rightarrow> intent_hash" where
  "Hash sha i = sha (intent_canonical i)"

section \<open>Slot payloads and idempotency keys\<close>

record resy_slot_payload =
  sl_config_id :: string
  sl_template_id :: string
  sl_seating_type :: string
  sl_book_token :: string
  sl_payment_method_id :: int

fun writeSlotPayloadCanonical :: "resy_slot_payload option \<Rightarrow> string" where
  "writeSlotPayloadCanonical None = ''slot=<nil>'' @ newline"
| "writeSlotPayloadCanonical (Some v) =
     ''slot=resy config='' @ sl_config_id v @ '' template='' @ sl_template_id v @
     '' seating='' @ sl_seating_type v @ newline"

definition idempotency_canonical :: "intent_hash \<Rightarrow> resy_slot_payload option \<Rightarrow> int \<Rightarrow> string" where
  "idempotency_canonical h p attempt =
     ''intent='' @ h @ newline @ writeSlotPayloadCanonical p @ ''attempt='' @ show_int attempt @ newline"

definition IdempotencyKey :: "(string \<Rightarrow> string) \<Rightarrow> intent_hash \<Rightarrow> resy_slot_payload option \<Rightarrow> int \<Rightarrow> string" where
  "IdempotencyKey sha h p attempt = sha (idempotency_canonical h p attempt)"

section \<open>The hashed texts determine what they describe\<close>

text \<open>Two texts that agree up to the first separator, when neither prefix contains it.\<close>

lemma sep_cancel:
  assumes "x \<notin> set us" "x \<notin> set vs" "us @ x # r = vs @ x # s"
  shows "us = vs \<and> r = s"
  using assms
proof (induction us arbitrary: vs)
  case Nil
  then show ?case by (cases vs) auto
next
  case (Cons u us)
  then show ?case by (cases vs) auto
qed

abbreviation one_line :: "string \<Rightarrow> bool" where
  "one_line s \<equiv> CHR 0x0A \<notin> set s"

lemma one_line_digits: "(\<And>c. c \<in> set s \<Longrightarrow> is_digit c \<or> c \<in> set t) \<Longrightarrow> one_line t \<Longrightarrow> one_line s"
proof -
  assume a: "\<And>c. c \<in> set s \<Longrightarrow> is_digit c \<or> c \<in> set t" "one_line t"
  have "\<not> is_digit CHR 0x0A" by (simp add: is_digit_def digits_def)
  with a show ?thesis by blast
qed

lemma set_fmt_int: "c \<in> set (fmt_int w n) \<Longrightarrow> is_digit c \<or> c = CHR ''-''"
  by (auto simp: fmt_int_def split: if_splits dest: zero_pad_digits)

lemma set_append_int: "c \<in> set (append_int w n) \<Longrightarrow> is_digit c \<or> c = CHR ''-''"
  by (auto simp: append_int_def split: if_splits dest: zero_pad_digits)

lemma set_frac_text: "c \<in> set (frac_text ns) \<Longrightarrow> is_digit c \<or> c = CHR ''.''"
proof -
  obtain k where k: "zero_pad 9 (show_nat (nat ns)) =
      strip_zeros (zero_pad 9 (show_nat (nat ns))) @ replicate k CHR ''0''"
    using strip_zeros_split by blast
  assume "c \<in> set (frac_text ns)"
  then have "c = CHR ''.'' \<or> c \<in> set (strip_zeros (zero_pad 9 (show_nat (nat ns))))"
    by (auto simp: frac_text_def Let_def split: if_splits)
  moreover have "set (strip_zeros (zero_pad 9 (show_nat (nat ns)))) \<subseteq> set (zero_pad 9 (show_nat (nat ns)))"
    by (subst (2) k) simp
  ultimately show ?thesis using zero_pad_digits by blast
qed

lemma set_rfc3339nano: "c \<in> set (rfc3339nano t) \<Longrightarrow> is_digit c \<or> c \<in> set ''-T:.Z''"
  by (auto simp: rfc3339nano_def date_text_def clock_text_def split: prod.splits
      dest!: set_append_int set_frac_text)

lemma one_line_simps [simp]:
  "one_line (fmt_int w n)" "one_line (date_string d)" "one_line (walltime_string wt)"
  "one_line (rfc3339nano t)"
proof -
  show f: "one_line (fmt_int w n)" for w n
    using one_line_digits [of "fmt_int w n" "''-''"] set_fmt_int by auto
  show "one_line (date_string d)" "one_line (walltime_string wt)"
    by (simp_all add: date_string_def walltime_string_def f)
  show "one_line (rfc3339nano t)"
    using one_line_digits [of "rfc3339nano t" "''-T:.Z''"] set_rfc3339nano by auto
qed

lemma no_sep_in_times [simp]:
  "CHR '' '' \<notin> set (rfc3339nano t)" "CHR ''/'' \<notin> set (walltime_string w)"
proof -
  have nd: "\<not> is_digit CHR '' ''" "\<not> is_digit CHR ''/''" by (simp_all add: is_digit_def digits_def)
  show "CHR '' '' \<notin> set (rfc3339nano t)" using set_rfc3339nano [of "CHR '' ''" t] nd by auto
  have "CHR ''/'' \<notin> set (fmt_int k n)" for k n using set_fmt_int [of "CHR ''/''" k n] nd by auto
  then show "CHR ''/'' \<notin> set (walltime_string w)" by (simp add: walltime_string_def)
qed

definition release_ok :: "release_strategy option \<Rightarrow> bool" where
  "release_ok r = (case r of None \<Rightarrow> True
     | Some (ExplicitRelease at) \<Rightarrow> rfc_range at
     | Some (DiscoveredRelease from til) \<Rightarrow> rfc_range from \<and> rfc_range til
     | Some (ContinuousRelease til) \<Rightarrow> rfc_range til)"

text \<open>The intents the program builds: fields of one line each, a provider without
  a colon, a date of the calendar, wall-clock times, four-digit years.\<close>

definition intent_ok :: "intent \<Rightarrow> bool" where
  "intent_ok i \<longleftrightarrow> one_line (i_user i) \<and> one_line (vr_provider (i_venue i)) \<and>
     CHR '':'' \<notin> set (vr_provider (i_venue i)) \<and> one_line (vr_ref (i_venue i)) \<and> valid_date (i_date i) \<and>
     (\<forall>p \<in> set (i_slot_prefs i). valid_walltime (sp_time p) \<and> one_line (sp_table_type p)) \<and>
     release_ok (i_release i)"

lemma writeReleaseHash_inject:
  assumes "release_ok r" "release_ok r'" "writeReleaseHash r = writeReleaseHash r'"
  shows "r = r'"
  using assms
  by (cases r rule: writeReleaseHash.cases; cases r' rule: writeReleaseHash.cases)
    (auto simp: release_ok_def rfc3339nano_inject dest!: sep_cancel [rotated 2])

lemma slot_line_inject:
  assumes "valid_walltime (sp_time p)" "valid_walltime (sp_time q)"
    "one_line (sp_table_type p)" "one_line (sp_table_type q)"
    "slot_line p @ r = slot_line q @ s"
  shows "p = q \<and> r = s"
proof -
  have "walltime_string (sp_time p) @ CHR ''/'' # sp_table_type p @ CHR 0x0A # r =
      walltime_string (sp_time q) @ CHR ''/'' # sp_table_type q @ CHR 0x0A # s"
    using assms(5) by (simp add: slot_line_def)
  then have "walltime_string (sp_time p) = walltime_string (sp_time q)"
    and "sp_table_type p @ CHR 0x0A # r = sp_table_type q @ CHR 0x0A # s"
    by (auto dest!: sep_cancel [rotated 2])
  then show ?thesis
    using assms(1-4) walltime_codec.enc_inject by (auto dest!: sep_cancel [rotated 2])
qed

lemma slot_lines_inject:
  assumes "\<forall>p \<in> set ps. valid_walltime (sp_time p) \<and> one_line (sp_table_type p)"
    "\<forall>p \<in> set qs. valid_walltime (sp_time p) \<and> one_line (sp_table_type p)"
    "concat (map slot_line ps) @ writeReleaseHash r = concat (map slot_line qs) @ writeReleaseHash r'"
  shows "ps = qs \<and> writeReleaseHash r = writeReleaseHash r'"
  using assms
proof (induction ps arbitrary: qs)
  case Nil
  have rel: "\<exists>xs. writeReleaseHash x = CHR ''r'' # xs" for x
    by (cases x rule: writeReleaseHash.cases) auto
  have "slot_line q @ ys \<noteq> writeReleaseHash x" for q ys x
    using rel [of x] by (auto simp: slot_line_def)
  then show ?case using Nil by (cases qs) (auto dest: sym)
next
  case (Cons p ps)
  have rel: "\<exists>xs. writeReleaseHash x = CHR ''r'' # xs" for x
    by (cases x rule: writeReleaseHash.cases) auto
  show ?case
  proof (cases qs)
    case Nil
    then show ?thesis using Cons.prems rel [of r'] by (auto simp: slot_line_def)
  next
    case (Cons q qs')
    have "p = q \<and> concat (map slot_line ps) @ writeReleaseHash r =
        concat (map slot_line qs') @ writeReleaseHash r'"
      using Cons.prems Cons by (intro slot_line_inject) auto
    then show ?thesis using Cons.IH [of qs'] Cons.prems Cons by auto
  qed
qed

lemma venue_ref_string_inject:
  assumes "CHR '':'' \<notin> set (vr_provider v)" "CHR '':'' \<notin> set (vr_provider w)"
    "venue_ref_string v = venue_ref_string w"
  shows "v = w"
  using assms by (auto simp: venue_ref_string_def dest!: sep_cancel [rotated 2])

lemma intent_canonical_inject:
  assumes "intent_ok i" "intent_ok j" "intent_canonical i = intent_canonical j"
  shows "i = j"
proof -
  have ol: "one_line (venue_ref_string (i_venue i))" "one_line (venue_ref_string (i_venue j))"
    using assms by (auto simp: intent_ok_def venue_ref_string_def)
  from assms(3) have u: "i_user i = i_user j"
    and v: "venue_ref_string (i_venue i) = venue_ref_string (i_venue j)"
    and d: "date_string (i_date i) = date_string (i_date j)"
    and p: "show_int (i_party_size i) = show_int (i_party_size j)"
    and r: "concat (map slot_line (i_slot_prefs i)) @ writeReleaseHash (i_release i) =
      concat (map slot_line (i_slot_prefs j)) @ writeReleaseHash (i_release j)"
    using assms(1,2) ol by (auto simp: intent_canonical_def intent_ok_def dest!: sep_cancel [rotated 2])
  have "i_slot_prefs i = i_slot_prefs j \<and>
      writeReleaseHash (i_release i) = writeReleaseHash (i_release j)"
    using assms(1,2) r by (intro slot_lines_inject) (auto simp: intent_ok_def)
  moreover have "i_venue i = i_venue j"
    using assms(1,2) v by (intro venue_ref_string_inject) (auto simp: intent_ok_def)
  moreover have "i_date i = i_date j"
    using assms(1,2) d date_codec.enc_inject by (auto simp: intent_ok_def)
  moreover have "i_release i = i_release j"
    using assms(1,2) calculation(1) by (intro writeReleaseHash_inject) (auto simp: intent_ok_def)
  ultimately show ?thesis using u p by (simp add: fmt_int_inject)
qed

text \<open>The attempt and the slot line of an idempotency key.\<close>

definition payload_ok :: "resy_slot_payload option \<Rightarrow> bool" where
  "payload_ok p = (case p of None \<Rightarrow> True
     | Some v \<Rightarrow> one_line (sl_config_id v) \<and> one_line (sl_template_id v) \<and> one_line (sl_seating_type v))"

lemma idempotency_canonical_inject:
  assumes "one_line h" "one_line h'" "payload_ok p" "payload_ok p'"
    "idempotency_canonical h p a = idempotency_canonical h' p' a'"
  shows "h = h' \<and> writeSlotPayloadCanonical p = writeSlotPayloadCanonical p' \<and> a = a'"
proof -
  have line: "\<exists>l. one_line l \<and> writeSlotPayloadCanonical q = l @ newline" if "payload_ok q" for q
    using that by (cases q) (auto simp: payload_ok_def)
  obtain l where l: "one_line l" "writeSlotPayloadCanonical p = l @ newline" using line assms(3) by blast
  obtain l' where l': "one_line l'" "writeSlotPayloadCanonical p' = l' @ newline" using line assms(4) by blast
  from assms(5) have "h = h' \<and> l = l' \<and> show_int a = show_int a'"
    using assms(1,2) l(1) l'(1)
    by (auto simp: idempotency_canonical_def l(2) l'(2) dest!: sep_cancel [rotated 2])
  then show ?thesis using l(2) l'(2) by (simp add: fmt_int_inject)
qed

end
