(* ===== verification/GoText.thy ===== *)
theory GoText
  imports Prelude "HOL-Library.Sublist"
begin

text \<open>
  What the program uses of Go's \<^verbatim>\<open>strings\<close>, \<^verbatim>\<open>strconv\<close> and \<^verbatim>\<open>net/url\<close>. Strings are lists of
  bytes. \<^verbatim>\<open>TrimSpace\<close> removes the UTF-8 forms of all white space; \<^verbatim>\<open>ToLower\<close> has an ASCII path
  and a path through the Unicode tables, which are the parameter \<open>uni\<close>. \<^verbatim>\<open>url.Parse\<close> is the one
  of Go 1.25.0.
\<close>

section \<open>Strings\<close>

definition byte :: "char \<Rightarrow> nat" where
  "byte c = of_char c"

definition ascii :: "string \<Rightarrow> bool" where
  "ascii s \<longleftrightarrow> list_all (\<lambda>c. byte c < 128) s"

definition lower_char :: "char \<Rightarrow> char" where
  "lower_char c = (if 65 \<le> byte c \<and> byte c \<le> 90 then char_of (byte c + 32) else c)"

definition ToLower :: "(string \<Rightarrow> string) \<Rightarrow> string \<Rightarrow> string" where
  "ToLower uni s = (if ascii s then map lower_char s else uni s)"

definition space_seqs :: "string list" where
  "space_seqs = [[CHR 0x09], [CHR 0x0A], [CHR 0x0B], [CHR 0x0C], [CHR 0x0D], [CHR 0x20], [CHR 0xC2, CHR 0x85],
     [CHR 0xC2, CHR 0xA0], [CHR 0xE1, CHR 0x9A, CHR 0x80]] @
     map (\<lambda>n. [CHR 0xE2, CHR 0x80, char_of n]) ([128..<139] @ [168, 169, 175 :: nat]) @
     [[CHR 0xE2, CHR 0x81, CHR 0x9F], [CHR 0xE3, CHR 0x80, CHR 0x80]]"

definition lead_space :: "string list \<Rightarrow> string \<Rightarrow> nat" where
  "lead_space seqs s = (case find (\<lambda>p. prefix p s) seqs of None \<Rightarrow> 0 | Some p \<Rightarrow> length p)"

function trim_left :: "string list \<Rightarrow> string \<Rightarrow> string" where
  "trim_left seqs s = (if lead_space seqs s = 0 then s else trim_left seqs (drop (lead_space seqs s) s))"
  by auto
termination
proof (relation "measure (length \<circ> snd)")
  fix seqs :: "string list" and s
  assume "lead_space seqs s \<noteq> 0"
  moreover have "lead_space seqs [] = 0"
    by (auto simp: lead_space_def find_Some_iff split: option.splits)
  ultimately show "((seqs, drop (lead_space seqs s) s), (seqs, s)) \<in> measure (length \<circ> snd)"
    by (cases s) auto
qed simp

declare trim_left.simps [simp del]

definition TrimSpace :: "string \<Rightarrow> string" where
  "TrimSpace s = rev (trim_left (map rev space_seqs) (rev (trim_left space_seqs s)))"

text \<open>\<^verbatim>\<open>strings.Cut\<close> at a byte.\<close>

definition cut :: "char \<Rightarrow> string \<Rightarrow> string \<times> string option" where
  "cut c s = (case dropWhile (\<lambda>x. x \<noteq> c) s of [] \<Rightarrow> (s, None) | _ # r \<Rightarrow> (takeWhile (\<lambda>x. x \<noteq> c) s, Some r))"

fun splitOn :: "char \<Rightarrow> string \<Rightarrow> string list" where
  "splitOn c [] = [[]]"
| "splitOn c (x # xs) = (case splitOn c xs of [] \<Rightarrow> [[x]]
     | y # ys \<Rightarrow> if x = c then [] # y # ys else (x # y) # ys)"

text \<open>\<^verbatim>\<open>strconv.Atoi\<close>.\<close>

definition parse_uint :: "string \<Rightarrow> nat option" where
  "parse_uint s = (if s = [] then None else read_digits 0 s)"

definition Atoi :: "string \<Rightarrow> int option" where
  "Atoi s = (let (neg, t) = (case s of [] \<Rightarrow> (False, [])
        | c # r \<Rightarrow> if c = CHR ''-'' then (True, r) else if c = CHR ''+'' then (False, r) else (False, s)) in
     case parse_uint t of None \<Rightarrow> None
     | Some n \<Rightarrow> let v = (if neg then - int n else int n) in
         if - (2 ^ 63) \<le> v \<and> v < 2 ^ 63 then Some v else None)"

section \<open>URLs\<close>

record url =
  u_scheme :: string
  u_opaque :: string
  u_host :: string
  u_path :: string
  u_raw_query :: string

datatype encoding = EncPath | EncHost | EncZone | EncUser | EncQuery | EncFragment

definition is_letter :: "char \<Rightarrow> bool" where
  "is_letter c \<longleftrightarrow> 97 \<le> byte c \<and> byte c \<le> 122 \<or> 65 \<le> byte c \<and> byte c \<le> 90"

definition unhex :: "char \<Rightarrow> nat option" where
  "unhex c = (if is_digit c then Some (digit_val c)
     else if 97 \<le> byte c \<and> byte c \<le> 102 then Some (byte c - 87)
     else if 65 \<le> byte c \<and> byte c \<le> 70 then Some (byte c - 55) else None)"

text \<open>\<^verbatim>\<open>shouldEscape\<close> in the two host modes.\<close>

definition host_byte_bad :: "char \<Rightarrow> bool" where
  "host_byte_bad c = (\<not> (is_letter c \<or> is_digit c \<or> c \<in> set (''!$&()*+,;=:[]<>-_.~'' @ [CHR 0x27, CHR 0x22])))"

fun unescape :: "encoding \<Rightarrow> string \<Rightarrow> string option" where
  "unescape m [] = Some []"
| "unescape m (c # r) =
     (if c = CHR ''%'' then
        (case r of a # b # r' \<Rightarrow> (case (unhex a, unhex b) of
             (Some x, Some y) \<Rightarrow>
               if m = EncHost \<and> x < 8 \<and> \<not> (a = CHR ''2'' \<and> b = CHR ''5'') then None
               else if m = EncZone \<and> \<not> (a = CHR ''2'' \<and> b = CHR ''5'') \<and> 16 * x + y \<noteq> 32 \<and> host_byte_bad (char_of (16 * x + y)) then None
               else map_option (\<lambda>t. char_of (16 * x + y) # t) (unescape m r')
           | _ \<Rightarrow> None)
         | _ \<Rightarrow> None)
      else if c = CHR ''+'' \<and> m = EncQuery then map_option (\<lambda>t. CHR '' '' # t) (unescape m r)
      else if (m = EncHost \<or> m = EncZone) \<and> byte c < 128 \<and> host_byte_bad c then None
      else map_option (\<lambda>t. c # t) (unescape m r))"

text \<open>The scheme and the rest; \<open>None\<close> for a missing scheme before a colon.\<close>

definition getScheme :: "string \<Rightarrow> (string \<times> string) option" where
  "getScheme s =
     (let p = takeWhile (\<lambda>c. is_letter c \<or> is_digit c \<or> c \<in> set ''+-.'') s; r = drop (length p) s in
      case r of
        c # r' \<Rightarrow> if c = CHR '':'' then
            (if p = [] then None else if is_letter (hd p) then Some (p, r') else Some ([], s))
          else Some ([], s)
      | [] \<Rightarrow> Some ([], s))"

definition validOptionalPort :: "string \<Rightarrow> bool" where
  "validOptionalPort s = (case s of [] \<Rightarrow> True | c # r \<Rightarrow> c = CHR '':'' \<and> list_all is_digit r)"

text \<open>The text up to and from the last occurrence of a byte.\<close>

definition last_cut :: "char \<Rightarrow> string \<Rightarrow> (string \<times> string) option" where
  "last_cut c s = (if c \<in> set s then
     Some (rev (tl (dropWhile (\<lambda>x. x \<noteq> c) (rev s))), c # rev (takeWhile (\<lambda>x. x \<noteq> c) (rev s))) else None)"

fun find_sub :: "string \<Rightarrow> string \<Rightarrow> nat option" where
  "find_sub p [] = (if p = [] then Some 0 else None)"
| "find_sub p (c # r) = (if prefix p (c # r) then Some 0 else map_option Suc (find_sub p r))"

definition parseHost :: "string \<Rightarrow> string option" where
  "parseHost h =
     (if prefix ''['' h then
        (case last_cut CHR '']'' h of None \<Rightarrow> None
         | Some (inner, rest) \<Rightarrow>
             if \<not> validOptionalPort (tl rest) then None
             else case find_sub ''%25'' inner of
                 Some z \<Rightarrow> (case (unescape EncHost (take z h), unescape EncZone (drop z inner), unescape EncHost rest) of
                     (Some a, Some b, Some c) \<Rightarrow> Some (a @ b @ c) | _ \<Rightarrow> None)
               | None \<Rightarrow> unescape EncHost h)
      else case last_cut CHR '':'' h of
          Some (_, port) \<Rightarrow> if validOptionalPort port then unescape EncHost h else None
        | None \<Rightarrow> unescape EncHost h)"

definition valid_userinfo :: "string \<Rightarrow> bool" where
  "valid_userinfo s = list_all (\<lambda>c. is_letter c \<or> is_digit c \<or> c \<in> set (''-._:~!$&()*+,;=%@'' @ [CHR 0x27])) s"

text \<open>The host of an authority, with the user part checked.\<close>

definition parseAuthority :: "string \<Rightarrow> string option" where
  "parseAuthority a =
     (case last_cut CHR ''@'' a of
        None \<Rightarrow> parseHost a
      | Some (user, at) \<Rightarrow> (case parseHost (tl at) of None \<Rightarrow> None
          | Some h \<Rightarrow> if \<not> valid_userinfo user then None
              else case cut CHR '':'' user of (name, pw) \<Rightarrow>
                if unescape EncUser name = None \<or> (case pw of None \<Rightarrow> False | Some p \<Rightarrow> unescape EncUser p = None) then None
                else Some h))"

definition url_parse_main :: "string \<Rightarrow> url option" where
  "url_parse_main raw =
     (let blank = \<lparr>u_scheme = [], u_opaque = [], u_host = [], u_path = [], u_raw_query = []\<rparr> in
      if list_ex (\<lambda>c. byte c < 32 \<or> byte c = 127) raw then None
      else if raw = ''*'' then Some (blank\<lparr>u_path := ''*''\<rparr>)
      else case getScheme raw of None \<Rightarrow> None
      | Some (sch, rest0) \<Rightarrow>
        let scheme = map lower_char sch;
            (rest, query) = (case cut CHR ''?'' rest0 of (a, None) \<Rightarrow> (a, []) | (a, Some q) \<Rightarrow> (a, q));
            u = blank\<lparr>u_scheme := scheme, u_raw_query := query\<rparr>
        in if \<not> prefix ''/'' rest \<and> scheme \<noteq> [] then Some (u\<lparr>u_opaque := rest\<rparr>)
           else if \<not> prefix ''/'' rest \<and> CHR '':'' \<in> set (fst (cut CHR ''/'' rest)) then None
           else if (scheme \<noteq> [] \<or> \<not> prefix ''///'' rest) \<and> prefix ''//'' rest then
             (let a = drop 2 rest; auth = takeWhile (\<lambda>c. c \<noteq> CHR ''/'') a; p = drop (length auth) a in
              case (parseAuthority auth, unescape EncPath p) of
                (Some h, Some q) \<Rightarrow> Some (u\<lparr>u_host := h, u_path := q\<rparr>) | _ \<Rightarrow> None)
           else map_option (\<lambda>q. u\<lparr>u_path := q\<rparr>) (unescape EncPath rest))"

definition url_Parse :: "string \<Rightarrow> url option" where
  "url_Parse raw = (case cut CHR ''#'' raw of
       (u, None) \<Rightarrow> url_parse_main u
     | (u, Some frag) \<Rightarrow> (case url_parse_main u of None \<Rightarrow> None
         | Some x \<Rightarrow> if unescape EncFragment frag = None then None else Some x))"

definition Hostname :: "url \<Rightarrow> string" where
  "Hostname u =
     (let h = (case last_cut CHR '':'' (u_host u) of None \<Rightarrow> u_host u
         | Some (a, port) \<Rightarrow> if validOptionalPort port then a else u_host u) in
      if prefix ''['' h \<and> suffix '']'' h then butlast (tl h) else h)"

text \<open>\<^verbatim>\<open>Values.Get\<close> of the parsed query: malformed pairs are skipped, the first value counts.\<close>

fun query_lookup :: "string list \<Rightarrow> string \<Rightarrow> string" where
  "query_lookup [] k = []"
| "query_lookup (p # ps) k =
     (if CHR '';'' \<in> set p \<or> p = [] then query_lookup ps k
      else case cut CHR ''='' p of (a, v) \<Rightarrow>
        (case (unescape EncQuery a, unescape EncQuery (case v of None \<Rightarrow> [] | Some x \<Rightarrow> x)) of
           (Some a', Some v') \<Rightarrow> if a' = k then v' else query_lookup ps k
         | _ \<Rightarrow> query_lookup ps k))"

definition query_get :: "url \<Rightarrow> string \<Rightarrow> string" where
  "query_get u k = query_lookup (splitOn CHR ''&'' (u_raw_query u)) k"

end
