(* ===== verification/Utf8.thy ===== *)
theory Utf8
  imports Domain GoText
begin

text \<open>
  UTF-8, as far as \<^verbatim>\<open>encoding/json\<close> looks at it: a string is a list of bytes, and a byte that starts no
  well-formed sequence is written as the replacement character. What is well-formed is written as it is.
\<close>

section \<open>Sequences\<close>

text \<open>The length of the UTF-8 sequence at the head of a text, \<open>None\<close> if it is malformed.\<close>

definition utf8_len :: "string \<Rightarrow> nat option" where
  "utf8_len s =
     (let b = (\<lambda>i. if i < length s then byte (s ! i) else 0);
          cont = (\<lambda>i. 128 \<le> b i \<and> b i < 192) in
      if 194 \<le> b 0 \<and> b 0 < 224 \<and> cont 1 then Some 2
      else if 224 \<le> b 0 \<and> b 0 < 240 \<and> cont 1 \<and> (b 0 = 224 \<longrightarrow> 160 \<le> b 1) \<and> (b 0 = 237 \<longrightarrow> b 1 < 160) \<and> cont 2 then Some 3
      else if 240 \<le> b 0 \<and> b 0 < 245 \<and> cont 1 \<and> (b 0 = 240 \<longrightarrow> 144 \<le> b 1) \<and> (b 0 = 244 \<longrightarrow> b 1 < 144) \<and> cont 2 \<and> cont 3 then Some 4
      else None)"

definition replacement :: string where
  "replacement = [CHR 0xEF, CHR 0xBF, CHR 0xBD]"

text \<open>What a reader finds in the text the encoder wrote for a string.\<close>

function coerce_utf8 :: "string \<Rightarrow> string" where
  "coerce_utf8 [] = []"
| "coerce_utf8 (c # r) =
     (if byte c < 128 then c # coerce_utf8 r
      else case utf8_len (c # r) of
        None \<Rightarrow> replacement @ coerce_utf8 r
      | Some n \<Rightarrow> take n (c # r) @ coerce_utf8 (drop (n - 1) r))"
  by pat_completeness auto
termination by (relation "measure length") auto

function valid_utf8 :: "string \<Rightarrow> bool" where
  "valid_utf8 [] = True"
| "valid_utf8 (c # r) =
     (if byte c < 128 then valid_utf8 r
      else case utf8_len (c # r) of None \<Rightarrow> False | Some n \<Rightarrow> valid_utf8 (drop (n - 1) r))"
  by pat_completeness auto
termination by (relation "measure length") auto

declare coerce_utf8.simps(2) [simp del] valid_utf8.simps(2) [simp del]

lemma byte_ascii_char [simp]: "byte (Char b0 b1 b2 b3 b4 b5 b6 False) < 128"
  by (cases b0; cases b1; cases b2; cases b3; cases b4; cases b5; cases b6) (simp_all add: byte_def)

lemma valid_utf8_ascii_Cons [simp]: "byte c < 128 \<Longrightarrow> valid_utf8 (c # r) = valid_utf8 r"
  by (simp add: valid_utf8.simps(2))

lemma coerce_utf8_ascii_Cons: "byte c < 128 \<Longrightarrow> coerce_utf8 (c # r) = c # coerce_utf8 r"
  by (simp add: coerce_utf8.simps(2))

lemma utf8_len_bounds: "utf8_len s = Some n \<Longrightarrow> 2 \<le> n \<and> n \<le> length s"
  by (auto simp: utf8_len_def Let_def split: if_splits)

lemma utf8_len_short: "utf8_len [c] = None" "utf8_len [c, d] = (if 194 \<le> byte c \<and> byte c < 224 \<and> 128 \<le> byte d \<and> byte d < 192 then Some 2 else None)"
  by (simp_all add: utf8_len_def)

lemma utf8_len_prefix:
  assumes "take 4 s = take 4 t"
  shows "utf8_len s = utf8_len t"
proof -
  have "(if i < length s then byte (s ! i) else 0) = (if i < length t then byte (t ! i) else 0)" if "i < 4" for i
  proof -
    have "(i < length s \<longleftrightarrow> i < length t)" using arg_cong [OF assms, of length] that by (auto simp: min_def split: if_splits)
    then show ?thesis using that by (metis assms nth_take)
  qed
  from this [of 0] this [of 1] this [of 2] this [of 3] show ?thesis unfolding utf8_len_def Let_def by (simp only: zero_less_numeral one_less_numeral_iff semiring_norm numeral_less_iff simp_thms)
qed

lemma utf8_len_append: "utf8_len s = Some n \<Longrightarrow> utf8_len (s @ t) = Some n"
proof (cases s)
  case (Cons c r)
  assume n: "utf8_len s = Some n"
  show ?thesis
  proof (cases r)
    case (Cons d q)
    show ?thesis
    proof (cases q)
      case Nil
      then show ?thesis using n \<open>s = c # r\<close> Cons by (simp add: utf8_len_def Let_def split: if_splits)
    next
      case (Cons e p)
      show ?thesis
      proof (cases p)
        case Nil
        then show ?thesis using n \<open>s = c # r\<close> \<open>r = d # q\<close> Cons by (simp add: utf8_len_def Let_def split: if_splits)
      next
        case (Cons f z)
        then show ?thesis using n \<open>s = c # r\<close> \<open>r = d # q\<close> \<open>q = e # p\<close> utf8_len_prefix [of "s @ t" s] by simp
      qed
    qed
  qed (use n Cons in \<open>simp add: utf8_len_short\<close>)
qed (simp add: utf8_len_def)

text \<open>Well-formed texts survive, and stay so under concatenation.\<close>

lemma coerce_valid [simp]: "valid_utf8 s \<Longrightarrow> coerce_utf8 s = s"
proof (induction s rule: valid_utf8.induct)
  case (2 c r)
  show ?case
  proof (cases "byte c < 128")
    case True
    then show ?thesis using 2 by (simp add: coerce_utf8_ascii_Cons)
  next
    case False
    then obtain n where n: "utf8_len (c # r) = Some n" "valid_utf8 (drop (n - 1) r)"
      using "2.prems" by (auto simp: valid_utf8.simps(2) split: option.splits)
    have "take n (c # r) @ drop (n - 1) r = c # r"
      using utf8_len_bounds [OF n(1)] by (cases n) auto
    then show ?thesis using "2.IH"(2) [OF False n] False n by (simp add: coerce_utf8.simps(2))
  qed
qed simp

lemma valid_utf8_append [simp]: "valid_utf8 s \<Longrightarrow> valid_utf8 (s @ t) = valid_utf8 t"
proof (induction s rule: valid_utf8.induct)
  case (2 c r)
  show ?case
  proof (cases "byte c < 128")
    case True
    then show ?thesis using 2 by simp
  next
    case False
    then obtain n where n: "utf8_len (c # r) = Some n" "valid_utf8 (drop (n - 1) r)"
      using "2.prems" by (auto simp: valid_utf8.simps(2) split: option.splits)
    have "utf8_len (c # r @ t) = Some n" "n - 1 \<le> length r"
      using utf8_len_append [OF n(1), of t] utf8_len_bounds [OF n(1)] by auto
    then show ?thesis using "2.IH"(2) [OF False n] False by (simp add: valid_utf8.simps(2))
  qed
qed simp

text \<open>A coerced text is well-formed.\<close>

lemma utf8_len_take: "utf8_len s = Some n \<Longrightarrow> utf8_len (take n s) = Some n"
proof -
  assume n: "utf8_len s = Some n"
  then have "n = 2 \<or> n = 3 \<or> n = 4" "n \<le> length s"
    using utf8_len_bounds [OF n] by (auto simp: utf8_len_def Let_def split: if_splits)
  then show ?thesis using n by (elim disjE; simp add: utf8_len_def Let_def split: if_splits)
qed

lemma valid_coerce [simp]: "valid_utf8 (coerce_utf8 s)"
proof (induction s rule: coerce_utf8.induct)
  case (2 c r)
  show ?case
  proof (cases "byte c < 128")
    case True
    then show ?thesis using 2 by (simp add: coerce_utf8_ascii_Cons)
  next
    case False
    show ?thesis
    proof (cases "utf8_len (c # r)")
      case None
      have "valid_utf8 replacement" by code_simp
      then show ?thesis using 2 None False by (simp add: coerce_utf8.simps(2))
    next
      case (Some n)
      then have "utf8_len (c # take (n - 1) r) = Some n" "take n (c # r) = c # take (n - 1) r"
        using utf8_len_take [OF Some] utf8_len_bounds [OF Some] by (cases n; simp)+
      moreover have "drop (n - 1) (take (n - 1) r) = []" by simp
      ultimately have "valid_utf8 (take n (c # r))" using False by (simp add: valid_utf8.simps(2))
      then show ?thesis using 2 Some False by (simp add: coerce_utf8.simps(2))
    qed
  qed
qed simp

section \<open>ASCII texts\<close>

lemma ascii_literals [simp]:
  "ascii []" "ascii (c # s) \<longleftrightarrow> byte c < 128 \<and> ascii s" "ascii (s @ t) \<longleftrightarrow> ascii s \<and> ascii t"
  by (simp_all add: ascii_def)

lemma byte_literal: "byte (CHR ''-'') < 128" "byte (CHR ''T'') < 128" "byte (CHR '':'') < 128" "byte (CHR ''.'') < 128" "byte (CHR ''Z'') < 128"
  by (simp_all add: byte_def)

lemma byte_digit: "is_digit c \<Longrightarrow> byte c < 128"
  by (auto simp: is_digit_def digits_def byte_def)

lemma ascii_times [simp]: "ascii (rfc3339nano t)" "ascii (fmt_int w n)" "ascii (date_string d)" "ascii (walltime_string wt)"
proof -
  show "ascii (rfc3339nano t)"
    unfolding ascii_def list_all_iff using set_rfc3339nano byte_digit byte_literal by fastforce
  show f: "ascii (fmt_int w n)" for w n
    unfolding ascii_def list_all_iff using set_fmt_int byte_digit byte_literal by fastforce
  show "ascii (date_string d)" "ascii (walltime_string wt)"
    by (simp_all add: date_string_def walltime_string_def f byte_def)
qed

lemma valid_ascii: "ascii s \<Longrightarrow> valid_utf8 s"
  by (induction s) simp_all

lemma valid_times [simp]: "valid_utf8 (rfc3339nano t)" "valid_utf8 (fmt_int w n)" "valid_utf8 (date_string d)" "valid_utf8 (walltime_string wt)"
  by (simp_all add: valid_ascii)

end
