(* ===== verification/Json.thy ===== *)
theory Json
  imports Utf8
begin

text \<open>
  JSON documents as trees, with the struct encoding rules of \<^verbatim>\<open>encoding/json\<close> the program
  uses: fields in declaration order, \<^verbatim>\<open>omitempty\<close> and \<^verbatim>\<open>omitzero\<close> options, a missing or
  null member leaving the zero value, the last of two members of one name winning, an
  integer outside 64 bits refused, a number with a fraction or an exponent kept as its literal,
  a time as its RFC 3339 text and refused outside the years 0 to 9999. Member names are matched exactly. A struct is
  encoded in two steps: its members, and then the document a reader of the written text finds (\<open>marshaled\<close>), in which every
  byte of a string that is no UTF-8 has become the replacement character.
\<close>

datatype json =
    JNull | JBool bool | JInt int | JNum string | JStr string | JArr "json list" | JObj "(string \<times> json) list"

datatype json_error = JsonType string | JsonTime string | JsonRange

type_synonym members = "(string \<times> json) list"

section \<open>Encoding\<close>

definition omitempty_str :: "string \<Rightarrow> string \<Rightarrow> members" where
  "omitempty_str k s = (if s = [] then [] else [(k, JStr s)])"

text \<open>\<^verbatim>\<open>time.Time.MarshalJSON\<close>.\<close>

definition time_json :: "instant \<Rightarrow> json_error + json" where
  "time_json t = (if rfc_range t then Inr (JStr (rfc3339nano t)) else Inl (JsonTime ''year outside of range''))"

definition omitzero_time :: "string \<Rightarrow> instant \<Rightarrow> json_error + members" where
  "omitzero_time k t = (if is_zero t then Inr [] else bind_result (time_json t) (\<lambda>j. Inr [(k, j)]))"

text \<open>\<^verbatim>\<open>json.Marshal\<close>.\<close>

fun marshaled :: "json \<Rightarrow> json" where
  "marshaled (JStr s) = JStr (coerce_utf8 s)"
| "marshaled (JArr xs) = JArr (map marshaled xs)"
| "marshaled (JObj fs) = JObj (map (\<lambda>(k, v). (coerce_utf8 k, marshaled v)) fs)"
| "marshaled j = j"

fun utf8_json :: "json \<Rightarrow> bool" where
  "utf8_json (JStr s) = valid_utf8 s"
| "utf8_json (JArr xs) = list_all utf8_json xs"
| "utf8_json (JObj fs) = list_all (\<lambda>(k, v). valid_utf8 k \<and> utf8_json v) fs"
| "utf8_json _ = True"

lemma marshaled_id [simp]: "utf8_json j \<Longrightarrow> marshaled j = j"
proof (induction j rule: marshaled.induct)
  case (3 fs)
  then have "(case x of (k, v) \<Rightarrow> (coerce_utf8 k, marshaled v)) = x" if "x \<in> set fs" for x
    using that by (cases x) (auto simp: list_all_iff)
  then show ?case by (simp add: map_idI)
qed (auto simp: list_all_iff intro: map_idI)

lemma utf8_omitempty [simp]:
  "list_all (\<lambda>(k, v). valid_utf8 k \<and> utf8_json v) (omitempty_str k s) \<longleftrightarrow> s = [] \<or> valid_utf8 k \<and> valid_utf8 s"
  by (simp add: omitempty_str_def)

lemma utf8_strings [simp]: "list_all utf8_json (map JStr xs) = list_all valid_utf8 xs"
  by (simp add: list.pred_map comp_def)

section \<open>Decoding\<close>

definition member :: "string \<Rightarrow> members \<Rightarrow> json option" where
  "member k fs = map_of (rev fs) k"

definition str_member :: "string \<Rightarrow> members \<Rightarrow> json_error + string" where
  "str_member k fs = (case member k fs of
       None \<Rightarrow> Inr [] | Some JNull \<Rightarrow> Inr [] | Some (JStr s) \<Rightarrow> Inr s | Some _ \<Rightarrow> Inl (JsonType k))"

definition int64 :: "int \<Rightarrow> bool" where
  "int64 n \<longleftrightarrow> - (2 ^ 63) \<le> n \<and> n < 2 ^ 63"

definition int_member :: "string \<Rightarrow> members \<Rightarrow> json_error + int" where
  "int_member k fs = (case member k fs of
       None \<Rightarrow> Inr 0 | Some JNull \<Rightarrow> Inr 0
     | Some (JInt n) \<Rightarrow> if int64 n then Inr n else Inl JsonRange
     | Some _ \<Rightarrow> Inl (JsonType k))"

definition time_member :: "string \<Rightarrow> members \<Rightarrow> json_error + instant" where
  "time_member k fs = (case member k fs of
       None \<Rightarrow> Inr 0 | Some JNull \<Rightarrow> Inr 0
     | Some (JStr s) \<Rightarrow> (case parse_rfc3339 s of None \<Rightarrow> Inl (JsonTime s) | Some t \<Rightarrow> Inr t)
     | Some _ \<Rightarrow> Inl (JsonType k))"

definition arr_member :: "string \<Rightarrow> members \<Rightarrow> json_error + json list" where
  "arr_member k fs = (case member k fs of
       None \<Rightarrow> Inr [] | Some JNull \<Rightarrow> Inr [] | Some (JArr xs) \<Rightarrow> Inr xs | Some _ \<Rightarrow> Inl (JsonType k))"

text \<open>A document decoded into a struct: null is a no-op, so no member is set.\<close>

definition as_members :: "json \<Rightarrow> json_error + members" where
  "as_members j = (case j of JObj fs \<Rightarrow> Inr fs | JNull \<Rightarrow> Inr [] | _ \<Rightarrow> Inl (JsonType ''struct''))"

lemma member_Nil [simp]: "member k [] = None"
  by (simp add: member_def)

lemma map_of_append_Some: "map_of (xs @ ys) k = (case map_of xs k of None \<Rightarrow> map_of ys k | Some v \<Rightarrow> Some v)"
  by (simp add: map_of_append map_add_def)

lemma member_Cons: "member k ((k', v) # fs) =
    (case member k fs of Some w \<Rightarrow> Some w | None \<Rightarrow> if k = k' then Some v else None)"
  by (simp add: member_def map_add_def split: option.splits)

lemma member_append: "member k (fs @ gs) = (case member k gs of Some w \<Rightarrow> Some w | None \<Rightarrow> member k fs)"
  by (simp add: member_def map_add_def split: option.splits)

lemma member_omitempty [simp]:
  "member k (omitempty_str k' s) = (if k = k' \<and> s \<noteq> [] then Some (JStr s) else None)"
  by (simp add: omitempty_str_def member_Cons)

lemma as_members_simps [simp]:
  "as_members (JObj fs) = Inr fs" "as_members JNull = Inr []"
  by (simp_all add: as_members_def)

lemmas json_members [codec_simps] =
  member_Cons member_append str_member_def int_member_def time_member_def arr_member_def

text \<open>A time that can be written is read back.\<close>

lemma time_json_ok: "rfc_range t \<Longrightarrow> time_json t = Inr (JStr (rfc3339nano t))"
  by (simp add: time_json_def)

lemma utf8_time_json: "time_json t = Inr j \<Longrightarrow> utf8_json j"
  by (auto simp: time_json_def split: if_splits)

lemma time_json_err: "\<not> rfc_range t \<Longrightarrow> \<exists>e. time_json t = Inl e"
  by (simp add: time_json_def)

end
