(* ===== verification/Lifecycle.thy ===== *)
theory Lifecycle
  imports Domain "HOL-Library.Sublist"
begin

text \<open>
  The life cycle of a snipe: the statuses and the table of legal moves of
  \<^verbatim>\<open>internal/domain/status.go\<close>, the event types, and the \<^verbatim>\<open>SnipeState\<close> record with
  its guarded \<^verbatim>\<open>Transition\<close>. The locale \<open>lifecycle\<close> is the contract of a move table
  with terminal statuses; it is interpreted on \<open>CanTransition\<close> and \<open>IsTerminal\<close>.
\<close>

section \<open>Statuses and moves\<close>

datatype status =
    StatusSubmitted | StatusScheduled | StatusDiscovering | StatusAwaiting | StatusFinding
  | StatusBooking | StatusBooked | StatusFailed | StatusCanceled | StatusExpired

definition AllStatuses :: "status list" where
  "AllStatuses = [StatusSubmitted, StatusScheduled, StatusDiscovering, StatusAwaiting, StatusFinding,
     StatusBooking, StatusBooked, StatusFailed, StatusCanceled, StatusExpired]"

definition IsTerminal :: "status \<Rightarrow> bool" where
  "IsTerminal s = (case s of StatusBooked \<Rightarrow> True | StatusFailed \<Rightarrow> True | StatusCanceled \<Rightarrow> True
     | StatusExpired \<Rightarrow> True | _ \<Rightarrow> False)"

fun status_string :: "status \<Rightarrow> string" where
  "status_string StatusSubmitted = ''submitted''"
| "status_string StatusScheduled = ''scheduled''"
| "status_string StatusDiscovering = ''discovering''"
| "status_string StatusAwaiting = ''awaiting''"
| "status_string StatusFinding = ''finding''"
| "status_string StatusBooking = ''booking''"
| "status_string StatusBooked = ''booked''"
| "status_string StatusFailed = ''failed''"
| "status_string StatusCanceled = ''canceled''"
| "status_string StatusExpired = ''expired''"

text \<open>The table as the source writes it: one entry per from-status, each with its set
  of to-statuses.\<close>

definition allowedTransitions :: "(status \<times> status list) list" where
  "allowedTransitions =
     [(StatusSubmitted, [StatusScheduled, StatusDiscovering, StatusCanceled, StatusFailed]),
      (StatusScheduled, [StatusAwaiting, StatusDiscovering, StatusCanceled, StatusFailed, StatusExpired]),
      (StatusDiscovering, [StatusAwaiting, StatusCanceled, StatusFailed, StatusExpired]),
      (StatusAwaiting, [StatusFinding, StatusCanceled, StatusFailed, StatusExpired]),
      (StatusFinding, [StatusBooking, StatusAwaiting, StatusCanceled, StatusFailed, StatusExpired]),
      (StatusBooking, [StatusBooked, StatusFinding, StatusCanceled, StatusFailed]),
      (StatusBooked, []), (StatusFailed, []), (StatusCanceled, []), (StatusExpired, [])]"

definition CanTransition :: "status \<Rightarrow> status \<Rightarrow> bool" where
  "CanTransition from to = (case map_of allowedTransitions from of
       None \<Rightarrow> False | Some allowed \<Rightarrow> to \<in> set allowed)"

definition validStatus :: "status \<Rightarrow> status list \<Rightarrow> bool" where
  "validStatus s all \<longleftrightarrow> s \<in> set all"

text \<open>The boot-time assertion \<^verbatim>\<open>init\<close>: \<open>True\<close> when none of its panics fires, for a given
  table.\<close>

definition init_check :: "(status \<times> status list) list \<Rightarrow> bool" where
  "init_check table \<longleftrightarrow>
     length table = length AllStatuses \<and>
     (\<forall>from \<in> set AllStatuses. case map_of table from of None \<Rightarrow> False
        | Some tos \<Rightarrow> \<forall>to \<in> set tos. validStatus to AllStatuses) \<and>
     (\<forall>s \<in> set AllStatuses. IsTerminal s \<longrightarrow> map_of table s = Some [])"

lemma init_check_table: "init_check allowedTransitions"
  by (simp add: init_check_def allowedTransitions_def AllStatuses_def validStatus_def IsTerminal_def)

lemma all_statuses: "s \<in> set AllStatuses"
  by (cases s) (simp_all add: AllStatuses_def)

lemmas transition_table = CanTransition_def allowedTransitions_def

locale lifecycle =
  fixes can :: "'s \<Rightarrow> 's \<Rightarrow> bool"
    and terminal :: "'s \<Rightarrow> bool"
  assumes terminal_stuck: "terminal s \<Longrightarrow> \<not> can s t"
begin

text \<open>A terminal status is never left, however many moves are tried.\<close>

lemma terminal_absorbing: "can\<^sup>*\<^sup>* s t \<Longrightarrow> terminal s \<Longrightarrow> t = s"
  by (induction rule: rtranclp.induct) (auto dest: terminal_stuck)

lemma terminal_last_of_walk:
  "successively can (xs @ s # ys) \<Longrightarrow> terminal s \<Longrightarrow> ys = []"
  by (cases ys) (auto simp: successively_append_iff dest: terminal_stuck)

end

interpretation snipe_life: lifecycle CanTransition IsTerminal
proof
  show "IsTerminal s \<Longrightarrow> \<not> CanTransition s t" for s t
    by (cases s) (simp_all add: IsTerminal_def transition_table)
qed

lemma terminal_iff_no_moves: "IsTerminal s \<longleftrightarrow> (\<forall>t. \<not> CanTransition s t)"
proof
  assume "\<forall>t. \<not> CanTransition s t"
  then have "\<not> CanTransition s StatusFailed" by blast
  then show "IsTerminal s" by (cases s) (simp_all add: IsTerminal_def transition_table)
qed (simp add: snipe_life.terminal_stuck)

lemma live_can_fail: "\<not> IsTerminal s \<Longrightarrow> CanTransition s StatusFailed \<and> CanTransition s StatusCanceled"
  by (cases s) (simp_all add: IsTerminal_def transition_table)

lemma CanTransition_irrefl: "\<not> CanTransition s s"
  by (cases s) (simp_all add: transition_table)

lemma booked_from_booking: "CanTransition s StatusBooked \<longleftrightarrow> s = StatusBooking"
  by (cases s) (simp_all add: transition_table)

lemma booking_from_finding: "CanTransition s StatusBooking \<longleftrightarrow> s = StatusFinding"
  by (cases s) (simp_all add: transition_table)

lemma finding_from: "CanTransition s StatusFinding \<Longrightarrow> s = StatusAwaiting \<or> s = StatusBooking"
  by (cases s) (simp_all add: transition_table)

text \<open>Every walk of the table from Submitted that stands at Finding, Booking or Booked
  has gone through the phases before it, in order.\<close>

lemma phases_in_order:
  assumes "successively CanTransition (StatusSubmitted # xs)"
  shows "(last (StatusSubmitted # xs) = StatusAwaiting \<longrightarrow> subseq [StatusAwaiting] xs) \<and>
    (last (StatusSubmitted # xs) = StatusFinding \<longrightarrow> subseq [StatusAwaiting, StatusFinding] xs) \<and>
    (last (StatusSubmitted # xs) = StatusBooking \<longrightarrow>
       subseq [StatusAwaiting, StatusFinding, StatusBooking] xs) \<and>
    (last (StatusSubmitted # xs) = StatusBooked \<longrightarrow>
       subseq [StatusAwaiting, StatusFinding, StatusBooking, StatusBooked] xs)"
  using assms
proof (induction xs rule: rev_induct)
  case (snoc x xs)
  have walk: "successively CanTransition (StatusSubmitted # xs)"
    and move: "CanTransition (last (StatusSubmitted # xs)) x"
    using snoc.prems successively_append_iff [of CanTransition "StatusSubmitted # xs" "[x]"] by auto
  note IH = snoc.IH [OF walk]
  have grow: "subseq ys xs \<Longrightarrow> subseq (ys @ [x]) (xs @ [x])" for ys
    by (rule list_emb_append_mono) auto
  have keep: "subseq ys xs \<Longrightarrow> subseq ys (xs @ [x])" for ys
    by (meson list_emb_prefix)
  show ?case
  proof (cases x)
    case StatusAwaiting
    then show ?thesis by (simp add: subseq_singleton_left)
  next
    case StatusFinding
    then consider "last (StatusSubmitted # xs) = StatusAwaiting"
      | "last (StatusSubmitted # xs) = StatusBooking" using move finding_from by blast
    then show ?thesis
    proof cases
      case 1
      then show ?thesis using IH grow [of "[StatusAwaiting]"] StatusFinding by simp
    next
      case 2
      then have "subseq [StatusAwaiting, StatusFinding, StatusBooking] xs" using IH by blast
      moreover have "subseq [StatusAwaiting, StatusFinding] [StatusAwaiting, StatusFinding, StatusBooking]"
        by simp
      ultimately have "subseq [StatusAwaiting, StatusFinding] xs" by (meson subseq_order.trans)
      then show ?thesis using StatusFinding keep by simp
    qed
  next
    case StatusBooking
    then show ?thesis
      using IH move booking_from_finding grow [of "[StatusAwaiting, StatusFinding]"] by simp
  next
    case StatusBooked
    then show ?thesis
      using IH move booked_from_booking grow [of "[StatusAwaiting, StatusFinding, StatusBooking]"]
      by simp
  qed simp_all
qed simp

section \<open>Events\<close>

type_synonym event_type = string

definition EventSubmitted :: event_type where "EventSubmitted = ''submitted''"
definition EventScheduled :: event_type where "EventScheduled = ''scheduled''"
definition EventDiscovered :: event_type where "EventDiscovered = ''discovered''"
definition EventReleased :: event_type where "EventReleased = ''released''"
definition EventFound :: event_type where "EventFound = ''found''"
definition EventBookAttempted :: event_type where "EventBookAttempted = ''book_attempted''"
definition EventBooked :: event_type where "EventBooked = ''booked''"
definition EventFailed :: event_type where "EventFailed = ''failed''"
definition EventCanceled :: event_type where "EventCanceled = ''canceled''"
definition EventExpired :: event_type where "EventExpired = ''expired''"

definition AllEventTypes :: "event_type list" where
  "AllEventTypes = [EventSubmitted, EventScheduled, EventDiscovered, EventReleased, EventFound,
     EventBookAttempted, EventBooked, EventFailed, EventCanceled, EventExpired]"

text \<open>The attribute kinds the program attaches to events.\<close>

datatype attr_value = AString string | AInt int | ABool bool | ATime instant

type_synonym attr = "string \<times> attr_value"

record event =
  ev_type :: event_type
  ev_at :: instant
  ev_attrs :: "attr list"

record booking_result =
  br_booked_at :: instant
  br_confirmation_id :: string

record snipe_state =
  s_id :: snipe_id
  s_intent :: intent
  s_status :: status
  s_scheduled_at :: instant
  s_result :: "booking_result option"
  s_events :: "event list"
  s_created_at :: instant
  s_updated_at :: instant

definition NewSnipeState :: "snipe_id \<Rightarrow> intent \<Rightarrow> instant \<Rightarrow> snipe_state" where
  "NewSnipeState sid i created =
     \<lparr>s_id = sid, s_intent = i, s_status = StatusSubmitted, s_scheduled_at = 0, s_result = None,
      s_events = [], s_created_at = created, s_updated_at = created\<rparr>"

datatype transition_error = InvalidTransitionError status status

definition Transition :: "snipe_state \<Rightarrow> status \<Rightarrow> transition_error + snipe_state" where
  "Transition s to =
     (if CanTransition (s_status s) to then Inr (s\<lparr>s_status := to\<rparr>)
      else Inl (InvalidTransitionError (s_status s) to))"

lemma Transition_ok [simp]: "CanTransition (s_status s) to \<Longrightarrow> Transition s to = Inr (s\<lparr>s_status := to\<rparr>)"
  by (simp add: Transition_def)

lemma Transition_bad [simp]:
  "\<not> CanTransition (s_status s) to \<Longrightarrow> Transition s to = Inl (InvalidTransitionError (s_status s) to)"
  by (simp add: Transition_def)

end
