(* ===== verification/StoreCodec.thy ===== *)
theory StoreCodec
  imports Json Lifecycle
begin

text \<open>
  The column encodings of the SQLite store: timestamps (\<^verbatim>\<open>formatTime\<close>, \<^verbatim>\<open>parseTime\<close> of
  \<^verbatim>\<open>store/sqlite.go\<close>), statuses (\<^verbatim>\<open>parseStatus\<close>, \<^verbatim>\<open>statusPaths\<close>, \<^verbatim>\<open>forceStatus\<close>), intents,
  release strategies and booking results (\<^verbatim>\<open>store/intent_codec.go\<close>) and event attributes
  (\<^verbatim>\<open>store/event_attrs.go\<close>). Each pair is an interpretation of \<open>codec\<close>.
\<close>

datatype store_error =
    ErrNotFound | ErrSessionExpired | ErrCanceled | ErrDriver string | ErrConstraint string
  | ErrDecode string | ErrEncode json_error | ErrVenue venue_error | ErrNoPath status status
  | ErrArgument string | ErrCacheMiss

section \<open>Timestamps\<close>

definition formatTime :: "instant \<Rightarrow> string" where
  "formatTime t = (if is_zero t then [] else rfc3339nano t)"

definition parseTime :: "string \<Rightarrow> store_error + instant" where
  "parseTime s = (if s = [] then Inr 0
     else case parse_rfc3339 s of None \<Rightarrow> Inl (ErrDecode s) | Some t \<Rightarrow> Inr t)"

definition nullableTime :: "instant \<Rightarrow> string option" where
  "nullableTime t = (if is_zero t then None else Some (formatTime t))"

lemma rfc3339nano_nonempty: "rfc_range t \<Longrightarrow> rfc3339nano t \<noteq> []"
  using parse_rfc3339_text [of t]
  by (metis append_is_Nil_conv list.distinct(1) rfc3339nano_def)

interpretation time_codec: codec formatTime parseTime rfc_range
proof
  show "rfc_range t \<Longrightarrow> parseTime (formatTime t) = Inr t" for t
    by (simp add: formatTime_def parseTime_def is_zero_def rfc3339nano_nonempty parse_rfc3339_text)
qed

definition parse_nullable :: "string option \<Rightarrow> store_error + instant" where
  "parse_nullable c = (case c of None \<Rightarrow> Inr 0 | Some s \<Rightarrow> parseTime s)"

interpretation nullable_time_codec: codec nullableTime parse_nullable rfc_range
proof
  show "rfc_range t \<Longrightarrow> parse_nullable (nullableTime t) = Inr t" for t
    by (simp add: nullableTime_def parse_nullable_def time_codec.dec_enc) (simp add: is_zero_def)
qed

section \<open>Statuses\<close>

fun parseStatus_in :: "status list \<Rightarrow> string \<Rightarrow> store_error + status" where
  "parseStatus_in [] s = Inl (ErrDecode s)"
| "parseStatus_in (st # sts) s = (if status_string st = s then Inr st else parseStatus_in sts s)"

definition parseStatus :: "string \<Rightarrow> store_error + status" where
  "parseStatus s = parseStatus_in AllStatuses s"

interpretation status_codec: codec status_string parseStatus "\<lambda>_. True"
proof
  show "parseStatus (status_string s) = Inr s" for s
    by (cases s) (simp_all add: parseStatus_def AllStatuses_def)
qed

fun statusPaths :: "status \<Rightarrow> status list list" where
  "statusPaths StatusSubmitted = [[StatusSubmitted]]"
| "statusPaths StatusScheduled = [[StatusSubmitted, StatusScheduled]]"
| "statusPaths StatusDiscovering =
     [[StatusSubmitted, StatusDiscovering], [StatusSubmitted, StatusScheduled, StatusDiscovering]]"
| "statusPaths StatusAwaiting =
     [[StatusSubmitted, StatusScheduled, StatusAwaiting],
      [StatusSubmitted, StatusDiscovering, StatusAwaiting]]"
| "statusPaths StatusFinding = [[StatusSubmitted, StatusScheduled, StatusAwaiting, StatusFinding]]"
| "statusPaths StatusBooking =
     [[StatusSubmitted, StatusScheduled, StatusAwaiting, StatusFinding, StatusBooking]]"
| "statusPaths StatusBooked =
     [[StatusSubmitted, StatusScheduled, StatusAwaiting, StatusFinding, StatusBooking, StatusBooked]]"
| "statusPaths StatusFailed = [[StatusSubmitted, StatusFailed]]"
| "statusPaths StatusCanceled = [[StatusSubmitted, StatusCanceled]]"
| "statusPaths StatusExpired = [[StatusSubmitted, StatusScheduled, StatusExpired]]"

text \<open>The inner loop of \<^verbatim>\<open>forceStatus\<close>: walk the rest of a path, skipping the status the
  state already has; the state keeps the moves made before a refused one.\<close>

fun walk_path :: "snipe_state \<Rightarrow> status list \<Rightarrow> bool \<times> snipe_state" where
  "walk_path s [] = (True, s)"
| "walk_path s (p # ps) = (if p = s_status s then walk_path s ps
     else case Transition s p of Inl _ \<Rightarrow> (False, s) | Inr s' \<Rightarrow> walk_path s' ps)"

fun try_paths :: "snipe_state \<Rightarrow> status \<Rightarrow> status list list \<Rightarrow> store_error + snipe_state" where
  "try_paths s target [] = Inl (ErrNoPath (s_status s) target)"
| "try_paths s target (path # paths) =
     (case dropWhile (\<lambda>p. p \<noteq> s_status s) path of
        [] \<Rightarrow> try_paths s target paths
      | rest \<Rightarrow> (case walk_path s rest of (ok, s') \<Rightarrow>
          if ok \<and> s_status s' = target then Inr s' else try_paths s' target paths))"

definition forceStatus :: "snipe_state \<Rightarrow> status \<Rightarrow> store_error + snipe_state" where
  "forceStatus s target = (if s_status s = target then Inr s else try_paths s target (statusPaths target))"

lemma forceStatus_submitted:
  "s_status s = StatusSubmitted \<Longrightarrow> forceStatus s target = Inr (s\<lparr>s_status := target\<rparr>)"
  by (cases target) (simp_all add: forceStatus_def Transition_def transition_table)

lemma statusPaths_walks:
  "path \<in> set (statusPaths target) \<Longrightarrow>
   hd path = StatusSubmitted \<and> last path = target \<and> successively CanTransition path"
  by (cases target) (auto simp: transition_table)

section \<open>Release strategies and intents\<close>

definition releaseKindExplicit :: string where "releaseKindExplicit = ''explicit''"
definition releaseKindDiscovered :: string where "releaseKindDiscovered = ''discovered''"
definition releaseKindContinuous :: string where "releaseKindContinuous = ''continuous''"

lemmas release_kinds = releaseKindExplicit_def releaseKindDiscovered_def releaseKindContinuous_def

record releaseJSON =
  rj_kind :: string
  rj_at :: instant
  rj_probe_from :: instant
  rj_probe_until :: instant
  rj_until :: instant

definition encodeRelease :: "release_strategy option \<Rightarrow> releaseJSON option" where
  "encodeRelease r = (case r of None \<Rightarrow> None
     | Some (ExplicitRelease at) \<Rightarrow>
         Some \<lparr>rj_kind = releaseKindExplicit, rj_at = at, rj_probe_from = 0, rj_probe_until = 0, rj_until = 0\<rparr>
     | Some (DiscoveredRelease from til) \<Rightarrow>
         Some \<lparr>rj_kind = releaseKindDiscovered, rj_at = 0, rj_probe_from = from, rj_probe_until = til, rj_until = 0\<rparr>
     | Some (ContinuousRelease til) \<Rightarrow>
         Some \<lparr>rj_kind = releaseKindContinuous, rj_at = 0, rj_probe_from = 0, rj_probe_until = 0, rj_until = til\<rparr>)"

definition decodeRelease :: "releaseJSON option \<Rightarrow> store_error + release_strategy option" where
  "decodeRelease j = (case j of None \<Rightarrow> Inr None
     | Some rj \<Rightarrow>
         if rj_kind rj = releaseKindExplicit then Inr (Some (ExplicitRelease (rj_at rj)))
         else if rj_kind rj = releaseKindDiscovered
           then Inr (Some (DiscoveredRelease (rj_probe_from rj) (rj_probe_until rj)))
         else if rj_kind rj = releaseKindContinuous then Inr (Some (ContinuousRelease (rj_until rj)))
         else Inl (ErrDecode (rj_kind rj)))"

interpretation release_codec: codec encodeRelease decodeRelease "\<lambda>_. True"
proof
  show "decodeRelease (encodeRelease r) = Inr r" for r
    by (cases r) (auto simp: encodeRelease_def decodeRelease_def release_kinds split: release_strategy.split)
qed

definition release_marshal :: "releaseJSON \<Rightarrow> json_error + json" where
  "release_marshal r =
     bind_result (omitzero_time ''at'' (rj_at r)) (\<lambda>a.
     bind_result (omitzero_time ''probe_from'' (rj_probe_from r)) (\<lambda>f.
     bind_result (omitzero_time ''probe_until'' (rj_probe_until r)) (\<lambda>p.
     bind_result (omitzero_time ''until'' (rj_until r)) (\<lambda>u.
       Inr (JObj ((''kind'', JStr (rj_kind r)) # a @ f @ p @ u))))))"

definition release_unmarshal :: "json \<Rightarrow> json_error + releaseJSON" where
  "release_unmarshal j =
     bind_result (as_members j) (\<lambda>fs.
     bind_result (str_member ''kind'' fs) (\<lambda>k.
     bind_result (time_member ''at'' fs) (\<lambda>a.
     bind_result (time_member ''probe_from'' fs) (\<lambda>f.
     bind_result (time_member ''probe_until'' fs) (\<lambda>p.
     bind_result (time_member ''until'' fs) (\<lambda>u.
       Inr \<lparr>rj_kind = k, rj_at = a, rj_probe_from = f, rj_probe_until = p, rj_until = u\<rparr>))))))"

definition release_row_ok :: "releaseJSON \<Rightarrow> bool" where
  "release_row_ok r \<longleftrightarrow> rfc_range (rj_at r) \<and> rfc_range (rj_probe_from r) \<and>
     rfc_range (rj_probe_until r) \<and> rfc_range (rj_until r)"

lemma omitzero_time_ok:
  "rfc_range t \<Longrightarrow> omitzero_time k t = Inr (if t = 0 then [] else [(k, JStr (rfc3339nano t))])"
  by (simp add: omitzero_time_def is_zero_def time_json_def)

lemma time_member_written:
  "rfc_range t \<Longrightarrow> member k fs = (if t = 0 then None else Some (JStr (rfc3339nano t))) \<Longrightarrow>
   time_member k fs = Inr t"
  by (simp add: time_member_def parse_rfc3339_text)

lemma release_marshal_roundtrip:
  assumes "release_row_ok r"
  shows "bind_result (release_marshal r) release_unmarshal = Inr r"
proof -
  define fs where "fs = (''kind'', JStr (rj_kind r)) #
    (if rj_at r = 0 then [] else [(''at'', JStr (rfc3339nano (rj_at r)))]) @
    (if rj_probe_from r = 0 then [] else [(''probe_from'', JStr (rfc3339nano (rj_probe_from r)))]) @
    (if rj_probe_until r = 0 then [] else [(''probe_until'', JStr (rfc3339nano (rj_probe_until r)))]) @
    (if rj_until r = 0 then [] else [(''until'', JStr (rfc3339nano (rj_until r)))])"
  have m: "release_marshal r = Inr (JObj fs)"
    using assms by (simp add: release_marshal_def release_row_ok_def omitzero_time_ok fs_def)
  have "str_member ''kind'' fs = Inr (rj_kind r)"
    by (simp add: fs_def str_member_def member_Cons member_append)
  moreover have "time_member ''at'' fs = Inr (rj_at r)"
    using assms by (intro time_member_written) (simp_all add: release_row_ok_def fs_def member_Cons member_append)
  moreover have "time_member ''probe_from'' fs = Inr (rj_probe_from r)"
    using assms by (intro time_member_written) (simp_all add: release_row_ok_def fs_def member_Cons member_append)
  moreover have "time_member ''probe_until'' fs = Inr (rj_probe_until r)"
    using assms by (intro time_member_written) (simp_all add: release_row_ok_def fs_def member_Cons member_append)
  moreover have "time_member ''until'' fs = Inr (rj_until r)"
    using assms by (intro time_member_written) (simp_all add: release_row_ok_def fs_def member_Cons member_append)
  ultimately show ?thesis
    by (simp add: m release_unmarshal_def)
qed

interpretation release_json_codec: codec release_marshal "\<lambda>m. bind_result m release_unmarshal" release_row_ok
  by unfold_locales (rule release_marshal_roundtrip)

definition slot_pref_marshal :: "slot_preference \<Rightarrow> json" where
  "slot_pref_marshal p = JObj ((''time'', JStr (walltime_string (sp_time p))) #
     omitempty_str ''table_type'' (sp_table_type p))"

definition slot_pref_unmarshal :: "json \<Rightarrow> json_error + (string \<times> string)" where
  "slot_pref_unmarshal j = bind_result (as_members j) (\<lambda>fs.
     bind_result (str_member ''time'' fs) (\<lambda>t.
     bind_result (str_member ''table_type'' fs) (\<lambda>ty. Inr (t, ty))))"

definition decode_slot_pref :: "string \<times> string \<Rightarrow> store_error + slot_preference" where
  "decode_slot_pref p = (case ParseWallTime (fst p) of Inl e \<Rightarrow> Inl (ErrDecode e)
     | Inr w \<Rightarrow> Inr \<lparr>sp_time = w, sp_table_type = snd p\<rparr>)"

definition venue_ref_marshal :: "venue_ref \<Rightarrow> json" where
  "venue_ref_marshal v = JObj [(''Provider'', JStr (vr_provider v)), (''Ref'', JStr (vr_ref v))]"

definition venue_ref_unmarshal :: "members \<Rightarrow> json_error + venue_ref" where
  "venue_ref_unmarshal fs = (case member ''venue'' fs of
       None \<Rightarrow> Inr \<lparr>vr_provider = [], vr_ref = []\<rparr>
     | Some j \<Rightarrow> bind_result (as_members j) (\<lambda>vs.
         bind_result (str_member ''Provider'' vs) (\<lambda>p.
         bind_result (str_member ''Ref'' vs) (\<lambda>r. Inr \<lparr>vr_provider = p, vr_ref = r\<rparr>))))"

definition release_member :: "members \<Rightarrow> json_error + releaseJSON option" where
  "release_member fs = (case member ''release'' fs of
       None \<Rightarrow> Inr None | Some JNull \<Rightarrow> Inr None
     | Some j \<Rightarrow> bind_result (release_unmarshal j) (\<lambda>r. Inr (Some r)))"

definition MarshalIntent :: "intent \<Rightarrow> store_error + json" where
  "MarshalIntent i =
     bind_result (case encodeRelease (i_release i) of None \<Rightarrow> Inr []
         | Some rj \<Rightarrow> map_err ErrEncode (bind_result (release_marshal rj) (\<lambda>j. Inr [(''release'', j)]))) (\<lambda>rel.
     Inr (marshaled (JObj ([(''user'', JStr (i_user i)), (''venue'', venue_ref_marshal (i_venue i)),
        (''date'', JStr (date_string (i_date i))), (''party_size'', JInt (i_party_size i))] @
        (if i_slot_prefs i = [] then []
         else [(''slot_prefs'', JArr (map slot_pref_marshal (i_slot_prefs i)))]) @ rel))))"

definition UnmarshalIntent :: "json \<Rightarrow> store_error + intent" where
  "UnmarshalIntent j =
     bind_result (map_err (\<lambda>_. ErrDecode ''intent'') (
       bind_result (as_members j) (\<lambda>fs.
       bind_result (str_member ''user'' fs) (\<lambda>u.
       bind_result (venue_ref_unmarshal fs) (\<lambda>v.
       bind_result (str_member ''date'' fs) (\<lambda>d.
       bind_result (int_member ''party_size'' fs) (\<lambda>n.
       bind_result (arr_member ''slot_prefs'' fs) (\<lambda>ps.
       bind_result (map_result slot_pref_unmarshal ps) (\<lambda>raw.
       bind_result (release_member fs) (\<lambda>r. Inr (u, v, d, n, raw, r)))))))))))
     (\<lambda>(u, v, d, n, raw, r).
       bind_result (map_err ErrDecode (ParseDate d)) (\<lambda>date.
       bind_result (map_result decode_slot_pref raw) (\<lambda>prefs.
       bind_result (decodeRelease r) (\<lambda>rel.
         Inr \<lparr>i_user = u, i_venue = v, i_date = date, i_party_size = n, i_slot_prefs = prefs,
              i_release = rel\<rparr>))))"

text \<open>The intents the store can hold: texts in UTF-8, a real date, real times, a party size of 64 bits and
  release instants in the years 0 to 9999.\<close>

definition intent_utf8 :: "intent \<Rightarrow> bool" where
  "intent_utf8 i \<longleftrightarrow> valid_utf8 (i_user i) \<and> valid_utf8 (vr_provider (i_venue i)) \<and> valid_utf8 (vr_ref (i_venue i)) \<and>
     list_all (\<lambda>p. valid_utf8 (sp_table_type p)) (i_slot_prefs i)"

definition intent_row_ok :: "intent \<Rightarrow> bool" where
  "intent_row_ok i \<longleftrightarrow> intent_utf8 i \<and> valid_date (i_date i) \<and> int64 (i_party_size i) \<and>
     list_all (\<lambda>p. valid_walltime (sp_time p)) (i_slot_prefs i) \<and> release_ok (i_release i)"

lemma slot_pref_roundtrip: "slot_pref_unmarshal (slot_pref_marshal p) = Inr (walltime_string (sp_time p), sp_table_type p)"
  by (simp add: slot_pref_unmarshal_def slot_pref_marshal_def str_member_def member_Cons)

lemma slot_pref_utf8 [simp]: "utf8_json (slot_pref_marshal p) \<longleftrightarrow> valid_utf8 (sp_table_type p)"
  by (cases "sp_table_type p") (simp_all add: slot_pref_marshal_def)

lemma slot_prefs_roundtrip:
  "map_result slot_pref_unmarshal (map slot_pref_marshal ps) =
     Inr (map (\<lambda>p. (walltime_string (sp_time p), sp_table_type p)) ps)"
  by (induction ps) (simp_all add: slot_pref_roundtrip)

lemma decode_slot_prefs:
  "list_all (\<lambda>p. valid_walltime (sp_time p)) ps \<Longrightarrow>
   map_result decode_slot_pref (map (\<lambda>p. (walltime_string (sp_time p), sp_table_type p)) ps) = Inr ps"
  by (induction ps) (simp_all add: decode_slot_pref_def ParseWallTime_string)

lemma rfc_range_0 [simp]: "rfc_range 0"
  by code_simp

lemma encodeRelease_row_ok:
  "release_ok r \<Longrightarrow> encodeRelease r = Some rj \<Longrightarrow> release_row_ok rj"
  by (auto simp: encodeRelease_def release_ok_def release_row_ok_def
      split: option.splits release_strategy.splits)

lemma release_marshal_utf8:
  assumes "release_marshal rj = Inr j" "valid_utf8 (rj_kind rj)"
  shows "utf8_json j"
proof -
  have "omitzero_time k t = Inr fs \<Longrightarrow> valid_utf8 k \<Longrightarrow> list_all (\<lambda>(k, v). valid_utf8 k \<and> utf8_json v) fs" for k t fs
    by (cases "time_json t") (auto simp: omitzero_time_def utf8_time_json split: if_splits)
  from this [of "''at''" "rj_at rj"] this [of "''probe_from''" "rj_probe_from rj"] this [of "''probe_until''" "rj_probe_until rj"]
    this [of "''until''" "rj_until rj"]
  show ?thesis using assms by (auto simp: release_marshal_def bind_result_def split: sum.splits)
qed

lemma encodeRelease_kind: "encodeRelease r = Some rj \<Longrightarrow> valid_utf8 (rj_kind rj)"
  by (auto simp: encodeRelease_def release_kinds split: option.splits release_strategy.splits)

lemma release_marshal_total:
  assumes "release_row_ok rj"
  shows "\<exists>fs. release_marshal rj = Inr (JObj fs) \<and> release_unmarshal (JObj fs) = Inr rj"
proof (cases "release_marshal rj")
  case (Inl e)
  then show ?thesis using release_json_codec.dec_enc [OF assms] by simp
next
  case (Inr j)
  then have u: "release_unmarshal j = Inr rj" using release_json_codec.dec_enc [OF assms] by simp
  have "\<exists>fs. j = JObj fs"
    using Inr by (auto simp: release_marshal_def bind_result_def split: sum.splits)
  then show ?thesis using u Inr by auto
qed

lemma MarshalIntent_marshaled:
  assumes "(case encodeRelease (i_release i) of None \<Rightarrow> Inr []
         | Some rj \<Rightarrow> map_err ErrEncode (bind_result (release_marshal rj) (\<lambda>j. Inr [(''release'', j)]))) = Inr rel"
  shows "MarshalIntent i = Inr (marshaled (JObj (([(''user'', JStr (i_user i)), (''venue'', venue_ref_marshal (i_venue i)),
        (''date'', JStr (date_string (i_date i))), (''party_size'', JInt (i_party_size i))] @
        (if i_slot_prefs i = [] then []
         else [(''slot_prefs'', JArr (map slot_pref_marshal (i_slot_prefs i)))])) @ rel)))"
  unfolding MarshalIntent_def assms by (simp del: marshaled.simps)

lemma MarshalIntent_total:
  assumes "intent_row_ok i"
  shows "\<exists>j. MarshalIntent i = Inr j \<and> UnmarshalIntent j = Inr i"
proof -
  obtain rel where rel: "(case encodeRelease (i_release i) of None \<Rightarrow> Inr []
         | Some rj \<Rightarrow> map_err ErrEncode (bind_result (release_marshal rj) (\<lambda>j. Inr [(''release'', j)]))) = Inr rel"
    and utf8: "list_all (\<lambda>(k, v). valid_utf8 k \<and> utf8_json v) rel"
    and dec: "\<And>fs. member ''release'' fs = None \<Longrightarrow> release_member (fs @ rel) = Inr (encodeRelease (i_release i))"
    and rest: "\<And>k. k \<noteq> ''release'' \<Longrightarrow> member k rel = None"
  proof (cases "encodeRelease (i_release i)")
    case None
    then show ?thesis by (intro that [of "[]"]) (simp_all add: release_member_def)
  next
    case (Some rj)
    then have "release_row_ok rj" using assms encodeRelease_row_ok unfolding intent_row_ok_def by blast
    then obtain fs where "release_marshal rj = Inr (JObj fs)" "release_unmarshal (JObj fs) = Inr rj"
      using release_marshal_total by blast
    moreover have "utf8_json (JObj fs)"
      using release_marshal_utf8 [OF calculation(1) encodeRelease_kind [OF Some]] .
    ultimately show ?thesis using Some
      by (intro that [of "[(''release'', JObj fs)]"])
        (simp_all add: release_member_def member_append member_Cons)
  qed
  define hd where "hd = [(''user'', JStr (i_user i)), (''venue'', venue_ref_marshal (i_venue i)),
        (''date'', JStr (date_string (i_date i))), (''party_size'', JInt (i_party_size i))] @
        (if i_slot_prefs i = [] then []
         else [(''slot_prefs'', JArr (map slot_pref_marshal (i_slot_prefs i)))])"
  have "list_all utf8_json (map slot_pref_marshal (i_slot_prefs i))"
    using assms by (simp add: intent_row_ok_def intent_utf8_def list.pred_map comp_def)
  then have "utf8_json (JObj (hd @ rel))"
    using assms utf8 by (simp add: hd_def intent_row_ok_def intent_utf8_def venue_ref_marshal_def)
  then have m: "MarshalIntent i = Inr (JObj (hd @ rel))"
    using MarshalIntent_marshaled [OF rel, folded hd_def] marshaled_id by metis
  have mem: "member k (hd @ rel) = member k hd" if "k \<noteq> ''release''" for k
    using rest [OF that] by (simp add: member_append)
  have fields: "str_member ''user'' (hd @ rel) = Inr (i_user i)"
    "venue_ref_unmarshal (hd @ rel) = Inr (i_venue i)"
    "str_member ''date'' (hd @ rel) = Inr (date_string (i_date i))"
    "int_member ''party_size'' (hd @ rel) = Inr (i_party_size i)"
    "arr_member ''slot_prefs'' (hd @ rel) = Inr (map slot_pref_marshal (i_slot_prefs i))"
    using assms
    by (simp_all add: str_member_def int_member_def arr_member_def venue_ref_unmarshal_def mem
        dec intent_row_ok_def) (simp_all add: hd_def venue_ref_marshal_def str_member_def member_Cons member_append)
  have relf: "release_member (hd @ rel) = Inr (encodeRelease (i_release i))"
    by (rule dec) (simp add: hd_def member_Cons member_append)
  have "UnmarshalIntent (JObj (hd @ rel)) = Inr i"
    using assms
    by (simp add: UnmarshalIntent_def fields relf slot_prefs_roundtrip decode_slot_prefs intent_row_ok_def
        ParseDate_string release_codec.dec_enc)
  then show ?thesis using m by blast
qed

interpretation intent_codec: codec MarshalIntent "\<lambda>m. bind_result m UnmarshalIntent" intent_row_ok
proof
  show "intent_row_ok i \<Longrightarrow> bind_result (MarshalIntent i) UnmarshalIntent = Inr i" for i
    using MarshalIntent_total [of i] by auto
qed

section \<open>Booking results\<close>

text \<open>No result is the SQL NULL of the column.\<close>

definition MarshalResult :: "booking_result option \<Rightarrow> store_error + json option" where
  "MarshalResult r = (case r of None \<Rightarrow> Inr None
     | Some b \<Rightarrow> (case time_json (br_booked_at b) of Inl e \<Rightarrow> Inl (ErrEncode e)
         | Inr t \<Rightarrow> Inr (Some (marshaled (JObj [(''booked_at'', t), (''confirmation_id'', JStr (br_confirmation_id b))])))))"

definition UnmarshalResult :: "json option \<Rightarrow> store_error + booking_result option" where
  "UnmarshalResult c = (case c of None \<Rightarrow> Inr None
     | Some j \<Rightarrow> map_err (\<lambda>_. ErrDecode ''result'') (
         bind_result (as_members j) (\<lambda>fs.
         bind_result (time_member ''booked_at'' fs) (\<lambda>t.
         bind_result (str_member ''confirmation_id'' fs) (\<lambda>c.
           Inr (Some \<lparr>br_booked_at = t, br_confirmation_id = c\<rparr>))))))"

definition result_row_ok :: "booking_result option \<Rightarrow> bool" where
  "result_row_ok r = (case r of None \<Rightarrow> True | Some b \<Rightarrow> rfc_range (br_booked_at b) \<and> valid_utf8 (br_confirmation_id b))"

lemma MarshalResult_total:
  "result_row_ok r \<Longrightarrow> \<exists>c. MarshalResult r = Inr c \<and> UnmarshalResult c = Inr r"
  by (cases r) (auto simp: result_row_ok_def MarshalResult_def UnmarshalResult_def time_json_def
      time_member_def str_member_def member_Cons parse_rfc3339_text)

interpretation result_codec: codec MarshalResult "\<lambda>m. bind_result m UnmarshalResult" result_row_ok
proof
  show "result_row_ok r \<Longrightarrow> bind_result (MarshalResult r) UnmarshalResult = Inr r" for r
    using MarshalResult_total [of r] by auto
qed

section \<open>Event attributes\<close>

record flatAttr =
  fa_key :: string
  fa_kind :: string
  fa_value :: string

fun attr_kind :: "attr_value \<Rightarrow> string" where
  "attr_kind (AString s) = ''String''"
| "attr_kind (AInt n) = ''Int64''"
| "attr_kind (ABool b) = ''Bool''"
| "attr_kind (ATime t) = ''Time''"

fun stringifyValue :: "attr_value \<Rightarrow> string" where
  "stringifyValue (AString s) = s"
| "stringifyValue (AInt n) = show_int n"
| "stringifyValue (ABool b) = (if b then ''true'' else ''false'')"
| "stringifyValue (ATime t) = rfc3339nano t"

text \<open>\<^verbatim>\<open>strconv.ParseInt(s, 10, 64)\<close> and \<^verbatim>\<open>strconv.ParseBool\<close>.\<close>

definition ParseInt :: "string \<Rightarrow> int option" where
  "ParseInt s =
     (let (neg, ds) = (case s of c # cs \<Rightarrow> if c = CHR ''-'' then (True, cs)
                         else if c = CHR ''+'' then (False, cs) else (False, s) | [] \<Rightarrow> (False, []))
      in if ds = [] then None
         else case read_digits 0 ds of None \<Rightarrow> None
           | Some n \<Rightarrow> let v = (if neg then - int n else int n) in if int64 v then Some v else None)"

definition ParseBool :: "string \<Rightarrow> bool option" where
  "ParseBool s =
     (if s \<in> set [''1'', ''t'', ''T'', ''TRUE'', ''true'', ''True''] then Some True
      else if s \<in> set [''0'', ''f'', ''F'', ''FALSE'', ''false'', ''False''] then Some False
      else None)"

definition decodeOneAttr :: "flatAttr \<Rightarrow> attr" where
  "decodeOneAttr f =
     (let plain = AString (fa_value f) in
      (fa_key f,
       if fa_kind f = ''Int64'' then (case ParseInt (fa_value f) of Some n \<Rightarrow> AInt n | None \<Rightarrow> plain)
       else if fa_kind f = ''Bool'' then (case ParseBool (fa_value f) of Some b \<Rightarrow> ABool b | None \<Rightarrow> plain)
       else if fa_kind f = ''Time'' then (case parse_rfc3339 (fa_value f) of Some t \<Rightarrow> ATime t | None \<Rightarrow> plain)
       else plain))"

definition EncodeAttrs :: "attr list \<Rightarrow> flatAttr list option" where
  "EncodeAttrs attrs = (if attrs = [] then None
     else Some (map (\<lambda>(k, v). \<lparr>fa_key = coerce_utf8 k, fa_kind = attr_kind v, fa_value = coerce_utf8 (stringifyValue v)\<rparr>) attrs))"

definition DecodeAttrs :: "flatAttr list option \<Rightarrow> attr list" where
  "DecodeAttrs c = (case c of None \<Rightarrow> [] | Some raw \<Rightarrow> map decodeOneAttr raw)"

fun attr_ok :: "attr_value \<Rightarrow> bool" where
  "attr_ok (AInt n) = int64 n"
| "attr_ok (ATime t) = rfc_range t"
| "attr_ok (AString s) = valid_utf8 s"
| "attr_ok (ABool b) = True"

lemma ParseInt_show: "int64 n \<Longrightarrow> ParseInt (show_int n) = Some n"
proof (cases "n < 0")
  case True
  assume "int64 n"
  then show ?thesis using True
    by (simp add: ParseInt_def fmt_int_def zero_pad_def read_digits_show_nat)
next
  case False
  assume "int64 n"
  have "is_digit (hd (show_nat (nat n)))" using show_nat_digits [OF hd_in_set] by simp
  then have "hd (show_nat (nat n)) \<noteq> CHR ''-''" "hd (show_nat (nat n)) \<noteq> CHR ''+''"
    by (auto simp: is_digit_def digits_def)
  moreover obtain c cs where "show_nat (nat n) = c # cs" using show_nat_nonempty by (meson list.exhaust)
  ultimately show ?thesis using False \<open>int64 n\<close> read_digits_show_nat [of "nat n"]
    by (simp add: ParseInt_def fmt_int_def zero_pad_def)
qed

lemma decodeOneAttr_written:
  "attr_ok v \<Longrightarrow> decodeOneAttr \<lparr>fa_key = k, fa_kind = attr_kind v, fa_value = coerce_utf8 (stringifyValue v)\<rparr> = (k, v)"
  by (cases v) (simp_all add: decodeOneAttr_def ParseInt_show ParseBool_def parse_rfc3339_text)

interpretation attrs_codec: codec EncodeAttrs "\<lambda>c. Inr (DecodeAttrs c)" "\<lambda>as. \<forall>(k, v) \<in> set as. valid_utf8 k \<and> attr_ok v"
proof
  show "Inr (DecodeAttrs (EncodeAttrs as)) = Inr as" if "\<forall>(k, v) \<in> set as. valid_utf8 k \<and> attr_ok v" for as
  proof -
    have "map (\<lambda>x. decodeOneAttr (case x of (k, v) \<Rightarrow>
        \<lparr>fa_key = coerce_utf8 k, fa_kind = attr_kind v, fa_value = coerce_utf8 (stringifyValue v)\<rparr>)) as = as"
      using that by (intro map_idI) (auto simp: decodeOneAttr_written)
    then show ?thesis by (simp add: EncodeAttrs_def DecodeAttrs_def comp_def)
  qed
qed

text \<open>The attributes a reader of the column finds, whatever their texts.\<close>

definition stored_attrs :: "attr list \<Rightarrow> attr list" where
  "stored_attrs = map (\<lambda>(k, v). (coerce_utf8 k, case v of AString s \<Rightarrow> AString (coerce_utf8 s) | _ \<Rightarrow> v))"

lemma EncodeAttrs_stored: "EncodeAttrs (stored_attrs as) = EncodeAttrs as"
  by (auto simp: EncodeAttrs_def stored_attrs_def split: attr_value.splits)

end
