(* ===== verification/SnipeStore.thy ===== *)
theory SnipeStore
  imports StoreCodec "HOL-Library.List_Lexorder" "HOL-Library.Char_ord"
begin

text \<open>
  The SQLite store of snipes, events, sessions, venues and observed release times
  (\<^verbatim>\<open>store/sqlite.go\<close>). A table is the list of its rows in row-id order; JSON columns hold
  documents, timestamp columns hold text. Every operation takes the outcomes of the
  statements it executes: statement \<open>n\<close> of the call succeeds when \<open>io n = None\<close> and otherwise
  reports \<open>io n\<close> (a cancelled context or a driver error); a failed statement applies nothing
  and the deferred rollback discards what the transaction did before it.
\<close>

type_synonym io = "nat \<Rightarrow> store_error option"

abbreviation io_ok :: io where
  "io_ok \<equiv> (\<lambda>_. None)"

record snipe_row =
  r_id :: snipe_id
  r_intent_hash :: intent_hash
  r_intent_json :: json
  r_status :: string
  r_scheduled_at :: "string option"
  r_result_json :: "json option"
  r_created_at :: string
  r_updated_at :: string

text \<open>\<^verbatim>\<open>events.id\<close> is an AUTOINCREMENT key: row order is id order.\<close>

record event_row =
  er_snipe_id :: snipe_id
  er_type :: string
  er_at :: string
  er_fields :: "flatAttr list option"

record account_row =
  a_id :: account_id
  a_user_id :: "user_id option"
  a_resy_email :: string
  a_display_name :: string
  a_created_at :: int

record session_row =
  sr_account_id :: account_id
  sr_provider :: provider_id
  sr_jwt :: string
  sr_exp :: string
  sr_created_at :: string
  sr_updated_at :: string

record venue_row =
  vrow_provider :: provider_id
  vrow_ref :: string
  vrow_name :: string
  vrow_tz :: string

record observed_row =
  or_provider :: provider_id
  or_venue_ref :: string
  or_local_time :: string
  or_days_offset :: int
  or_observed_at :: string

text \<open>\<open>db_fk\<close> says whether the connection in use enforces foreign keys: the pragma is set
  once, on one connection of the pool.\<close>

record db =
  db_snipes :: "snipe_row list"
  db_events :: "event_row list"
  db_accounts :: "account_row list"
  db_sessions :: "session_row list"
  db_venues :: "venue_row list"
  db_observed :: "observed_row list"
  db_fk :: bool

record SessionRow =
  se_user :: user_id
  se_provider :: provider_id
  se_jwt :: string
  se_expires_at :: instant
  se_created_at :: instant
  se_updated_at :: instant

record ObservedRelease =
  ob_venue :: venue_ref
  ob_local_time :: walltime
  ob_days_offset :: int
  ob_observed_at :: instant

section \<open>Snipes\<close>

definition CreateSnipe :: "(string \<Rightarrow> string) \<Rightarrow> io \<Rightarrow> snipe_state \<Rightarrow> db \<Rightarrow> store_error option \<times> db" where
  "CreateSnipe sha io s d =
     (case MarshalIntent (s_intent s) of Inl e \<Rightarrow> (Some e, d) | Inr ij \<Rightarrow>
      case MarshalResult (s_result s) of Inl e \<Rightarrow> (Some e, d) | Inr rj \<Rightarrow>
      case io 0 of Some e \<Rightarrow> (Some e, d) | None \<Rightarrow>
      if s_id s \<in> r_id ` set (db_snipes d) then (Some (ErrConstraint ''snipes.id''), d)
      else (None, d\<lparr>db_snipes := db_snipes d @
        [\<lparr>r_id = s_id s, r_intent_hash = Hash sha (s_intent s), r_intent_json = ij,
          r_status = status_string (s_status s), r_scheduled_at = nullableTime (s_scheduled_at s),
          r_result_json = rj, r_created_at = formatTime (s_created_at s),
          r_updated_at = formatTime (s_updated_at s)\<rparr>]\<rparr>))"

definition scanSnipeRow :: "snipe_row \<Rightarrow> store_error + snipe_state" where
  "scanSnipeRow r =
     bind_result (UnmarshalIntent (r_intent_json r)) (\<lambda>i.
     bind_result (parseStatus (r_status r)) (\<lambda>st.
     bind_result (parseTime (r_created_at r)) (\<lambda>created.
     bind_result (parseTime (r_updated_at r)) (\<lambda>updated.
     bind_result (parse_nullable (r_scheduled_at r)) (\<lambda>sched.
     bind_result (UnmarshalResult (r_result_json r)) (\<lambda>res.
       forceStatus ((NewSnipeState (r_id r) i created)
         \<lparr>s_updated_at := updated, s_scheduled_at := sched, s_result := res\<rparr>) st))))))"

definition find_snipe :: "snipe_id \<Rightarrow> db \<Rightarrow> snipe_row option" where
  "find_snipe sid d = find (\<lambda>r. r_id r = sid) (db_snipes d)"

definition GetSnipe :: "io \<Rightarrow> snipe_id \<Rightarrow> db \<Rightarrow> store_error + snipe_state" where
  "GetSnipe io sid d = (case io 0 of Some e \<Rightarrow> Inl e
     | None \<Rightarrow> (case find_snipe sid d of None \<Rightarrow> Inl ErrNotFound | Some r \<Rightarrow> scanSnipeRow r))"

definition set_columns :: "(string \<Rightarrow> string) \<Rightarrow> snipe_state \<Rightarrow> json \<Rightarrow> json option \<Rightarrow> snipe_row \<Rightarrow> snipe_row" where
  "set_columns sha s ij rj r =
     r\<lparr>r_intent_hash := Hash sha (s_intent s), r_intent_json := ij,
       r_status := status_string (s_status s), r_scheduled_at := nullableTime (s_scheduled_at s),
       r_result_json := rj, r_updated_at := formatTime (s_updated_at s)\<rparr>"

definition update_row :: "(string \<Rightarrow> string) \<Rightarrow> snipe_state \<Rightarrow> json \<Rightarrow> json option \<Rightarrow> db \<Rightarrow> db" where
  "update_row sha s ij rj d = d\<lparr>db_snipes :=
     map (\<lambda>r. if r_id r = s_id s then set_columns sha s ij rj r else r) (db_snipes d)\<rparr>"

definition rows_affected :: "snipe_id \<Rightarrow> db \<Rightarrow> nat" where
  "rows_affected sid d = length (filter (\<lambda>r. r_id r = sid) (db_snipes d))"

definition UpdateSnipe :: "(string \<Rightarrow> string) \<Rightarrow> io \<Rightarrow> snipe_state \<Rightarrow> db \<Rightarrow> store_error option \<times> db" where
  "UpdateSnipe sha io s d =
     (case MarshalIntent (s_intent s) of Inl e \<Rightarrow> (Some e, d) | Inr ij \<Rightarrow>
      case MarshalResult (s_result s) of Inl e \<Rightarrow> (Some e, d) | Inr rj \<Rightarrow>
      case io 0 of Some e \<Rightarrow> (Some e, d) | None \<Rightarrow>
      if rows_affected (s_id s) d = 0 then (Some ErrNotFound, d)
      else (None, update_row sha s ij rj d))"

definition ListSnipesByStatus :: "io \<Rightarrow> status \<Rightarrow> db \<Rightarrow> store_error + snipe_state list" where
  "ListSnipesByStatus io st d = (case io 0 of Some e \<Rightarrow> Inl e | None \<Rightarrow>
     map_result scanSnipeRow
       (sort_key r_created_at (filter (\<lambda>r. r_status r = status_string st) (db_snipes d))))"

section \<open>Events\<close>

definition insert_event :: "snipe_id \<Rightarrow> event \<Rightarrow> db \<Rightarrow> store_error option \<times> db" where
  "insert_event sid ev d =
     (if db_fk d \<and> sid \<notin> r_id ` set (db_snipes d) then (Some (ErrConstraint ''events.snipe_id''), d)
      else (None, d\<lparr>db_events := db_events d @
        [\<lparr>er_snipe_id = sid, er_type = ev_type ev, er_at = formatTime (ev_at ev),
          er_fields = EncodeAttrs (ev_attrs ev)\<rparr>]\<rparr>))"

text \<open>The transaction: statement 0 is BEGIN, 1 the UPDATE, 2 the INSERT, 3 the COMMIT.\<close>

definition TransitionSnipe :: "(string \<Rightarrow> string) \<Rightarrow> io \<Rightarrow> snipe_state \<Rightarrow> event \<Rightarrow> db
    \<Rightarrow> store_error option \<times> db" where
  "TransitionSnipe sha io s ev d =
     (case MarshalIntent (s_intent s) of Inl e \<Rightarrow> (Some e, d) | Inr ij \<Rightarrow>
      case MarshalResult (s_result s) of Inl e \<Rightarrow> (Some e, d) | Inr rj \<Rightarrow>
      case io 0 of Some e \<Rightarrow> (Some e, d) | None \<Rightarrow>
      case io 1 of Some e \<Rightarrow> (Some e, d) | None \<Rightarrow>
      if rows_affected (s_id s) d = 0 then (Some ErrNotFound, d)
      else case io 2 of Some e \<Rightarrow> (Some e, d) | None \<Rightarrow>
      case insert_event (s_id s) ev (update_row sha s ij rj d) of
        (Some e, _) \<Rightarrow> (Some e, d)
      | (None, d2) \<Rightarrow> (case io 3 of Some e \<Rightarrow> (Some e, d) | None \<Rightarrow> (None, d2)))"

definition AppendEvent :: "io \<Rightarrow> snipe_id \<Rightarrow> event \<Rightarrow> db \<Rightarrow> store_error option \<times> db" where
  "AppendEvent io sid ev d = (case io 0 of Some e \<Rightarrow> (Some e, d) | None \<Rightarrow> insert_event sid ev d)"

definition scan_event :: "event_row \<Rightarrow> store_error + event" where
  "scan_event r = bind_result (parseTime (er_at r)) (\<lambda>t.
     Inr \<lparr>ev_type = er_type r, ev_at = t, ev_attrs = DecodeAttrs (er_fields r)\<rparr>)"

definition ListEventsBySnipe :: "io \<Rightarrow> snipe_id \<Rightarrow> db \<Rightarrow> store_error + event list" where
  "ListEventsBySnipe io sid d = (case io 0 of Some e \<Rightarrow> Inl e | None \<Rightarrow>
     map_result scan_event (filter (\<lambda>r. er_snipe_id r = sid) (db_events d)))"

section \<open>Sessions\<close>

definition legacy_account :: "user_id \<Rightarrow> account_id" where
  "legacy_account u = ''acct_legacy_'' @ u"

definition ensure_account :: "SessionRow \<Rightarrow> db \<Rightarrow> store_error + (account_id \<times> db)" where
  "ensure_account sess d =
     (case find (\<lambda>a. a_user_id a = None \<and> a_resy_email a = se_user sess) (db_accounts d) of
        Some a \<Rightarrow> Inr (a_id a, d)
      | None \<Rightarrow> let aid = legacy_account (se_user sess) in
          if aid \<in> a_id ` set (db_accounts d) then Inl (ErrConstraint ''accounts.id'')
          else Inr (aid, d\<lparr>db_accounts := db_accounts d @
            [\<lparr>a_id = aid, a_user_id = None, a_resy_email = se_user sess, a_display_name = ''legacy-v1'',
              a_created_at = unix_milli (se_created_at sess)\<rparr>]\<rparr>))"

definition upsert_session_row :: "account_id \<Rightarrow> SessionRow \<Rightarrow> session_row list \<Rightarrow> session_row list" where
  "upsert_session_row aid sess rows =
     (if \<exists>r \<in> set rows. sr_account_id r = aid \<and> sr_provider r = se_provider sess
      then map (\<lambda>r. if sr_account_id r = aid \<and> sr_provider r = se_provider sess
             then r\<lparr>sr_jwt := se_jwt sess, sr_exp := formatTime (se_expires_at sess),
                    sr_updated_at := formatTime (se_updated_at sess)\<rparr> else r) rows
      else rows @ [\<lparr>sr_account_id = aid, sr_provider = se_provider sess, sr_jwt = se_jwt sess,
             sr_exp = formatTime (se_expires_at sess), sr_created_at = formatTime (se_created_at sess),
             sr_updated_at = formatTime (se_updated_at sess)\<rparr>])"

text \<open>Statement 0 is BEGIN, 1 the account lookup, 2 the account insert, 3 the session upsert,
  4 the COMMIT.\<close>

definition UpsertSession :: "io \<Rightarrow> SessionRow \<Rightarrow> db \<Rightarrow> store_error option \<times> db" where
  "UpsertSession io sess d =
     (case io 0 of Some e \<Rightarrow> (Some e, d) | None \<Rightarrow>
      case io 1 of Some e \<Rightarrow> (Some e, d) | None \<Rightarrow>
      case (if find (\<lambda>a. a_user_id a = None \<and> a_resy_email a = se_user sess) (db_accounts d) = None
            then io 2 else None) of Some e \<Rightarrow> (Some e, d) | None \<Rightarrow>
      case ensure_account sess d of Inl e \<Rightarrow> (Some e, d) | Inr (aid, d1) \<Rightarrow>
      case io 3 of Some e \<Rightarrow> (Some e, d) | None \<Rightarrow>
      case io 4 of Some e \<Rightarrow> (Some e, d) | None \<Rightarrow>
        (None, d1\<lparr>db_sessions := upsert_session_row aid sess (db_sessions d1)\<rparr>))"

text \<open>The join; \<^verbatim>\<open>QueryRow\<close> takes its first row. The query has no ORDER BY, so the order among several rows is
  SQLite's; the model takes that of the session rows, and what is shown of a lookup assumes a single one.\<close>

definition session_join :: "user_id \<Rightarrow> provider_id \<Rightarrow> db \<Rightarrow> (account_row \<times> session_row) list" where
  "session_join user prov d =
     concat (map (\<lambda>s. map (\<lambda>a. (a, s)) (filter (\<lambda>a. a_id a = sr_account_id s \<and> a_resy_email a = user
         \<and> sr_provider s = prov) (db_accounts d))) (db_sessions d))"

text \<open>An expired session is returned together with the error, as the code does.\<close>

definition GetSession :: "io \<Rightarrow> user_id \<Rightarrow> provider_id \<Rightarrow> instant \<Rightarrow> db
    \<Rightarrow> SessionRow option \<times> store_error option" where
  "GetSession io user prov now d = (case io 0 of Some e \<Rightarrow> (None, Some e) | None \<Rightarrow>
     (case session_join user prov d of [] \<Rightarrow> (None, Some ErrNotFound)
      | (a, s) # _ \<Rightarrow>
        (case bind_result (parseTime (sr_exp s)) (\<lambda>ex.
              bind_result (parseTime (sr_created_at s)) (\<lambda>cr.
              bind_result (parseTime (sr_updated_at s)) (\<lambda>up.
                Inr \<lparr>se_user = a_resy_email a, se_provider = sr_provider s, se_jwt = sr_jwt s,
                     se_expires_at = ex, se_created_at = cr, se_updated_at = up\<rparr>))) of
           Inl e \<Rightarrow> (None, Some e)
         | Inr out \<Rightarrow> (Some out,
             if \<not> is_zero (se_expires_at out) \<and> \<not> se_expires_at out > now
             then Some ErrSessionExpired else None))))"

definition DeleteSession :: "io \<Rightarrow> user_id \<Rightarrow> provider_id \<Rightarrow> db \<Rightarrow> store_error option \<times> db" where
  "DeleteSession io user prov d = (case io 0 of Some e \<Rightarrow> (Some e, d) | None \<Rightarrow>
     (None, d\<lparr>db_sessions := filter (\<lambda>s. \<not> (sr_provider s = prov \<and>
        sr_account_id s \<in> set (map a_id (filter (\<lambda>a. a_resy_email a = user) (db_accounts d))))) (db_sessions d)\<rparr>))"

section \<open>Venues and observed release times\<close>

definition UpsertVenue :: "io \<Rightarrow> venue \<Rightarrow> db \<Rightarrow> store_error option \<times> db" where
  "UpsertVenue io v d =
     (case venue_validate v of Some e \<Rightarrow> (Some (ErrVenue e), d) | None \<Rightarrow>
      case io 0 of Some e \<Rightarrow> (Some e, d) | None \<Rightarrow>
      let row = \<lparr>vrow_provider = v_provider v, vrow_ref = v_ref v, vrow_name = v_name v,
                 vrow_tz = (case v_tz v of Some l \<Rightarrow> loc_name l | None \<Rightarrow> [])\<rparr>;
          same = (\<lambda>r. vrow_provider r = v_provider v \<and> vrow_ref r = v_ref v)
      in (None, d\<lparr>db_venues := (if list_ex same (db_venues d)
             then map (\<lambda>r. if same r then row else r) (db_venues d) else db_venues d @ [row])\<rparr>))"

text \<open>\<open>load_location\<close> is \<^verbatim>\<open>time.LoadLocation\<close> on the host's time-zone database.\<close>

definition GetVenue :: "(string \<Rightarrow> location option) \<Rightarrow> io \<Rightarrow> venue_ref \<Rightarrow> db \<Rightarrow> store_error + venue" where
  "GetVenue load_location io ref d = (case io 0 of Some e \<Rightarrow> Inl e | None \<Rightarrow>
     (case find (\<lambda>r. vrow_provider r = vr_provider ref \<and> vrow_ref r = vr_ref ref) (db_venues d) of
        None \<Rightarrow> Inl ErrNotFound
      | Some r \<Rightarrow> (case load_location (vrow_tz r) of None \<Rightarrow> Inl (ErrDecode (vrow_tz r))
          | Some l \<Rightarrow> Inr \<lparr>v_provider = vrow_provider r, v_ref = vrow_ref r, v_name = vrow_name r, v_tz = Some l\<rparr>)))"

definition UpsertObserved :: "io \<Rightarrow> ObservedRelease \<Rightarrow> db \<Rightarrow> store_error option \<times> db" where
  "UpsertObserved io ob d = (case io 0 of Some e \<Rightarrow> (Some e, d) | None \<Rightarrow>
     let row = \<lparr>or_provider = vr_provider (ob_venue ob), or_venue_ref = vr_ref (ob_venue ob),
                or_local_time = walltime_string (ob_local_time ob), or_days_offset = ob_days_offset ob,
                or_observed_at = formatTime (ob_observed_at ob)\<rparr>;
         same = (\<lambda>r. or_provider r = vr_provider (ob_venue ob) \<and> or_venue_ref r = vr_ref (ob_venue ob))
     in (None, d\<lparr>db_observed := (if list_ex same (db_observed d)
             then map (\<lambda>r. if same r then row else r) (db_observed d) else db_observed d @ [row])\<rparr>))"

definition GetObserved :: "io \<Rightarrow> venue_ref \<Rightarrow> db \<Rightarrow> store_error + ObservedRelease" where
  "GetObserved io ref d = (case io 0 of Some e \<Rightarrow> Inl e | None \<Rightarrow>
     (case find (\<lambda>r. or_provider r = vr_provider ref \<and> or_venue_ref r = vr_ref ref) (db_observed d) of
        None \<Rightarrow> Inl ErrNotFound
      | Some r \<Rightarrow>
          bind_result (map_err ErrDecode (ParseWallTime (or_local_time r))) (\<lambda>w.
          bind_result (parseTime (or_observed_at r)) (\<lambda>t.
            Inr \<lparr>ob_venue = \<lparr>vr_provider = or_provider r, vr_ref = or_venue_ref r\<rparr>, ob_local_time = w,
                 ob_days_offset = or_days_offset r, ob_observed_at = t\<rparr>))))"

end
