(* ===== verification/Goal.thy ===== *)
theory Goal
  imports Domain GoText
begin

text \<open>
  Goals (\<^verbatim>\<open>domain/goal.go\<close>): the three ways to point at a venue, the time window, the
  constraints, and the validation a goal passes before planning.
\<close>

datatype venue_query =
    VenueQueryURL (vq_url: string)
  | VenueQuerySlug (vq_slug: string) (vq_city: string)
  | VenueQueryName (vq_name: string)

fun venue_query_string :: "venue_query \<Rightarrow> string" where
  "venue_query_string (VenueQueryURL u) = ''url='' @ u"
| "venue_query_string (VenueQuerySlug s c) = ''slug='' @ s @ '' city='' @ c"
| "venue_query_string (VenueQueryName n) = ''name='' @ n"

text \<open>The three constants of the type.\<close>

datatype time_priority = PriorityNone | PriorityEarlier | PriorityLater

fun priority_string :: "time_priority \<Rightarrow> string" where
  "priority_string PriorityEarlier = ''earlier''"
| "priority_string PriorityLater = ''later''"
| "priority_string PriorityNone = ''none''"

record time_window =
  tw_start :: walltime
  tw_end :: walltime
  tw_priority :: time_priority

definition window_is_zero :: "time_window \<Rightarrow> bool" where
  "window_is_zero w \<longleftrightarrow> w = \<lparr>tw_start = WallTime 0 0 0, tw_end = WallTime 0 0 0, tw_priority = PriorityNone\<rparr>"

record constraints =
  ct_table_types :: "string list"
  ct_any_table :: bool

record goal =
  gl_venue_query :: "venue_query option"
  gl_date :: date
  gl_party :: int
  gl_time_prefs :: time_window
  gl_account :: account_id
  gl_constraints :: constraints

datatype goal_error =
    ErrGoalDateInPast | ErrGoalDateZero | ErrGoalPartyNonPositive | ErrGoalTimeWindowEmpty
  | ErrGoalTimeWindowInverted | ErrGoalVenueQueryMissing | ErrGoalVenueQueryHost | ErrGoalAccountMissing
  | ErrGoalInvalidURL

definition resyHosts :: "string list" where
  "resyHosts = [''resy.com'', ''www.resy.com'']"

fun validateVenueQuery :: "(string \<Rightarrow> string) \<Rightarrow> venue_query \<Rightarrow> goal_error option" where
  "validateVenueQuery uni (VenueQueryURL u) =
     (if TrimSpace u = [] then Some ErrGoalVenueQueryMissing
      else case url_Parse u of None \<Rightarrow> Some ErrGoalInvalidURL
      | Some p \<Rightarrow> if ToLower uni (Hostname p) \<notin> set resyHosts then Some ErrGoalVenueQueryHost else None)"
| "validateVenueQuery uni (VenueQuerySlug s c) =
     (if TrimSpace s = [] \<or> TrimSpace c = [] then Some ErrGoalVenueQueryMissing else None)"
| "validateVenueQuery uni (VenueQueryName n) =
     (if TrimSpace n = [] then Some ErrGoalVenueQueryMissing else None)"

definition todayStart :: "instant \<Rightarrow> instant" where
  "todayStart now = (case date_in now utc of (y, m, d) \<Rightarrow> go_date y m d 0 0 0 0 utc)"

definition goal_Validate :: "(string \<Rightarrow> string) \<Rightarrow> goal \<Rightarrow> instant \<Rightarrow> goal_error option" where
  "goal_Validate uni g now =
     (case gl_venue_query g of None \<Rightarrow> Some ErrGoalVenueQueryMissing
      | Some q \<Rightarrow>
        (case validateVenueQuery uni q of Some e \<Rightarrow> Some e
         | None \<Rightarrow>
           if gl_account g = [] then Some ErrGoalAccountMissing
           else if date_is_zero (gl_date g) then Some ErrGoalDateZero
           else if date_at (gl_date g) utc < todayStart now then Some ErrGoalDateInPast
           else if gl_party g \<le> 0 then Some ErrGoalPartyNonPositive
           else if window_is_zero (gl_time_prefs g) then Some ErrGoalTimeWindowEmpty
           else if wallTimeAfter (tw_start (gl_time_prefs g)) (tw_end (gl_time_prefs g)) then Some ErrGoalTimeWindowInverted
           else None))"

fun join_with :: "string \<Rightarrow> string list \<Rightarrow> string" where
  "join_with sep [] = []"
| "join_with sep [x] = x"
| "join_with sep (x # y # ys) = x @ sep @ join_with sep (y # ys)"

definition goal_String :: "goal \<Rightarrow> string" where
  "goal_String g =
     ''Goal{'' @ newline @
     (case gl_venue_query g of Some q \<Rightarrow> ''  venue:   '' @ venue_query_string q @ newline
        | None \<Rightarrow> ''  venue:   <nil>'' @ newline) @
     ''  date:    '' @ date_string (gl_date g) @ newline @
     ''  party:   '' @ show_int (gl_party g) @ newline @
     ''  window:  '' @ walltime_string (tw_start (gl_time_prefs g)) @ ''..'' @ walltime_string (tw_end (gl_time_prefs g)) @
       '' priority='' @ priority_string (tw_priority (gl_time_prefs g)) @ newline @
     ''  account: '' @ gl_account g @ newline @
     (if ct_table_types (gl_constraints g) \<noteq> [] then ''  tables:  '' @ join_with '','' (ct_table_types (gl_constraints g)) @ newline else []) @
     (if ct_any_table (gl_constraints g) then ''  tables:  <any>'' @ newline else []) @ ''}''"

section \<open>Facts\<close>

text \<open>The start of today in UTC is the last midnight.\<close>

lemma todayStart_midnight: "todayStart now = 86400 * second * (now div (86400 * second))"
proof -
  obtain y m d where c: "civil_from_days (now div second div 86400) = (y, m, d)" by (metis prod_cases3)
  have "now div second div 86400 = now div (86400 * second)"
    by (subst zdiv_zmult2_eq [symmetric]) (simp_all add: second_def)
  then show ?thesis
    using days_from_civil_from_days [OF c] c
    by (simp add: todayStart_def date_in_def wall_secs_def go_date_def)
qed

lemma goal_Validate_None:
  "goal_Validate uni g now = None \<longleftrightarrow>
   (\<exists>q. gl_venue_query g = Some q \<and> validateVenueQuery uni q = None) \<and> gl_account g \<noteq> [] \<and>
   \<not> date_is_zero (gl_date g) \<and> todayStart now \<le> date_at (gl_date g) utc \<and> 0 < gl_party g \<and>
   \<not> window_is_zero (gl_time_prefs g) \<and> tw_start (gl_time_prefs g) \<le> tw_end (gl_time_prefs g)"
  by (auto simp: goal_Validate_def less_eq_walltime_def split: option.splits)

end
