(* ===== verification/Plan.thy ===== *)
theory Plan
  imports Goal Utf8 "HOL-Library.List_Lexorder" "HOL-Library.Char_ord"
begin

text \<open>
  Plans and their hash (\<^verbatim>\<open>domain/plan.go\<close>): the canonical JSON text of the fields the engine
  uses, written byte by byte as \<^verbatim>\<open>writeCanonical\<close> and \<^verbatim>\<open>json.Marshal\<close> do, and the digest of that
  text.
\<close>

section \<open>JSON strings\<close>

definition hex_char :: "nat \<Rightarrow> char" where
  "hex_char n = ''0123456789abcdef'' ! n"

definition hex_val :: "char \<Rightarrow> nat" where
  "hex_val c = index_of c ''0123456789abcdef''"

definition short_escapes :: "(char \<times> char) list" where
  "short_escapes = [(CHR 0x22, CHR 0x22), (CHR 0x5C, CHR 0x5C), (CHR 0x08, CHR ''b''), (CHR 0x0C, CHR ''f''),
     (CHR 0x0A, CHR ''n''), (CHR 0x0D, CHR ''r''), (CHR 0x09, CHR ''t'')]"

definition json_esc :: "char \<Rightarrow> string" where
  "json_esc c = (case map_of short_escapes c of
       Some d \<Rightarrow> [CHR 0x5C, d]
     | None \<Rightarrow> if byte c < 32 \<or> c \<in> set ''<>&''
         then [CHR 0x5C, CHR ''u'', CHR ''0'', CHR ''0'', hex_char (byte c div 16), hex_char (byte c mod 16)]
         else [c])"

function json_body :: "string \<Rightarrow> string" where
  "json_body [] = []"
| "json_body (c # r) =
     (if byte c < 128 then json_esc c @ json_body r
      else case utf8_len (c # r) of
        None \<Rightarrow> CHR 0x5C # ''ufffd'' @ json_body r
      | Some n \<Rightarrow> (if take 3 (c # r) = [CHR 0xE2, CHR 0x80, CHR 0xA8] then CHR 0x5C # ''u2028''
                   else if take 3 (c # r) = [CHR 0xE2, CHR 0x80, CHR 0xA9] then CHR 0x5C # ''u2029''
                   else take n (c # r)) @ json_body (drop (n - 1) r))"
  by pat_completeness auto
termination by (relation "measure length") auto

definition json_string :: "string \<Rightarrow> string" where
  "json_string s = CHR 0x22 # json_body s @ [CHR 0x22]"

section \<open>Canonical values\<close>

datatype canon =
    CMap "(string \<times> canon) list" | CList "canon list" | CStrings "string list" | CStr string | CInt int | CBool bool

fun writeCanonical :: "canon \<Rightarrow> string" where
  "writeCanonical (CMap kvs) = ''{'' @ join_with '','' (map (\<lambda>(k, t). json_string k @ '':'' @ t)
     (sort_key fst (map (\<lambda>(k, v). (k, writeCanonical v)) kvs))) @ ''}''"
| "writeCanonical (CList xs) = ''['' @ join_with '','' (map writeCanonical xs) @ '']''"
| "writeCanonical (CStrings xs) = ''['' @ join_with '','' (map json_string xs) @ '']''"
| "writeCanonical (CStr s) = json_string s"
| "writeCanonical (CInt n) = show_int n"
| "writeCanonical (CBool b) = (if b then ''true'' else ''false'')"

definition canonicalVenueQuery :: "venue_query option \<Rightarrow> canon" where
  "canonicalVenueQuery q = (case q of
       Some (VenueQueryURL u) \<Rightarrow> CMap [(''kind'', CStr ''url''), (''url'', CStr u)]
     | Some (VenueQuerySlug s c) \<Rightarrow> CMap [(''kind'', CStr ''slug''), (''slug'', CStr s), (''city'', CStr c)]
     | Some (VenueQueryName n) \<Rightarrow> CMap [(''kind'', CStr ''name''), (''name'', CStr n)]
     | None \<Rightarrow> CMap [(''kind'', CStr ''nil'')])"

definition canonicalConstraints :: "constraints \<Rightarrow> canon" where
  "canonicalConstraints c = CMap [(''table_types'', CStrings (sort (ct_table_types c))), (''any_table'', CBool (ct_any_table c))]"

definition canonicalGoal :: "goal \<Rightarrow> canon" where
  "canonicalGoal g = CMap
     [(''venue_query'', canonicalVenueQuery (gl_venue_query g)),
      (''date'', CStr (date_string (gl_date g))),
      (''party'', CInt (gl_party g)),
      (''time_prefs'', CMap [(''start'', CStr (walltime_string (tw_start (gl_time_prefs g)))),
         (''end'', CStr (walltime_string (tw_end (gl_time_prefs g)))),
         (''priority'', CStr (priority_string (tw_priority (gl_time_prefs g))))]),
      (''account_id'', CStr (gl_account g)),
      (''constraints'', canonicalConstraints (gl_constraints g))]"

definition canonicalVenue :: "venue \<Rightarrow> canon" where
  "canonicalVenue v = CMap [(''provider'', CStr (v_provider v)), (''ref'', CStr (v_ref v)),
     (''tz'', CStr (case v_tz v of None \<Rightarrow> [] | Some l \<Rightarrow> loc_name l))]"

definition canonicalStrategy :: "release_strategy option \<Rightarrow> canon" where
  "canonicalStrategy r = (case r of
       None \<Rightarrow> CMap [(''tag'', CStr ''nil'')]
     | Some (ExplicitRelease at) \<Rightarrow> CMap [(''tag'', CStr ''explicit''), (''at'', CStr (utcNanos at))]
     | Some (DiscoveredRelease f u) \<Rightarrow> CMap [(''tag'', CStr ''discovered''), (''probe_from'', CStr (utcNanos f)), (''probe_until'', CStr (utcNanos u))]
     | Some (ContinuousRelease u) \<Rightarrow> CMap [(''tag'', CStr ''continuous''), (''until'', CStr (utcNanos u))])"

definition canonicalTimes :: "instant list \<Rightarrow> canon" where
  "canonicalTimes ts = CStrings (map utcNanos ts)"

section \<open>Plans\<close>

record plan =
  pl_goal :: goal
  pl_venue :: venue
  pl_drop_moment :: instant
  pl_strategy :: "release_strategy option"
  pl_fire_schedule :: "instant list"
  pl_signing_required :: bool
  pl_hash :: string
  pl_notes :: "string list"
  pl_hash_version :: int
  pl_computed_at :: instant

definition PlanHashVersionV1 :: int where
  "PlanHashVersionV1 = 1"

definition planHashVersion :: "plan \<Rightarrow> int" where
  "planHashVersion p = (if pl_hash_version p \<le> 0 then PlanHashVersionV1 else pl_hash_version p)"

definition canonicalPayload :: "plan \<Rightarrow> canon" where
  "canonicalPayload p = CMap
     [(''goal'', canonicalGoal (pl_goal p)),
      (''venue'', canonicalVenue (pl_venue p)),
      (''drop_moment'', CStr (utcNanos (pl_drop_moment p))),
      (''strategy'', canonicalStrategy (pl_strategy p)),
      (''fire_schedule'', canonicalTimes (pl_fire_schedule p)),
      (''signing_required'', CBool (pl_signing_required p))]"

definition CanonicalBytes :: "plan \<Rightarrow> string" where
  "CanonicalBytes p = writeCanonical (CMap [(''plan_hash_version'', CInt (planHashVersion p)), (''payload'', canonicalPayload p)])"

definition ComputeHash :: "(string \<Rightarrow> string) \<Rightarrow> plan \<Rightarrow> string" where
  "ComputeHash sha p = ''sha256:'' @ sha (CanonicalBytes p)"

definition WithHash :: "(string \<Rightarrow> string) \<Rightarrow> plan \<Rightarrow> plan" where
  "WithHash sha p = p\<lparr>pl_hash := ComputeHash sha p\<rparr>"

end
