(* ===== verification/PlanText.thy ===== *)
theory PlanText
  imports Plan
begin

text \<open>
  The canonical text of a plan is unambiguous: an escaped string ends at its quote, a value is
  complete where the next mark begins, and so the text determines every field it is written
  from. The interface \<open>prefix_code\<close> is a writer whose output can be split off a text.
\<close>

section \<open>The text is unambiguous\<close>

text \<open>Reading one escaped byte back.\<close>

definition read_esc :: "string \<Rightarrow> (char \<times> string) option" where
  "read_esc s = (case s of [] \<Rightarrow> None
     | c # r \<Rightarrow> if c = CHR 0x22 then None
        else if c \<noteq> CHR 0x5C then Some (c, r)
        else (case r of [] \<Rightarrow> None
          | d # r' \<Rightarrow>
             if d = CHR ''u'' then (case r' of z # z' # h # l # r'' \<Rightarrow> Some (char_of (16 * hex_val h + hex_val l), r'') | _ \<Rightarrow> None)
             else map_option (\<lambda>c. (c, r')) (map_of (map (\<lambda>(a, b). (b, a)) short_escapes) d)))"

lemma hex_val_char [simp]: "n < 16 \<Longrightarrow> hex_val (hex_char n) = n"
proof -
  have "list_all (\<lambda>n. hex_val (hex_char n) = n) [0..<16]" by code_simp
  then show "n < 16 \<Longrightarrow> ?thesis" by (simp add: list_all_iff)
qed

lemma read_json_esc: "byte c < 128 \<Longrightarrow> read_esc (json_esc c @ r) = Some (c, r)"
proof (cases "map_of short_escapes c")
  case None
  then have "c \<noteq> CHR 0x22" "c \<noteq> CHR 0x5C" by (auto simp: short_escapes_def)
  moreover have "char_of (16 * (byte c div 16) + byte c mod 16) = c" by (simp add: byte_def)
  moreover assume "byte c < 128"
  ultimately show ?thesis using None by (simp add: json_esc_def read_esc_def)
next
  case (Some d)
  then have "(c, d) \<in> set short_escapes" by (rule map_of_SomeD)
  then show ?thesis using Some by (auto simp: json_esc_def read_esc_def short_escapes_def)
qed

lemma json_esc_inject:
  assumes "byte c < 128" "byte d < 128" "json_esc c @ r = json_esc d @ s"
  shows "c = d \<and> r = s"
  using read_json_esc [OF assms(1), of r] read_json_esc [OF assms(2), of s] unfolding assms(3) by simp

lemma json_esc_no_quote: "byte c < 128 \<Longrightarrow> json_esc c @ r \<noteq> CHR 0x22 # s"
  using read_json_esc [of c r] by (auto simp: read_esc_def)

lemma json_body_inject:
  "ascii a \<Longrightarrow> ascii b \<Longrightarrow> json_body a @ CHR 0x22 # r = json_body b @ CHR 0x22 # s \<Longrightarrow> a = b \<and> r = s"
proof (induction a arbitrary: b)
  case Nil
  show ?case
  proof (cases b)
    case (Cons d b')
    then have "json_esc d @ (json_body b' @ CHR 0x22 # s) = CHR 0x22 # r" "byte d < 128"
      using Nil.prems by (simp_all add: ascii_def)
    then show ?thesis using json_esc_no_quote by blast
  qed (use Nil in simp)
next
  case (Cons c a)
  have c: "byte c < 128" "ascii a" using Cons.prems(1) by (simp_all add: ascii_def)
  show ?case
  proof (cases b)
    case Nil
    then have "json_esc c @ (json_body a @ CHR 0x22 # r) = CHR 0x22 # s" using Cons.prems(3) c by simp
    then show ?thesis using json_esc_no_quote c(1) by blast
  next
    case (Cons d b')
    have d: "byte d < 128" "ascii b'" using Cons Cons.prems(2) by (simp_all add: ascii_def)
    have "json_esc c @ (json_body a @ CHR 0x22 # r) = json_esc d @ (json_body b' @ CHR 0x22 # s)"
      using Cons.prems(3) Cons c d by simp
    from json_esc_inject [OF c(1) d(1) this] Cons.IH [OF c(2) d(2)] Cons show ?thesis by simp
  qed
qed

section \<open>Values written one after the other\<close>

text \<open>What may follow a value in a canonical text: not a digit, so that a number is complete.\<close>

definition closed_by :: "string \<Rightarrow> bool" where
  "closed_by s \<longleftrightarrow> (s = [] \<or> \<not> is_digit (hd s))"

lemma closed_by_simps [simp]: "closed_by []" "closed_by (c # s) \<longleftrightarrow> \<not> is_digit c"
  by (simp_all add: closed_by_def)

text \<open>A writer whose output determines the value and the rest of the text.\<close>

locale prefix_code =
  fixes enc :: "'a \<Rightarrow> string" and ok :: "'a \<Rightarrow> bool"
  assumes split: "\<lbrakk>ok x; ok y; closed_by s; closed_by t; enc x @ s = enc y @ t\<rbrakk> \<Longrightarrow> x = y \<and> s = t"
    and starts: "ok x \<Longrightarrow> enc x \<noteq> [] \<and> hd (enc x) \<noteq> CHR '']'' \<and> hd (enc x) \<noteq> CHR ''}''"
begin

lemma enc_inject: "ok x \<Longrightarrow> ok y \<Longrightarrow> enc x = enc y \<Longrightarrow> x = y"
  using split [of x y "[]" "[]"] by simp

lemma join_split:
  assumes "\<forall>x \<in> set xs. ok x" "\<forall>y \<in> set ys. ok y" and e: "e \<in> {CHR '']'', CHR ''}''}"
    and "join_with '','' (map enc xs) @ e # s = join_with '','' (map enc ys) @ e # t"
  shows "xs = ys \<and> s = t"
  using assms(1,2,4)
proof (induction xs arbitrary: ys)
  case Nil
  show ?case
  proof (cases ys)
    case (Cons y ys')
    then obtain b where "join_with '','' (map enc ys) = enc y @ b" by (cases ys') auto
    then show ?thesis using Nil starts [of y] e Cons by (cases "enc y") auto
  qed (use Nil in simp)
next
  case (Cons x xs)
  show ?case
  proof (cases ys)
    case Nil
    then obtain b where "join_with '','' (map enc (x # xs)) = enc x @ b" by (cases xs) auto
    then show ?thesis using Nil Cons.prems starts [of x] e by (cases "enc x") auto
  next
    case (Cons y ys')
    let ?r = "\<lambda>zs s. (if zs = [] then e # s else CHR '','' # join_with '','' (map enc zs) @ e # s)"
    have j: "join_with '','' (map enc (z # zs)) @ e # s = enc z @ ?r zs s" for z zs s
      by (cases zs) auto
    have "enc x @ ?r xs s = enc y @ ?r ys' t" using Cons.prems(3) Cons j by metis
    then have "x = y \<and> ?r xs s = ?r ys' t"
      using split [of x y "?r xs s" "?r ys' t"] Cons.prems(1,2) Cons e by (auto simp: is_digit_def digits_def)
    then show ?thesis using Cons.IH [of ys'] Cons.prems(1,2) Cons e by (auto split: if_splits)
  qed
qed

end

interpretation string_code: prefix_code json_string ascii
proof
  show "x = y \<and> s = t" if "ascii x" "ascii y" "json_string x @ s = json_string y @ t" for x y s t
    using json_body_inject [of x y s t] that by (simp add: json_string_def)
  show "json_string x \<noteq> [] \<and> hd (json_string x) \<noteq> CHR '']'' \<and> hd (json_string x) \<noteq> CHR ''}''" for x by (simp add: json_string_def)
qed

lemma show_int_split:
  assumes "closed_by s" "closed_by t" "show_int m @ s = show_int n @ t"
  shows "m = n \<and> s = t"
proof -
  have pos: "us = vs \<and> a = b" if "closed_by a" "closed_by b" "us @ a = vs @ b" "\<forall>c \<in> set us. is_digit c" "\<forall>c \<in> set vs. is_digit c"
    for us vs a b :: string
    using that
  proof (induction us arbitrary: vs)
    case Nil then show ?case by (cases vs) auto
  next
    case (Cons u us) then show ?case by (cases vs) auto
  qed
  have dig: "\<forall>c \<in> set (show_nat k). is_digit c" for k using show_nat_digits by blast
  have minus: "show_nat k @ a \<noteq> CHR ''-'' # b" for k a b
    using dig [of k] show_nat_nonempty [of k] not_is_digit_minus by (cases "show_nat k") auto
  show ?thesis
  proof (cases "m < 0"; cases "n < 0")
    assume "m < 0" "n < 0"
    then show ?thesis using pos [OF assms(1,2), of "show_nat (nat (- m))" "show_nat (nat (- n))"] dig assms(3)
      by (auto simp: fmt_int_def zero_pad_def show_nat_inject eq_nat_nat_iff)
  next
    assume "\<not> m < 0" "\<not> n < 0"
    then show ?thesis using pos [OF assms(1,2), of "show_nat (nat m)" "show_nat (nat n)"] dig assms(3)
      by (auto simp: fmt_int_def zero_pad_def show_nat_inject eq_nat_nat_iff)
  qed (use minus assms(3) in \<open>auto simp: fmt_int_def zero_pad_def dest: sym\<close>)
qed

section \<open>The texts of the parts\<close>

definition field :: "string \<Rightarrow> string \<Rightarrow> string" where
  "field k v = json_string k @ '':'' @ v"

lemma venue_text:
  "writeCanonical (canonicalVenue v) = ''{'' @ field ''provider'' (json_string (v_provider v)) @ '','' @
     field ''ref'' (json_string (v_ref v)) @ '','' @
     field ''tz'' (json_string (case v_tz v of None \<Rightarrow> [] | Some l \<Rightarrow> loc_name l)) @ ''}''"
  by (simp add: canonicalVenue_def field_def less_char_def)

lemma constraints_text:
  "writeCanonical (canonicalConstraints c) = ''{'' @ field ''any_table'' (writeCanonical (CBool (ct_any_table c))) @ '','' @
     field ''table_types'' (writeCanonical (CStrings (sort (ct_table_types c)))) @ ''}''"
  by (simp add: canonicalConstraints_def field_def less_char_def)

lemma venue_query_text:
  "writeCanonical (canonicalVenueQuery q) = ''{'' @ (case q of
       Some (VenueQueryURL u) \<Rightarrow> field ''kind'' (json_string ''url'') @ '','' @ field ''url'' (json_string u)
     | Some (VenueQuerySlug s c) \<Rightarrow> field ''city'' (json_string c) @ '','' @ field ''kind'' (json_string ''slug'') @ '','' @
         field ''slug'' (json_string s)
     | Some (VenueQueryName n) \<Rightarrow> field ''kind'' (json_string ''name'') @ '','' @ field ''name'' (json_string n)
     | None \<Rightarrow> field ''kind'' (json_string ''nil'')) @ ''}''"
  by (simp add: canonicalVenueQuery_def field_def less_char_def split: option.split venue_query.split)

lemma strategy_text:
  "writeCanonical (canonicalStrategy r) = ''{'' @ (case r of
       None \<Rightarrow> field ''tag'' (json_string ''nil'')
     | Some (ExplicitRelease at) \<Rightarrow> field ''at'' (json_string (utcNanos at)) @ '','' @ field ''tag'' (json_string ''explicit'')
     | Some (DiscoveredRelease f u) \<Rightarrow> field ''probe_from'' (json_string (utcNanos f)) @ '','' @
         field ''probe_until'' (json_string (utcNanos u)) @ '','' @ field ''tag'' (json_string ''discovered'')
     | Some (ContinuousRelease u) \<Rightarrow> field ''tag'' (json_string ''continuous'') @ '','' @ field ''until'' (json_string (utcNanos u))) @ ''}''"
  by (simp add: canonicalStrategy_def field_def less_char_def split: option.split release_strategy.split)

lemma goal_text:
  "writeCanonical (canonicalGoal g) = ''{'' @ field ''account_id'' (json_string (gl_account g)) @ '','' @
     field ''constraints'' (writeCanonical (canonicalConstraints (gl_constraints g))) @ '','' @
     field ''date'' (json_string (date_string (gl_date g))) @ '','' @ field ''party'' (show_int (gl_party g)) @ '','' @
     field ''time_prefs'' (''{'' @ field ''end'' (json_string (walltime_string (tw_end (gl_time_prefs g)))) @ '','' @
       field ''priority'' (json_string (priority_string (tw_priority (gl_time_prefs g)))) @ '','' @
       field ''start'' (json_string (walltime_string (tw_start (gl_time_prefs g)))) @ ''}'') @ '','' @
     field ''venue_query'' (writeCanonical (canonicalVenueQuery (gl_venue_query g))) @ ''}''"
  by (simp add: canonicalGoal_def field_def less_char_def)

lemma bytes_text:
  "CanonicalBytes p = ''{'' @ field ''payload''
     (''{'' @ field ''drop_moment'' (json_string (utcNanos (pl_drop_moment p))) @ '','' @
       field ''fire_schedule'' (writeCanonical (canonicalTimes (pl_fire_schedule p))) @ '','' @
       field ''goal'' (writeCanonical (canonicalGoal (pl_goal p))) @ '','' @
       field ''signing_required'' (writeCanonical (CBool (pl_signing_required p))) @ '','' @
       field ''strategy'' (writeCanonical (canonicalStrategy (pl_strategy p))) @ '','' @
       field ''venue'' (writeCanonical (canonicalVenue (pl_venue p))) @ ''}'') @ '','' @
     field ''plan_hash_version'' (show_int (planHashVersion p)) @ ''}''"
  by (simp add: CanonicalBytes_def canonicalPayload_def field_def less_char_def del: writeCanonical.simps(6))

section \<open>The texts determine the parts\<close>

definition query_ok :: "venue_query option \<Rightarrow> bool" where
  "query_ok q = (case q of None \<Rightarrow> True | Some (VenueQueryURL u) \<Rightarrow> ascii u
     | Some (VenueQuerySlug s c) \<Rightarrow> ascii s \<and> ascii c | Some (VenueQueryName n) \<Rightarrow> ascii n)"

definition goal_text_ok :: "goal \<Rightarrow> bool" where
  "goal_text_ok g \<longleftrightarrow> query_ok (gl_venue_query g) \<and> ascii (gl_account g) \<and> list_all ascii (ct_table_types (gl_constraints g)) \<and>
     valid_date (gl_date g) \<and> valid_walltime (tw_start (gl_time_prefs g)) \<and> valid_walltime (tw_end (gl_time_prefs g))"

definition plan_text_ok :: "plan \<Rightarrow> bool" where
  "plan_text_ok p \<longleftrightarrow> goal_text_ok (pl_goal p) \<and> ascii (v_provider (pl_venue p)) \<and> ascii (v_ref (pl_venue p)) \<and>
     (case v_tz (pl_venue p) of None \<Rightarrow> True | Some l \<Rightarrow> ascii (loc_name l)) \<and>
     list_all rfc_range (pl_drop_moment p # pl_fire_schedule p) \<and> release_ok (pl_strategy p)"

lemma not_digit_marks [simp]: "\<not> is_digit CHR '',''" "\<not> is_digit CHR ''}''" "\<not> is_digit CHR '']''" "\<not> is_digit CHR '':''"
  by (simp_all add: is_digit_def digits_def)

lemma string_split: "json_string x @ s = json_string y @ t \<Longrightarrow> ascii x \<Longrightarrow> ascii y \<Longrightarrow> x = y \<and> s = t"
  using json_body_inject [of x y s t] by (simp add: json_string_def)

lemma field_split: "field k v @ s = field k' v' @ t \<Longrightarrow> ascii k \<Longrightarrow> ascii k' \<Longrightarrow> k = k' \<and> v @ s = v' @ t"
  using string_split [of k "'':'' @ v @ s" k' "'':'' @ v' @ t"] by (simp add: field_def)

lemmas text_split = field_split string_split

lemma bool_split: "writeCanonical (CBool a) @ s = writeCanonical (CBool b) @ t \<Longrightarrow> a = b \<and> s = t"
  by (auto split: if_splits)

lemma strings_split:
  "writeCanonical (CStrings xs) @ s = writeCanonical (CStrings ys) @ t \<Longrightarrow> list_all ascii xs \<Longrightarrow> list_all ascii ys \<Longrightarrow>
   xs = ys \<and> s = t"
  using string_code.join_split [of xs ys "CHR '']''" s t] by (simp add: list_all_iff)

lemma query_split:
  assumes "writeCanonical (canonicalVenueQuery q) @ s = writeCanonical (canonicalVenueQuery q') @ t" "query_ok q" "query_ok q'"
  shows "q = q' \<and> s = t"
  using assms unfolding venue_query_text query_ok_def
  by (auto simp: byte_def dest!: text_split split: option.splits venue_query.splits)

lemma strategy_split:
  assumes "writeCanonical (canonicalStrategy q) @ s = writeCanonical (canonicalStrategy q') @ t" "release_ok q" "release_ok q'"
  shows "q = q' \<and> s = t"
  using assms unfolding strategy_text release_ok_def
  by (auto simp: byte_def rfc3339nano_inject dest!: text_split split: option.splits release_strategy.splits)

lemma constraints_split:
  assumes "writeCanonical (canonicalConstraints c) @ s = writeCanonical (canonicalConstraints d) @ t"
    "list_all ascii (ct_table_types c)" "list_all ascii (ct_table_types d)"
  shows "ct_any_table c = ct_any_table d \<and> sort (ct_table_types c) = sort (ct_table_types d) \<and> s = t"
  using assms unfolding constraints_text
  by (auto simp: byte_def list_all_iff simp del: writeCanonical.simps dest!: text_split bool_split strings_split)

lemma venue_split:
  assumes "writeCanonical (canonicalVenue v) @ s = writeCanonical (canonicalVenue v') @ t"
    "ascii (v_provider v)" "ascii (v_ref v)" "case v_tz v of None \<Rightarrow> True | Some l \<Rightarrow> ascii (loc_name l)"
    "ascii (v_provider v')" "ascii (v_ref v')" "case v_tz v' of None \<Rightarrow> True | Some l \<Rightarrow> ascii (loc_name l)"
  shows "v_provider v = v_provider v' \<and> v_ref v = v_ref v' \<and>
    (case v_tz v of None \<Rightarrow> [] | Some l \<Rightarrow> loc_name l) = (case v_tz v' of None \<Rightarrow> [] | Some l \<Rightarrow> loc_name l) \<and> s = t"
  using assms unfolding venue_text
  by (auto simp: byte_def dest!: text_split split: option.splits)

lemma priority_split:
  "json_string (priority_string a) @ s = json_string (priority_string b) @ t \<Longrightarrow> a = b \<and> s = t"
  using string_split [of "priority_string a" s "priority_string b" t] by (cases a; cases b) (auto simp: byte_def)

lemma times_split:
  "writeCanonical (canonicalTimes xs) @ s = writeCanonical (canonicalTimes ys) @ t \<Longrightarrow> list_all rfc_range xs \<Longrightarrow>
   list_all rfc_range ys \<Longrightarrow> xs = ys \<and> s = t"
proof -
  assume a: "writeCanonical (canonicalTimes xs) @ s = writeCanonical (canonicalTimes ys) @ t" "list_all rfc_range xs" "list_all rfc_range ys"
  have "map utcNanos xs = map utcNanos ys \<and> s = t"
    using strings_split [of "map utcNanos xs" s "map utcNanos ys" t] a(1) by (simp add: canonicalTimes_def list_all_iff)
  moreover have "inj_on utcNanos (set xs \<union> set ys)"
    using a(2,3) by (auto simp: inj_on_def list_all_iff rfc3339nano_inject)
  ultimately show ?thesis using inj_on_map_eq_map by blast
qed

lemma field_split_same: "field k v @ s = field k v' @ t \<longleftrightarrow> v @ s = v' @ t"
  by (simp add: field_def)

text \<open>What the hash of a goal can tell: the table types only as a sorted list.\<close>

definition same_goal :: "goal \<Rightarrow> goal \<Rightarrow> bool" where
  "same_goal g h \<longleftrightarrow> gl_venue_query g = gl_venue_query h \<and> gl_date g = gl_date h \<and> gl_party g = gl_party h \<and>
     gl_time_prefs g = gl_time_prefs h \<and> gl_account g = gl_account h \<and>
     ct_any_table (gl_constraints g) = ct_any_table (gl_constraints h) \<and>
     mset (ct_table_types (gl_constraints g)) = mset (ct_table_types (gl_constraints h))"

lemma goal_split:
  assumes "writeCanonical (canonicalGoal g) @ s = writeCanonical (canonicalGoal h) @ t" "goal_text_ok g" "goal_text_ok h"
  shows "same_goal g h \<and> s = t"
proof -
  note ok = assms(2,3) [unfolded goal_text_ok_def]
  let ?query = "\<lambda>g s. writeCanonical (canonicalVenueQuery (gl_venue_query g)) @ ''}'' @ s"
  let ?party = "\<lambda>g s. show_int (gl_party g) @ '','' @
     field ''time_prefs'' (''{'' @ field ''end'' (json_string (walltime_string (tw_end (gl_time_prefs g)))) @ '','' @
       field ''priority'' (json_string (priority_string (tw_priority (gl_time_prefs g)))) @ '','' @
       field ''start'' (json_string (walltime_string (tw_start (gl_time_prefs g)))) @ ''}'') @ '','' @
     field ''venue_query'' (writeCanonical (canonicalVenueQuery (gl_venue_query g))) @ ''}'' @ s"
  let ?cons = "\<lambda>g s. writeCanonical (canonicalConstraints (gl_constraints g)) @ '','' @
     field ''date'' (json_string (date_string (gl_date g))) @ '','' @ field ''party'' (show_int (gl_party g)) @ '','' @
     field ''time_prefs'' (''{'' @ field ''end'' (json_string (walltime_string (tw_end (gl_time_prefs g)))) @ '','' @
       field ''priority'' (json_string (priority_string (tw_priority (gl_time_prefs g)))) @ '','' @
       field ''start'' (json_string (walltime_string (tw_start (gl_time_prefs g)))) @ ''}'') @ '','' @
     field ''venue_query'' (writeCanonical (canonicalVenueQuery (gl_venue_query g))) @ ''}'' @ s"
  have 1: "gl_account g = gl_account h" "?cons g s = ?cons h t"
    using assms(1) ok unfolding goal_text by (auto simp: field_split_same dest!: string_split)
  have 2: "ct_any_table (gl_constraints g) = ct_any_table (gl_constraints h)"
      "sort (ct_table_types (gl_constraints g)) = sort (ct_table_types (gl_constraints h))"
      "gl_date g = gl_date h" "?party g s = ?party h t"
    using constraints_split [OF 1(2)] ok by (auto simp: field_split_same date_codec.enc_inject dest!: string_split)
  have 3: "gl_party g = gl_party h" "tw_end (gl_time_prefs g) = tw_end (gl_time_prefs h)"
      "tw_priority (gl_time_prefs g) = tw_priority (gl_time_prefs h)" "tw_start (gl_time_prefs g) = tw_start (gl_time_prefs h)"
      "?query g s = ?query h t"
    using show_int_split [OF _ _ 2(4)] ok by (auto simp: field_split_same walltime_codec.enc_inject dest!: priority_split string_split)
  have 4: "gl_venue_query g = gl_venue_query h" "s = t" using query_split [OF 3(5)] ok by auto
  have "gl_time_prefs g = gl_time_prefs h" using 3 by (intro time_window.equality) simp_all
  moreover have "mset (ct_table_types (gl_constraints g)) = mset (ct_table_types (gl_constraints h))" using 2(2) mset_sort by metis
  ultimately show ?thesis using 1 2 3 4 unfolding same_goal_def by simp
qed

lemma bytes_drop:
  assumes "CanonicalBytes p = CanonicalBytes q"
  shows "utcNanos (pl_drop_moment p) = utcNanos (pl_drop_moment q)"
proof -
  have "\<exists>r r'. json_string (utcNanos (pl_drop_moment p)) @ r = json_string (utcNanos (pl_drop_moment q)) @ r'"
    using assms unfolding bytes_text by (simp add: field_split_same del: writeCanonical.simps) blast
  then show ?thesis using string_split ascii_times(1) by blast
qed

text \<open>What the hash of a plan covers.\<close>

definition same_plan :: "plan \<Rightarrow> plan \<Rightarrow> bool" where
  "same_plan p q \<longleftrightarrow> planHashVersion p = planHashVersion q \<and> same_goal (pl_goal p) (pl_goal q) \<and>
     v_provider (pl_venue p) = v_provider (pl_venue q) \<and> v_ref (pl_venue p) = v_ref (pl_venue q) \<and>
     (case v_tz (pl_venue p) of None \<Rightarrow> [] | Some l \<Rightarrow> loc_name l) = (case v_tz (pl_venue q) of None \<Rightarrow> [] | Some l \<Rightarrow> loc_name l) \<and>
     pl_drop_moment p = pl_drop_moment q \<and> pl_strategy p = pl_strategy q \<and> pl_fire_schedule p = pl_fire_schedule q \<and>
     pl_signing_required p = pl_signing_required q"

lemma CanonicalBytes_inject:
  assumes "CanonicalBytes p = CanonicalBytes q" "plan_text_ok p" "plan_text_ok q"
  shows "same_plan p q"
proof -
  note ok = assms(2,3) [unfolded plan_text_ok_def]
  let ?venue = "\<lambda>p. writeCanonical (canonicalVenue (pl_venue p)) @ ''}'' @ '','' @ field ''plan_hash_version'' (show_int (planHashVersion p)) @ ''}''"
  let ?signing = "\<lambda>p. writeCanonical (CBool (pl_signing_required p)) @ '','' @
       field ''strategy'' (writeCanonical (canonicalStrategy (pl_strategy p))) @ '','' @ field ''venue'' (?venue p)"
  let ?goal = "\<lambda>p. writeCanonical (canonicalGoal (pl_goal p)) @ '','' @ field ''signing_required'' (?signing p)"
  let ?times = "\<lambda>p. writeCanonical (canonicalTimes (pl_fire_schedule p)) @ '','' @ field ''goal'' (?goal p)"
  have bt: "CanonicalBytes p = ''{'' @ field ''payload'' (''{'' @ field ''drop_moment'' (json_string (utcNanos (pl_drop_moment p)) @ '','' @
      field ''fire_schedule'' (?times p)))" for p
    unfolding bytes_text by (simp add: field_def del: writeCanonical.simps)
  have f: "field k v = field k v' \<longleftrightarrow> v = v'" for k v v' by (simp add: field_def)
  have 1: "pl_drop_moment p = pl_drop_moment q" "?times p = ?times q"
    using assms(1) ok unfolding bt by (auto simp: f rfc3339nano_inject simp del: writeCanonical.simps dest!: string_split)
  have 2: "pl_fire_schedule p = pl_fire_schedule q" "?goal p = ?goal q"
    using times_split [OF 1(2)] ok by (auto simp: f simp del: writeCanonical.simps)
  have 3: "same_goal (pl_goal p) (pl_goal q)" "?signing p = ?signing q"
    using goal_split [OF 2(2)] ok by (auto simp: f simp del: writeCanonical.simps)
  have 4: "pl_signing_required p = pl_signing_required q" "pl_strategy p = pl_strategy q" "?venue p = ?venue q"
    using bool_split [OF 3(2)] ok by (auto simp: f field_split_same simp del: writeCanonical.simps dest!: strategy_split)
  have "show_int (planHashVersion p) @ ''}'' = show_int (planHashVersion q) @ ''}''"
    using venue_split [OF 4(3)] ok by (simp add: f field_split_same)
  then have "planHashVersion p = planHashVersion q" using show_int_split [of "''}''" "''}''"] by simp
  then show ?thesis using venue_split [OF 4(3)] ok 1 2 3 4 unfolding same_plan_def by simp
qed

lemma CanonicalBytes_cong: "same_plan p q \<Longrightarrow> CanonicalBytes p = CanonicalBytes q"
proof -
  assume s: "same_plan p q"
  have g: "canonicalGoal (pl_goal p) = canonicalGoal (pl_goal q)"
  proof -
    have "sort (ct_table_types (gl_constraints (pl_goal p))) = sort (ct_table_types (gl_constraints (pl_goal q)))"
      using s by (intro properties_for_sort) (auto simp: same_plan_def same_goal_def)
    then show ?thesis using s
      by (auto simp: same_plan_def same_goal_def canonicalGoal_def canonicalConstraints_def)
  qed
  then show ?thesis using s by (simp add: CanonicalBytes_def canonicalPayload_def same_plan_def canonicalVenue_def)
qed

end
