(* ===== verification/GoalCodec.thy ===== *)
theory GoalCodec
  imports PlanText StoreCodec
begin

text \<open>
  The two codecs of goals: the one the store owns (\<^verbatim>\<open>MarshalGoal\<close>, \<^verbatim>\<open>UnmarshalGoal\<close> of
  \<^verbatim>\<open>store/quests.go\<close>) and the one the service layer uses to fill and read \<^verbatim>\<open>quests.goal_json\<close>
  (\<^verbatim>\<open>service/goal_codec.go\<close>), both over JSON documents, and the text of a document as
  \<^verbatim>\<open>json.Marshal\<close> writes it, which the service layer hashes.
\<close>

section \<open>JSON texts\<close>

fun json_text :: "json \<Rightarrow> string" where
  "json_text JNull = ''null''"
| "json_text (JBool b) = (if b then ''true'' else ''false'')"
| "json_text (JInt n) = show_int n"
| "json_text (JNum lit) = lit"
| "json_text (JStr s) = json_string s"
| "json_text (JArr xs) = ''['' @ join_with '','' (map json_text xs) @ '']''"
| "json_text (JObj fs) = ''{'' @ join_with '','' (map (\<lambda>(k, v). json_string k @ '':'' @ json_text v) fs) @ ''}''"

definition bool_member :: "string \<Rightarrow> members \<Rightarrow> json_error + bool" where
  "bool_member k fs = (case member k fs of
       None \<Rightarrow> Inr False | Some JNull \<Rightarrow> Inr False | Some (JBool b) \<Rightarrow> Inr b | Some _ \<Rightarrow> Inl (JsonType k))"

definition str_elem :: "json \<Rightarrow> json_error + string" where
  "str_elem j = (case j of JStr s \<Rightarrow> Inr s | JNull \<Rightarrow> Inr [] | _ \<Rightarrow> Inl (JsonType ''string''))"

text \<open>A struct-valued member: absent or null, no field is set.\<close>

definition obj_member :: "string \<Rightarrow> members \<Rightarrow> json_error + members" where
  "obj_member k fs = (case member k fs of None \<Rightarrow> Inr [] | Some j \<Rightarrow> as_members j)"

section \<open>A text determines its document\<close>

fun json_ascii :: "json \<Rightarrow> bool" where
  "json_ascii (JStr s) = ascii s"
| "json_ascii (JArr xs) = list_all json_ascii xs"
| "json_ascii (JObj fs) = list_all (\<lambda>(k, v). ascii k \<and> json_ascii v) fs"
| "json_ascii (JNum lit) = False"
| "json_ascii _ = True"

definition char_kind :: "char \<Rightarrow> nat" where
  "char_kind c = (if is_digit c \<or> c = CHR ''-'' then 2 else if c = CHR ''n'' then 0 else if c = CHR ''t'' \<or> c = CHR ''f'' then 1
     else if c = CHR 0x22 then 3 else if c = CHR ''['' then 4 else if c = CHR ''{'' then 5 else 6)"

fun json_kind :: "json \<Rightarrow> nat" where
  "json_kind JNull = 0" | "json_kind (JBool _) = 1" | "json_kind (JInt _) = 2" | "json_kind (JNum _) = 2"
| "json_kind (JStr _) = 3" | "json_kind (JArr _) = 4" | "json_kind (JObj _) = 5"

lemma json_kind_bound: "json_kind j < 6"
  by (cases j) simp_all

lemma show_int_head: "show_int n \<noteq> [] \<and> char_kind (hd (show_int n)) = 2"
proof (cases "n < 0")
  case True
  then show ?thesis by (simp add: fmt_int_def char_kind_def)
next
  case False
  then have "show_int n = show_nat (nat n)" by (simp add: fmt_int_def zero_pad_def)
  moreover have "is_digit (hd (show_nat (nat n)))" using show_nat_digits show_nat_nonempty hd_in_set by blast
  ultimately show ?thesis using show_nat_nonempty by (simp add: char_kind_def)
qed

lemma char_kinds:
  "char_kind CHR ''n'' = 0" "char_kind CHR ''t'' = 1" "char_kind CHR ''f'' = 1" "char_kind CHR 0x22 = 3" "char_kind CHR ''['' = 4"
  "char_kind CHR ''{'' = 5" "char_kind CHR '']'' = 6" "char_kind CHR ''}'' = 6"
  by (simp_all add: char_kind_def is_digit_def digits_def)

lemma json_text_head: "json_ascii j \<Longrightarrow> json_text j \<noteq> [] \<and> char_kind (hd (json_text j)) = json_kind j"
proof (cases j)
  case (JInt n)
  then show ?thesis using show_int_head [of n] by simp
qed (simp_all add: char_kinds json_string_def)

lemma obj_size: "(k, v) \<in> set fs \<Longrightarrow> size v < size (JObj fs)"
  by (induction fs) auto

lemma arr_size: "x \<in> set xs \<Longrightarrow> size x < size (JArr xs)"
  by (induction xs) auto

lemma json_text_code: "prefix_code json_text (\<lambda>j. size j < n \<and> json_ascii j)"
proof (induction n)
  case 0
  show ?case by unfold_locales auto
next
  case (Suc n)
  let ?field = "\<lambda>(k, v). json_string k @ '':'' @ json_text v"
  have fields: "prefix_code ?field (\<lambda>(k, v). ascii k \<and> size v < n \<and> json_ascii v)"
  proof
    fix x y s t
    assume a: "case x of (k, v) \<Rightarrow> ascii k \<and> size v < n \<and> json_ascii v" "case y of (k, v) \<Rightarrow> ascii k \<and> size v < n \<and> json_ascii v"
      "closed_by s" "closed_by t" "?field x @ s = ?field y @ t"
    obtain k v k' v' where xy: "x = (k, v)" "y = (k', v')" by (cases x; cases y) auto
    have "k = k' \<and> json_text v @ s = json_text v' @ t"
      using a xy string_split [of k "'':'' @ json_text v @ s" k' "'':'' @ json_text v' @ t"] by simp
    then show "x = y \<and> s = t" using prefix_code.split [OF Suc, of v v' s t] a xy by auto
  qed (auto simp: json_string_def)
  show ?case
  proof
    fix x y s t
    assume a: "size x < Suc n \<and> json_ascii x" "size y < Suc n \<and> json_ascii y" "closed_by s" "closed_by t"
      "json_text x @ s = json_text y @ t"
    have "hd (json_text x) = hd (json_text y)" using a json_text_head by (metis hd_append2)
    then have "json_kind x = json_kind y" using a json_text_head by metis
    then consider "x = JNull" "y = JNull" | b c where "x = JBool b" "y = JBool c" | m k where "x = JInt m" "y = JInt k"
      | u v where "x = JStr u" "y = JStr v" | us vs where "x = JArr us" "y = JArr vs" | fs gs where "x = JObj fs" "y = JObj gs"
      using a by (cases x; cases y) auto
    then show "x = y \<and> s = t"
    proof cases
      case (2 b c)
      then show ?thesis using a by (auto split: if_splits)
    next
      case (3 m k)
      then show ?thesis using a show_int_split [of s t m k] by simp
    next
      case (4 u v)
      then show ?thesis using a string_split [of u s v t] by simp
    next
      case (5 us vs)
      then have "size z < n \<and> json_ascii z" if "z \<in> set us \<or> z \<in> set vs" for z
        using that a arr_size [of z us] arr_size [of z vs] by (auto simp: list_all_iff simp del: json.size)
      then show ?thesis using prefix_code.join_split [OF Suc, of us vs "CHR '']''" s t] 5 a(5) by simp
    next
      case (6 fs gs)
      then have "ascii k \<and> size v < n \<and> json_ascii v" if "(k, v) \<in> set fs \<or> (k, v) \<in> set gs" for k v
        using that a obj_size [of k v fs] obj_size [of k v gs] by (auto simp: list_all_iff simp del: json.size)
      then have "\<forall>x \<in> set fs. case x of (k, v) \<Rightarrow> ascii k \<and> size v < n \<and> json_ascii v"
        "\<forall>x \<in> set gs. case x of (k, v) \<Rightarrow> ascii k \<and> size v < n \<and> json_ascii v" by auto
      then show ?thesis using prefix_code.join_split [OF fields, of fs gs "CHR ''}''" s t] 6 a(5) by simp
    qed (use a in simp)
  next
    fix x :: json
    assume "size x < Suc n \<and> json_ascii x"
    then show "json_text x \<noteq> [] \<and> hd (json_text x) \<noteq> CHR '']'' \<and> hd (json_text x) \<noteq> CHR ''}''"
      using json_text_head [of x] json_kind_bound [of x] char_kinds(7,8) by fastforce
  qed
qed

interpretation json_code: prefix_code json_text json_ascii
proof
  show "x = y \<and> s = t" if "json_ascii x" "json_ascii y" "closed_by s" "closed_by t" "json_text x @ s = json_text y @ t" for x y s t
    using prefix_code.split [OF json_text_code [of "Suc (max (size x) (size y))"], of x y s t] that by simp
  show "json_text x \<noteq> [] \<and> hd (json_text x) \<noteq> CHR '']'' \<and> hd (json_text x) \<noteq> CHR ''}''" if "json_ascii x" for x
    using prefix_code.starts [OF json_text_code [of "Suc (size x)"], of x] that by simp
qed

section \<open>The shape of the document\<close>

record venueQueryJSON =
  vj_kind :: string
  vj_url :: string
  vj_slug :: string
  vj_city :: string
  vj_name :: string

definition query_marshal :: "venueQueryJSON \<Rightarrow> json" where
  "query_marshal v = JObj ((''kind'', JStr (vj_kind v)) # omitempty_str ''url'' (vj_url v) @
     omitempty_str ''slug'' (vj_slug v) @ omitempty_str ''city'' (vj_city v) @ omitempty_str ''name'' (vj_name v))"

definition query_unmarshal :: "members \<Rightarrow> json_error + venueQueryJSON" where
  "query_unmarshal fs =
     bind_result (str_member ''kind'' fs) (\<lambda>k.
     bind_result (str_member ''url'' fs) (\<lambda>u.
     bind_result (str_member ''slug'' fs) (\<lambda>s.
     bind_result (str_member ''city'' fs) (\<lambda>c.
     bind_result (str_member ''name'' fs) (\<lambda>n.
       Inr \<lparr>vj_kind = k, vj_url = u, vj_slug = s, vj_city = c, vj_name = n\<rparr>)))))"

record goalJSON =
  gj_query :: venueQueryJSON
  gj_date :: string
  gj_party :: int
  gj_start :: string
  gj_end :: string
  gj_priority :: string
  gj_account :: string
  gj_table_types :: "string list"
  gj_any_table :: bool

definition goal_marshal :: "goalJSON \<Rightarrow> json" where
  "goal_marshal g = JObj
     [(''venue_query'', query_marshal (gj_query g)), (''date'', JStr (gj_date g)), (''party'', JInt (gj_party g)),
      (''time_prefs'', JObj [(''start'', JStr (gj_start g)), (''end'', JStr (gj_end g)), (''priority'', JStr (gj_priority g))]),
      (''account_id'', JStr (gj_account g)),
      (''constraints'', JObj ((if gj_table_types g = [] then [] else [(''table_types'', JArr (map JStr (gj_table_types g)))]) @
         (if gj_any_table g then [(''any_table'', JBool True)] else [])))]"

definition goal_unmarshal :: "json \<Rightarrow> json_error + goalJSON" where
  "goal_unmarshal j =
     bind_result (as_members j) (\<lambda>fs.
     bind_result (bind_result (obj_member ''venue_query'' fs) query_unmarshal) (\<lambda>q.
     bind_result (str_member ''date'' fs) (\<lambda>d.
     bind_result (int_member ''party'' fs) (\<lambda>p.
     bind_result (obj_member ''time_prefs'' fs) (\<lambda>ts.
     bind_result (str_member ''start'' ts) (\<lambda>s.
     bind_result (str_member ''end'' ts) (\<lambda>e.
     bind_result (str_member ''priority'' ts) (\<lambda>pr.
     bind_result (str_member ''account_id'' fs) (\<lambda>a.
     bind_result (obj_member ''constraints'' fs) (\<lambda>cs.
     bind_result (bind_result (arr_member ''table_types'' cs) (map_result str_elem)) (\<lambda>tt.
     bind_result (bool_member ''any_table'' cs) (\<lambda>anyt.
       Inr \<lparr>gj_query = q, gj_date = d, gj_party = p, gj_start = s, gj_end = e, gj_priority = pr,
            gj_account = a, gj_table_types = tt, gj_any_table = anyt\<rparr>))))))))))))"

lemma query_marshal_roundtrip: "bind_result (as_members (query_marshal v)) query_unmarshal = Inr v"
  by (simp add: query_marshal_def query_unmarshal_def str_member_def member_Cons member_append)

lemma str_elems: "map_result str_elem (map JStr xs) = Inr xs"
  by (induction xs) (simp_all add: str_elem_def)

lemma goal_marshal_roundtrip:
  assumes "int64 (gj_party g)"
  shows "goal_unmarshal (goal_marshal g) = Inr g"
proof -
  define cs where "cs = (if gj_table_types g = [] then [] else [(''table_types'', JArr (map JStr (gj_table_types g)))]) @
         (if gj_any_table g then [(''any_table'', JBool True)] else [])"
  have t: "bind_result (arr_member ''table_types'' cs) (map_result str_elem) = Inr (gj_table_types g)"
    by (simp add: cs_def arr_member_def member_Cons str_elems)
  have a: "bool_member ''any_table'' cs = Inr (gj_any_table g)"
    by (simp add: cs_def bool_member_def member_Cons)
  show ?thesis
    unfolding goal_marshal_def goal_unmarshal_def cs_def [symmetric]
    using assms by (simp add: obj_member_def str_member_def int_member_def member_Cons query_marshal_roundtrip t a)
qed

section \<open>The store's codec\<close>

definition encodeVenueQuery :: "venue_query option \<Rightarrow> venueQueryJSON" where
  "encodeVenueQuery q = (case q of
       Some (VenueQueryURL u) \<Rightarrow> \<lparr>vj_kind = ''url'', vj_url = u, vj_slug = [], vj_city = [], vj_name = []\<rparr>
     | Some (VenueQuerySlug s c) \<Rightarrow> \<lparr>vj_kind = ''slug'', vj_url = [], vj_slug = s, vj_city = c, vj_name = []\<rparr>
     | Some (VenueQueryName n) \<Rightarrow> \<lparr>vj_kind = ''name'', vj_url = [], vj_slug = [], vj_city = [], vj_name = n\<rparr>
     | None \<Rightarrow> \<lparr>vj_kind = ''nil'', vj_url = [], vj_slug = [], vj_city = [], vj_name = []\<rparr>)"

definition decodeVenueQuery :: "venueQueryJSON \<Rightarrow> store_error + venue_query option" where
  "decodeVenueQuery j =
     (if vj_kind j = ''url'' then Inr (Some (VenueQueryURL (vj_url j)))
      else if vj_kind j = ''slug'' then Inr (Some (VenueQuerySlug (vj_slug j) (vj_city j)))
      else if vj_kind j = ''name'' then Inr (Some (VenueQueryName (vj_name j)))
      else if vj_kind j = ''nil'' \<or> vj_kind j = [] then Inr None
      else Inl (ErrDecode (vj_kind j)))"

definition parseTimePriority :: "string \<Rightarrow> time_priority" where
  "parseTimePriority s = (if s = ''earlier'' then PriorityEarlier else if s = ''later'' then PriorityLater else PriorityNone)"

definition MarshalGoal :: "goal \<Rightarrow> json" where
  "MarshalGoal g = marshaled (goal_marshal
     \<lparr>gj_query = encodeVenueQuery (gl_venue_query g), gj_date = date_string (gl_date g), gj_party = gl_party g,
      gj_start = walltime_string (tw_start (gl_time_prefs g)), gj_end = walltime_string (tw_end (gl_time_prefs g)),
      gj_priority = priority_string (tw_priority (gl_time_prefs g)), gj_account = gl_account g,
      gj_table_types = ct_table_types (gl_constraints g), gj_any_table = ct_any_table (gl_constraints g)\<rparr>)"

definition UnmarshalGoal :: "json \<Rightarrow> store_error + goal" where
  "UnmarshalGoal j =
     bind_result (map_err (\<lambda>_. ErrDecode ''goal'') (goal_unmarshal j)) (\<lambda>raw.
     bind_result (decodeVenueQuery (gj_query raw)) (\<lambda>vq.
     bind_result (map_err ErrDecode (ParseDate (gj_date raw))) (\<lambda>d.
     bind_result (map_err ErrDecode (ParseWallTime (gj_start raw))) (\<lambda>s.
     bind_result (map_err ErrDecode (ParseWallTime (gj_end raw))) (\<lambda>e.
       Inr \<lparr>gl_venue_query = vq, gl_date = d, gl_party = gj_party raw,
            gl_time_prefs = \<lparr>tw_start = s, tw_end = e, tw_priority = parseTimePriority (gj_priority raw)\<rparr>,
            gl_account = gj_account raw,
            gl_constraints = \<lparr>ct_table_types = gj_table_types raw, ct_any_table = gj_any_table raw\<rparr>\<rparr>)))))"

section \<open>The service layer's codec\<close>

definition encodeVQ :: "venue_query option \<Rightarrow> venueQueryJSON" where
  "encodeVQ q =
     (let zero = \<lparr>vj_kind = [], vj_url = [], vj_slug = [], vj_city = [], vj_name = []\<rparr> in
      case q of
        Some (VenueQueryURL u) \<Rightarrow> zero\<lparr>vj_kind := ''url'', vj_url := u\<rparr>
      | Some (VenueQuerySlug s c) \<Rightarrow> zero\<lparr>vj_kind := ''slug'', vj_slug := s, vj_city := c\<rparr>
      | Some (VenueQueryName n) \<Rightarrow> zero\<lparr>vj_kind := ''name'', vj_name := n\<rparr>
      | None \<Rightarrow> zero\<lparr>vj_kind := ''nil''\<rparr>)"

definition decodeVQ :: "venueQueryJSON \<Rightarrow> string + venue_query option" where
  "decodeVQ j =
     (if vj_kind j = ''url'' then Inr (Some (VenueQueryURL (vj_url j)))
      else if vj_kind j = ''slug'' then Inr (Some (VenueQuerySlug (vj_slug j) (vj_city j)))
      else if vj_kind j = ''name'' then Inr (Some (VenueQueryName (vj_name j)))
      else if vj_kind j = [] \<or> vj_kind j = ''nil'' then Inr None
      else Inl (vj_kind j))"

definition parsePriorityJSON :: "string \<Rightarrow> time_priority" where
  "parsePriorityJSON s = (if s = ''earlier'' then PriorityEarlier else if s = ''later'' then PriorityLater else PriorityNone)"

text \<open>The members written. Their text is hashed (\<open>json_text\<close> replaces what is no UTF-8), and the column holds what a
  reader of that text finds (\<open>marshaled\<close>).\<close>

definition marshalGoalJSON :: "goal \<Rightarrow> json" where
  "marshalGoalJSON g = goal_marshal
     \<lparr>gj_query = encodeVQ (gl_venue_query g), gj_date = date_string (gl_date g), gj_party = gl_party g,
      gj_start = walltime_string (tw_start (gl_time_prefs g)), gj_end = walltime_string (tw_end (gl_time_prefs g)),
      gj_priority = priority_string (tw_priority (gl_time_prefs g)), gj_account = gl_account g,
      gj_table_types = ct_table_types (gl_constraints g), gj_any_table = ct_any_table (gl_constraints g)\<rparr>"

definition unmarshalGoalJSON :: "json \<Rightarrow> string + goal" where
  "unmarshalGoalJSON j =
     bind_result (map_err (\<lambda>_. ''goal'') (goal_unmarshal j)) (\<lambda>raw.
     bind_result (decodeVQ (gj_query raw)) (\<lambda>vq.
     bind_result (ParseDate (gj_date raw)) (\<lambda>d.
     bind_result (ParseWallTime (gj_start raw)) (\<lambda>s.
     bind_result (ParseWallTime (gj_end raw)) (\<lambda>e.
       Inr \<lparr>gl_venue_query = vq, gl_date = d, gl_party = gj_party raw,
            gl_time_prefs = \<lparr>tw_start = s, tw_end = e, tw_priority = parsePriorityJSON (gj_priority raw)\<rparr>,
            gl_account = gj_account raw,
            gl_constraints = \<lparr>ct_table_types = gj_table_types raw, ct_any_table = gj_any_table raw\<rparr>\<rparr>)))))"

section \<open>Round trips\<close>

text \<open>The goals a row can hold: texts in UTF-8, a real date, real times, a party size of 64 bits.\<close>

definition query_utf8 :: "venue_query option \<Rightarrow> bool" where
  "query_utf8 q = (case q of None \<Rightarrow> True | Some (VenueQueryURL u) \<Rightarrow> valid_utf8 u
     | Some (VenueQuerySlug s c) \<Rightarrow> valid_utf8 s \<and> valid_utf8 c | Some (VenueQueryName n) \<Rightarrow> valid_utf8 n)"

definition goal_utf8 :: "goal \<Rightarrow> bool" where
  "goal_utf8 g \<longleftrightarrow> query_utf8 (gl_venue_query g) \<and> valid_utf8 (gl_account g) \<and>
     list_all valid_utf8 (ct_table_types (gl_constraints g))"

definition goal_row_ok :: "goal \<Rightarrow> bool" where
  "goal_row_ok g \<longleftrightarrow> goal_utf8 g \<and> valid_date (gl_date g) \<and> valid_walltime (tw_start (gl_time_prefs g)) \<and>
     valid_walltime (tw_end (gl_time_prefs g)) \<and> int64 (gl_party g)"

lemma encodeVQ_eq: "encodeVQ q = encodeVenueQuery q"
  by (simp add: encodeVQ_def encodeVenueQuery_def Let_def split: option.split venue_query.split)

lemma marshal_agree: "marshaled (marshalGoalJSON g) = MarshalGoal g"
  by (simp add: marshalGoalJSON_def MarshalGoal_def encodeVQ_eq)

lemma venue_query_roundtrip: "decodeVenueQuery (encodeVenueQuery q) = Inr q" "decodeVQ (encodeVenueQuery q) = Inr q"
  by (simp_all add: encodeVenueQuery_def decodeVenueQuery_def decodeVQ_def split: option.split venue_query.split)

lemma priority_roundtrip:
  "parseTimePriority (priority_string p) = p" "parsePriorityJSON (priority_string p) = p"
  by (cases p; simp add: parseTimePriority_def parsePriorityJSON_def)+

lemma query_marshal_utf8: "query_utf8 q \<Longrightarrow> utf8_json (query_marshal (encodeVenueQuery q))"
  by (simp add: query_utf8_def encodeVenueQuery_def query_marshal_def split: option.splits venue_query.splits)

lemma priority_utf8 [simp]: "valid_utf8 (priority_string p)"
  by (cases p) simp_all

lemma marshal_utf8: "goal_utf8 g \<Longrightarrow> utf8_json (marshalGoalJSON g)"
  by (simp add: goal_utf8_def marshalGoalJSON_def goal_marshal_def encodeVQ_eq query_marshal_utf8)

lemma MarshalGoal_tree: "goal_utf8 g \<Longrightarrow> MarshalGoal g = marshalGoalJSON g"
  by (simp add: marshal_agree [symmetric] marshal_utf8)

interpretation store_goal_codec: codec MarshalGoal UnmarshalGoal goal_row_ok
proof
  show "UnmarshalGoal (MarshalGoal g) = Inr g" if "goal_row_ok g" for g
    using that unfolding goal_row_ok_def
    by (simp add: MarshalGoal_tree marshalGoalJSON_def UnmarshalGoal_def encodeVQ_eq goal_marshal_roundtrip venue_query_roundtrip priority_roundtrip
        date_codec.dec_enc walltime_codec.dec_enc)
qed

interpretation service_goal_codec: codec "\<lambda>g. marshaled (marshalGoalJSON g)" unmarshalGoalJSON goal_row_ok
proof
  show "unmarshalGoalJSON (marshaled (marshalGoalJSON g)) = Inr g" if g: "goal_row_ok g" for g
  proof -
    have "marshaled (marshalGoalJSON g) = marshalGoalJSON g" using g by (simp add: goal_row_ok_def marshal_utf8)
    then show ?thesis using g unfolding goal_row_ok_def
      by (simp add: marshalGoalJSON_def unmarshalGoalJSON_def encodeVQ_eq goal_marshal_roundtrip venue_query_roundtrip
          priority_roundtrip date_codec.dec_enc walltime_codec.dec_enc)
  qed
qed

definition goal_ascii :: "goal \<Rightarrow> bool" where
  "goal_ascii g \<longleftrightarrow> query_ok (gl_venue_query g) \<and> ascii (gl_account g) \<and> list_all ascii (ct_table_types (gl_constraints g))"

lemma json_ascii_omit [simp]: "list_all (\<lambda>(k, v). ascii k \<and> json_ascii v) (omitempty_str k s) \<longleftrightarrow> s = [] \<or> ascii k \<and> ascii s"
  by (simp add: omitempty_str_def)

lemma marshal_ascii: "goal_ascii g \<Longrightarrow> json_ascii (marshalGoalJSON g)"
proof -
  assume g: "goal_ascii g"
  have "json_ascii (query_marshal (encodeVQ (gl_venue_query g)))"
    using g by (auto simp: goal_ascii_def query_ok_def encodeVQ_eq encodeVenueQuery_def query_marshal_def byte_def
        split: option.splits venue_query.splits)
  moreover have "ascii (priority_string p)" for p by (cases p) (simp_all add: byte_def)
  ultimately show ?thesis
    using g by (auto simp: goal_ascii_def marshalGoalJSON_def goal_marshal_def byte_def list_all_iff)
qed

text \<open>The text the service layer hashes for idempotency tells goals apart.\<close>

lemma goal_text_inject:
  assumes "goal_row_ok g" "goal_row_ok h" "goal_ascii g" "goal_ascii h"
  shows "json_text (marshalGoalJSON g) = json_text (marshalGoalJSON h) \<longleftrightarrow> g = h"
  using assms json_code.enc_inject [OF marshal_ascii marshal_ascii] service_goal_codec.enc_inject by metis

end
