(* ===== verification/QuestStore.thy ===== *)
theory QuestStore
  imports SnipeStore GoalCodec "HOL-Library.Product_Lexorder"
begin

text \<open>
  The multi-tenant half of the store: quests and their events (\<^verbatim>\<open>store/quests.go\<close>,
  \<^verbatim>\<open>store/quest_events.go\<close>), idempotency keys (\<^verbatim>\<open>store/idempotency.go\<close>), bearer tokens
  (\<^verbatim>\<open>store/tokens.go\<close>), accounts (\<^verbatim>\<open>store/accounts.go\<close>), the audit log (\<^verbatim>\<open>store/audit.go\<close>) and the
  venue caches, which belong to no tenant (\<^verbatim>\<open>store/cache.go\<close>). The
  tables are a record \<open>qdb\<close> beside the \<open>db\<close> of the snipe store, which holds the accounts; rows
  are in row-id order, timestamps are unix milliseconds or seconds, digests are their hex
  texts. As in the snipe store every operation takes the outcome of its statements. The
  guard against a nil database handle has no counterpart.
\<close>

record user_row =
  us_id :: user_id
  us_email :: string
  us_role :: string

record quest_row =
  qu_id :: string
  qu_user :: user_id
  qu_account :: account_id
  qu_goal_json :: json
  qu_plan_hash :: string
  qu_status :: string
  qu_created_at :: int
  qu_updated_at :: int
  qu_completed_at :: "int option"

record quest_event_row =
  qe_quest :: string
  qe_user :: user_id
  qe_type :: string
  qe_at :: int
  qe_fields :: "flatAttr list option"

record idem_row =
  ik_key_hash :: string
  ik_user :: user_id
  ik_scope :: string
  ik_plain_hash :: string
  ik_target :: "string option"
  ik_code :: string
  ik_err :: "string option"
  ik_created_at :: string
  ik_expires_at :: string

record token_row =
  tk_id :: string
  tk_user :: user_id
  tk_hash :: string
  tk_scopes :: string
  tk_label :: string
  tk_created_at :: int
  tk_last_seen :: "int option"
  tk_revoked_at :: "int option"

record audit_row =
  au_user :: user_id
  au_target_user :: "user_id option"
  au_action :: string
  au_target :: "string option"
  au_ok :: bool
  au_error_code :: "string option"
  au_ip :: "string option"
  au_agent :: "string option"
  au_created_at :: int
  au_details :: "string option"

record venue_cache_row =
  vc_slug :: string
  vc_city :: string
  vc_json :: json
  vc_resolved_at :: int

record name_cache_row =
  nc_query :: string
  nc_json :: json
  nc_resolved_at :: int

record qdb =
  q_users :: "user_row list"
  q_quests :: "quest_row list"
  q_events :: "quest_event_row list"
  q_idem :: "idem_row list"
  q_tokens :: "token_row list"
  q_audit :: "audit_row list"
  q_venue_cache :: "venue_cache_row list"
  q_name_cache :: "name_cache_row list"

text \<open>A foreign key to \<^verbatim>\<open>users\<close>, on a connection that enforces them.\<close>

definition user_fk :: "db \<Rightarrow> user_id \<Rightarrow> qdb \<Rightarrow> bool" where
  "user_fk d u q \<longleftrightarrow> (db_fk d \<longrightarrow> u \<in> us_id ` set (q_users q))"

text \<open>An empty string is stored as NULL.\<close>

definition null_if_empty :: "string \<Rightarrow> string option" where
  "null_if_empty s = (if s = [] then None else Some s)"

definition string_of_null :: "string option \<Rightarrow> string" where
  "string_of_null c = (case c of None \<Rightarrow> [] | Some s \<Rightarrow> s)"

definition limit_rows :: "int \<Rightarrow> 'a list \<Rightarrow> 'a list" where
  "limit_rows n rows = (if 0 < n then take (nat n) rows else rows)"

section \<open>Quests\<close>

fun statusDBString :: "status \<Rightarrow> string" where
  "statusDBString StatusSubmitted = ''pending''"
| "statusDBString StatusScheduled = ''scheduled''"
| "statusDBString StatusDiscovering = ''scheduled''"
| "statusDBString StatusAwaiting = ''scheduled''"
| "statusDBString StatusFinding = ''firing''"
| "statusDBString StatusBooking = ''firing''"
| "statusDBString StatusBooked = ''booked''"
| "statusDBString StatusFailed = ''failed''"
| "statusDBString StatusExpired = ''failed''"
| "statusDBString StatusCanceled = ''cancelled''"

definition parseStatusDB :: "string \<Rightarrow> store_error + status" where
  "parseStatusDB s =
     (if s = ''pending'' then Inr StatusSubmitted
      else if s = ''scheduled'' then Inr StatusScheduled
      else if s = ''firing'' then Inr StatusFinding
      else if s = ''booked'' then Inr StatusBooked
      else if s = ''failed'' then Inr StatusFailed
      else if s = ''cancelled'' then Inr StatusCanceled
      else Inl (ErrDecode s))"

record QuestRow =
  qr_id :: string
  qr_user :: user_id
  qr_account :: account_id
  qr_goal_json :: json
  qr_plan_hash :: string
  qr_status :: status
  qr_created_at :: instant
  qr_updated_at :: instant
  qr_completed_at :: "instant option"

definition store_CreateQuest :: "io \<Rightarrow> db \<Rightarrow> QuestRow \<Rightarrow> qdb \<Rightarrow> store_error option \<times> qdb" where
  "store_CreateQuest io d r q =
     (if qr_id r = [] \<or> qr_user r = [] \<or> qr_account r = []
      then (Some (ErrArgument ''CreateQuest: ID, UserID, AccountID are required''), q)
      else case io 0 of Some e \<Rightarrow> (Some e, q) | None \<Rightarrow>
      if qr_id r \<in> qu_id ` set (q_quests q) then (Some (ErrConstraint ''quests.id''), q)
      else if \<not> user_fk d (qr_user r) q \<or> db_fk d \<and> qr_account r \<notin> a_id ` set (db_accounts d)
      then (Some (ErrConstraint ''FOREIGN KEY''), q)
      else (None, q\<lparr>q_quests := q_quests q @
        [\<lparr>qu_id = qr_id r, qu_user = qr_user r, qu_account = qr_account r, qu_goal_json = qr_goal_json r,
          qu_plan_hash = qr_plan_hash r, qu_status = statusDBString (qr_status r),
          qu_created_at = unix_milli (qr_created_at r), qu_updated_at = unix_milli (qr_updated_at r),
          qu_completed_at = map_option unix_milli (qr_completed_at r)\<rparr>]\<rparr>))"

definition scanQuestRow :: "quest_row \<Rightarrow> store_error + QuestRow" where
  "scanQuestRow r = bind_result (parseStatusDB (qu_status r)) (\<lambda>st.
     Inr \<lparr>qr_id = qu_id r, qr_user = qu_user r, qr_account = qu_account r, qr_goal_json = qu_goal_json r,
          qr_plan_hash = qu_plan_hash r, qr_status = st, qr_created_at = from_unix_milli (qu_created_at r),
          qr_updated_at = from_unix_milli (qu_updated_at r),
          qr_completed_at = map_option from_unix_milli (qu_completed_at r)\<rparr>)"

definition owned_quest :: "user_id \<Rightarrow> string \<Rightarrow> quest_row \<Rightarrow> bool" where
  "owned_quest u k r \<longleftrightarrow> qu_id r = k \<and> qu_user r = u"

definition store_GetQuest :: "io \<Rightarrow> user_id \<Rightarrow> string \<Rightarrow> qdb \<Rightarrow> store_error + QuestRow" where
  "store_GetQuest io u k q = (case io 0 of Some e \<Rightarrow> Inl e | None \<Rightarrow>
     case find (owned_quest u k) (q_quests q) of None \<Rightarrow> Inl ErrNotFound | Some r \<Rightarrow> scanQuestRow r)"

record QuestListFilter =
  lf_status :: "status list"
  lf_account :: "account_id option"
  lf_since :: "instant option"
  lf_until :: "instant option"
  lf_limit :: int
  lf_cursor :: string

text \<open>The WHERE clause, given the parsed cursor; the duplicates the source removes from the IN
  list do not change the condition.\<close>

definition quest_where :: "user_id \<Rightarrow> QuestListFilter \<Rightarrow> instant option \<Rightarrow> quest_row \<Rightarrow> bool" where
  "quest_where u f cursor r \<longleftrightarrow>
     qu_user r = u \<and>
     (lf_status f \<noteq> [] \<longrightarrow> qu_status r \<in> statusDBString ` set (lf_status f)) \<and>
     (case lf_account f of None \<Rightarrow> True | Some a \<Rightarrow> qu_account r = a) \<and>
     (case lf_since f of None \<Rightarrow> True | Some t \<Rightarrow> unix_milli t \<le> qu_created_at r) \<and>
     (case lf_until f of None \<Rightarrow> True | Some t \<Rightarrow> qu_created_at r \<le> unix_milli t) \<and>
     (case cursor of None \<Rightarrow> True | Some t \<Rightarrow> qu_created_at r < unix_milli t)"

definition newest_first :: "quest_row list \<Rightarrow> quest_row list" where
  "newest_first rows = rev (sort_key (\<lambda>r. (qu_created_at r, qu_id r)) rows)"

definition store_ListQuests :: "io \<Rightarrow> user_id \<Rightarrow> QuestListFilter \<Rightarrow> qdb \<Rightarrow> store_error + QuestRow list" where
  "store_ListQuests io u f q =
     bind_result (if lf_cursor f = [] then Inr None
       else case parse_rfc3339_any (lf_cursor f) of None \<Rightarrow> Inl (ErrDecode (lf_cursor f)) | Some t \<Rightarrow> Inr (Some t)) (\<lambda>cursor.
     case io 0 of Some e \<Rightarrow> Inl e | None \<Rightarrow>
       map_result scanQuestRow (limit_rows (lf_limit f) (newest_first (filter (quest_where u f cursor) (q_quests q)))))"

definition store_UpdateQuestStatus :: "io \<Rightarrow> user_id \<Rightarrow> string \<Rightarrow> status \<Rightarrow> instant option \<Rightarrow> instant \<Rightarrow> qdb
    \<Rightarrow> store_error option \<times> qdb" where
  "store_UpdateQuestStatus io u k st completed updated q = (case io 0 of Some e \<Rightarrow> (Some e, q) | None \<Rightarrow>
     if filter (owned_quest u k) (q_quests q) = [] then (Some ErrNotFound, q)
     else (None, q\<lparr>q_quests := map (\<lambda>r. if owned_quest u k r
       then r\<lparr>qu_status := statusDBString st, qu_updated_at := unix_milli updated,
              qu_completed_at := map_option unix_milli completed\<rparr> else r) (q_quests q)\<rparr>))"

section \<open>Quest events\<close>

text \<open>\<^verbatim>\<open>quest_events.id\<close> is an AUTOINCREMENT key: sorting by it within equal times keeps row order.\<close>

definition store_ListQuestEvents :: "io \<Rightarrow> user_id \<Rightarrow> string \<Rightarrow> int \<Rightarrow> qdb \<Rightarrow> store_error + event list" where
  "store_ListQuestEvents io u k limit q = (case io 0 of Some e \<Rightarrow> Inl e | None \<Rightarrow>
     Inr (map (\<lambda>r. \<lparr>ev_type = qe_type r, ev_at = from_unix_milli (qe_at r), ev_attrs = DecodeAttrs (qe_fields r)\<rparr>)
       (limit_rows limit (sort_key qe_at (filter (\<lambda>r. qe_user r = u \<and> qe_quest r = k) (q_events q))))))"

definition store_WriteQuestEvent :: "io \<Rightarrow> db \<Rightarrow> user_id \<Rightarrow> string \<Rightarrow> event \<Rightarrow> qdb \<Rightarrow> store_error option \<times> qdb" where
  "store_WriteQuestEvent io d u k ev q =
     (if u = [] \<or> k = [] then (Some (ErrArgument ''WriteQuestEvent: userID and questID are required''), q)
      else if ev_type ev = [] then (Some (ErrArgument ''WriteQuestEvent: event type is required''), q)
      else case io 0 of Some e \<Rightarrow> (Some e, q) | None \<Rightarrow>
      if filter (owned_quest u k) (q_quests q) = [] then (Some ErrNotFound, q)
      else if \<not> user_fk d u q then (Some (ErrConstraint ''FOREIGN KEY''), q)
      else (None, q\<lparr>q_events := q_events q @
        [\<lparr>qe_quest = k, qe_user = u, qe_type = ev_type ev, qe_at = unix_milli (ev_at ev),
          qe_fields = EncodeAttrs (ev_attrs ev)\<rparr>]\<rparr>))"

section \<open>Idempotency keys\<close>

definition HashIdempotencyKey :: "(string \<Rightarrow> string) \<Rightarrow> user_id \<Rightarrow> string \<Rightarrow> string \<Rightarrow> string \<Rightarrow> string" where
  "HashIdempotencyKey sha u scope key payload = sha (u @ '':'' @ scope @ '':'' @ key @ '':'' @ payload)"

definition HashIdempotencyPlain :: "(string \<Rightarrow> string) \<Rightarrow> user_id \<Rightarrow> string \<Rightarrow> string \<Rightarrow> string" where
  "HashIdempotencyPlain sha u scope key = sha (u @ '':'' @ scope @ '':'' @ key)"

definition idem_result :: "string \<Rightarrow> string option \<Rightarrow> duration \<Rightarrow> instant \<Rightarrow> idem_row \<Rightarrow> idem_row" where
  "idem_result target err ttl now r =
     r\<lparr>ik_target := null_if_empty target, ik_code := (if err = None then ''ok'' else ''error''), ik_err := err,
       ik_created_at := format_millis now, ik_expires_at := format_millis (now + ttl)\<rparr>"

definition store_PutIdempotencyResult :: "(string \<Rightarrow> string) \<Rightarrow> io \<Rightarrow> db \<Rightarrow> user_id \<Rightarrow> string \<Rightarrow> string \<Rightarrow> string
    \<Rightarrow> string \<Rightarrow> string option \<Rightarrow> duration \<Rightarrow> instant \<Rightarrow> qdb \<Rightarrow> store_error option \<times> qdb" where
  "store_PutIdempotencyResult sha io d u scope key payload target err ttl now q =
     (if u = [] \<or> scope = [] \<or> key = []
      then (Some (ErrArgument ''PutIdempotencyResult: userID, scope, plaintextKey are required''), q)
      else case io 0 of Some e \<Rightarrow> (Some e, q) | None \<Rightarrow>
      let kh = HashIdempotencyKey sha u scope key payload in
      if kh \<in> ik_key_hash ` set (q_idem q)
      then (None, q\<lparr>q_idem := map (\<lambda>r. if ik_key_hash r = kh then idem_result target err ttl now r else r) (q_idem q)\<rparr>)
      else if \<not> user_fk d u q then (Some (ErrConstraint ''FOREIGN KEY''), q)
      else (None, q\<lparr>q_idem := q_idem q @ [idem_result target err ttl now
        \<lparr>ik_key_hash = kh, ik_user = u, ik_scope = scope, ik_plain_hash = HashIdempotencyPlain sha u scope key,
         ik_target = None, ik_code = [], ik_err = None, ik_created_at = [], ik_expires_at = []\<rparr>]\<rparr>))"

record IdempotencyLookup =
  il_found :: bool
  il_match :: bool
  il_expired :: bool
  il_target :: string
  il_code :: string
  il_err :: string

definition no_lookup :: IdempotencyLookup where
  "no_lookup = \<lparr>il_found = False, il_match = False, il_expired = False, il_target = [], il_code = [], il_err = []\<rparr>"

text \<open>Every text the first layout of the source reads, the second reads as the same instant.\<close>

definition scanIdempotencyRow :: "instant \<Rightarrow> idem_row option \<Rightarrow> store_error + IdempotencyLookup option" where
  "scanIdempotencyRow now r = (case r of None \<Rightarrow> Inr None
     | Some r \<Rightarrow> (case parse_rfc3339_any (ik_expires_at r) of
          None \<Rightarrow> Inl (ErrDecode (ik_expires_at r))
        | Some t \<Rightarrow> Inr (Some (no_lookup\<lparr>il_target := string_of_null (ik_target r), il_code := ik_code r,
            il_err := string_of_null (ik_err r), il_expired := \<not> now < t\<rparr>))))"

text \<open>ORDER BY created_at DESC LIMIT 1: the newest row, the first one among equals.\<close>

fun newest_row :: "idem_row list \<Rightarrow> idem_row option" where
  "newest_row [] = None"
| "newest_row (r # rs) = (case newest_row rs of None \<Rightarrow> Some r
     | Some s \<Rightarrow> if ik_created_at r < ik_created_at s then Some s else Some r)"

definition store_GetIdempotencyResult :: "(string \<Rightarrow> string) \<Rightarrow> io \<Rightarrow> user_id \<Rightarrow> string \<Rightarrow> string \<Rightarrow> string \<Rightarrow> instant
    \<Rightarrow> qdb \<Rightarrow> store_error + IdempotencyLookup" where
  "store_GetIdempotencyResult sha io u scope key payload now q =
     (if u = [] \<or> scope = [] \<or> key = []
      then Inl (ErrArgument ''GetIdempotencyResult: userID, scope, plaintextKey are required'')
      else case io 0 of Some e \<Rightarrow> Inl e | None \<Rightarrow>
      bind_result (scanIdempotencyRow now (find (\<lambda>r. ik_key_hash r = HashIdempotencyKey sha u scope key payload \<and> ik_user r = u)
         (q_idem q))) (\<lambda>exact.
      case exact of Some l \<Rightarrow> Inr (l\<lparr>il_found := True, il_match := True\<rparr>) | None \<Rightarrow>
      case io 1 of Some e \<Rightarrow> Inl e | None \<Rightarrow>
      bind_result (scanIdempotencyRow now (newest_row (filter (\<lambda>r. ik_user r = u \<and> ik_scope r = scope \<and>
         ik_plain_hash r = HashIdempotencyPlain sha u scope key) (q_idem q)))) (\<lambda>other.
      case other of Some l \<Rightarrow> Inr (l\<lparr>il_found := True, il_match := False\<rparr>) | None \<Rightarrow> Inr no_lookup)))"

definition store_PruneExpiredIdempotency :: "io \<Rightarrow> instant \<Rightarrow> qdb \<Rightarrow> (store_error + nat) \<times> qdb" where
  "store_PruneExpiredIdempotency io now q = (case io 0 of Some e \<Rightarrow> (Inl e, q) | None \<Rightarrow>
     let dead = (\<lambda>r. ik_expires_at r \<le> format_millis now) in
     (Inr (length (filter dead (q_idem q))), q\<lparr>q_idem := filter (\<lambda>r. \<not> dead r) (q_idem q)\<rparr>))"

section \<open>Bearer tokens\<close>

record TokenRow =
  tr_id :: string
  tr_user :: user_id
  tr_hash :: string
  tr_scopes :: string
  tr_label :: string
  tr_created_at :: instant
  tr_last_seen :: "instant option"
  tr_revoked_at :: "instant option"

definition valid_scope :: "string \<Rightarrow> bool" where
  "valid_scope s \<longleftrightarrow> s = ''user'' \<or> s = ''operator''"

definition store_InsertToken :: "io \<Rightarrow> db \<Rightarrow> TokenRow \<Rightarrow> qdb \<Rightarrow> store_error option \<times> qdb" where
  "store_InsertToken io d t q =
     (if tr_id t = [] \<or> tr_user t = [] \<or> tr_hash t = [] \<or> tr_scopes t = [] \<or> tr_label t = []
      then (Some (ErrArgument ''InsertToken: id, user_id, hash, scopes, and label are required''), q)
      else if \<not> valid_scope (tr_scopes t)
      then (Some (ErrArgument ''InsertToken: scopes must be user or operator''), q)
      else if is_zero (tr_created_at t) then (Some (ErrArgument ''InsertToken: createdAt is required (Law 7)''), q)
      else case io 0 of Some e \<Rightarrow> (Some e, q) | None \<Rightarrow>
      if tr_id t \<in> tk_id ` set (q_tokens q) then (Some (ErrConstraint ''tokens.id''), q)
      else if tr_hash t \<in> tk_hash ` set (q_tokens q) then (Some (ErrConstraint ''tokens.hash''), q)
      else if \<not> user_fk d (tr_user t) q then (Some (ErrConstraint ''FOREIGN KEY''), q)
      else (None, q\<lparr>q_tokens := q_tokens q @
        [\<lparr>tk_id = tr_id t, tk_user = tr_user t, tk_hash = tr_hash t, tk_scopes = tr_scopes t, tk_label = tr_label t,
          tk_created_at = unix_sec (tr_created_at t), tk_last_seen = None, tk_revoked_at = None\<rparr>]\<rparr>))"

definition scanTokenRow :: "token_row \<Rightarrow> TokenRow" where
  "scanTokenRow r = \<lparr>tr_id = tk_id r, tr_user = tk_user r, tr_hash = tk_hash r, tr_scopes = tk_scopes r, tr_label = tk_label r,
     tr_created_at = from_unix_sec (tk_created_at r), tr_last_seen = map_option from_unix_sec (tk_last_seen r),
     tr_revoked_at = map_option from_unix_sec (tk_revoked_at r)\<rparr>"

definition live_token :: "string \<Rightarrow> token_row \<Rightarrow> bool" where
  "live_token h r \<longleftrightarrow> tk_hash r = h \<and> tk_revoked_at r = None"

definition store_FindTokenByHash :: "io \<Rightarrow> string \<Rightarrow> qdb \<Rightarrow> store_error + TokenRow" where
  "store_FindTokenByHash io h q =
     (if h = [] then Inl (ErrArgument ''FindTokenByHash: hash is required'')
      else case io 0 of Some e \<Rightarrow> Inl e | None \<Rightarrow>
      case find (live_token h) (q_tokens q) of None \<Rightarrow> Inl ErrNotFound | Some r \<Rightarrow> Inr (scanTokenRow r))"

definition store_ListTokensForUser :: "io \<Rightarrow> user_id \<Rightarrow> qdb \<Rightarrow> store_error + TokenRow list" where
  "store_ListTokensForUser io u q =
     (if u = [] then Inl (ErrArgument ''ListTokensForUser: userID is required'')
      else case io 0 of Some e \<Rightarrow> Inl e | None \<Rightarrow>
      Inr (map scanTokenRow (sort_key (\<lambda>r. (tk_created_at r, tk_id r)) (filter (\<lambda>r. tk_user r = u) (q_tokens q)))))"

definition revocable :: "user_id \<Rightarrow> string \<Rightarrow> token_row \<Rightarrow> bool" where
  "revocable u k r \<longleftrightarrow> tk_id r = k \<and> tk_user r = u \<and> tk_revoked_at r = None"

definition store_RevokeToken :: "io \<Rightarrow> user_id \<Rightarrow> string \<Rightarrow> instant \<Rightarrow> qdb \<Rightarrow> store_error option \<times> qdb" where
  "store_RevokeToken io u k now q =
     (if u = [] \<or> k = [] then (Some (ErrArgument ''RevokeToken: userID and tokenID are required''), q)
      else if is_zero now then (Some (ErrArgument ''RevokeToken: now is required (Law 7)''), q)
      else case io 0 of Some e \<Rightarrow> (Some e, q) | None \<Rightarrow>
      if filter (revocable u k) (q_tokens q) = [] then (Some ErrNotFound, q)
      else (None, q\<lparr>q_tokens := map (\<lambda>r. if revocable u k r then r\<lparr>tk_revoked_at := Some (unix_sec now)\<rparr> else r) (q_tokens q)\<rparr>))"

definition store_TouchTokenSeen :: "io \<Rightarrow> string \<Rightarrow> instant \<Rightarrow> qdb \<Rightarrow> store_error option \<times> qdb" where
  "store_TouchTokenSeen io h now q =
     (if h = [] then (Some (ErrArgument ''TouchTokenSeen: hash is required''), q)
      else if is_zero now then (Some (ErrArgument ''TouchTokenSeen: now is required (Law 7)''), q)
      else case io 0 of Some e \<Rightarrow> (Some e, q) | None \<Rightarrow>
      (None, q\<lparr>q_tokens := map (\<lambda>r. if live_token h r then r\<lparr>tk_last_seen := Some (unix_sec now)\<rparr> else r) (q_tokens q)\<rparr>))"

section \<open>Accounts\<close>

text \<open>No statement of the program writes \<^verbatim>\<open>accounts.disabled_at\<close>: it is NULL in every row.\<close>

record AccountRow =
  ar_id :: account_id
  ar_user :: user_id
  ar_resy_email :: string
  ar_display_name :: string
  ar_created_at :: instant
  ar_disabled_at :: "instant option"

definition scanAccountRow :: "user_id \<Rightarrow> account_row \<Rightarrow> AccountRow" where
  "scanAccountRow u r = \<lparr>ar_id = a_id r, ar_user = u, ar_resy_email = a_resy_email r, ar_display_name = a_display_name r,
     ar_created_at = from_unix_milli (a_created_at r), ar_disabled_at = None\<rparr>"

definition store_ListAccountsForUser :: "io \<Rightarrow> user_id \<Rightarrow> db \<Rightarrow> store_error + AccountRow list" where
  "store_ListAccountsForUser io u d =
     (if u = [] then Inl (ErrArgument ''ListAccountsForUser: userID is required'')
      else case io 0 of Some e \<Rightarrow> Inl e | None \<Rightarrow>
      Inr (map (scanAccountRow u) (sort_key (\<lambda>r. (a_created_at r, a_id r)) (filter (\<lambda>r. a_user_id r = Some u) (db_accounts d)))))"

definition bound_account :: "user_id \<Rightarrow> string \<Rightarrow> account_row \<Rightarrow> bool" where
  "bound_account u email r \<longleftrightarrow> a_user_id r = Some u \<and> a_resy_email r = email"

definition store_GetAccountByEmail :: "io \<Rightarrow> user_id \<Rightarrow> string \<Rightarrow> db \<Rightarrow> store_error + AccountRow" where
  "store_GetAccountByEmail io u email d =
     (if u = [] \<or> email = [] then Inl (ErrArgument ''GetAccountByEmail: userID and email are required'')
      else case io 0 of Some e \<Rightarrow> Inl e | None \<Rightarrow>
      case find (bound_account u email) (db_accounts d) of None \<Rightarrow> Inl ErrNotFound | Some r \<Rightarrow> Inr (scanAccountRow u r))"

text \<open>The transaction: statement 0 is BEGIN, 1 the lookup of a bound row, then either 2 its COMMIT, or
  2 the UPDATE of the legacy rows, 3 the second lookup and 4 the COMMIT. Claiming two legacy
  rows of one address violates \<^verbatim>\<open>UNIQUE (user_id, resy_email)\<close>.\<close>

definition store_BindLegacyAccountToUser :: "io \<Rightarrow> user_id \<Rightarrow> string \<Rightarrow> qdb \<Rightarrow> db \<Rightarrow> (store_error + account_id) \<times> db" where
  "store_BindLegacyAccountToUser io u email q d =
     (if u = [] \<or> email = [] then (Inl (ErrArgument ''BindLegacyAccountToUser: userID and email are required''), d)
      else case io 0 of Some e \<Rightarrow> (Inl e, d) | None \<Rightarrow>
      case io 1 of Some e \<Rightarrow> (Inl e, d) | None \<Rightarrow>
      case find (bound_account u email) (db_accounts d) of
        Some r \<Rightarrow> (case io 2 of Some e \<Rightarrow> (Inl e, d) | None \<Rightarrow> (Inr (a_id r), d))
      | None \<Rightarrow>
        case io 2 of Some e \<Rightarrow> (Inl e, d) | None \<Rightarrow>
        let legacy = (\<lambda>r. a_user_id r = None \<and> a_resy_email r = email);
            claimed = map (\<lambda>r. if legacy r then r\<lparr>a_user_id := Some u\<rparr> else r) (db_accounts d) in
        (case filter legacy (db_accounts d) of
           [] \<Rightarrow> (Inl ErrNotFound, d)
         | [_] \<Rightarrow> if \<not> user_fk d u q then (Inl (ErrConstraint ''FOREIGN KEY''), d)
             else (case io 3 of Some e \<Rightarrow> (Inl e, d) | None \<Rightarrow>
               case find (bound_account u email) claimed of None \<Rightarrow> (Inl ErrNotFound, d)
               | Some r \<Rightarrow> (case io 4 of Some e \<Rightarrow> (Inl e, d) | None \<Rightarrow> (Inr (a_id r), d\<lparr>db_accounts := claimed\<rparr>)))
         | _ \<Rightarrow> (Inl (ErrConstraint ''accounts.user_id, accounts.resy_email''), d)))"

section \<open>The audit log\<close>

record AuditEventInput =
  ai_user :: user_id
  ai_target_user :: "user_id option"
  ai_action :: string
  ai_target :: string
  ai_ok :: bool
  ai_error_code :: string
  ai_ip :: string
  ai_agent :: string
  ai_details :: string

text \<open>The statement stamps \<^verbatim>\<open>created_at\<close> itself, from the clock \<open>now\<close> of the host, in whole seconds.\<close>

definition store_WriteAuditEvent :: "io \<Rightarrow> db \<Rightarrow> instant \<Rightarrow> AuditEventInput \<Rightarrow> qdb \<Rightarrow> store_error option \<times> qdb" where
  "store_WriteAuditEvent io d now ev q =
     (if ai_user ev = [] then (Some (ErrArgument ''actor UserID is required''), q)
      else if ai_action ev = [] then (Some (ErrArgument ''action is required''), q)
      else let targetUser = (case ai_target_user ev of None \<Rightarrow> None | Some t \<Rightarrow> null_if_empty t) in
      case io 0 of Some e \<Rightarrow> (Some e, q) | None \<Rightarrow>
      if \<not> user_fk d (ai_user ev) q \<or> (case targetUser of None \<Rightarrow> False | Some t \<Rightarrow> \<not> user_fk d t q)
      then (Some (ErrConstraint ''FOREIGN KEY''), q)
      else (None, q\<lparr>q_audit := q_audit q @
        [\<lparr>au_user = ai_user ev, au_target_user = targetUser, au_action = ai_action ev,
          au_target = null_if_empty (ai_target ev), au_ok = ai_ok ev, au_error_code = null_if_empty (ai_error_code ev),
          au_ip = null_if_empty (ai_ip ev), au_agent = null_if_empty (ai_agent ev),
          au_created_at = unix_sec now * 1000, au_details = null_if_empty (ai_details ev)\<rparr>]\<rparr>))"

record AuditEventRow =
  ae_id :: nat
  ae_user :: user_id
  ae_target_user :: "user_id option"
  ae_action :: string
  ae_target :: string
  ae_ok :: bool
  ae_error_code :: string
  ae_ip :: string
  ae_agent :: string
  ae_created_at :: instant
  ae_details :: string

record AuditEventFilter =
  af_action :: string
  af_since :: "instant option"
  af_until :: "instant option"
  af_limit :: int

definition scan_audit :: "nat \<times> audit_row \<Rightarrow> AuditEventRow" where
  "scan_audit = (\<lambda>(i, r). \<lparr>ae_id = i, ae_user = au_user r, ae_target_user = au_target_user r, ae_action = au_action r,
     ae_target = string_of_null (au_target r), ae_ok = au_ok r, ae_error_code = string_of_null (au_error_code r),
     ae_ip = string_of_null (au_ip r), ae_agent = string_of_null (au_agent r),
     ae_created_at = from_unix_milli (au_created_at r), ae_details = string_of_null (au_details r)\<rparr>)"

text \<open>Nothing deletes audit rows, so the AUTOINCREMENT id of a row is its position.\<close>

definition store_ListAuditEvents :: "io \<Rightarrow> user_id \<Rightarrow> AuditEventFilter \<Rightarrow> qdb \<Rightarrow> store_error + AuditEventRow list" where
  "store_ListAuditEvents io u f q = (case io 0 of Some e \<Rightarrow> Inl e | None \<Rightarrow>
     Inr (map scan_audit (limit_rows (af_limit f) (rev (sort_key (\<lambda>(i, r). au_created_at r)
       (filter (\<lambda>(i, r). au_user r = u \<and> (af_action f \<noteq> [] \<longrightarrow> au_action r = af_action f) \<and>
          (case af_since f of None \<Rightarrow> True | Some t \<Rightarrow> unix_milli t \<le> au_created_at r) \<and>
          (case af_until f of None \<Rightarrow> True | Some t \<Rightarrow> au_created_at r \<le> unix_milli t))
        (enumerate 1 (q_audit q))))))))"

section \<open>The venue caches\<close>

definition encodeVenue :: "venue \<Rightarrow> json" where
  "encodeVenue v = marshaled (JObj [(''provider'', JStr (v_provider v)), (''ref'', JStr (v_ref v)), (''name'', JStr (v_name v)),
     (''tz'', JStr (case v_tz v of None \<Rightarrow> [] | Some l \<Rightarrow> loc_name l))])"

definition decode_venue :: "(string \<Rightarrow> location option) \<Rightarrow> json \<Rightarrow> store_error + venue" where
  "decode_venue load j =
     bind_result (map_err (\<lambda>_. ErrDecode ''venue'') (
       bind_result (as_members j) (\<lambda>fs.
       bind_result (str_member ''provider'' fs) (\<lambda>p.
       bind_result (str_member ''ref'' fs) (\<lambda>r.
       bind_result (str_member ''name'' fs) (\<lambda>n.
       bind_result (str_member ''tz'' fs) (\<lambda>z. Inr (p, r, n, z)))))))) (\<lambda>(p, r, n, z).
     if z = [] then Inr \<lparr>v_provider = p, v_ref = r, v_name = n, v_tz = None\<rparr>
     else case load z of None \<Rightarrow> Inl (ErrDecode z)
       | Some l \<Rightarrow> Inr \<lparr>v_provider = p, v_ref = r, v_name = n, v_tz = Some l\<rparr>)"

text \<open>A venue the cache can hold: its texts are UTF-8, its location, if it has one, loads under its name.\<close>

definition venue_loads :: "(string \<Rightarrow> location option) \<Rightarrow> venue \<Rightarrow> bool" where
  "venue_loads load v \<longleftrightarrow> valid_utf8 (v_provider v) \<and> valid_utf8 (v_ref v) \<and> valid_utf8 (v_name v) \<and>
     (case v_tz v of None \<Rightarrow> True | Some l \<Rightarrow> valid_utf8 (loc_name l) \<and> loc_name l \<noteq> [] \<and> load (loc_name l) = Some l)"

interpretation venue_codec: codec encodeVenue "decode_venue load" "venue_loads load" for load
proof
  show "decode_venue load (encodeVenue v) = Inr v" if "venue_loads load v" for v
    using that by (cases v) (auto simp: decode_venue_def encodeVenue_def venue_loads_def str_member_def member_Cons map_err_def split: option.splits)
qed

definition UpsertVenueCache :: "io \<Rightarrow> string \<Rightarrow> string \<Rightarrow> venue \<Rightarrow> instant \<Rightarrow> qdb \<Rightarrow> store_error option \<times> qdb" where
  "UpsertVenueCache io slug city v at q =
     (if slug = [] \<or> city = [] then (Some (ErrArgument ''UpsertVenueCache: slug and city are required''), q)
      else case io 0 of Some e \<Rightarrow> (Some e, q) | None \<Rightarrow>
      (None, q\<lparr>q_venue_cache :=
        (if \<exists>r \<in> set (q_venue_cache q). vc_slug r = slug \<and> vc_city r = city
         then map (\<lambda>r. if vc_slug r = slug \<and> vc_city r = city
           then r\<lparr>vc_json := encodeVenue v, vc_resolved_at := unix_sec at\<rparr> else r) (q_venue_cache q)
         else q_venue_cache q @ [\<lparr>vc_slug = slug, vc_city = city, vc_json = encodeVenue v, vc_resolved_at = unix_sec at\<rparr>])\<rparr>))"

definition GetVenueCache :: "(string \<Rightarrow> location option) \<Rightarrow> io \<Rightarrow> string \<Rightarrow> string \<Rightarrow> qdb \<Rightarrow> store_error + (venue \<times> instant)" where
  "GetVenueCache load io slug city q = (case io 0 of Some e \<Rightarrow> Inl e | None \<Rightarrow>
     case find (\<lambda>r. vc_slug r = slug \<and> vc_city r = city) (q_venue_cache q) of
       None \<Rightarrow> Inl ErrCacheMiss
     | Some r \<Rightarrow> bind_result (decode_venue load (vc_json r)) (\<lambda>v. Inr (v, from_unix_sec (vc_resolved_at r))))"

definition UpsertNameSearchCache :: "io \<Rightarrow> string \<Rightarrow> venue list \<Rightarrow> instant \<Rightarrow> qdb \<Rightarrow> store_error option \<times> qdb" where
  "UpsertNameSearchCache io key hits at q =
     (if key = [] then (Some (ErrArgument ''UpsertNameSearchCache: query is required''), q)
      else case io 0 of Some e \<Rightarrow> (Some e, q) | None \<Rightarrow>
      (None, q\<lparr>q_name_cache :=
        (if \<exists>r \<in> set (q_name_cache q). nc_query r = key
         then map (\<lambda>r. if nc_query r = key
           then r\<lparr>nc_json := JArr (map encodeVenue hits), nc_resolved_at := unix_sec at\<rparr> else r) (q_name_cache q)
         else q_name_cache q @ [\<lparr>nc_query = key, nc_json = JArr (map encodeVenue hits), nc_resolved_at = unix_sec at\<rparr>])\<rparr>))"

definition decode_hits :: "(string \<Rightarrow> location option) \<Rightarrow> json \<Rightarrow> store_error + venue list" where
  "decode_hits load j = (case j of JArr xs \<Rightarrow> map_result (decode_venue load) xs | JNull \<Rightarrow> Inr [] | _ \<Rightarrow> Inl (ErrDecode ''hits''))"

definition GetNameSearchCache :: "(string \<Rightarrow> location option) \<Rightarrow> io \<Rightarrow> string \<Rightarrow> qdb \<Rightarrow> store_error + (venue list \<times> instant)" where
  "GetNameSearchCache load io key q = (case io 0 of Some e \<Rightarrow> Inl e | None \<Rightarrow>
     case find (\<lambda>r. nc_query r = key) (q_name_cache q) of
       None \<Rightarrow> Inl ErrCacheMiss
     | Some r \<Rightarrow> bind_result (decode_hits load (nc_json r)) (\<lambda>hits. Inr (hits, from_unix_sec (nc_resolved_at r))))"

end
