(* ===== verification/StoreFacts.thy ===== *)
theory StoreFacts
  imports SnipeStore
begin

text \<open>
  What the store promises. A database is abstracted to the map from snipe ids to the snipe
  with its event log (\<open>snipe_at\<close>); the mutating operations implement the abstract updates of
  that map (\<open>abs_create\<close>, \<open>abs_transition\<close>) when they report no error and change nothing when
  they report one (locale \<open>atomic_op\<close>). Upserted rows follow the last-write-wins contract of
  the locale \<open>upsert_table\<close>.
\<close>

section \<open>The abstract view\<close>

definition snipe_at :: "db \<Rightarrow> snipe_id \<Rightarrow> snipe_state option" where
  "snipe_at d sid = (case GetSnipe io_ok sid d of Inl _ \<Rightarrow> None
     | Inr s \<Rightarrow> (case ListEventsBySnipe io_ok sid d of Inl _ \<Rightarrow> None | Inr evs \<Rightarrow> Some (s\<lparr>s_events := evs\<rparr>)))"

definition snipe_row_ok :: "snipe_state \<Rightarrow> bool" where
  "snipe_row_ok s \<longleftrightarrow> valid_utf8 (s_id s) \<and> intent_row_ok (s_intent s) \<and> result_row_ok (s_result s) \<and>
     rfc_range (s_scheduled_at s) \<and> rfc_range (s_created_at s) \<and> rfc_range (s_updated_at s)"

definition db_ok :: "db \<Rightarrow> bool" where
  "db_ok d \<longleftrightarrow> distinct (map r_id (db_snipes d)) \<and>
     (\<forall>r \<in> set (db_snipes d). \<exists>s. scanSnipeRow r = Inr s \<and> snipe_row_ok s) \<and>
     (\<forall>e \<in> set (db_events d). er_snipe_id e \<in> r_id ` set (db_snipes d) \<and> (\<exists>ev. scan_event e = Inr ev))"

definition abs_create :: "snipe_state \<Rightarrow> (snipe_id \<Rightarrow> snipe_state option) \<Rightarrow> snipe_id \<Rightarrow> snipe_state option" where
  "abs_create s m = m(s_id s \<mapsto> s\<lparr>s_events := []\<rparr>)"

definition abs_append :: "snipe_id \<Rightarrow> event \<Rightarrow> (snipe_id \<Rightarrow> snipe_state option) \<Rightarrow> snipe_id \<Rightarrow> snipe_state option" where
  "abs_append sid ev m = (case m sid of None \<Rightarrow> m
     | Some old \<Rightarrow> m(sid \<mapsto> old\<lparr>s_events := s_events old @ [ev]\<rparr>))"

definition abs_transition :: "snipe_state \<Rightarrow> event \<Rightarrow> (snipe_id \<Rightarrow> snipe_state option) \<Rightarrow> snipe_id \<Rightarrow> snipe_state option" where
  "abs_transition s ev m = (case m (s_id s) of None \<Rightarrow> m
     | Some old \<Rightarrow> m(s_id s \<mapsto> s\<lparr>s_created_at := s_created_at old, s_events := s_events old @ [ev]\<rparr>))"

definition event_row_ok :: "event \<Rightarrow> bool" where
  "event_row_ok ev \<longleftrightarrow> rfc_range (ev_at ev) \<and> (\<forall>(k, v) \<in> set (ev_attrs ev). valid_utf8 k \<and> attr_ok v)"

section \<open>Failed operations change nothing\<close>

locale atomic_op =
  fixes run :: "io \<Rightarrow> 'd \<Rightarrow> store_error option \<times> 'd"
  assumes failed_keeps: "run io d = (Some e, d') \<Longrightarrow> d' = d"
begin

text \<open>Retrying after any number of failures is as good as succeeding at once.\<close>

lemma failures_then_success:
  assumes "\<forall>io \<in> set ios. fst (run io d) \<noteq> None"
  shows "fold (\<lambda>io d. snd (run io d)) ios d = d"
  using assms
proof (induction ios)
  case (Cons io ios)
  then obtain e where "run io d = (Some e, snd (run io d))" by (cases "run io d") auto
  with Cons show ?case using failed_keeps by fastforce
qed simp

end

interpretation create_op: atomic_op "\<lambda>io. CreateSnipe sha io s" for sha s
  by unfold_locales (auto simp: CreateSnipe_def split: sum.splits option.splits if_splits)

interpretation update_op: atomic_op "\<lambda>io. UpdateSnipe sha io s" for sha s
  by unfold_locales (auto simp: UpdateSnipe_def split: sum.splits option.splits if_splits)

interpretation transition_op: atomic_op "\<lambda>io. TransitionSnipe sha io s ev" for sha s ev
  by unfold_locales
    (auto simp: TransitionSnipe_def split: sum.splits option.splits if_splits prod.splits)

interpretation append_op: atomic_op "\<lambda>io. AppendEvent io sid ev" for sid ev
  by unfold_locales (auto simp: AppendEvent_def insert_event_def split: option.splits if_splits)

interpretation session_op: atomic_op "\<lambda>io. UpsertSession io sess" for sess
  by unfold_locales (auto simp: UpsertSession_def split: sum.splits option.splits if_splits prod.splits)

interpretation delete_session_op: atomic_op "\<lambda>io. DeleteSession io user prov" for user prov
  by unfold_locales (auto simp: DeleteSession_def split: option.splits)

interpretation venue_op: atomic_op "\<lambda>io. UpsertVenue io v" for v
  by unfold_locales (auto simp: UpsertVenue_def Let_def split: option.splits)

interpretation observed_op: atomic_op "\<lambda>io. UpsertObserved io ob" for ob
  by unfold_locales (auto simp: UpsertObserved_def Let_def split: option.splits)

section \<open>Rows and the abstract view\<close>

lemma find_append: "find P (xs @ ys) = (case find P xs of Some x \<Rightarrow> Some x | None \<Rightarrow> find P ys)"
  by (induction xs) auto

lemma find_snipe_append:
  "find_snipe sid (d\<lparr>db_snipes := db_snipes d @ [r]\<rparr>) =
     (case find_snipe sid d of Some x \<Rightarrow> Some x | None \<Rightarrow> if r_id r = sid then Some r else None)"
  by (simp add: find_snipe_def find_append split: option.split)

lemma find_snipe_None: "find_snipe sid d = None \<longleftrightarrow> sid \<notin> r_id ` set (db_snipes d)"
  by (auto simp: find_snipe_def find_None_iff)

lemma find_snipe_Some: "find_snipe sid d = Some r \<Longrightarrow> r \<in> set (db_snipes d) \<and> r_id r = sid"
  by (auto simp: find_snipe_def find_Some_iff)

lemma rows_affected_0: "rows_affected sid d = 0 \<longleftrightarrow> find_snipe sid d = None"
  by (auto simp: rows_affected_def find_snipe_None filter_empty_conv)

lemma find_map_key:
  assumes "\<And>r. key (f r) = key r"
  shows "find (\<lambda>r. key r = k) (map f rs) = map_option f (find (\<lambda>r. key r = k) rs)"
  using assms by (induction rs) auto

lemma map_result_append:
  "map_result f (xs @ ys) = bind_result (map_result f xs) (\<lambda>us. bind_result (map_result f ys) (\<lambda>vs. Inr (us @ vs)))"
  by (induction xs) (auto simp: bind_result_def split: sum.splits)

lemma map_result_total:
  "(\<And>x. x \<in> set xs \<Longrightarrow> \<exists>y. f x = Inr y) \<Longrightarrow> \<exists>ys. map_result f xs = Inr ys"
proof (induction xs)
  case (Cons x xs)
  then obtain y ys where "f x = Inr y" "map_result f xs = Inr ys" by (metis list.set_intros(1,2))
  then show ?case by simp
qed simp

lemma NewSnipeState_simps [simp]:
  "s_status (NewSnipeState i n c) = StatusSubmitted" "s_id (NewSnipeState i n c) = i"
  "s_intent (NewSnipeState i n c) = n" "s_created_at (NewSnipeState i n c) = c"
  "s_events (NewSnipeState i n c) = []" "s_result (NewSnipeState i n c) = None"
  "s_scheduled_at (NewSnipeState i n c) = 0" "s_updated_at (NewSnipeState i n c) = c"
  by (simp_all add: NewSnipeState_def)

lemma scanSnipeRow_written:
  assumes ok: "snipe_row_ok s" and ij: "MarshalIntent (s_intent s) = Inr (r_intent_json r)"
    and rj: "MarshalResult (s_result s) = Inr (r_result_json r)"
    and cols: "r_id r = s_id s" "r_status r = status_string (s_status s)"
      "r_scheduled_at r = nullableTime (s_scheduled_at s)" "r_updated_at r = formatTime (s_updated_at s)"
      "parseTime (r_created_at r) = Inr c"
  shows "scanSnipeRow r = Inr (s\<lparr>s_created_at := c, s_events := []\<rparr>)"
proof -
  have i: "UnmarshalIntent (r_intent_json r) = Inr (s_intent s)"
    using intent_codec.dec_enc [of "s_intent s"] ij ok by (simp add: snipe_row_ok_def)
  have j: "UnmarshalResult (r_result_json r) = Inr (s_result s)"
    using result_codec.dec_enc [of "s_result s"] rj ok by (simp add: snipe_row_ok_def)
  have "scanSnipeRow r = forceStatus ((NewSnipeState (s_id s) (s_intent s) c)
      \<lparr>s_updated_at := s_updated_at s, s_scheduled_at := s_scheduled_at s, s_result := s_result s\<rparr>) (s_status s)"
    using ok by (simp add: scanSnipeRow_def i j cols status_codec.dec_enc time_codec.dec_enc
        nullable_time_codec.dec_enc snipe_row_ok_def)
  then show ?thesis
    by (simp add: forceStatus_submitted NewSnipeState_def)
qed

lemma scan_event_written:
  "event_row_ok ev \<Longrightarrow> scan_event \<lparr>er_snipe_id = sid, er_type = ev_type ev, er_at = formatTime (ev_at ev),
     er_fields = EncodeAttrs (ev_attrs ev)\<rparr> = Inr ev"
  using attrs_codec.dec_enc [of "ev_attrs ev"]
  by (simp add: scan_event_def event_row_ok_def time_codec.dec_enc)

lemma scanSnipeRow_created:
  assumes "scanSnipeRow r = Inr s"
  shows "parseTime (r_created_at r) = Inr (s_created_at s) \<and> s_id s = r_id r \<and> s_events s = []"
  using assms
  by (auto simp: scanSnipeRow_def bind_result_def forceStatus_submitted split: sum.splits)

section \<open>The operations refine the abstract updates\<close>

lemma snipe_at_unfold:
  "snipe_at d sid = (case find_snipe sid d of None \<Rightarrow> None
     | Some r \<Rightarrow> (case scanSnipeRow r of Inl _ \<Rightarrow> None
       | Inr s \<Rightarrow> (case map_result scan_event (filter (\<lambda>e. er_snipe_id e = sid) (db_events d)) of
           Inl _ \<Rightarrow> None | Inr evs \<Rightarrow> Some (s\<lparr>s_events := evs\<rparr>))))"
  by (simp add: snipe_at_def GetSnipe_def ListEventsBySnipe_def split: option.splits sum.splits)

lemma GetSnipe_of_snipe_at:
  assumes "snipe_at d sid = Some t"
  shows "GetSnipe io_ok sid d = Inr (t\<lparr>s_events := []\<rparr>)"
proof -
  obtain s evs where s: "GetSnipe io_ok sid d = Inr s" "t = s\<lparr>s_events := evs\<rparr>"
    using assms by (auto simp: snipe_at_def split: sum.splits)
  then have "s_events s = []"
    using scanSnipeRow_created by (auto simp: GetSnipe_def split: option.splits)
  then show ?thesis using s by simp
qed

lemma snipe_at_cong:
  "find_snipe sid d' = find_snipe sid d \<Longrightarrow>
   filter (\<lambda>e. er_snipe_id e = sid) (db_events d') = filter (\<lambda>e. er_snipe_id e = sid) (db_events d) \<Longrightarrow>
   snipe_at d' sid = snipe_at d sid"
  by (simp add: snipe_at_unfold cong: option.case_cong sum.case_cong)

lemma db_ok_snipe_at:
  assumes "db_ok d"
  shows "snipe_at d sid = None \<longleftrightarrow> find_snipe sid d = None"
proof (cases "find_snipe sid d")
  case (Some r)
  then obtain s where s: "scanSnipeRow r = Inr s"
    using find_snipe_Some [OF Some] assms unfolding db_ok_def by blast
  obtain evs where "map_result scan_event (filter (\<lambda>e. er_snipe_id e = sid) (db_events d)) = Inr evs"
    using map_result_total [of "filter (\<lambda>e. er_snipe_id e = sid) (db_events d)" scan_event] assms
    by (auto simp: db_ok_def)
  with Some s show ?thesis by (simp add: snipe_at_unfold)
qed (simp add: snipe_at_unfold)

lemma no_events_of_absent:
  "db_ok d \<Longrightarrow> find_snipe sid d = None \<Longrightarrow> filter (\<lambda>e. er_snipe_id e = sid) (db_events d) = []"
  by (auto simp: db_ok_def find_snipe_None filter_empty_conv)

lemma CreateSnipe_cases:
  assumes "CreateSnipe sha io s d = (None, d')"
  obtains ij rj where "MarshalIntent (s_intent s) = Inr ij" "MarshalResult (s_result s) = Inr rj"
    "find_snipe (s_id s) d = None"
    "d' = d\<lparr>db_snipes := db_snipes d @
        [\<lparr>r_id = s_id s, r_intent_hash = Hash sha (s_intent s), r_intent_json = ij,
          r_status = status_string (s_status s), r_scheduled_at = nullableTime (s_scheduled_at s),
          r_result_json = rj, r_created_at = formatTime (s_created_at s),
          r_updated_at = formatTime (s_updated_at s)\<rparr>]\<rparr>"
  using assms by (auto simp: CreateSnipe_def find_snipe_None split: sum.splits option.splits if_splits)

lemma TransitionSnipe_cases:
  assumes "TransitionSnipe sha io s ev d = (None, d')"
  obtains ij rj where "MarshalIntent (s_intent s) = Inr ij" "MarshalResult (s_result s) = Inr rj"
    "find_snipe (s_id s) d \<noteq> None"
    "d' = (update_row sha s ij rj d)\<lparr>db_events := db_events d @
        [\<lparr>er_snipe_id = s_id s, er_type = ev_type ev, er_at = formatTime (ev_at ev),
          er_fields = EncodeAttrs (ev_attrs ev)\<rparr>]\<rparr>"
  using assms
  by (auto simp: TransitionSnipe_def insert_event_def rows_affected_0 update_row_def
      split: sum.splits option.splits if_splits prod.splits)

lemma CreateSnipe_refines:
  assumes run: "CreateSnipe sha io s d = (None, d')" and ok: "snipe_row_ok s" "db_ok d"
  shows "snipe_at d' = abs_create s (snipe_at d)"
proof
  fix sid
  obtain ij rj where c: "MarshalIntent (s_intent s) = Inr ij" "MarshalResult (s_result s) = Inr rj"
    "find_snipe (s_id s) d = None"
    and d': "d' = d\<lparr>db_snipes := db_snipes d @
        [\<lparr>r_id = s_id s, r_intent_hash = Hash sha (s_intent s), r_intent_json = ij,
          r_status = status_string (s_status s), r_scheduled_at = nullableTime (s_scheduled_at s),
          r_result_json = rj, r_created_at = formatTime (s_created_at s),
          r_updated_at = formatTime (s_updated_at s)\<rparr>]\<rparr>" (is "_ = d\<lparr>db_snipes := _ @ [?r]\<rparr>")
    using CreateSnipe_cases [OF run] by blast
  have scan: "scanSnipeRow ?r = Inr (s\<lparr>s_events := []\<rparr>)"
    using scanSnipeRow_written [OF ok(1), of ?r "s_created_at s"] c ok(1)
    by (simp add: time_codec.dec_enc snipe_row_ok_def)
  have ev: "db_events d' = db_events d" by (simp add: d')
  have other: "find_snipe sid d' = find_snipe sid d" if "sid \<noteq> s_id s"
    using that by (simp add: d' find_snipe_append split: option.split)
  have same: "find_snipe (s_id s) d' = Some ?r" using c(3) by (simp add: d' find_snipe_append)
  show "snipe_at d' sid = abs_create s (snipe_at d) sid"
  proof (cases "sid = s_id s")
    case True
    then show ?thesis
      using same scan no_events_of_absent [OF ok(2) c(3)] by (simp add: snipe_at_unfold ev abs_create_def)
  next
    case False
    then show ?thesis using snipe_at_cong [of sid d' d] other by (simp add: ev abs_create_def)
  qed
qed

lemma set_columns_simps [simp]:
  "r_id (set_columns sha s ij rj r) = r_id r"
  "r_created_at (set_columns sha s ij rj r) = r_created_at r"
  by (simp_all add: set_columns_def)

lemma scan_set_columns:
  assumes "snipe_row_ok s" "MarshalIntent (s_intent s) = Inr ij" "MarshalResult (s_result s) = Inr rj"
    and "r_id r = s_id s" "scanSnipeRow r = Inr old"
  shows "scanSnipeRow (set_columns sha s ij rj r) = Inr (s\<lparr>s_created_at := s_created_at old, s_events := []\<rparr>)"
  using assms scanSnipeRow_created [of r old]
  by (intro scanSnipeRow_written) (simp_all add: set_columns_def)

lemma update_row_find:
  "find_snipe sid (update_row sha s ij rj d) =
     map_option (\<lambda>r. if r_id r = s_id s then set_columns sha s ij rj r else r) (find_snipe sid d)"
  by (simp add: find_snipe_def update_row_def find_map_key)

lemma TransitionSnipe_refines:
  assumes run: "TransitionSnipe sha io s ev d = (None, d')"
    and ok: "snipe_row_ok s" "event_row_ok ev" "db_ok d"
  shows "snipe_at d' = abs_transition s ev (snipe_at d)"
proof
  fix sid
  obtain ij rj where c: "MarshalIntent (s_intent s) = Inr ij" "MarshalResult (s_result s) = Inr rj"
    "find_snipe (s_id s) d \<noteq> None"
    and d': "d' = (update_row sha s ij rj d)\<lparr>db_events := db_events d @
        [\<lparr>er_snipe_id = s_id s, er_type = ev_type ev, er_at = formatTime (ev_at ev),
          er_fields = EncodeAttrs (ev_attrs ev)\<rparr>]\<rparr>"
    using TransitionSnipe_cases [OF run] by blast
  obtain r where r: "find_snipe (s_id s) d = Some r" using c(3) by blast
  have rid: "r \<in> set (db_snipes d)" "r_id r = s_id s" using find_snipe_Some [OF r] by auto
  obtain old where old: "scanSnipeRow r = Inr old" using ok(3) rid unfolding db_ok_def by blast
  obtain evs where evs: "map_result scan_event (filter (\<lambda>e. er_snipe_id e = s_id s) (db_events d)) = Inr evs"
    using map_result_total [of "filter (\<lambda>e. er_snipe_id e = s_id s) (db_events d)" scan_event] ok(3)
    by (auto simp: db_ok_def)
  have new: "scanSnipeRow (set_columns sha s ij rj r) = Inr (s\<lparr>s_created_at := s_created_at old, s_events := []\<rparr>)"
    by (rule scan_set_columns [OF ok(1) c(1,2) rid(2) old])
  have f: "find_snipe sid d' = find_snipe sid (update_row sha s ij rj d)" for sid
    by (simp add: d' find_snipe_def)
  show "snipe_at d' sid = abs_transition s ev (snipe_at d) sid"
  proof (cases "sid = s_id s")
    case True
    have ev_new: "map_result scan_event (filter (\<lambda>e. er_snipe_id e = s_id s) (db_events d')) = Inr (evs @ [ev])"
      using scan_event_written [OF ok(2)] by (simp add: d' map_result_append evs)
    have "snipe_at d (s_id s) = Some (old\<lparr>s_events := evs\<rparr>)"
      by (simp add: snipe_at_unfold r old evs)
    moreover have "snipe_at d' (s_id s) = Some (s\<lparr>s_created_at := s_created_at old, s_events := evs @ [ev]\<rparr>)"
      by (simp add: snipe_at_unfold f update_row_find r rid(2) new ev_new)
    ultimately show ?thesis using True by (simp add: abs_transition_def)
  next
    case False
    then have "find_snipe sid d' = find_snipe sid d"
      using find_snipe_Some by (cases "find_snipe sid d") (auto simp: f update_row_find)
    moreover have "filter (\<lambda>e. er_snipe_id e = sid) (db_events d') = filter (\<lambda>e. er_snipe_id e = sid) (db_events d)"
      using False by (simp add: d')
    ultimately have "snipe_at d' sid = snipe_at d sid" by (rule snipe_at_cong)
    then show ?thesis using False by (simp add: abs_transition_def split: option.split)
  qed
qed

lemma AppendEvent_refines:
  assumes run: "AppendEvent io sid ev d = (None, d')" and ok: "event_row_ok ev" "db_ok d"
  shows "snipe_at d' = abs_append sid ev (snipe_at d)"
proof
  fix k
  have d': "d' = d\<lparr>db_events := db_events d @
        [\<lparr>er_snipe_id = sid, er_type = ev_type ev, er_at = formatTime (ev_at ev),
          er_fields = EncodeAttrs (ev_attrs ev)\<rparr>]\<rparr>"
    using run by (auto simp: AppendEvent_def insert_event_def split: option.splits if_splits)
  have f: "find_snipe j d' = find_snipe j d" for j by (simp add: d' find_snipe_def)
  obtain evs where evs: "map_result scan_event (filter (\<lambda>e. er_snipe_id e = sid) (db_events d)) = Inr evs"
    using map_result_total [of "filter (\<lambda>e. er_snipe_id e = sid) (db_events d)" scan_event] ok(2)
    by (auto simp: db_ok_def)
  have new: "map_result scan_event (filter (\<lambda>e. er_snipe_id e = sid) (db_events d')) = Inr (evs @ [ev])"
    using scan_event_written [OF ok(1)] by (simp add: d' map_result_append evs)
  show "snipe_at d' k = abs_append sid ev (snipe_at d) k"
  proof (cases "k = sid")
    case True
    then show ?thesis
      using new evs by (auto simp: snipe_at_unfold f abs_append_def split: option.splits sum.splits)
  next
    case False
    then have "snipe_at d' k = snipe_at d k" by (intro snipe_at_cong) (simp_all only: f, simp add: d')
    then show ?thesis using False by (simp add: abs_append_def split: option.split)
  qed
qed

section \<open>The database invariant\<close>

lemma update_row_ids: "map r_id (db_snipes (update_row sha s ij rj d)) = map r_id (db_snipes d)"
  by (simp add: update_row_def comp_def if_distrib cong: if_cong)

lemma update_row_id_set: "r_id ` set (db_snipes (update_row sha s ij rj d)) = r_id ` set (db_snipes d)"
  using update_row_ids by (metis list.set_map)

lemma CreateSnipe_db_ok:
  assumes run: "CreateSnipe sha io s d = (None, d')" and ok: "snipe_row_ok s" "db_ok d"
  shows "db_ok d'"
proof -
  obtain ij rj where c: "MarshalIntent (s_intent s) = Inr ij" "MarshalResult (s_result s) = Inr rj"
    "find_snipe (s_id s) d = None"
    and d': "d' = d\<lparr>db_snipes := db_snipes d @
        [\<lparr>r_id = s_id s, r_intent_hash = Hash sha (s_intent s), r_intent_json = ij,
          r_status = status_string (s_status s), r_scheduled_at = nullableTime (s_scheduled_at s),
          r_result_json = rj, r_created_at = formatTime (s_created_at s),
          r_updated_at = formatTime (s_updated_at s)\<rparr>]\<rparr>" (is "_ = d\<lparr>db_snipes := _ @ [?r]\<rparr>")
    using CreateSnipe_cases [OF run] by blast
  have "scanSnipeRow ?r = Inr (s\<lparr>s_events := []\<rparr>)"
    using scanSnipeRow_written [OF ok(1), of ?r "s_created_at s"] c ok(1)
    by (simp add: time_codec.dec_enc snipe_row_ok_def)
  moreover have "snipe_row_ok (s\<lparr>s_events := []\<rparr>)" using ok(1) by (simp add: snipe_row_ok_def)
  ultimately show ?thesis using ok(2) c(3) by (auto simp: d' db_ok_def find_snipe_None)
qed

lemma TransitionSnipe_db_ok:
  assumes run: "TransitionSnipe sha io s ev d = (None, d')"
    and ok: "snipe_row_ok s" "event_row_ok ev" "db_ok d"
  shows "db_ok d'"
proof -
  obtain ij rj where c: "MarshalIntent (s_intent s) = Inr ij" "MarshalResult (s_result s) = Inr rj"
    "find_snipe (s_id s) d \<noteq> None"
    and d': "d' = (update_row sha s ij rj d)\<lparr>db_events := db_events d @
        [\<lparr>er_snipe_id = s_id s, er_type = ev_type ev, er_at = formatTime (ev_at ev),
          er_fields = EncodeAttrs (ev_attrs ev)\<rparr>]\<rparr>"
    using TransitionSnipe_cases [OF run] by blast
  have rows: "\<exists>t. scanSnipeRow r = Inr t \<and> snipe_row_ok t"
    if mem: "r \<in> set (db_snipes (update_row sha s ij rj d))" for r
  proof -
    obtain q where q: "q \<in> set (db_snipes d)"
      and r: "r = (if r_id q = s_id s then set_columns sha s ij rj q else q)"
      using mem by (auto simp: update_row_def)
    obtain t where t: "scanSnipeRow q = Inr t" "snipe_row_ok t" using ok(3) q by (auto simp: db_ok_def)
    then have "snipe_row_ok (s\<lparr>s_created_at := s_created_at t, s_events := []\<rparr>)"
      using ok(1) by (simp add: snipe_row_ok_def)
    then show ?thesis
      using scan_set_columns [OF ok(1) c(1,2) _ t(1)] t by (cases "r_id q = s_id s") (auto simp: r)
  qed
  have snipes: "db_snipes d' = db_snipes (update_row sha s ij rj d)" by (simp add: d')
  have "distinct (map r_id (db_snipes d'))"
    using ok(3) update_row_ids [of sha s ij rj d] by (simp add: snipes db_ok_def)
  moreover have "\<forall>r \<in> set (db_snipes d'). \<exists>t. scanSnipeRow r = Inr t \<and> snipe_row_ok t"
    using rows by (simp add: snipes)
  moreover have "er_snipe_id e \<in> r_id ` set (db_snipes d') \<and> (\<exists>x. scan_event e = Inr x)"
    if "e \<in> set (db_events d')" for e
  proof (cases "e \<in> set (db_events d)")
    case True
    then show ?thesis using ok(3) by (simp add: snipes update_row_id_set db_ok_def)
  next
    case False
    then have "e = \<lparr>er_snipe_id = s_id s, er_type = ev_type ev, er_at = formatTime (ev_at ev),
          er_fields = EncodeAttrs (ev_attrs ev)\<rparr>" using that by (simp add: d')
    then show ?thesis
      using c(3) scan_event_written [OF ok(2)] by (simp add: snipes update_row_id_set find_snipe_None)
  qed
  ultimately show ?thesis unfolding db_ok_def by blast
qed

lemma AppendEvent_db_ok:
  assumes "AppendEvent io sid ev d = (None, d')" "event_row_ok ev" "db_ok d" "snipe_at d sid \<noteq> None"
  shows "db_ok d'"
proof -
  have "sid \<in> r_id ` set (db_snipes d)"
    using assms(4) by (simp add: db_ok_snipe_at [OF assms(3)] find_snipe_None)
  then show ?thesis
    using assms scan_event_written [OF assms(2), of sid]
    by (auto simp: AppendEvent_def insert_event_def db_ok_def split: option.splits if_splits)
qed

text \<open>With no fault the operations go through.\<close>

lemma CreateSnipe_total:
  assumes "snipe_row_ok s" "db_ok d" "snipe_at d (s_id s) = None"
  shows "\<exists>d'. CreateSnipe sha io_ok s d = (None, d')"
proof -
  obtain ij rj where "MarshalIntent (s_intent s) = Inr ij" "MarshalResult (s_result s) = Inr rj"
    using assms(1) MarshalIntent_total MarshalResult_total by (auto simp: snipe_row_ok_def) blast
  moreover have "s_id s \<notin> r_id ` set (db_snipes d)"
    using assms(3) by (simp add: db_ok_snipe_at [OF assms(2)] find_snipe_None)
  ultimately show ?thesis by (simp add: CreateSnipe_def)
qed

lemma TransitionSnipe_total:
  assumes "snipe_row_ok s" "db_ok d" "snipe_at d (s_id s) \<noteq> None"
  shows "\<exists>d'. TransitionSnipe sha io_ok s ev d = (None, d')"
proof -
  obtain ij rj where "MarshalIntent (s_intent s) = Inr ij" "MarshalResult (s_result s) = Inr rj"
    using assms(1) MarshalIntent_total MarshalResult_total by (auto simp: snipe_row_ok_def) blast
  moreover have f: "find_snipe (s_id s) d \<noteq> None"
    using assms(3) by (simp add: db_ok_snipe_at [OF assms(2)])
  moreover have "s_id s \<in> r_id ` set (db_snipes (update_row sha s ij rj d))"
    using f find_snipe_None update_row_id_set by metis
  ultimately show ?thesis
    by (simp add: TransitionSnipe_def rows_affected_0 insert_event_def)
qed

section \<open>Upserted rows\<close>

text \<open>The contract of a table written by upserts and read by key: the last write wins and
  other keys are untouched.\<close>

locale upsert_table =
  fixes get :: "'d \<Rightarrow> 'k \<Rightarrow> 'v option"
    and put :: "'v \<Rightarrow> 'd \<Rightarrow> 'd"
    and key :: "'v \<Rightarrow> 'k"
    and storable :: "'v \<Rightarrow> bool"
  assumes get_put: "storable v \<Longrightarrow> get (put v d) k = (if k = key v then Some v else get d k)"
begin

lemma get_fold_put:
  "(\<And>v. v \<in> set vs \<Longrightarrow> storable v) \<Longrightarrow>
   get (fold put vs d) k = (case find (\<lambda>v. key v = k) (rev vs) of Some v \<Rightarrow> Some v | None \<Rightarrow> get d k)"
  by (induction vs arbitrary: d) (auto simp: get_put find_append split: option.splits)

lemma put_put_commute_read:
  "storable v \<Longrightarrow> storable w \<Longrightarrow> key v \<noteq> key w \<Longrightarrow> get (put v (put w d)) k = get (put w (put v d)) k"
  by (simp add: get_put)

end

lemma find_upsert:
  assumes "key row = k"
  shows "find (\<lambda>r. key r = j) (if list_ex (\<lambda>r. key r = k) rows
           then map (\<lambda>r. if key r = k then row else r) rows else rows @ [row]) =
         (if j = k then Some row else find (\<lambda>r. key r = j) rows)"
proof (cases "list_ex (\<lambda>r. key r = k) rows")
  case True
  have other: "j \<noteq> k \<Longrightarrow> find (\<lambda>r. key r = j) (map (\<lambda>r. if key r = k then row else r) rs) =
      find (\<lambda>r. key r = j) rs" for rs using assms by (induction rs) auto
  have "find (\<lambda>r. key r = k) (map (\<lambda>r. if key r = k then row else r) rows) = Some row"
    using True assms by (induction rows) auto
  then show ?thesis using True other by simp
next
  case False
  then have "find (\<lambda>r. key r = k) rows = None" by (auto simp: find_None_iff list_ex_iff)
  then show ?thesis using False assms by (auto simp: find_append split: option.split)
qed

definition venue_key :: "venue_row \<Rightarrow> string \<times> string" where
  "venue_key r = (vrow_provider r, vrow_ref r)"

definition observed_key :: "observed_row \<Rightarrow> string \<times> string" where
  "observed_key r = (or_provider r, or_venue_ref r)"

definition observed_ok :: "ObservedRelease \<Rightarrow> bool" where
  "observed_ok ob \<longleftrightarrow> valid_walltime (ob_local_time ob) \<and> rfc_range (ob_observed_at ob)"

definition result_option :: "'e + 'a \<Rightarrow> 'a option" where
  "result_option r = (case r of Inl _ \<Rightarrow> None | Inr a \<Rightarrow> Some a)"

lemma result_option_simps [simp]: "result_option (Inl e) = None" "result_option (Inr a) = Some a"
  by (simp_all add: result_option_def)

interpretation observed_table: upsert_table
  "\<lambda>d ref. result_option (GetObserved io_ok ref d)" "\<lambda>ob d. snd (UpsertObserved io_ok ob d)"
  ob_venue observed_ok
proof
  fix ob :: ObservedRelease and d :: db and ref :: venue_ref
  assume ok: "observed_ok ob"
  define row where "row = \<lparr>or_provider = vr_provider (ob_venue ob), or_venue_ref = vr_ref (ob_venue ob),
      or_local_time = walltime_string (ob_local_time ob), or_days_offset = ob_days_offset ob,
      or_observed_at = formatTime (ob_observed_at ob)\<rparr>"
  define k where "k = (vr_provider (ob_venue ob), vr_ref (ob_venue ob))"
  have key: "observed_key row = k" by (simp add: observed_key_def row_def k_def)
  have same: "(\<lambda>r. or_provider r = vr_provider v \<and> or_venue_ref r = vr_ref v)
      = (\<lambda>r. observed_key r = (vr_provider v, vr_ref v))" for v :: venue_ref
    by (auto simp: observed_key_def)
  have rows: "db_observed (snd (UpsertObserved io_ok ob d)) = (if list_ex (\<lambda>r. observed_key r = k) (db_observed d)
      then map (\<lambda>r. if observed_key r = k then row else r) (db_observed d) else db_observed d @ [row])"
    by (simp add: UpsertObserved_def Let_def row_def k_def observed_key_def)
  have ref: "ref = ob_venue ob \<longleftrightarrow> (vr_provider ref, vr_ref ref) = k"
    by (auto simp: k_def)
  show "result_option (GetObserved io_ok ref (snd (UpsertObserved io_ok ob d))) =
      (if ref = ob_venue ob then Some ob else result_option (GetObserved io_ok ref d))"
    using ok
    by (simp add: GetObserved_def same rows find_upsert [where key = observed_key, OF key] ref)
      (auto simp: row_def ParseWallTime_string time_codec.dec_enc observed_ok_def k_def)
qed

definition venue_ok :: "(string \<Rightarrow> location option) \<Rightarrow> venue \<Rightarrow> bool" where
  "venue_ok load v \<longleftrightarrow> venue_validate v = None \<and>
     (case v_tz v of None \<Rightarrow> False | Some l \<Rightarrow> load (loc_name l) = Some l)"

interpretation venue_table: upsert_table
  "\<lambda>d ref. result_option (GetVenue load io_ok ref d)" "\<lambda>v d. snd (UpsertVenue io_ok v d)"
  AsRef "venue_ok load" for load
proof
  fix v :: venue and d :: db and ref :: venue_ref
  assume ok: "venue_ok load v"
  then obtain l where l: "v_tz v = Some l" "load (loc_name l) = Some l" "venue_validate v = None"
    by (auto simp: venue_ok_def split: option.splits)
  define row where "row = \<lparr>vrow_provider = v_provider v, vrow_ref = v_ref v, vrow_name = v_name v,
      vrow_tz = loc_name l\<rparr>"
  define k where "k = (v_provider v, v_ref v)"
  have key: "venue_key row = k" by (simp add: venue_key_def row_def k_def)
  have same: "(\<lambda>r. vrow_provider r = vr_provider u \<and> vrow_ref r = vr_ref u)
      = (\<lambda>r. venue_key r = (vr_provider u, vr_ref u))" for u :: venue_ref
    by (auto simp: venue_key_def)
  have rows: "db_venues (snd (UpsertVenue io_ok v d)) = (if list_ex (\<lambda>r. venue_key r = k) (db_venues d)
      then map (\<lambda>r. if venue_key r = k then row else r) (db_venues d) else db_venues d @ [row])"
    by (simp add: UpsertVenue_def Let_def row_def k_def venue_key_def l)
  have ref: "ref = AsRef v \<longleftrightarrow> (vr_provider ref, vr_ref ref) = k"
    by (auto simp: k_def AsRef_def)
  show "result_option (GetVenue load io_ok ref (snd (UpsertVenue io_ok v d))) =
      (if ref = AsRef v then Some v else result_option (GetVenue load io_ok ref d))"
    by (simp add: GetVenue_def same rows find_upsert [where key = venue_key, OF key] ref)
      (auto simp: row_def l k_def)
qed

section \<open>Sessions\<close>

text \<open>The sessions that belong to a Resy e-mail, over all accounts with it.\<close>

definition session_ok :: "SessionRow \<Rightarrow> bool" where
  "session_ok s \<longleftrightarrow> rfc_range (se_expires_at s) \<and> rfc_range (se_created_at s) \<and> rfc_range (se_updated_at s)"

text \<open>The databases in which the e-mail of a session names no account of a homelab user and no
  session row yet, the state before the first import.\<close>

definition fresh_user :: "user_id \<Rightarrow> db \<Rightarrow> bool" where
  "fresh_user u d \<longleftrightarrow> (\<forall>a \<in> set (db_accounts d). a_resy_email a \<noteq> u \<and> a_id a \<noteq> legacy_account u) \<and>
     (\<forall>s \<in> set (db_sessions d). sr_account_id s \<noteq> legacy_account u)"

lemma session_join_fresh:
  assumes "fresh_user u d" "a_id a = legacy_account u" "a_resy_email a = u"
    "sr_account_id s = legacy_account u" "sr_provider s = p"
  shows "session_join u p (d\<lparr>db_accounts := db_accounts d @ [a], db_sessions := db_sessions d @ [s]\<rparr>) = [(a, s)]"
proof -
  have none: "filter (\<lambda>x. a_id x = k \<and> a_resy_email x = u \<and> q) (db_accounts d) = []" for k q
    using assms by (auto simp: filter_empty_conv fresh_user_def)
  have "concat (map (\<lambda>r. map (\<lambda>x. (x, r)) (filter (\<lambda>x. a_id x = sr_account_id r \<and> a_resy_email x = u \<and>
      sr_provider r = p) (db_accounts d @ [a]))) (db_sessions d)) = []"
    using assms by (auto simp: none fresh_user_def)
  then show ?thesis using assms none by (simp add: session_join_def)
qed

lemma UpsertSession_fresh:
  assumes "fresh_user (se_user sess) d"
  shows "UpsertSession io_ok sess d = (None, d\<lparr>
     db_accounts := db_accounts d @ [\<lparr>a_id = legacy_account (se_user sess), a_user_id = None,
        a_resy_email = se_user sess, a_display_name = ''legacy-v1'', a_created_at = unix_milli (se_created_at sess)\<rparr>],
     db_sessions := db_sessions d @ [\<lparr>sr_account_id = legacy_account (se_user sess),
        sr_provider = se_provider sess, sr_jwt = se_jwt sess, sr_exp = formatTime (se_expires_at sess),
        sr_created_at = formatTime (se_created_at sess), sr_updated_at = formatTime (se_updated_at sess)\<rparr>]\<rparr>)"
proof -
  have f: "find (\<lambda>a. a_user_id a = None \<and> a_resy_email a = se_user sess) (db_accounts d) = None"
    using assms by (auto simp: find_None_iff fresh_user_def)
  have "legacy_account (se_user sess) \<notin> a_id ` set (db_accounts d)"
    using assms by (auto simp: fresh_user_def)
  moreover have "\<not> (\<exists>r \<in> set (db_sessions d). sr_account_id r = legacy_account (se_user sess) \<and>
      sr_provider r = se_provider sess)"
    using assms by (auto simp: fresh_user_def)
  ultimately show ?thesis
    by (simp add: UpsertSession_def ensure_account_def Let_def f upsert_session_row_def)
qed

lemma GetSession_fresh:
  assumes "fresh_user (se_user sess) d" "session_ok sess"
  shows "GetSession io_ok (se_user sess) (se_provider sess) now (snd (UpsertSession io_ok sess d)) =
     (Some sess, if se_expires_at sess \<noteq> 0 \<and> se_expires_at sess \<le> now then Some ErrSessionExpired else None)"
  using assms(2)
  by (simp add: UpsertSession_fresh [OF assms(1)] session_join_fresh [OF assms(1)] GetSession_def time_codec.dec_enc session_ok_def is_zero_def not_less)

text \<open>The databases with the schema's keys and references in which at most one account has the e-mail, one
  that belongs to no homelab user: the state before and after any number of logins of that e-mail. The join is
  written in the order of the session rows; SQLite promises none, and here it has a single row.\<close>

definition sole_account :: "user_id \<Rightarrow> db \<Rightarrow> bool" where
  "sole_account u d \<longleftrightarrow> distinct (map a_id (db_accounts d)) \<and>
     distinct (map (\<lambda>s. (sr_account_id s, sr_provider s)) (db_sessions d)) \<and>
     (\<forall>s \<in> set (db_sessions d). sr_account_id s \<in> a_id ` set (db_accounts d)) \<and>
     (\<forall>a \<in> set (db_accounts d). a_resy_email a = u \<longrightarrow> a_user_id a = None) \<and>
     length (filter (\<lambda>a. a_resy_email a = u) (db_accounts d)) \<le> 1 \<and>
     (\<forall>s \<in> set (db_sessions d). \<exists>t. parseTime (sr_created_at s) = Inr t)"

lemma session_join_of_account:
  assumes "filter (\<lambda>a. a_resy_email a = u) as = [a]"
  shows "concat (map (\<lambda>s. map (\<lambda>a. (a, s)) (filter (\<lambda>a. a_id a = sr_account_id s \<and> a_resy_email a = u \<and> sr_provider s = p) as)) ss) =
     map (Pair a) (filter (\<lambda>s. sr_account_id s = a_id a \<and> sr_provider s = p) ss)"
proof -
  have "filter (\<lambda>x. a_id x = k \<and> a_resy_email x = u \<and> q) as = (if q \<and> a_id a = k then [a] else [])" for k q
  proof -
    have "filter (\<lambda>x. a_id x = k \<and> a_resy_email x = u \<and> q) as = filter (\<lambda>x. a_id x = k \<and> q) (filter (\<lambda>x. a_resy_email x = u) as)"
      by (simp add: conj_commute conj_left_commute)
    then show ?thesis using assms by simp
  qed
  then show ?thesis by (induction ss) auto
qed

lemma filter_key: "distinct (map f xs) \<Longrightarrow> r \<in> set xs \<Longrightarrow> filter (\<lambda>s. f s = f r) xs = [r]"
proof (induction xs)
  case (Cons a xs)
  show ?case
  proof (cases "a = r")
    case True
    then show ?thesis using Cons.prems(1) by (auto simp: filter_empty_conv image_iff dest: sym)
  next
    case False
    then have "r \<in> set xs" using Cons.prems(2) by simp
    then show ?thesis using Cons by auto
  qed
qed simp

lemma upserted_row:
  assumes "distinct (map (\<lambda>s. (sr_account_id s, sr_provider s)) ss)"
    and "\<forall>s \<in> set ss. \<exists>t. parseTime (sr_created_at s) = Inr t" "rfc_range (se_created_at sess)"
  shows "\<exists>r t. filter (\<lambda>s. sr_account_id s = k \<and> sr_provider s = se_provider sess) (upsert_session_row k sess ss) = [r] \<and>
     sr_provider r = se_provider sess \<and> sr_jwt r = se_jwt sess \<and> sr_exp r = formatTime (se_expires_at sess) \<and>
     sr_updated_at r = formatTime (se_updated_at sess) \<and> parseTime (sr_created_at r) = Inr t"
proof (cases "\<exists>r \<in> set ss. sr_account_id r = k \<and> sr_provider r = se_provider sess")
  case True
  define f where "f = (\<lambda>r :: session_row. if sr_account_id r = k \<and> sr_provider r = se_provider sess
      then r\<lparr>sr_jwt := se_jwt sess, sr_exp := formatTime (se_expires_at sess), sr_updated_at := formatTime (se_updated_at sess)\<rparr> else r)"
  obtain r where r: "r \<in> set ss" "sr_account_id r = k" "sr_provider r = se_provider sess" using True by blast
  have one: "filter (\<lambda>s. sr_account_id s = k \<and> sr_provider s = se_provider sess) ss = [r]"
    using filter_key [OF assms(1) r(1)] r(2,3) by simp
  have keys: "sr_account_id (f s) = sr_account_id s" "sr_provider (f s) = sr_provider s" for s by (simp_all add: f_def)
  have "filter (\<lambda>s. sr_account_id s = k \<and> sr_provider s = se_provider sess) (map f ss) = [f r]"
    by (simp add: filter_map comp_def keys one)
  then show ?thesis using True r assms(2) by (simp add: upsert_session_row_def f_def)
next
  case False
  then have "filter (\<lambda>s. sr_account_id s = k \<and> sr_provider s = se_provider sess) ss = []" by (auto simp: filter_empty_conv)
  moreover have "upsert_session_row k sess ss = ss @ [\<lparr>sr_account_id = k, sr_provider = se_provider sess, sr_jwt = se_jwt sess,
      sr_exp = formatTime (se_expires_at sess), sr_created_at = formatTime (se_created_at sess), sr_updated_at = formatTime (se_updated_at sess)\<rparr>]"
    using False by (simp add: upsert_session_row_def)
  ultimately show ?thesis using assms(3) by (simp add: time_codec.dec_enc)
qed

lemma GetSession_written:
  assumes up: "UpsertSession io sess d = (None, d')" and sole: "sole_account (se_user sess) d" and ok: "session_ok sess"
  shows "\<exists>row. GetSession io_ok (se_user sess) (se_provider sess) now d' =
     (Some row, if se_expires_at sess \<noteq> 0 \<and> se_expires_at sess \<le> now then Some ErrSessionExpired else None) \<and>
     se_user row = se_user sess \<and> se_provider row = se_provider sess \<and> se_jwt row = se_jwt sess \<and>
     se_expires_at row = se_expires_at sess \<and> se_updated_at row = se_updated_at sess"
proof -
  let ?u = "se_user sess"
  obtain k d1 where k: "ensure_account sess d = Inr (k, d1)" and d': "d' = d1\<lparr>db_sessions := upsert_session_row k sess (db_sessions d1)\<rparr>"
    using up by (auto simp: UpsertSession_def split: option.splits sum.splits prod.splits if_splits)
  obtain a where a: "filter (\<lambda>a. a_resy_email a = ?u) (db_accounts d1) = [a]" "a_id a = k" "db_sessions d1 = db_sessions d"
  proof (cases "find (\<lambda>a. a_user_id a = None \<and> a_resy_email a = ?u) (db_accounts d)")
    case None
    then have none: "filter (\<lambda>a. a_resy_email a = ?u) (db_accounts d) = []"
      using sole by (auto simp: sole_account_def find_None_iff filter_empty_conv)
    show ?thesis using that k none by (auto simp: ensure_account_def None Let_def split: if_splits)
  next
    case (Some x)
    then have x: "x \<in> set (db_accounts d)" "a_resy_email x = ?u" by (auto simp: find_Some_iff)
    then have "x \<in> set (filter (\<lambda>a. a_resy_email a = ?u) (db_accounts d))" by simp
    moreover have "length (filter (\<lambda>a. a_resy_email a = ?u) (db_accounts d)) \<le> 1" using sole by (simp add: sole_account_def)
    ultimately have "filter (\<lambda>a. a_resy_email a = ?u) (db_accounts d) = [x]"
      by (cases "filter (\<lambda>a. a_resy_email a = ?u) (db_accounts d)") (auto simp: le_Suc_eq)
    then show ?thesis using that k by (auto simp: ensure_account_def Some)
  qed
  obtain r t where r: "filter (\<lambda>s. sr_account_id s = k \<and> sr_provider s = se_provider sess) (upsert_session_row k sess (db_sessions d)) = [r]"
     "sr_provider r = se_provider sess" "sr_jwt r = se_jwt sess" "sr_exp r = formatTime (se_expires_at sess)"
     "sr_updated_at r = formatTime (se_updated_at sess)" "parseTime (sr_created_at r) = Inr t"
    using upserted_row [of "db_sessions d" sess k] sole ok by (auto simp: sole_account_def session_ok_def)
  have email: "a_resy_email a = ?u" using a(1) filter_eq_ConsD [OF a(1)] by auto
  have "session_join ?u (se_provider sess) d' = [(a, r)]"
    using session_join_of_account [OF a(1), of "se_provider sess" "upsert_session_row k sess (db_sessions d)"] a(2,3) r(1)
    by (simp add: session_join_def d')
  then show ?thesis
    using r ok email by (simp add: GetSession_def time_codec.dec_enc session_ok_def is_zero_def not_less)
qed

end
