(* ===== verification/Providers.thy ===== *)
theory Providers
  imports Domain
begin

text \<open>
  The provider seam of \<^verbatim>\<open>internal/providers/provider.go\<close>: the calendar, slot and
  confirmation records, the sentinel errors and the session expiry test. A provider error is
  the sentinel it wraps (what \<^verbatim>\<open>errors.Is\<close> sees), if any, with its text; the adapter that
  produces it is an argument of the engine.
\<close>

datatype sentinel =
    ErrAuthExpired | ErrMFARequired | ErrBookTokenExpired | ErrSlotTaken | ErrRateLimited
  | ErrAntiBotChallenge | ErrInventoryEmpty | ErrVenueNotFound | ErrParseFailure | ErrContextCanceled

record provider_error =
  pe_is :: "sentinel option"
  pe_text :: string

record date_range =
  dr_start :: date
  dr_end :: date
  dr_party_size :: int

record calendar_day =
  cd_date :: date
  cd_available :: bool

record calendar =
  cal_venue :: venue_ref
  cal_days :: "calendar_day list"

record session =
  ss_provider :: provider_id
  ss_user :: user_id
  ss_expires_at :: instant

record find_request =
  fr_venue :: venue_ref
  fr_date :: date
  fr_party_size :: int
  fr_times :: "walltime list"
  fr_session :: "session option"

record slot =
  sl_venue :: venue_ref
  sl_date :: date
  sl_time :: walltime
  sl_table_type :: string
  sl_party_size :: int
  sl_payload :: "resy_slot_payload option"

record confirmation =
  co_id :: string
  co_booked_at :: instant
  co_human_readable :: string

definition IsSessionExpired :: "session \<Rightarrow> instant \<Rightarrow> bool" where
  "IsSessionExpired s now = (if is_zero (ss_expires_at s) then False else \<not> ss_expires_at s > now)"

lemma session_expiry_monotone: "IsSessionExpired s now \<Longrightarrow> now \<le> later \<Longrightarrow> IsSessionExpired s later"
  by (auto simp: IsSessionExpired_def split: if_splits)

end
