(* ===== verification/Subscribe.thy ===== *)
theory Subscribe
  imports Lifecycle "HOL-Library.Word" "HOL-Library.AList"
begin

text \<open>
  The engine's event stream (\<^verbatim>\<open>engine/subscribe.go\<close>): the registry of subscribers under
  64-bit ids, \<^verbatim>\<open>Subscribe\<close> and its cancel function, the insertion sort \<^verbatim>\<open>sortUint64\<close> on an
  array, and the fan-out of \<^verbatim>\<open>emit\<close>. A Go map is the list of its entries in the order one
  range loop happens to visit them.
\<close>

record notification =
  n_snipe_id :: snipe_id
  n_from :: "status option"
  n_to :: status
  n_event :: event

type_synonym sub_id = "64 word"

record 'f registry =
  subs :: "(sub_id \<times> 'f) list"
  nextSubID :: sub_id

definition Subscribe :: "'f \<Rightarrow> 'f registry \<Rightarrow> sub_id \<times> 'f registry" where
  "Subscribe f g = (nextSubID g,
     g\<lparr>subs := AList.update (nextSubID g) f (subs g), nextSubID := nextSubID g + 1\<rparr>)"

definition cancel_sub :: "sub_id \<Rightarrow> 'f registry \<Rightarrow> 'f registry" where
  "cancel_sub i g = g\<lparr>subs := AList.delete i (subs g)\<rparr>"

section \<open>The insertion sort\<close>

text \<open>\<open>sort_inner a j v\<close> is the inner loop entered with the hole at index \<open>j\<close> (the source's
  \<^verbatim>\<open>j+1\<close>): while the element before the hole is greater it moves up, then \<open>v\<close> fills the hole.\<close>

fun sort_inner :: "'a::linorder list \<Rightarrow> nat \<Rightarrow> 'a \<Rightarrow> 'a list" where
  "sort_inner a 0 v = a[0 := v]"
| "sort_inner a (Suc j) v = (if a ! j > v then sort_inner (a[Suc j := a ! j]) j v else a[Suc j := v])"

fun sort_outer :: "'a::linorder list \<Rightarrow> nat list \<Rightarrow> 'a list" where
  "sort_outer a [] = a"
| "sort_outer a (i # is) = sort_outer (sort_inner a i (a ! i)) is"

definition sortUint64 :: "'a::linorder list \<Rightarrow> 'a list" where
  "sortUint64 a = sort_outer a [1..<length a]"

text \<open>The fan-out: ids collected by a range over the map, sorted, looked up again.\<close>

definition emit_order :: "'f registry \<Rightarrow> 'f list" where
  "emit_order g = (if subs g = [] then []
     else map (\<lambda>i. the (map_of (subs g) i)) (sortUint64 (map fst (subs g))))"

section \<open>The sort is a sort\<close>

lemma sort_inner_snoc:
  "j < length xs \<Longrightarrow> sort_inner (xs @ ys) j v = sort_inner xs j v @ ys"
  by (induction j arbitrary: xs) (auto simp: nth_append list_update_append)

lemma sort_inner_length [simp]: "length (sort_inner a j v) = length a"
  by (induction a j v rule: sort_inner.induct) auto

text \<open>On a prefix that is sorted, with a hole behind it, the inner loop inserts.\<close>

lemma sort_inner_insort:
  "sorted xs \<Longrightarrow> sort_inner (xs @ [h]) (length xs) v = insort v xs"
proof (induction xs arbitrary: h rule: rev_induct)
  case (snoc x xs)
  have srt: "sorted xs" and le: "\<And>y. y \<in> set xs \<Longrightarrow> y \<le> x" using snoc.prems by (auto simp: sorted_append)
  show ?case
  proof (cases "x > v")
    case True
    have "sort_inner ((xs @ [x]) @ [h]) (length (xs @ [x])) v = sort_inner ((xs @ [x]) @ [x]) (length xs) v"
      using True by (simp add: nth_append list_update_append)
    also have "\<dots> = sort_inner (xs @ [x]) (length xs) v @ [x]"
      using sort_inner_snoc [of "length xs" "xs @ [x]" "[x]" v] by simp
    also have "\<dots> = insort v xs @ [x]" using snoc.IH [OF srt] by simp
    also have "\<dots> = insort v (xs @ [x])"
      using True le srt by (induction xs) auto
    finally show ?thesis .
  next
    case False
    have "sort (v # xs @ [x]) = xs @ [x, v]"
      using False le srt by (intro properties_for_sort) (auto simp: sorted_append not_less intro: order_trans [OF le])
    then have "insort v (xs @ [x]) = xs @ [x, v]"
      using snoc.prems by (simp add: sorted_sort_id)
    then show ?thesis using False by (simp add: nth_append list_update_append)
  qed
qed simp

lemma sort_outer_prefix:
  "k \<le> length a \<Longrightarrow> sorted (take k a) \<Longrightarrow> sort_outer a [k..<length a] = sort a"
proof (induction "length a - k" arbitrary: a k)
  case 0
  then show ?case by (simp add: sorted_sort_id)
next
  case (Suc n)
  then have k: "k < length a" by simp
  have split: "a = (take k a @ [a ! k]) @ drop (Suc k) a"
    using k by (simp add: id_take_nth_drop take_Suc_conv_app_nth [symmetric])
  define b where "b = sort_inner a k (a ! k)"
  have "b = sort_inner (take k a @ [a ! k]) k (a ! k) @ drop (Suc k) a"
    unfolding b_def using sort_inner_snoc [of k "take k a @ [a ! k]" "drop (Suc k) a" "a ! k"] k split by simp
  also have "sort_inner (take k a @ [a ! k]) k (a ! k) = insort (a ! k) (take k a)"
    using sort_inner_insort [OF Suc.prems(2), of "a ! k" "a ! k"] k by simp
  finally have b: "b = insort (a ! k) (take k a) @ drop (Suc k) a" .
  have len: "length b = length a" by (simp add: b_def)
  have "take (Suc k) b = insort (a ! k) (take k a)" using k by (simp add: b)
  then have srt: "sorted (take (Suc k) b)" using Suc.prems by (simp add: sorted_insort)
  have ms: "mset b = mset a"
    by (subst split) (simp add: b)
  have "sort_outer a [k..<length a] = sort_outer b [Suc k..<length b]"
    using k by (simp add: upt_conv_Cons b_def)
  also have "\<dots> = sort b"
    using Suc.hyps k srt len by (intro Suc.hyps(1)) auto
  finally show ?case using ms by (metis mset_sort properties_for_sort sorted_sort)
qed

lemma sortUint64_sort: "sortUint64 a = sort a"
proof (cases a)
  case (Cons x xs)
  then show ?thesis using sort_outer_prefix [of 1 a] by (simp add: sortUint64_def)
qed (simp add: sortUint64_def)

section \<open>The event stream\<close>

lemma Subscribe_subs:
  "subs (snd (Subscribe f g)) = AList.update (nextSubID g) f (subs g)"
  "nextSubID (snd (Subscribe f g)) = nextSubID g + 1"
  by (simp_all add: Subscribe_def)

text \<open>A registry whose entries carry distinct ids below the next one, the next id not having
  wrapped around.\<close>

definition registry_ok :: "'f registry \<Rightarrow> bool" where
  "registry_ok g \<longleftrightarrow> distinct (map fst (subs g)) \<and> (\<forall>i \<in> fst ` set (subs g). i < nextSubID g)"

lemma emit_order_perm:
  assumes "registry_ok g" "mset (subs g') = mset (subs g)"
  shows "emit_order g' = emit_order g"
proof -
  have d: "distinct (map fst (subs g))" using assms by (simp add: registry_ok_def)
  have m: "mset (map fst (subs g')) = mset (map fst (subs g))" using assms(2) by (metis mset_map)
  have d': "distinct (map fst (subs g'))"
    using d m by (metis mset_eq_imp_distinct_iff)
  have "set (subs g') = set (subs g)" using assms(2) by (metis set_mset_mset)
  then have mo: "map_of (subs g') = map_of (subs g)" using d d' by (metis map_of_inject_set)
  have e: "sort (map fst (subs g')) = sort (map fst (subs g))"
    using m by (metis mset_sort properties_for_sort sorted_sort)
  have "subs g' = [] \<longleftrightarrow> subs g = []" using assms(2) by (metis mset_zero_iff)
  then show ?thesis by (simp add: emit_order_def sortUint64_sort mo e)
qed

lemma sort_snoc_max:
  "(\<And>y. y \<in> set xs \<Longrightarrow> y < x) \<Longrightarrow> sort (xs @ [x]) = sort xs @ [x]"
  by (rule properties_for_sort) (auto simp: sorted_append intro: less_imp_le)

lemma alist_update_new: "k \<notin> fst ` set al \<Longrightarrow> AList.update k v al = al @ [(k, v)]"
  by (induction al) auto

text \<open>A new subscriber is served after every one registered before it.\<close>

lemma emit_order_Subscribe:
  assumes "registry_ok g"
  shows "emit_order (snd (Subscribe f g)) = emit_order g @ [f]"
proof -
  define n where "n = nextSubID g"
  have new: "n \<notin> fst ` set (subs g)" using assms by (force simp: registry_ok_def n_def)
  have u: "AList.update n f (subs g) = subs g @ [(n, f)]" using new by (rule alist_update_new)
  have srt: "sort (map fst (subs g) @ [n]) = sort (map fst (subs g)) @ [n]"
    using assms by (intro sort_snoc_max) (auto simp: registry_ok_def n_def)
  have old: "map (\<lambda>i. the (map_of (subs g @ [(n, f)]) i)) (sort (map fst (subs g))) =
      map (\<lambda>i. the (map_of (subs g) i)) (sort (map fst (subs g)))"
    using new by (intro map_cong) (auto simp: map_add_def split: option.splits dest: map_of_SomeD)
  have lst: "map_of (subs g @ [(n, f)]) n = Some f"
    using new by (simp add: map_add_def map_of_eq_None_iff [THEN iffD2])
  show ?thesis
    using old lst srt
    by (auto simp: emit_order_def Subscribe_subs sortUint64_sort n_def [symmetric] u)
qed

lemma emit_order_cancel:
  "emit_order (cancel_sub i g) =
     map (\<lambda>j. the (map_of (subs g) j)) (filter (\<lambda>j. j \<noteq> i) (sort (map fst (subs g))))"
proof -
  have f: "map fst (AList.delete i (subs g)) = filter (\<lambda>j. j \<noteq> i) (map fst (subs g))"
    by (simp add: AList.delete_keys removeAll_filter_not_eq) (metis (lifting))
  have m: "map_of (AList.delete i (subs g)) j = map_of (subs g) j" if "j \<noteq> i" for j
    using that by (simp add: AList.delete_conv')
  have e: "AList.delete i (subs g) = [] \<Longrightarrow> filter (\<lambda>j. j \<noteq> i) (map fst (subs g)) = []"
    using f by simp
  show ?thesis
    using e by (auto simp: emit_order_def cancel_sub_def sortUint64_sort f m filter_sort cong: map_cong)
qed

lemma cancel_sub_idem: "cancel_sub i (cancel_sub i g) = cancel_sub i g"
  by (simp add: cancel_sub_def AList.delete_idem)

end
