(* ===== verification/Engine.thy ===== *)
theory Engine
  imports StoreFacts Providers Subscribe
begin

text \<open>
  The workflow engine: \<^verbatim>\<open>engine/engine.go\<close> (Submit, Load), \<^verbatim>\<open>engine/state.go\<close> (the guarded,
  persisted Transition), \<^verbatim>\<open>engine/run.go\<close> (Run and its timer) and \<^verbatim>\<open>engine/release.go\<close> (the
  release strategies). The outside world is an \<open>env\<close>: it decides, for the \<open>n\<close>-th interaction,
  how the store's statements end, what the provider answers, how long both take, how late a
  timer fires and how a race between a timer and a cancellation at one instant ends. What the
  engine changes is a \<open>world\<close>: the clock, the database, the interaction counter, the
  instants at which it called the provider and the notifications. A context is the instant at which it is cancelled.
\<close>

section \<open>The world around the engine\<close>

datatype tie = TieStop | TieDone | TieCtx

record env =
  e_sha :: "string \<Rightarrow> string"
  e_load_location :: "string \<Rightarrow> location option"
  e_cancel_at :: "instant option"
  e_io :: "nat \<Rightarrow> io"
  e_store_time :: "nat \<Rightarrow> nat"
  e_late :: "nat \<Rightarrow> nat"
  e_tie :: "nat \<Rightarrow> tie"
  e_calendar :: "nat \<Rightarrow> venue_ref \<Rightarrow> date_range \<Rightarrow> provider_error + calendar"
  e_find :: "nat \<Rightarrow> find_request \<Rightarrow> provider_error + slot list"
  e_call_time :: "nat \<Rightarrow> nat"

record world =
  w_now :: instant
  w_tick :: nat
  w_db :: db
  w_registry :: "string registry"
  w_calls :: "instant list"
  w_emitted :: "notification list"
  w_delivered :: "(string \<times> notification) list"

record engine =
  en_has_provider :: bool
  en_policy :: booking_policy

datatype engine_error =
    EInvalidTransition status status
  | EPersist status status store_error
  | EStore store_error
  | ECtx
  | EProvider provider_error
  | EText string
  | ERace string "engine_error option" engine_error

definition ctx_done :: "env \<Rightarrow> world \<Rightarrow> bool" where
  "ctx_done e w = (case e_cancel_at e of None \<Rightarrow> False | Some c \<Rightarrow> c \<le> w_now w)"

text \<open>A statement issued under a cancelled context reports the cancellation.\<close>

definition store_io :: "env \<Rightarrow> world \<Rightarrow> io" where
  "store_io e w = (if ctx_done e w then (\<lambda>_. Some ErrCanceled) else e_io e (w_tick w))"

definition after_store :: "env \<Rightarrow> db \<Rightarrow> world \<Rightarrow> world" where
  "after_store e d w = w\<lparr>w_db := d, w_tick := Suc (w_tick w), w_now := w_now w + int (e_store_time e (w_tick w))\<rparr>"

definition after_call :: "env \<Rightarrow> world \<Rightarrow> world" where
  "after_call e w = w\<lparr>w_calls := w_calls w @ [w_now w], w_tick := Suc (w_tick w), w_now := w_now w + int (e_call_time e (w_tick w))\<rparr>"

definition emit :: "notification \<Rightarrow> world \<Rightarrow> world" where
  "emit n w = w\<lparr>w_emitted := w_emitted w @ [n],
     w_delivered := w_delivered w @ map (\<lambda>f. (f, n)) (emit_order (w_registry w))\<rparr>"

text \<open>The length of a slice as an \<^verbatim>\<open>int\<close>.\<close>

definition go_len :: "'a list \<Rightarrow> int" where
  "go_len xs = sint (word_of_nat (length xs) :: 64 word)"

definition LogKeySnipeID :: string where "LogKeySnipeID = ''snipe_id''"
definition LogKeyVenueRef :: string where "LogKeyVenueRef = ''venue_ref''"
definition LogKeyIntentHash :: string where "LogKeyIntentHash = ''intent_hash''"

definition defaultBookingPolicy :: booking_policy where
  "defaultBookingPolicy = \<lparr>bp_max_concurrent = 4, bp_poll_floor = 100 * millisecond, bp_details_serial = True\<rparr>"

section \<open>Loading, submitting and moving a snipe\<close>

definition Load :: "env \<Rightarrow> snipe_id \<Rightarrow> world \<Rightarrow> (engine_error + snipe_state) \<times> world" where
  "Load e sid w = (map_err EStore (GetSnipe (store_io e w) sid (w_db w)), after_store e (w_db w) w)"

definition Submit :: "env \<Rightarrow> snipe_id \<Rightarrow> intent \<Rightarrow> world \<Rightarrow> (engine_error + snipe_state) \<times> world" where
  "Submit e sid i w =
     (let now = w_now w; inner = NewSnipeState sid i now;
          ev = \<lparr>ev_type = EventSubmitted, ev_at = now,
                ev_attrs = [(LogKeySnipeID, AString sid), (LogKeyIntentHash, AString (Hash (e_sha e) i)),
                            (LogKeyVenueRef, AString (venue_ref_string (i_venue i)))]\<rparr> in
      case CreateSnipe (e_sha e) (store_io e w) inner (w_db w) of
        (Some err, d) \<Rightarrow> (Inl (EStore err), after_store e d w)
      | (None, d) \<Rightarrow> let w1 = after_store e d w in
        (case AppendEvent (store_io e w1) sid ev (w_db w1) of
           (Some err, d2) \<Rightarrow> (Inl (EStore err), after_store e d2 w1)
         | (None, d2) \<Rightarrow> (Inr inner, emit \<lparr>n_snipe_id = sid, n_from = None, n_to = StatusSubmitted, n_event = ev\<rparr>
             (after_store e d2 w1))))"

text \<open>The tail shared by the two ways to move a snipe: persist the candidate with its event in
  one transaction, swap it in when that committed, then notify.\<close>

definition persist_swap :: "env \<Rightarrow> snipe_state \<Rightarrow> snipe_state \<Rightarrow> event \<Rightarrow> world
    \<Rightarrow> engine_error option \<times> snipe_state \<times> world" where
  "persist_swap e s candidate ev w =
     (case TransitionSnipe (e_sha e) (store_io e w) candidate ev (w_db w) of
        (Some err, d) \<Rightarrow> (Some (EPersist (s_status s) (s_status candidate) err), s, after_store e d w)
      | (None, d) \<Rightarrow> (None, candidate, emit \<lparr>n_snipe_id = s_id candidate, n_from = Some (s_status s),
            n_to = s_status candidate, n_event = ev\<rparr> (after_store e d w)))"

definition state_Transition :: "env \<Rightarrow> status \<Rightarrow> event_type \<Rightarrow> attr list \<Rightarrow> snipe_state \<Rightarrow> world
    \<Rightarrow> engine_error option \<times> snipe_state \<times> world" where
  "state_Transition e to etype attrs s w =
     (if \<not> CanTransition (s_status s) to then (Some (EInvalidTransition (s_status s) to), s, w)
      else case Transition s to of
        Inl _ \<Rightarrow> (Some (EInvalidTransition (s_status s) to), s, w)
      | Inr c \<Rightarrow> let now = w_now w; candidate = c\<lparr>s_updated_at := now\<rparr>;
          ev = \<lparr>ev_type = etype, ev_at = now, ev_attrs = (LogKeySnipeID, AString (s_id candidate)) # attrs\<rparr>
          in persist_swap e s candidate ev w)"

definition transitionToScheduled :: "env \<Rightarrow> instant \<Rightarrow> snipe_state \<Rightarrow> world
    \<Rightarrow> engine_error option \<times> snipe_state \<times> world" where
  "transitionToScheduled e scheduledAt s w =
     (if \<not> CanTransition (s_status s) StatusScheduled
      then (Some (EInvalidTransition (s_status s) StatusScheduled), s, w)
      else case Transition s StatusScheduled of
        Inl _ \<Rightarrow> (Some (EInvalidTransition (s_status s) StatusScheduled), s, w)
      | Inr c \<Rightarrow> let now = w_now w; candidate = c\<lparr>s_scheduled_at := scheduledAt, s_updated_at := now\<rparr>;
          ev = \<lparr>ev_type = EventScheduled, ev_at = now,
                ev_attrs = [(LogKeySnipeID, AString (s_id candidate)), (''scheduled_at'', ATime scheduledAt),
                            (LogKeyVenueRef, AString (venue_ref_string (i_venue (s_intent candidate))))]\<rparr>
          in persist_swap e s candidate ev w)"

section \<open>Waiting\<close>

definition waitWithCtx :: "env \<Rightarrow> duration \<Rightarrow> world \<Rightarrow> engine_error option \<times> world" where
  "waitWithCtx e d w =
     (if d \<le> 0 then (None, w)
      else let fires = w_now w + d + int (e_late e (w_tick w));
               fired = w\<lparr>w_now := fires, w_tick := Suc (w_tick w)\<rparr> in
        case e_cancel_at e of
          None \<Rightarrow> (None, fired)
        | Some c \<Rightarrow>
            if c < fires \<or> c = fires \<and> e_tie e (w_tick w) = TieCtx
            then (Some ECtx, w\<lparr>w_now := max (w_now w) c, w_tick := Suc (w_tick w)\<rparr>)
            else (None, fired))"

definition pollInterval :: "engine \<Rightarrow> duration" where
  "pollInterval en = max (bp_poll_floor (en_policy en)) (100 * millisecond)"

section \<open>The release strategies\<close>

definition calendarContainsAvailable :: "calendar \<Rightarrow> date \<Rightarrow> bool" where
  "calendarContainsAvailable cal target = list_ex (\<lambda>d. cd_date d = target \<and> cd_available d) (cal_days cal)"

definition lookupVenueTZ :: "env \<Rightarrow> venue_ref \<Rightarrow> world \<Rightarrow> (engine_error + location) \<times> world" where
  "lookupVenueTZ e ref w =
     (case GetVenue (e_load_location e) (store_io e w) ref (w_db w) of
        Inl err \<Rightarrow> Inl (EStore err)
      | Inr v \<Rightarrow> (case v_tz v of None \<Rightarrow> Inl (EText ''cached venue has nil TZ'') | Some l \<Rightarrow> Inr l),
      after_store e (w_db w) w)"

definition recordObserved :: "env \<Rightarrow> intent \<Rightarrow> instant \<Rightarrow> world \<Rightarrow> engine_error option \<times> world" where
  "recordObserved e i now w =
     (let (lr, w1) = lookupVenueTZ e (i_venue i) w;
          loc = (case lr of Inl _ \<Rightarrow> utc | Inr l \<Rightarrow> l);
          (h, mi, sec) = clock_in now loc;
          days = quot (time_sub (date_at (i_date i) loc) now) (24 * 3600 * second);
          row = \<lparr>ob_venue = i_venue i, ob_local_time = WallTime h mi sec, ob_days_offset = days,
                 ob_observed_at = now\<rparr>;
          (err, d) = UpsertObserved (store_io e w1) row (w_db w1)
      in (map_option EStore err, after_store e d w1))"

definition advanceToDiscovering :: "env \<Rightarrow> instant \<Rightarrow> instant \<Rightarrow> snipe_state \<Rightarrow> world
    \<Rightarrow> engine_error option \<times> snipe_state \<times> world" where
  "advanceToDiscovering e from til s w =
     (if s_status s = StatusDiscovering then (None, s, w)
      else state_Transition e StatusDiscovering EventDiscovered
        [(LogKeyVenueRef, AString (venue_ref_string (i_venue (s_intent s)))),
         (''probe_from'', ATime from), (''probe_until'', ATime til)] s w)"

lemma pollInterval_ge: "100 * millisecond \<le> pollInterval en"
  by (simp add: pollInterval_def)

lemma pollInterval_pos [simp]: "0 < pollInterval en"
  using pollInterval_ge [of en] by (simp add: millisecond_def)

lemma after_call_now: "w_now w \<le> w_now (after_call e w)"
  by (simp add: after_call_def)

lemma waitWithCtx_advances:
  "waitWithCtx e d w = (None, w') \<Longrightarrow> 0 < d \<Longrightarrow> w_now w + d \<le> w_now w'"
  by (auto simp: waitWithCtx_def Let_def split: option.splits if_splits)

lemma poll_later:
  assumes "waitWithCtx e (pollInterval en) (after_call e w) = (None, w')"
  shows "w_now w + 100 * millisecond \<le> w_now w'"
proof -
  have "w_now (after_call e w) + pollInterval en \<le> w_now w'"
    using assms waitWithCtx_advances pollInterval_pos by blast
  then show ?thesis using after_call_now [of w e] pollInterval_ge [of en] by linarith
qed

lemma poll_strict: "(None, w') = waitWithCtx e (pollInterval en) (after_call e w) \<Longrightarrow> w_now w < w_now w'"
  using poll_later [of e en w w'] by (simp add: millisecond_def)

text \<open>The polling loop of \<^verbatim>\<open>runDiscoveredRelease\<close>.\<close>

function discovered_loop :: "env \<Rightarrow> engine \<Rightarrow> instant \<Rightarrow> snipe_state \<Rightarrow> world
    \<Rightarrow> engine_error option \<times> snipe_state \<times> world" where
  "discovered_loop e en til s w =
     (if ctx_done e w then (Some ECtx, s, w)
      else if \<not> w_now w < til then
        state_Transition e StatusFailed EventFailed
          [(''reason'', AString ''discovered_window_expired''), (''probe_until'', ATime til)] s w
      else
        let i = s_intent s; target = i_date i; w1 = after_call e w in
        case e_calendar e (w_tick w) (i_venue i)
               \<lparr>dr_start = target, dr_end = target, dr_party_size = i_party_size i\<rparr> of
          Inl err \<Rightarrow> (Some (EProvider err), s, w1)
        | Inr cal \<Rightarrow>
            if calendarContainsAvailable cal target then
              let now = w_now w1; (_, w2) = recordObserved e i now w1 in
              state_Transition e StatusAwaiting EventReleased
                [(LogKeyVenueRef, AString (venue_ref_string (i_venue i))), (''observed_at'', ATime now)] s w2
            else case waitWithCtx e (pollInterval en) w1 of
                (Some err, w2) \<Rightarrow> (Some err, s, w2)
              | (None, w2) \<Rightarrow> discovered_loop e en til s w2)"
  by pat_completeness auto

termination
  by (relation "measure (\<lambda>(e, en, til, s, w). nat (til - w_now w))") (auto dest: poll_strict)

declare discovered_loop.simps [simp del]

definition runDiscoveredRelease :: "env \<Rightarrow> engine \<Rightarrow> instant \<Rightarrow> instant \<Rightarrow> snipe_state \<Rightarrow> world
    \<Rightarrow> engine_error option \<times> snipe_state \<times> world" where
  "runDiscoveredRelease e en from til s w =
     (if is_zero from \<or> is_zero til then (Some (EText ''DiscoveredRelease requires ProbeFrom and ProbeUntil''), s, w)
      else if \<not> from < til then (Some (EText ''DiscoveredRelease ProbeUntil must be after ProbeFrom''), s, w)
      else case advanceToDiscovering e from til s w of
        (Some err, s1, w1) \<Rightarrow> (Some err, s1, w1)
      | (None, s1, w1) \<Rightarrow>
          let delay = time_sub from (w_now w1) in
          if delay > 0 then
            (case waitWithCtx e delay w1 of
               (Some err, w2) \<Rightarrow> (Some err, s1, w2)
             | (None, w2) \<Rightarrow> discovered_loop e en til s1 w2)
          else discovered_loop e en til s1 w1)"

function continuous_loop :: "env \<Rightarrow> engine \<Rightarrow> instant \<Rightarrow> snipe_state \<Rightarrow> world
    \<Rightarrow> engine_error option \<times> snipe_state \<times> world" where
  "continuous_loop e en til s w =
     (if ctx_done e w then (Some ECtx, s, w)
      else if \<not> w_now w < til then
        state_Transition e StatusExpired EventExpired
          [(''reason'', AString ''continuous_window_expired''), (''until'', ATime til)] s w
      else
        let i = s_intent s; w1 = after_call e w;
            req = \<lparr>fr_venue = i_venue i, fr_date = i_date i, fr_party_size = i_party_size i,
                   fr_times = [], fr_session = None\<rparr> in
        case e_find e (w_tick w) req of
          Inl err \<Rightarrow>
            if pe_is err = Some ErrInventoryEmpty then
              (case waitWithCtx e (pollInterval en) w1 of
                 (Some er, w2) \<Rightarrow> (Some er, s, w2)
               | (None, w2) \<Rightarrow> continuous_loop e en til s w2)
            else (Some (EProvider err), s, w1)
        | Inr slots \<Rightarrow>
            if length slots > 0 then
              state_Transition e StatusAwaiting EventFound
                [(LogKeyVenueRef, AString (venue_ref_string (i_venue i))),
                 (''slot_count'', AInt (go_len slots))] s w1
            else case waitWithCtx e (pollInterval en) w1 of
                (Some er, w2) \<Rightarrow> (Some er, s, w2)
              | (None, w2) \<Rightarrow> continuous_loop e en til s w2)"
  by pat_completeness auto

termination
  by (relation "measure (\<lambda>(e, en, til, s, w). nat (til - w_now w))") (auto dest: poll_strict)

declare continuous_loop.simps [simp del]

definition runContinuousRelease :: "env \<Rightarrow> engine \<Rightarrow> instant \<Rightarrow> snipe_state \<Rightarrow> world
    \<Rightarrow> engine_error option \<times> snipe_state \<times> world" where
  "runContinuousRelease e en til s w =
     (if is_zero til then (Some (EText ''ContinuousRelease requires Until''), s, w)
      else continuous_loop e en til s w)"

definition runStrategy :: "env \<Rightarrow> engine \<Rightarrow> snipe_state \<Rightarrow> world
    \<Rightarrow> engine_error option \<times> snipe_state \<times> world" where
  "runStrategy e en s w =
     (case i_release (s_intent s) of
        Some (ExplicitRelease at) \<Rightarrow>
          state_Transition e StatusAwaiting EventReleased
            [(LogKeyVenueRef, AString (venue_ref_string (i_venue (s_intent s))))] s w
      | Some (DiscoveredRelease from til) \<Rightarrow>
          if \<not> en_has_provider en then (Some (EText ''DiscoveredRelease requires a Provider''), s, w)
          else runDiscoveredRelease e en from til s w
      | Some (ContinuousRelease til) \<Rightarrow>
          if \<not> en_has_provider en then (Some (EText ''ContinuousRelease requires a Provider''), s, w)
          else runContinuousRelease e en til s w
      | None \<Rightarrow> (Some (EText ''nil ReleaseStrategy''), s, w))"

section \<open>Run\<close>

abbreviation fireRelease :: "env \<Rightarrow> engine \<Rightarrow> snipe_state \<Rightarrow> world
    \<Rightarrow> engine_error option \<times> snipe_state \<times> world" where
  "fireRelease \<equiv> runStrategy"

definition scheduledAtFromIntent :: "intent \<Rightarrow> world \<Rightarrow> engine_error + instant" where
  "scheduledAtFromIntent i w =
     (case i_release i of
        Some (ExplicitRelease at) \<Rightarrow> Inr at
      | Some (DiscoveredRelease from til) \<Rightarrow> Inr from
      | Some (ContinuousRelease til) \<Rightarrow> Inr (w_now w)
      | None \<Rightarrow> Inl (EText ''intent has nil release strategy''))"

text \<open>The timer callback runs the strategy when the context is still live at its instant. The
  caller selects between the callback's end and the cancellation: stopped in time, nothing has
  run; otherwise it waits for the callback and returns the context's error unless the end of
  the callback was seen first.\<close>

definition waitAndFire :: "env \<Rightarrow> engine \<Rightarrow> duration \<Rightarrow> snipe_state \<Rightarrow> world
    \<Rightarrow> engine_error option \<times> snipe_state \<times> world" where
  "waitAndFire e en delay s w =
     (let fires = w_now w + delay + int (e_late e (w_tick w));
          fired = w\<lparr>w_now := fires, w_tick := Suc (w_tick w)\<rparr> in
      case e_cancel_at e of
        None \<Rightarrow> fireRelease e en s fired
      | Some c \<Rightarrow>
          if c < fires \<or> c = fires \<and> e_tie e (w_tick w) = TieStop
          then (Some ECtx, s, w\<lparr>w_now := max (w_now w) c, w_tick := Suc (w_tick w)\<rparr>)
          else if c = fires then
            (if e_tie e (w_tick w) = TieDone then None else Some ECtx, s, fired)
          else (case fireRelease e en s fired of (err, s2, w2) \<Rightarrow>
            (if c < w_now w2 \<or> c = w_now w2 \<and> e_tie e (w_tick w2) \<noteq> TieDone then Some ECtx else err, s2, w2)))"

text \<open>The two halves of \<^verbatim>\<open>Run\<close> after the load: commit a scheduled time if the snipe has none
  yet, then fire when it is due.\<close>

definition ensure_scheduled :: "env \<Rightarrow> snipe_state \<Rightarrow> world \<Rightarrow> engine_error option \<times> snipe_state \<times> world" where
  "ensure_scheduled e s w =
     (if s_status s = StatusSubmitted then
        (case scheduledAtFromIntent (s_intent s) w of
           Inl err \<Rightarrow> (Some err, s, w)
         | Inr at \<Rightarrow> transitionToScheduled e at s w)
      else (None, s, w))"

definition fire_when_due :: "env \<Rightarrow> engine \<Rightarrow> snipe_state \<Rightarrow> world \<Rightarrow> engine_error option \<times> snipe_state \<times> world" where
  "fire_when_due e en s w =
     (if s_status s \<noteq> StatusScheduled then (None, s, w)
      else let delay = time_sub (s_scheduled_at s) (w_now w) in
        if delay \<le> 0 then fireRelease e en s w else waitAndFire e en delay s w)"

definition Run :: "env \<Rightarrow> engine \<Rightarrow> snipe_id \<Rightarrow> world \<Rightarrow> engine_error option \<times> snipe_state option \<times> world" where
  "Run e en sid w =
     (case Load e sid w of
        (Inl err, w1) \<Rightarrow> (Some err, None, w1)
      | (Inr s, w1) \<Rightarrow>
        (case ensure_scheduled e s w1 of
           (Some err, s2, w2) \<Rightarrow> (Some err, Some s2, w2)
         | (None, s2, w2) \<Rightarrow>
             (case fire_when_due e en s2 w2 of (err, s3, w3) \<Rightarrow> (err, Some s3, w3))))"

end
