(* ===== verification/Resolver.thy ===== *)
theory Resolver
  imports QuestStore Engine
begin

text \<open>
  The venue resolver: Resy links (\<^verbatim>\<open>resolver/url.go\<close>) and the cache-fronted resolution of a venue
  query (\<^verbatim>\<open>resolver/resolver.go\<close> over the cache adapter of \<^verbatim>\<open>cmd/resy-snipe/resolver_adapter.go\<close>).
  The state of the daemon is a \<open>sys\<close>: the engine's world and the multi-tenant tables. The
  provider's two lookups are the functions \<open>rv_venue\<close> and \<open>rv_search\<close> of the resolver, which the
  environment answers like its other calls.
\<close>

record sys =
  sy_w :: world
  sy_q :: qdb

text \<open>One store call: its statements end as the environment decides, and it takes time.\<close>

definition q_exec :: "env \<Rightarrow> (io \<Rightarrow> db \<Rightarrow> qdb \<Rightarrow> 'r \<times> qdb) \<Rightarrow> sys \<Rightarrow> 'r \<times> sys" where
  "q_exec e f s = (case f (store_io e (sy_w s)) (w_db (sy_w s)) (sy_q s) of
     (r, q) \<Rightarrow> (r, s\<lparr>sy_w := after_store e (w_db (sy_w s)) (sy_w s), sy_q := q\<rparr>))"

definition q_read :: "env \<Rightarrow> (io \<Rightarrow> db \<Rightarrow> qdb \<Rightarrow> 'r) \<Rightarrow> sys \<Rightarrow> 'r \<times> sys" where
  "q_read e f s = q_exec e (\<lambda>io d q. (f io d q, q)) s"

section \<open>Resy links\<close>

datatype resolver_error =
    RErrInvalidURL string | RErrNotResyHost string | RErrNotVenueURL string | RErrVenueNotFound string
  | RErrVenueAmbiguous string "venue list" | RErrProvider provider_error

record URLHints =
  uh_slug :: string
  uh_city :: string
  uh_date :: "date option"
  uh_party :: "int option"

definition splitVenuePath :: "(string \<Rightarrow> string) \<Rightarrow> string \<Rightarrow> (string \<times> string \<times> bool) option" where
  "splitVenuePath uni p =
     (let t = (if prefix ''/'' p then tl p else p);
          trailing = suffix ''/'' t;
          u = (if trailing then butlast t else t);
          parts = splitOn CHR ''/'' u in
      if u = [] then None
      else if length parts < 4 then None
      else if parts ! 0 \<noteq> ''cities'' \<or> parts ! 2 \<noteq> ''venues'' then None
      else let rawCity = TrimSpace (parts ! 1); rawSlug = TrimSpace (parts ! 3) in
        if rawCity = [] \<or> rawSlug = [] then None
        else Some (ToLower uni rawSlug, ToLower uni rawCity, trailing))"

definition canonicalURL :: "string \<Rightarrow> string \<Rightarrow> string \<Rightarrow> string \<Rightarrow> bool \<Rightarrow> string" where
  "canonicalURL scheme host city slug trailing =
     scheme @ ''://'' @ host @ ''/cities/'' @ city @ ''/venues/'' @ slug @ (if trailing then ''/'' else [])"

definition parseDateParam :: "string \<Rightarrow> date option" where
  "parseDateParam s = (if s = [] then None else case ParseDate s of Inl _ \<Rightarrow> None | Inr d \<Rightarrow> Some d)"

definition parsePartyParam :: "string \<Rightarrow> int option" where
  "parsePartyParam s = (if s = [] then None else case Atoi s of None \<Rightarrow> None | Some n \<Rightarrow> if n < 0 then None else Some n)"

definition ParseResyURL :: "(string \<Rightarrow> string) \<Rightarrow> string \<Rightarrow> resolver_error + (string \<times> URLHints)" where
  "ParseResyURL uni raw =
     (let trimmed = TrimSpace raw in
      if trimmed = [] then Inl (RErrInvalidURL ''empty input'')
      else case url_Parse trimmed of None \<Rightarrow> Inl (RErrInvalidURL trimmed)
      | Some u \<Rightarrow>
        let scheme = ToLower uni (u_scheme u); host = ToLower uni (Hostname u) in
        if scheme \<noteq> ''http'' \<and> scheme \<noteq> ''https'' then Inl (RErrInvalidURL (u_scheme u))
        else if host = [] then Inl (RErrInvalidURL ''missing host'')
        else if host \<notin> set resyHosts then Inl (RErrNotResyHost host)
        else case splitVenuePath uni (u_path u) of None \<Rightarrow> Inl (RErrNotVenueURL (u_path u))
        | Some (slug, city, trailing) \<Rightarrow>
            Inr (canonicalURL scheme host city slug trailing,
              \<lparr>uh_slug = slug, uh_city = city, uh_date = parseDateParam (query_get u ''date''),
               uh_party = parsePartyParam (query_get u ''seats'')\<rparr>))"

section \<open>Resolution\<close>

text \<open>\<^verbatim>\<open>strings.Fields\<close>: the maximal runs between white space.\<close>

function fields_from :: "string \<Rightarrow> string \<Rightarrow> string list" where
  "fields_from cur s =
     (case s of [] \<Rightarrow> if cur = [] then [] else [cur]
      | c # r \<Rightarrow> if lead_space space_seqs s = 0 then fields_from (cur @ [c]) r
          else (if cur = [] then [] else [cur]) @ fields_from [] (drop (lead_space space_seqs s - 1) r))"
  by auto
termination by (relation "measure (length \<circ> snd)") auto

declare fields_from.simps [simp del]

definition normalizeNameQuery :: "(string \<Rightarrow> string) \<Rightarrow> string \<Rightarrow> string" where
  "normalizeNameQuery uni s = join_with '' '' (fields_from [] (ToLower uni s))"

record resolver =
  rv_venue :: "nat \<Rightarrow> string \<Rightarrow> string \<Rightarrow> provider_error + venue"
  rv_search :: "nat \<Rightarrow> string \<Rightarrow> provider_error + venue list"
  rv_ttl :: duration
  rv_uni :: "string \<Rightarrow> string"

definition call_provider :: "env \<Rightarrow> (nat \<Rightarrow> 'r) \<Rightarrow> sys \<Rightarrow> 'r \<times> sys" where
  "call_provider e f s = (f (w_tick (sy_w s)), s\<lparr>sy_w := after_call e (sy_w s)\<rparr>)"

definition isStale :: "resolver \<Rightarrow> instant \<Rightarrow> sys \<Rightarrow> bool" where
  "isStale rv cachedAt s \<longleftrightarrow> rv_ttl rv < time_sub (w_now (sy_w s)) cachedAt"

definition pickFromHits :: "string \<Rightarrow> venue list \<Rightarrow> resolver_error + venue" where
  "pickFromHits query hits = (case hits of [] \<Rightarrow> Inl (RErrVenueNotFound query) | [v] \<Rightarrow> Inr v
     | _ \<Rightarrow> Inl (RErrVenueAmbiguous query hits))"

text \<open>The lookup behind a fresh or missing row: ask the provider, write through, and serve the
  cached row when the provider fails, unless it says that the venue does not exist.\<close>

definition fetch_slug :: "env \<Rightarrow> resolver \<Rightarrow> string \<Rightarrow> string \<Rightarrow> venue option \<Rightarrow> sys \<Rightarrow> (resolver_error + venue) \<times> sys" where
  "fetch_slug e rv slug city cached s =
     (case call_provider e (\<lambda>n. rv_venue rv n slug city) s of
        (Inl err, s1) \<Rightarrow>
          (if pe_is err = Some ErrVenueNotFound then Inl (RErrVenueNotFound (''slug='' @ slug @ '' city='' @ city))
           else case cached of Some v \<Rightarrow> Inr v | None \<Rightarrow> Inl (RErrProvider err), s1)
      | (Inr v, s1) \<Rightarrow> (Inr v, snd (q_exec e (\<lambda>io d. UpsertVenueCache io slug city v (w_now (sy_w s1))) s1)))"

definition resolveSlug :: "env \<Rightarrow> resolver \<Rightarrow> string \<Rightarrow> string \<Rightarrow> sys \<Rightarrow> (resolver_error + venue) \<times> sys" where
  "resolveSlug e rv slug0 city0 s =
     (let slug = TrimSpace slug0; city = TrimSpace city0 in
      if slug = [] \<or> city = [] then (Inl (RErrInvalidURL ''slug and city are required''), s)
      else case q_read e (\<lambda>io d. GetVenueCache (e_load_location e) io slug city) s of
        (Inr (v, at), s1) \<Rightarrow> if isStale rv at s1 then fetch_slug e rv slug city (Some v) s1 else (Inr v, s1)
      | (Inl _, s1) \<Rightarrow> fetch_slug e rv slug city None s1)"

definition fetch_name :: "env \<Rightarrow> resolver \<Rightarrow> string \<Rightarrow> string \<Rightarrow> venue list option \<Rightarrow> sys \<Rightarrow> (resolver_error + venue) \<times> sys" where
  "fetch_name e rv trimmed key cached s =
     (case call_provider e (\<lambda>n. rv_search rv n trimmed) s of
        (Inl err, s1) \<Rightarrow> (case cached of Some hits \<Rightarrow> pickFromHits trimmed hits | None \<Rightarrow> Inl (RErrProvider err), s1)
      | (Inr hits, s1) \<Rightarrow> (pickFromHits trimmed hits,
          snd (q_exec e (\<lambda>io d. UpsertNameSearchCache io key hits (w_now (sy_w s1))) s1)))"

definition resolveName :: "env \<Rightarrow> resolver \<Rightarrow> string \<Rightarrow> sys \<Rightarrow> (resolver_error + venue) \<times> sys" where
  "resolveName e rv name s =
     (let trimmed = TrimSpace name; key = normalizeNameQuery (rv_uni rv) trimmed in
      if trimmed = [] then (Inl (RErrInvalidURL ''name is required''), s)
      else case q_read e (\<lambda>io d. GetNameSearchCache (e_load_location e) io key) s of
        (Inr (hits, at), s1) \<Rightarrow> if isStale rv at s1 then fetch_name e rv trimmed key (Some hits) s1
          else (pickFromHits trimmed hits, s1)
      | (Inl _, s1) \<Rightarrow> fetch_name e rv trimmed key None s1)"

definition resolveURL :: "env \<Rightarrow> resolver \<Rightarrow> string \<Rightarrow> sys \<Rightarrow> (resolver_error + venue) \<times> sys" where
  "resolveURL e rv raw s = (case ParseResyURL (rv_uni rv) raw of Inl err \<Rightarrow> (Inl err, s)
     | Inr (_, h) \<Rightarrow> resolveSlug e rv (uh_slug h) (uh_city h) s)"

definition Resolve :: "env \<Rightarrow> resolver \<Rightarrow> venue_query option \<Rightarrow> sys \<Rightarrow> (resolver_error + venue) \<times> sys" where
  "Resolve e rv query s = (case query of
       None \<Rightarrow> (Inl (RErrInvalidURL []), s)
     | Some (VenueQueryURL u) \<Rightarrow> resolveURL e rv u s
     | Some (VenueQuerySlug slug city) \<Rightarrow> resolveSlug e rv slug city s
     | Some (VenueQueryName n) \<Rightarrow> resolveName e rv n s)"

end
