(* ===== verification/Planner.thy ===== *)
theory Planner
  imports PlanText Providers
begin

text \<open>
  The planner (\<^verbatim>\<open>internal/planner\<close>): expansion of a time window into slot preferences, the drop
  moment, the choice of a release strategy and the assembly of a hashed plan.
\<close>

datatype planner_error =
    PErrVenueMissingTZ | ErrTargetInPast date string | ErrInvalidWindow walltime walltime
  | ErrInvalidReleaseDaysAhead int | ErrMissingLocation | PanicMakeSlice

section \<open>Slots\<close>

definition SlotStepV1 :: int where
  "SlotStepV1 = 30"

definition minutesOfDay :: "walltime \<Rightarrow> int" where
  "minutesOfDay w = wt_hour w * 60 + wt_minute w"

definition wallTimeFromMinutes :: "int \<Rightarrow> int \<Rightarrow> walltime" where
  "wallTimeFromMinutes m seconds = WallTime (quot m 60) (m - 60 * quot m 60) seconds"

definition wallTimeAfterPub :: "walltime \<Rightarrow> walltime \<Rightarrow> bool" where
  "wallTimeAfterPub a b =
     (if wt_hour a \<noteq> wt_hour b then wt_hour b < wt_hour a
      else if wt_minute a \<noteq> wt_minute b then wt_minute b < wt_minute a
      else wt_second b < wt_second a)"

function step_times :: "int \<Rightarrow> int \<Rightarrow> int \<Rightarrow> walltime list" where
  "step_times m endMin seconds =
     (if m \<le> endMin then wallTimeFromMinutes m seconds # step_times (m + SlotStepV1) endMin seconds else [])"
  by auto
termination by (relation "measure (\<lambda>(m, e, s). nat (e - m + 1))") (auto simp: SlotStepV1_def)

declare step_times.simps [simp del]

text \<open>Making a slice of negative capacity panics.\<close>

definition enumerateTimes :: "time_window \<Rightarrow> planner_error + walltime list" where
  "enumerateTimes w =
     (let startMin = minutesOfDay (tw_start w); endMin = minutesOfDay (tw_end w) in
      if startMin = endMin then Inr [wallTimeFromMinutes startMin (wt_second (tw_start w))]
      else if quot (endMin - startMin) SlotStepV1 + 1 < 0 then Inl PanicMakeSlice
      else let asc = step_times startMin endMin (wt_second (tw_start w)) in
        Inr (case tw_priority w of PriorityLater \<Rightarrow> rev asc | _ \<Rightarrow> asc))"

definition normalizeTables :: "constraints \<Rightarrow> string list" where
  "normalizeTables c = (if ct_any_table c \<or> ct_table_types c = [] then [''''] else ct_table_types c)"

definition ExpandSlots :: "time_window \<Rightarrow> constraints \<Rightarrow> planner_error + slot_preference list" where
  "ExpandSlots w c =
     (if wallTimeAfterPub (tw_start w) (tw_end w) then Inl (ErrInvalidWindow (tw_start w) (tw_end w))
      else bind_result (enumerateTimes w) (\<lambda>times.
        Inr (concat (map (\<lambda>t. map (\<lambda>tbl. \<lparr>sp_time = t, sp_table_type = tbl\<rparr>) (normalizeTables c)) times))))"

section \<open>The drop moment\<close>

definition ComputeDrop :: "date \<Rightarrow> int \<Rightarrow> walltime \<Rightarrow> location option \<Rightarrow> planner_error + instant" where
  "ComputeDrop target releaseDaysAhead releaseTimeLocal tz =
     (case tz of None \<Rightarrow> Inl ErrMissingLocation
      | Some l \<Rightarrow>
        if releaseDaysAhead < 0 then Inl (ErrInvalidReleaseDaysAhead releaseDaysAhead)
        else (case date_in (add_days (date_at target l) (- releaseDaysAhead) l) l of
          (y, m, d) \<Rightarrow> Inr (go_date y m d (wt_hour releaseTimeLocal) (wt_minute releaseTimeLocal) (wt_second releaseTimeLocal) 0 l)))"

definition DiscoveredProbeWindow :: "instant \<Rightarrow> instant \<times> instant" where
  "DiscoveredProbeWindow approxDrop =
     (let probeFrom = approxDrop - 90 * second in (probeFrom, probeFrom + 300 * second))"

section \<open>The strategy\<close>

record VenueReleaseConfig =
  vc_days_ahead :: int
  vc_time_local :: walltime

definition no_config :: VenueReleaseConfig where
  "no_config = \<lparr>vc_days_ahead = 0, vc_time_local = WallTime 0 0 0\<rparr>"

definition config_is_zero :: "VenueReleaseConfig \<Rightarrow> bool" where
  "config_is_zero c \<longleftrightarrow> c = no_config"

record StrategyInput =
  si_goal :: goal
  si_venue :: venue
  si_now :: instant
  si_calendar :: calendar
  si_observed :: "instant option"
  si_config :: VenueReleaseConfig
  si_until :: instant

text \<open>The first entry of the date decides.\<close>

fun first_day :: "calendar_day list \<Rightarrow> date \<Rightarrow> bool" where
  "first_day [] d = False"
| "first_day (x # xs) d = (if cd_date x = d then cd_available x else first_day xs d)"

definition calendarShowsBookable :: "calendar \<Rightarrow> date \<Rightarrow> bool" where
  "calendarShowsBookable snap d = first_day (cal_days snap) d"

definition startOfDayIn :: "instant \<Rightarrow> location \<Rightarrow> instant" where
  "startOfDayIn now l = (case date_in now l of (y, m, d) \<Rightarrow> go_date y m d 0 0 0 0 l)"

definition endOfDayIn :: "instant \<Rightarrow> location \<Rightarrow> instant" where
  "endOfDayIn now l = (case date_in now l of (y, m, d) \<Rightarrow> go_date y m d 23 59 59 0 l)"

definition bestEffortExplicitDrop :: "StrategyInput \<Rightarrow> location \<Rightarrow> instant" where
  "bestEffortExplicitDrop si l =
     (case si_observed si of Some t \<Rightarrow> t
      | None \<Rightarrow>
        if \<not> config_is_zero (si_config si) then
          (case date_in (add_days (date_at (gl_date (si_goal si)) l) (- vc_days_ahead (si_config si)) l) l of
            (y, m, d) \<Rightarrow> go_date y m d (wt_hour (vc_time_local (si_config si))) (wt_minute (vc_time_local (si_config si)))
              (wt_second (vc_time_local (si_config si))) 0 l)
        else add_days (date_at (gl_date (si_goal si)) l) (- 1) l)"

definition bestEffortDiscoveredProbe :: "StrategyInput \<Rightarrow> location \<Rightarrow> instant \<times> instant" where
  "bestEffortDiscoveredProbe si l =
     (case date_in (add_days (date_at (gl_date (si_goal si)) l) (- 1) l) l of (y, m, d) \<Rightarrow>
        let g = go_date y m d 0 0 0 0 l; dropGuess = (if g < si_now si then si_now si else g);
            probeFrom = dropGuess - 90 * second
        in (probeFrom, probeFrom + 300 * second))"

text \<open>\<^verbatim>\<open>Format(time.RFC3339)\<close> and \<^verbatim>\<open>Format("2006-01-02")\<close>.\<close>

definition rfc3339 :: "instant \<Rightarrow> string" where
  "rfc3339 t = date_text (date_in t utc) @ ''T'' @ clock_text (clock_in t utc) @ ''Z''"

definition SelectStrategy :: "StrategyInput \<Rightarrow> planner_error + (release_strategy \<times> string list)" where
  "SelectStrategy si =
     (case v_tz (si_venue si) of None \<Rightarrow> Inl PErrVenueMissingTZ
      | Some l \<Rightarrow>
        let target = gl_date (si_goal si) in
        if date_at target l < startOfDayIn (si_now si) l
        then Inl (ErrTargetInPast target (date_text (date_in (startOfDayIn (si_now si) l) l)))
        else if calendarShowsBookable (si_calendar si) target then
          let til = (if is_zero (si_until si) then endOfDayIn (si_now si) l else si_until si) in
          Inr (ContinuousRelease til, [''strategy=Continuous because Resy is already serving slots for '' @ date_string target @
            ''; we'' @ [CHR 0x27] @ ''ll race cancellations until '' @ rfc3339 til])
        else if si_observed si \<noteq> None then
          let at = bestEffortExplicitDrop si l in
          Inr (ExplicitRelease at, [''strategy=Explicit at '' @ rfc3339 at @ '' (using observed release average; drop math finalized in M1-07)''])
        else if \<not> config_is_zero (si_config si) then
          let at = bestEffortExplicitDrop si l in
          Inr (ExplicitRelease at, [''strategy=Explicit at '' @ rfc3339 at @ '' (using configured release_days_ahead='' @
            show_int (vc_days_ahead (si_config si)) @ '', release_time_local='' @ walltime_string (vc_time_local (si_config si)) @
            ''; drop math finalized in M1-07)''])
        else case bestEffortDiscoveredProbe si l of (probeFrom, probeUntil) \<Rightarrow>
          Inr (DiscoveredRelease probeFrom probeUntil, [''strategy=Discovered because Resy hasn'' @ [CHR 0x27] @
            ''t observed a release for venue '' @ venue_ref_string (AsRef (si_venue si)) @ '' yet; probing '' @
            rfc3339 probeFrom @ ''..'' @ rfc3339 probeUntil]))"

section \<open>Plans\<close>

record PlanInput =
  pi_goal :: goal
  pi_venue :: venue
  pi_now :: instant
  pi_calendar :: calendar
  pi_observed :: "instant option"
  pi_config :: "VenueReleaseConfig option"
  pi_until :: instant

definition projectSlots :: "slot_preference list \<Rightarrow> date \<Rightarrow> location option \<Rightarrow> instant list" where
  "projectSlots slots d tz = (case tz of None \<Rightarrow> []
     | Some l \<Rightarrow> map (\<lambda>s. go_date (d_year d) (d_month d) (d_day d) (wt_hour (sp_time s)) (wt_minute (sp_time s)) (wt_second (sp_time s)) 0 l) slots)"

fun fireScheduleFor :: "release_strategy \<Rightarrow> slot_preference list \<Rightarrow> instant \<Rightarrow> instant \<times> instant list" where
  "fireScheduleFor (ExplicitRelease at) slots now = (at, map (\<lambda>_. at) slots)"
| "fireScheduleFor (ContinuousRelease til) slots now = (now, map (\<lambda>_. now) slots)"
| "fireScheduleFor (DiscoveredRelease from til) slots now =
     (from, map (\<lambda>_. from + quot (time_sub til from) 2) slots)"

definition strategy_input :: "PlanInput \<Rightarrow> StrategyInput" where
  "strategy_input p = \<lparr>si_goal = pi_goal p, si_venue = pi_venue p, si_now = pi_now p, si_calendar = pi_calendar p,
     si_observed = pi_observed p, si_config = (case pi_config p of None \<Rightarrow> no_config | Some c \<Rightarrow> c), si_until = pi_until p\<rparr>"

definition BuildPlan :: "(string \<Rightarrow> string) \<Rightarrow> PlanInput \<Rightarrow> planner_error + plan" where
  "BuildPlan sha p =
     bind_result (SelectStrategy (strategy_input p)) (\<lambda>(strategy, notes).
     bind_result (ExpandSlots (gl_time_prefs (pi_goal p)) (gl_constraints (pi_goal p))) (\<lambda>slots.
       case fireScheduleFor strategy slots (pi_now p) of (dropMoment, fireSchedule) \<Rightarrow>
         Inr (WithHash sha \<lparr>pl_goal = pi_goal p, pl_venue = pi_venue p, pl_drop_moment = dropMoment, pl_strategy = Some strategy,
           pl_fire_schedule = fireSchedule, pl_signing_required = False, pl_hash = [],
           pl_notes = notes @ [''signing_required=false (v1: domain.Venue carries no peak-venue indicator; signer adapter is consulted live at fire time)''],
           pl_hash_version = PlanHashVersionV1, pl_computed_at = pi_now p\<rparr>)))"

end
