(* ===== verification/Service.thy ===== *)
theory Service
  imports Resolver Planner
begin

text \<open>
  The service layer (\<^verbatim>\<open>service/standard.go\<close>, \<^verbatim>\<open>standard_quest.go\<close>, \<^verbatim>\<open>standard_auth.go\<close>, \<^verbatim>\<open>audit.go\<close>,
  \<^verbatim>\<open>errors.go\<close>, \<^verbatim>\<open>ctxauth.go\<close>) over the store adapter of \<^verbatim>\<open>cmd/resy-snipe/service_store_adapter.go\<close>. A
  service error is the list of service sentinels its chain holds, its text, whether it wraps
  a cancelled context, and the provider's sentinel it wraps, if any. The texts of the errors of lower layers, the digest of the token hash
  (a third-party package) and the random source are arguments, as are the upstream login and
  the provider behind the resolver. A deferred function runs after the body it is deferred by.
\<close>

section \<open>Errors\<close>

datatype svc_sentinel =
    SvcNotImplemented | SvcNotFound | SvcUnauthorized | SvcForbidden | SvcConflict | SvcInvalidPlanHash
  | SvcVenueNotFound | SvcVenueAmbiguous | SvcUpstreamUnavailable | SvcInvalidArgument | SvcTokenExpired
  | SvcTokenRevoked | SvcInviteExpired | SvcInviteConsumed | SvcIdempotencyConflict

fun sentinel_text :: "svc_sentinel \<Rightarrow> string" where
  "sentinel_text SvcNotImplemented = ''service: not implemented''"
| "sentinel_text SvcNotFound = ''service: not found''"
| "sentinel_text SvcUnauthorized = ''service: unauthorized''"
| "sentinel_text SvcForbidden = ''service: forbidden''"
| "sentinel_text SvcConflict = ''service: conflict''"
| "sentinel_text SvcInvalidPlanHash = ''service: plan hash mismatch''"
| "sentinel_text SvcVenueNotFound = ''service: venue not found''"
| "sentinel_text SvcVenueAmbiguous = ''service: venue ambiguous''"
| "sentinel_text SvcUpstreamUnavailable = ''service: upstream unavailable''"
| "sentinel_text SvcInvalidArgument = ''service: invalid argument''"
| "sentinel_text SvcTokenExpired = ''service: token expired''"
| "sentinel_text SvcTokenRevoked = ''service: token revoked''"
| "sentinel_text SvcInviteExpired = ''service: invite expired''"
| "sentinel_text SvcInviteConsumed = ''service: invite consumed''"
| "sentinel_text SvcIdempotencyConflict = ''service: idempotency conflict''"

record svc_error =
  sx_is :: "svc_sentinel list"
  sx_text :: string
  sx_ctx :: bool
  sx_prov :: "sentinel option"

datatype cause =
    CGoal goal_error | CPlanner planner_error | CStore store_error | CEngine engine_error
  | CResolver resolver_error | CGoalJSON string | CRand

definition plain :: "svc_sentinel \<Rightarrow> svc_error" where
  "plain x = \<lparr>sx_is = [x], sx_text = sentinel_text x, sx_ctx = False, sx_prov = None\<rparr>"

text \<open>\<^verbatim>\<open>fmt.Errorf\<close> with the verb \<^verbatim>\<open>%w\<close>: text before and after, the chain kept.\<close>

definition wrap :: "string \<Rightarrow> svc_error \<Rightarrow> string \<Rightarrow> svc_error" where
  "wrap pre err post = err\<lparr>sx_text := pre @ sx_text err @ post\<rparr>"

definition errorCodeFor :: "svc_error option \<Rightarrow> string" where
  "errorCodeFor err = (case err of None \<Rightarrow> [] | Some x \<Rightarrow>
     let is = (\<lambda>k. k \<in> set (sx_is x)) in
     if is SvcNotFound then ''not_found''
     else if is SvcUnauthorized then ''unauthorized''
     else if is SvcForbidden then ''forbidden''
     else if is SvcConflict then ''conflict''
     else if is SvcInvalidPlanHash then ''invalid_plan_hash''
     else if is SvcVenueNotFound then ''venue_not_found''
     else if is SvcVenueAmbiguous then ''venue_ambiguous''
     else if is SvcUpstreamUnavailable then ''upstream_unavailable''
     else if is SvcInvalidArgument then ''invalid_argument''
     else if is SvcTokenExpired then ''token_expired''
     else if is SvcTokenRevoked then ''token_revoked''
     else if is SvcInviteExpired then ''invite_expired''
     else if is SvcInviteConsumed then ''invite_consumed''
     else if is SvcIdempotencyConflict then ''idempotency_conflict''
     else if is SvcNotImplemented then ''not_implemented''
     else ''internal'')"

text \<open>\<^verbatim>\<open>strings.Contains\<close>, and the sentinel a persisted error text is replayed as.\<close>

definition contains :: "string \<Rightarrow> string \<Rightarrow> bool" where
  "contains s t \<longleftrightarrow> find_sub t s \<noteq> None"

definition replayServiceErr :: "string \<Rightarrow> svc_error" where
  "replayServiceErr p =
     (case find (\<lambda>x. contains p (sentinel_text x))
        [SvcInvalidPlanHash, SvcNotFound, SvcInvalidArgument, SvcVenueNotFound, SvcVenueAmbiguous, SvcUpstreamUnavailable] of
        Some x \<Rightarrow> wrap [] (plain x) ('' (replay: '' @ p @ '')'')
      | None \<Rightarrow> \<lparr>sx_is = [], sx_text = ''service: idempotent replay: '' @ p, sx_ctx = False, sx_prov = None\<rparr>)"

section \<open>The service and its seams\<close>

record service =
  sv_env :: env
  sv_resolver :: resolver
  sv_has_provider :: bool
  sv_persist_events :: bool
  sv_auth :: "(nat \<Rightarrow> string \<Rightarrow> string \<Rightarrow> svc_error + string) option"
  sv_rand :: "nat \<Rightarrow> nat \<Rightarrow> string option"
  sv_blake2b :: "string \<Rightarrow> string"
  sv_text :: "cause \<Rightarrow> string"
  sv_uni_quote :: "string \<Rightarrow> string"

text \<open>The verb \<^verbatim>\<open>%q\<close>: escapes on ASCII texts, the Unicode tables elsewhere.\<close>

definition quote_esc :: "(char \<times> char) list" where
  "quote_esc = [(CHR 0x07, CHR ''a''), (CHR 0x08, CHR ''b''), (CHR 0x0C, CHR ''f''), (CHR 0x0A, CHR ''n''),
     (CHR 0x0D, CHR ''r''), (CHR 0x09, CHR ''t''), (CHR 0x0B, CHR ''v''), (CHR 0x5C, CHR 0x5C), (CHR 0x22, CHR 0x22)]"

definition quote_char :: "char \<Rightarrow> string" where
  "quote_char c = (case map_of quote_esc c of Some d \<Rightarrow> [CHR 0x5C, d]
     | None \<Rightarrow> if byte c < 32 \<or> byte c = 127 then [CHR 0x5C, CHR ''x'', hex_char (byte c div 16), hex_char (byte c mod 16)]
         else [c])"

definition Quote :: "(string \<Rightarrow> string) \<Rightarrow> string \<Rightarrow> string" where
  "Quote uni s = (if ascii s then CHR 0x22 # concat (map quote_char s) @ [CHR 0x22] else uni s)"

definition hex_encode :: "string \<Rightarrow> string" where
  "hex_encode bs = concat (map (\<lambda>c. [hex_char (byte c div 16), hex_char (byte c mod 16)]) bs)"

text \<open>Reading \<open>n\<close> bytes from the random source.\<close>

definition read_rand :: "service \<Rightarrow> nat \<Rightarrow> sys \<Rightarrow> string option \<times> sys" where
  "read_rand c n s = (sv_rand c (w_tick (sy_w s)) n, s\<lparr>sy_w := (sy_w s)\<lparr>w_tick := Suc (w_tick (sy_w s))\<rparr>\<rparr>)"

text \<open>The adapter's errors: a store miss becomes the service's own sentinel where the adapter
  translates it, and any other error passes with its text.\<close>

definition raw_error :: "service \<Rightarrow> store_error \<Rightarrow> svc_error" where
  "raw_error c e = \<lparr>sx_is = [], sx_text = sv_text c (CStore e), sx_ctx = (e = ErrCanceled), sx_prov = None\<rparr>"

definition fold_error :: "service \<Rightarrow> store_error \<Rightarrow> svc_error" where
  "fold_error c e = (if e = ErrNotFound then plain SvcNotFound else raw_error c e)"

definition now_of :: "sys \<Rightarrow> instant" where
  "now_of s = w_now (sy_w s)"

definition audit :: "service \<Rightarrow> user_id \<Rightarrow> string \<Rightarrow> string \<Rightarrow> svc_error option \<Rightarrow> sys \<Rightarrow> sys" where
  "audit c u action target err s =
     snd (q_exec (sv_env c) (\<lambda>io d. store_WriteAuditEvent io d (now_of s)
       \<lparr>ai_user = u, ai_target_user = None, ai_action = action, ai_target = target, ai_ok = (err = None),
        ai_error_code = errorCodeFor err, ai_ip = [], ai_agent = [], ai_details = []\<rparr>) s)"

definition writeQuestEvent :: "service \<Rightarrow> user_id \<Rightarrow> string \<Rightarrow> event \<Rightarrow> sys \<Rightarrow> sys" where
  "writeQuestEvent c u k ev s =
     (if sv_persist_events c then snd (q_exec (sv_env c) (\<lambda>io d. store_WriteQuestEvent io d u k ev) s) else s)"

section \<open>Resolving and planning\<close>

definition resolver_cause :: "resolver_error \<Rightarrow> sentinel option" where
  "resolver_cause err = (case err of RErrProvider pe \<Rightarrow> pe_is pe | _ \<Rightarrow> None)"

definition mapResolverError :: "service \<Rightarrow> resolver_error \<Rightarrow> svc_error" where
  "mapResolverError c err =
     (let k = (case err of RErrVenueNotFound _ \<Rightarrow> SvcVenueNotFound | RErrVenueAmbiguous _ _ \<Rightarrow> SvcVenueAmbiguous
         | RErrInvalidURL _ \<Rightarrow> SvcInvalidArgument | RErrNotResyHost _ \<Rightarrow> SvcInvalidArgument
         | RErrNotVenueURL _ \<Rightarrow> SvcInvalidArgument | RErrProvider _ \<Rightarrow> SvcUpstreamUnavailable)
      in (wrap [] (plain k) ('': '' @ sv_text c (CResolver err)))
           \<lparr>sx_prov := resolver_cause err, sx_ctx := (resolver_cause err = Some ErrContextCanceled)\<rparr>)"

definition queryAuditTarget :: "venue_query option \<Rightarrow> string" where
  "queryAuditTarget q = (case q of None \<Rightarrow> [] | Some v \<Rightarrow> venue_query_string v)"

definition required :: "string \<Rightarrow> string \<Rightarrow> svc_error" where
  "required pre what = wrap (pre @ '': '') (plain SvcInvalidArgument) ('': '' @ what)"

definition ResolveVenue :: "service \<Rightarrow> user_id \<Rightarrow> venue_query option \<Rightarrow> sys \<Rightarrow> (svc_error + venue) \<times> sys" where
  "ResolveVenue c u query s =
     (if u = [] then (Inl (required ''ResolveVenue'' ''userID is required''), s)
      else case Resolve (sv_env c) (sv_resolver c) query s of
        (Inl err, s1) \<Rightarrow> let m = mapResolverError c err in
          (Inl m, audit c u ''venue.resolve'' (queryAuditTarget query) (Some m) s1)
      | (Inr v, s1) \<Rightarrow> (Inr v, audit c u ''venue.resolve'' (venue_ref_string (AsRef v)) None s1))"

definition no_calendar :: calendar where
  "no_calendar = \<lparr>cal_venue = \<lparr>vr_provider = [], vr_ref = []\<rparr>, cal_days = []\<rparr>"

definition calendar_snapshot :: "service \<Rightarrow> goal \<Rightarrow> venue \<Rightarrow> sys \<Rightarrow> calendar \<times> sys" where
  "calendar_snapshot c g v s =
     (if sv_has_provider c then
        (case call_provider (sv_env c) (\<lambda>n. e_calendar (sv_env c) n (AsRef v)
            \<lparr>dr_start = gl_date g, dr_end = gl_date g, dr_party_size = gl_party g\<rparr>) s of
           (Inl _, s1) \<Rightarrow> (no_calendar, s1) | (Inr cal, s1) \<Rightarrow> (cal, s1))
      else (no_calendar, s))"

definition PlanQuest :: "service \<Rightarrow> user_id \<Rightarrow> goal \<Rightarrow> sys \<Rightarrow> (svc_error + plan) \<times> sys" where
  "PlanQuest c u g s =
     (if u = [] then (Inl (required ''PlanQuest'' ''userID is required''), s)
      else let now = now_of s in
      case goal_Validate (rv_uni (sv_resolver c)) g now of
        Some ge \<Rightarrow> let err = wrap ''PlanQuest: '' (plain SvcInvalidArgument) ('': '' @ sv_text c (CGoal ge)) in
          (Inl err, audit c u ''quest.plan'' [] (Some err) s)
      | None \<Rightarrow>
      case Resolve (sv_env c) (sv_resolver c) (gl_venue_query g) s of
        (Inl re, s1) \<Rightarrow> let err = mapResolverError c re in (Inl err, audit c u ''quest.plan'' [] (Some err) s1)
      | (Inr v, s1) \<Rightarrow>
      case calendar_snapshot c g v s1 of (cal, s2) \<Rightarrow>
      case BuildPlan (e_sha (sv_env c)) \<lparr>pi_goal = g, pi_venue = v, pi_now = now, pi_calendar = cal, pi_observed = None,
          pi_config = None, pi_until = 0\<rparr> of
        Inl pe \<Rightarrow> let err = \<lparr>sx_is = [], sx_text = ''PlanQuest: '' @ sv_text c (CPlanner pe), sx_ctx = False, sx_prov = None\<rparr> in
          (Inl err, audit c u ''quest.plan'' [] (Some err) s2)
      | Inr p \<Rightarrow> (Inr p, audit c u ''quest.plan'' (pl_hash p) None s2))"

section \<open>Idempotency\<close>

definition idempotencyTTL :: duration where
  "idempotencyTTL = 24 * 3600 * second"

definition scopeCreateQuest :: string where "scopeCreateQuest = ''create_quest''"
definition scopeCancelQuest :: string where "scopeCancelQuest = ''cancel_quest''"

definition payloadHashFor :: "service \<Rightarrow> string \<Rightarrow> string" where
  "payloadHashFor c s = e_sha (sv_env c) s"

definition opted_in :: "string option \<Rightarrow> bool" where
  "opted_in key \<longleftrightarrow> (case key of None \<Rightarrow> False | Some k \<Rightarrow> k \<noteq> [])"

definition recordIdempotency :: "service \<Rightarrow> user_id \<Rightarrow> string \<Rightarrow> string option \<Rightarrow> string \<Rightarrow> string \<Rightarrow> svc_error option \<Rightarrow> instant
    \<Rightarrow> sys \<Rightarrow> sys" where
  "recordIdempotency c u scope key payload target err now s =
     (if opted_in key then snd (q_exec (sv_env c) (\<lambda>io d. store_PutIdempotencyResult (e_sha (sv_env c)) io d u scope (the key)
        payload target (map_option sx_text err) idempotencyTTL now) s) else s)"

text \<open>The check both verbs start with: nothing for a caller who gave no key; otherwise the lookup,
  if it found a row that has not expired.\<close>

definition prior_outcome :: "service \<Rightarrow> user_id \<Rightarrow> string \<Rightarrow> string option \<Rightarrow> string \<Rightarrow> instant \<Rightarrow> sys
    \<Rightarrow> (store_error + IdempotencyLookup option) \<times> sys" where
  "prior_outcome c u scope key payload now s =
     (if opted_in key then
        (case q_read (sv_env c) (\<lambda>io d. store_GetIdempotencyResult (e_sha (sv_env c)) io u scope (the key) payload now) s of
           (Inl e, s1) \<Rightarrow> (Inl e, s1)
         | (Inr l, s1) \<Rightarrow> (Inr (if il_found l \<and> \<not> il_expired l then Some l else None), s1))
      else (Inr None, s))"

end
