(* ===== verification/ServiceQuests.thy ===== *)
theory ServiceQuests
  imports Service
begin

text \<open>
  The quest verbs of the service layer (\<^verbatim>\<open>service/standard_quest.go\<close>): creating a quest from a goal
  and handing its intent to the engine, reading and listing quests, and canceling one.
\<close>

record CreateOpts =
  co_plan_hash :: "string option"
  co_key :: "string option"

record CancelOpts =
  cn_reason :: string
  cn_key :: "string option"

record QuestSummary =
  qs_id :: string
  qs_user :: user_id
  qs_account :: account_id
  qs_status :: status
  qs_created_at :: instant
  qs_updated_at :: instant
  qs_completed_at :: "instant option"
  qs_plan_hash :: string

definition summaryFromRow :: "QuestRow \<Rightarrow> QuestSummary" where
  "summaryFromRow r = \<lparr>qs_id = qr_id r, qs_user = qr_user r, qs_account = qr_account r, qs_status = qr_status r,
     qs_created_at = qr_created_at r, qs_updated_at = qr_updated_at r, qs_completed_at = qr_completed_at r,
     qs_plan_hash = qr_plan_hash r\<rparr>"

record QuestState =
  qx_summary :: QuestSummary
  qx_goal :: goal
  qx_plan :: "plan option"
  qx_events :: "event list"

definition defaultEventLimit :: int where
  "defaultEventLimit = 50"

section \<open>Creating a quest\<close>

definition newQuestID :: "service \<Rightarrow> sys \<Rightarrow> string option \<times> sys" where
  "newQuestID c s = (case read_rand c 4 s of (r, s1) \<Rightarrow> (map_option (\<lambda>b. ''q_'' @ hex_encode b) r, s1))"

definition intentFromPlan :: "user_id \<Rightarrow> plan \<Rightarrow> goal \<Rightarrow> intent" where
  "intentFromPlan u p g = \<lparr>i_user = u, i_venue = AsRef (pl_venue p), i_date = gl_date g, i_party_size = gl_party g,
     i_slot_prefs = [\<lparr>sp_time = tw_start (gl_time_prefs g),
       sp_table_type = (if \<not> ct_any_table (gl_constraints g) \<and> ct_table_types (gl_constraints g) \<noteq> []
         then hd (ct_table_types (gl_constraints g)) else [])\<rparr>],
     i_release = pl_strategy p\<rparr>"

definition findAccountByID :: "service \<Rightarrow> user_id \<Rightarrow> account_id \<Rightarrow> sys \<Rightarrow> (svc_error + AccountRow) \<times> sys" where
  "findAccountByID c u a s =
     (case q_read (sv_env c) (\<lambda>io d q. store_ListAccountsForUser io u d) s of
        (Inl e, s1) \<Rightarrow> (Inl (raw_error c e), s1)
      | (Inr rows, s1) \<Rightarrow> (case find (\<lambda>r. ar_id r = a) rows of
          Some r \<Rightarrow> Inr r | None \<Rightarrow> Inl (plain SvcNotFound), s1))"

text \<open>The account of a goal, by address or by id; a failed listing counts as not found.\<close>

definition goal_account :: "service \<Rightarrow> user_id \<Rightarrow> goal \<Rightarrow> sys \<Rightarrow> (svc_error + AccountRow) \<times> sys" where
  "goal_account c u g s =
     (case q_read (sv_env c) (\<lambda>io d q. store_GetAccountByEmail io u (gl_account g) d) s of
        (Inr r, s1) \<Rightarrow> (Inr r, s1)
      | (Inl e, s1) \<Rightarrow>
          if e = ErrNotFound then
            (case findAccountByID c u (gl_account g) s1 of
               (Inr r, s2) \<Rightarrow> (Inr r, s2)
             | (Inl _, s2) \<Rightarrow> (Inl (wrap (''CreateQuest account '' @ gl_account g @ '': '') (plain SvcNotFound) []), s2))
          else (Inl (wrap ''CreateQuest: '' (raw_error c e) []), s1))"

definition hash_mismatch :: "service \<Rightarrow> string \<Rightarrow> string \<Rightarrow> svc_error" where
  "hash_mismatch c caller own = wrap ''CreateQuest: '' (plain SvcInvalidPlanHash)
     ('' (caller='' @ Quote (sv_uni_quote c) caller @ '' service='' @ Quote (sv_uni_quote c) own @ '')'')"

definition quest_row_for :: "user_id \<Rightarrow> goal \<Rightarrow> plan \<Rightarrow> account_id \<Rightarrow> instant \<Rightarrow> string \<Rightarrow> QuestRow" where
  "quest_row_for u g p a now k = \<lparr>qr_id = k, qr_user = u, qr_account = a, qr_goal_json = marshaled (marshalGoalJSON g),
     qr_plan_hash = pl_hash p, qr_status = StatusSubmitted, qr_created_at = now, qr_updated_at = now,
     qr_completed_at = None\<rparr>"

text \<open>The steps after the account is known: mint an id, persist the row, hand the intent to the
  engine, persist the first event.\<close>

definition commit_quest :: "service \<Rightarrow> user_id \<Rightarrow> goal \<Rightarrow> plan \<Rightarrow> account_id \<Rightarrow> instant \<Rightarrow> sys
    \<Rightarrow> (string \<times> svc_error option) \<times> sys" where
  "commit_quest c u g p a now s =
     (case newQuestID c s of
        (None, s1) \<Rightarrow> (([], Some \<lparr>sx_is = [], sx_text = ''CreateQuest: '' @ sv_text c CRand, sx_ctx = False, sx_prov = None\<rparr>), s1)
      | (Some k, s1) \<Rightarrow>
        (case q_exec (sv_env c) (\<lambda>io d. store_CreateQuest io d (quest_row_for u g p a now k)) s1 of
           (Some e, s2) \<Rightarrow> (([], Some (wrap ''CreateQuest persist: '' (raw_error c e) [])), s2)
         | (None, s2) \<Rightarrow>
           (case Submit (sv_env c) k (intentFromPlan u p g) (sy_w s2) of
              (Inl ee, w) \<Rightarrow> ((k, Some \<lparr>sx_is = [], sx_text = ''CreateQuest engine submit: '' @ sv_text c (CEngine ee), sx_ctx = (ee = EStore ErrCanceled), sx_prov = None\<rparr>),
                s2\<lparr>sy_w := w\<rparr>)
            | (Inr _, w) \<Rightarrow> ((k, None),
                writeQuestEvent c u k \<lparr>ev_type = EventSubmitted, ev_at = now, ev_attrs = []\<rparr> (s2\<lparr>sy_w := w\<rparr>)))))"

text \<open>A fresh execution; each of its exits records its outcome under the caller's key.\<close>

definition create_fresh :: "service \<Rightarrow> user_id \<Rightarrow> goal \<Rightarrow> CreateOpts \<Rightarrow> instant \<Rightarrow> sys \<Rightarrow> (string \<times> svc_error option) \<times> sys" where
  "create_fresh c u g opts now s =
     (case PlanQuest c u g s of
        (Inl err, s1) \<Rightarrow> (([], Some err), s1)
      | (Inr p, s1) \<Rightarrow>
        if co_plan_hash opts \<noteq> None \<and> the (co_plan_hash opts) \<noteq> pl_hash p
        then (([], Some (hash_mismatch c (the (co_plan_hash opts)) (pl_hash p))), s1)
        else (case goal_account c u g s1 of
            (Inl err, s2) \<Rightarrow> (([], Some err), s2)
          | (Inr a, s2) \<Rightarrow> commit_quest c u g p (ar_id a) now s2))"

definition goal_payload :: "service \<Rightarrow> goal \<Rightarrow> string" where
  "goal_payload c g = payloadHashFor c (json_text (marshalGoalJSON g))"

definition create_body :: "service \<Rightarrow> user_id \<Rightarrow> goal \<Rightarrow> CreateOpts \<Rightarrow> sys \<Rightarrow> (string \<times> svc_error option) \<times> sys" where
  "create_body c u g opts s =
     (let now = now_of s; payload = goal_payload c g in
      case prior_outcome c u scopeCreateQuest (co_key opts) payload now s of
        (Inl e, s1) \<Rightarrow> (([], Some (wrap ''CreateQuest idempotency lookup: '' (raw_error c e) [])), s1)
      | (Inr (Some l), s1) \<Rightarrow>
          (if \<not> il_match l then ([], Some (wrap ''CreateQuest: '' (plain SvcIdempotencyConflict)
              ('': idempotency key '' @ Quote (sv_uni_quote c) (the (co_key opts)) @ '' previously used with a different goal'')))
           else if il_err l \<noteq> [] then (il_target l, Some (replayServiceErr (il_err l)))
           else (il_target l, None), s1)
      | (Inr None, s1) \<Rightarrow>
          (case create_fresh c u g opts now s1 of ((k, err), s2) \<Rightarrow>
             ((k, err), recordIdempotency c u scopeCreateQuest (co_key opts) payload k err now s2)))"

definition CreateQuest :: "service \<Rightarrow> user_id \<Rightarrow> goal \<Rightarrow> CreateOpts \<Rightarrow> sys \<Rightarrow> (string \<times> svc_error option) \<times> sys" where
  "CreateQuest c u g opts s =
     (if u = [] then (([], Some (required ''CreateQuest'' ''userID is required'')), s)
      else case create_body c u g opts s of ((k, err), s1) \<Rightarrow> ((k, err), audit c u ''quest.create'' k err s1))"

section \<open>Reading quests\<close>

definition get_body :: "service \<Rightarrow> user_id \<Rightarrow> string \<Rightarrow> sys \<Rightarrow> (svc_error + QuestState) \<times> sys" where
  "get_body c u k s =
     (case q_read (sv_env c) (\<lambda>io d. store_GetQuest io u k) s of
        (Inl e, s1) \<Rightarrow> (Inl (fold_error c e), s1)
      | (Inr row, s1) \<Rightarrow>
        (case unmarshalGoalJSON (qr_goal_json row) of
           Inl t \<Rightarrow> (Inl \<lparr>sx_is = [], sx_text = ''GetQuest decode goal: '' @ sv_text c (CGoalJSON t), sx_ctx = False, sx_prov = None\<rparr>, s1)
         | Inr g \<Rightarrow>
           (case q_read (sv_env c) (\<lambda>io d. store_ListQuestEvents io u k defaultEventLimit) s1 of
              (Inl e, s2) \<Rightarrow> (Inl (wrap ''GetQuest events: '' (raw_error c e) []), s2)
            | (Inr evs, s2) \<Rightarrow>
              (case PlanQuest c u g s2 of (r, s3) \<Rightarrow>
                (Inr \<lparr>qx_summary = summaryFromRow row, qx_goal = g,
                   qx_plan = (case r of Inl _ \<Rightarrow> None | Inr p \<Rightarrow> Some p), qx_events = evs\<rparr>, s3)))))"

definition GetQuest :: "service \<Rightarrow> user_id \<Rightarrow> string \<Rightarrow> sys \<Rightarrow> (svc_error + QuestState) \<times> sys" where
  "GetQuest c u k s =
     (if u = [] then (Inl (required ''GetQuest'' ''userID is required''), s)
      else case get_body c u k s of (r, s1) \<Rightarrow>
        (r, audit c u ''quest.get'' k (case r of Inl err \<Rightarrow> Some err | Inr _ \<Rightarrow> None) s1))"

definition ListQuests :: "service \<Rightarrow> user_id \<Rightarrow> QuestListFilter \<Rightarrow> sys \<Rightarrow> (svc_error + QuestSummary list) \<times> sys" where
  "ListQuests c u f s =
     (if u = [] then (Inl (required ''ListQuests'' ''userID is required''), s)
      else case q_read (sv_env c) (\<lambda>io d. store_ListQuests io u f) s of
        (Inl e, s1) \<Rightarrow> let err = wrap ''ListQuests: '' (raw_error c e) [] in (Inl err, audit c u ''quest.list'' [] (Some err) s1)
      | (Inr rows, s1) \<Rightarrow> (Inr (map summaryFromRow rows), audit c u ''quest.list'' [] None s1))"

section \<open>Canceling a quest\<close>

definition cancel_fresh :: "service \<Rightarrow> user_id \<Rightarrow> string \<Rightarrow> string \<Rightarrow> instant \<Rightarrow> sys \<Rightarrow> svc_error option \<times> sys" where
  "cancel_fresh c u k reason now s =
     (case q_read (sv_env c) (\<lambda>io d. store_GetQuest io u k) s of
        (Inl e, s1) \<Rightarrow> (Some (fold_error c e), s1)
      | (Inr row, s1) \<Rightarrow>
          if IsTerminal (qr_status row) then (None, s1)
          else (case q_exec (sv_env c) (\<lambda>io d. store_UpdateQuestStatus io u k StatusCanceled (Some now) now) s1 of
            (Some e, s2) \<Rightarrow> (Some (wrap ''CancelQuest: '' (fold_error c e) []), s2)
          | (None, s2) \<Rightarrow> (None, writeQuestEvent c u k
              \<lparr>ev_type = EventCanceled, ev_at = now, ev_attrs = [(''reason'', AString reason)]\<rparr> s2)))"

definition cancel_body :: "service \<Rightarrow> user_id \<Rightarrow> string \<Rightarrow> CancelOpts \<Rightarrow> sys \<Rightarrow> svc_error option \<times> sys" where
  "cancel_body c u k opts s =
     (let now = now_of s; payload = payloadHashFor c k in
      case prior_outcome c u scopeCancelQuest (cn_key opts) payload now s of
        (Inl e, s1) \<Rightarrow> (Some (wrap ''CancelQuest idempotency lookup: '' (raw_error c e) []), s1)
      | (Inr (Some l), s1) \<Rightarrow>
          (if \<not> il_match l then Some (wrap ''CancelQuest: '' (plain SvcIdempotencyConflict)
              ('': idempotency key '' @ Quote (sv_uni_quote c) (the (cn_key opts)) @ '' previously used to cancel '' @
               Quote (sv_uni_quote c) (il_target l)))
           else if il_err l \<noteq> [] then Some (replayServiceErr (il_err l)) else None, s1)
      | (Inr None, s1) \<Rightarrow>
          (case cancel_fresh c u k (cn_reason opts) now s1 of (err, s2) \<Rightarrow>
             (err, recordIdempotency c u scopeCancelQuest (cn_key opts) payload k err now s2)))"

definition CancelQuest :: "service \<Rightarrow> user_id \<Rightarrow> string \<Rightarrow> CancelOpts \<Rightarrow> sys \<Rightarrow> svc_error option \<times> sys" where
  "CancelQuest c u k opts s =
     (if u = [] then (Some (required ''CancelQuest'' ''userID is required''), s)
      else case cancel_body c u k opts s of (err, s1) \<Rightarrow> (err, audit c u ''quest.cancel'' k err s1))"

end
