(* ===== verification/ServiceAuth.thy ===== *)
theory ServiceAuth
  imports Service
begin

text \<open>
  The account and token verbs of the service layer (\<^verbatim>\<open>service/standard_auth.go\<close>) with the operator
  scope they require (\<^verbatim>\<open>service/ctxauth.go\<close>). The scope the transport stamped on the context is an
  argument; the empty text when it stamped none.
\<close>

section \<open>Accounts\<close>

definition bind_account :: "service \<Rightarrow> user_id \<Rightarrow> string \<Rightarrow> sys \<Rightarrow> (store_error + account_id) \<times> sys" where
  "bind_account c u email s =
     (case store_BindLegacyAccountToUser (store_io (sv_env c) (sy_w s)) u email (sy_q s) (w_db (sy_w s)) of
        (r, d) \<Rightarrow> (r, s\<lparr>sy_w := after_store (sv_env c) d (sy_w s)\<rparr>))"

definition login_body :: "service \<Rightarrow> user_id \<Rightarrow> string \<Rightarrow> string \<Rightarrow> sys \<Rightarrow> (svc_error + account_id) \<times> sys" where
  "login_body c u email password s =
     (if email = [] \<or> password = [] then (Inl (required ''Login'' ''email and password are required''), s)
      else case sv_auth c of None \<Rightarrow> (Inl (plain SvcNotImplemented), s)
      | Some up \<Rightarrow>
        (case call_provider (sv_env c) (\<lambda>n. up n email password) s of
           (Inl err, s1) \<Rightarrow> (Inl (wrap ''Login: '' err []), s1)
         | (Inr resolved, s1) \<Rightarrow>
           (case bind_account c u resolved s1 of
              (Inr a, s2) \<Rightarrow> (Inr a, s2)
            | (Inl e, s2) \<Rightarrow> (Inl (if e = ErrNotFound
                then wrap ''Login: '' (plain SvcUpstreamUnavailable) '' (no account row materialized after auth)''
                else wrap ''Login bind account: '' (raw_error c e) []), s2))))"

definition Login :: "service \<Rightarrow> user_id \<Rightarrow> string \<Rightarrow> string \<Rightarrow> sys \<Rightarrow> (svc_error + account_id) \<times> sys" where
  "Login c u email password s =
     (if u = [] then (Inl (required ''Login'' ''userID is required''), s)
      else case login_body c u email password s of
        (Inl err, s1) \<Rightarrow> (Inl err, audit c u ''account.login'' email (Some err) s1)
      | (Inr a, s1) \<Rightarrow> (Inr a, audit c u ''account.login'' (if a = [] then email else a) None s1))"

definition ListAccounts :: "service \<Rightarrow> user_id \<Rightarrow> sys \<Rightarrow> (svc_error + AccountRow list) \<times> sys" where
  "ListAccounts c u s =
     (if u = [] then (Inl (required ''ListAccounts'' ''userID is required''), s)
      else case q_read (sv_env c) (\<lambda>io d q. store_ListAccountsForUser io u d) s of
        (Inl e, s1) \<Rightarrow> let err = wrap ''ListAccounts: '' (raw_error c e) [] in (Inl err, audit c u ''account.list'' [] (Some err) s1)
      | (Inr rows, s1) \<Rightarrow> (Inr rows, audit c u ''account.list'' [] None s1))"

definition InviteUser :: "service \<Rightarrow> user_id \<Rightarrow> string \<Rightarrow> sys \<Rightarrow> svc_error \<times> sys" where
  "InviteUser c u email s = (plain SvcNotImplemented, audit c u ''user.invite'' email (Some (plain SvcNotImplemented)) s)"

definition service_ListUsers :: "service \<Rightarrow> user_id \<Rightarrow> sys \<Rightarrow> svc_error \<times> sys" where
  "service_ListUsers c u s = (plain SvcNotImplemented, audit c u ''user.list'' [] (Some (plain SvcNotImplemented)) s)"

section \<open>Tokens\<close>

definition RequireOperatorScope :: "string \<Rightarrow> svc_error option" where
  "RequireOperatorScope scope = (if scope = ''operator'' then None
     else Some (wrap [] (plain SvcForbidden) '': operator scope required''))"

text \<open>Base 32 without padding: the bits of the bytes, high bit first, in groups of five, the last
  one filled with zeros.\<close>

definition byte_bits :: "char \<Rightarrow> bool list" where
  "byte_bits c = map (\<lambda>i. odd (byte c div 2 ^ i)) [7, 6, 5, 4, 3, 2, 1, 0]"

definition base32_digit :: "bool list \<Rightarrow> char" where
  "base32_digit bs = (''ABCDEFGHIJKLMNOPQRSTUVWXYZ234567'' ! foldl (\<lambda>n b. 2 * n + (if b then 1 else 0)) 0 bs)"

function base32_bits :: "bool list \<Rightarrow> string" where
  "base32_bits bs = (if bs = [] then [] else
     base32_digit (take 5 (bs @ [False, False, False, False])) # base32_bits (drop 5 bs))"
  by auto
termination by (relation "measure length") auto

declare base32_bits.simps [simp del]

definition base32 :: "string \<Rightarrow> string" where
  "base32 s = base32_bits (concat (map byte_bits s))"

definition tokenPlaintextBytes :: nat where "tokenPlaintextBytes = 32"
definition tokenIDBytes :: nat where "tokenIDBytes = 8"

record BearerToken =
  bt_id :: string
  bt_token :: string
  bt_label :: string
  bt_scope :: string
  bt_created_at :: instant

definition mint_token :: "service \<Rightarrow> user_id \<Rightarrow> string \<Rightarrow> string \<Rightarrow> sys \<Rightarrow> (svc_error + BearerToken) \<times> sys" where
  "mint_token c u label scope s =
     (let rand_err = \<lparr>sx_is = [], sx_text = ''IssueToken: '' @ sv_text c CRand, sx_ctx = False, sx_prov = None\<rparr> in
      case read_rand c tokenPlaintextBytes s of (None, s1) \<Rightarrow> (Inl rand_err, s1)
      | (Some raw, s1) \<Rightarrow>
        (case read_rand c tokenIDBytes s1 of (None, s2) \<Rightarrow> (Inl rand_err, s2)
         | (Some idBuf, s2) \<Rightarrow>
           let plaintext = ''tok_'' @ base32 raw; tid = ''tok_'' @ hex_encode idBuf; now = now_of s2 in
           (case q_exec (sv_env c) (\<lambda>io d. store_InsertToken io d \<lparr>tr_id = tid, tr_user = u, tr_hash = sv_blake2b c plaintext,
               tr_scopes = scope, tr_label = label, tr_created_at = now, tr_last_seen = None, tr_revoked_at = None\<rparr>) s2 of
              (Some e, s3) \<Rightarrow> (Inl (wrap ''IssueToken: '' (raw_error c e) []), s3)
            | (None, s3) \<Rightarrow> (Inr \<lparr>bt_id = tid, bt_token = plaintext, bt_label = label, bt_scope = scope, bt_created_at = now\<rparr>, s3))))"

definition IssueToken :: "service \<Rightarrow> string \<Rightarrow> user_id \<Rightarrow> string \<Rightarrow> string \<Rightarrow> sys \<Rightarrow> (svc_error + BearerToken) \<times> sys" where
  "IssueToken c caller u label scope s =
     (case (case RequireOperatorScope caller of
          Some e \<Rightarrow> (Inl (wrap ''IssueToken: '' e []), s)
        | None \<Rightarrow>
          if u = [] then (Inl (required ''IssueToken'' ''userID is required''), s)
          else if label = [] then (Inl (required ''IssueToken'' ''label is required''), s)
          else if \<not> valid_scope scope
          then (Inl (required ''IssueToken'' (''scope must be user or operator, got '' @ Quote (sv_uni_quote c) scope)), s)
          else mint_token c u label scope s) of
        (Inl err, s1) \<Rightarrow> (Inl err, audit c u ''token.issue'' label (Some err) s1)
      | (Inr t, s1) \<Rightarrow> (Inr t, audit c u ''token.issue'' (bt_id t) None s1))"

definition RevokeToken :: "service \<Rightarrow> string \<Rightarrow> user_id \<Rightarrow> string \<Rightarrow> sys \<Rightarrow> svc_error option \<times> sys" where
  "RevokeToken c caller u k s =
     (case (case RequireOperatorScope caller of
          Some e \<Rightarrow> (Some (wrap ''RevokeToken: '' e []), s)
        | None \<Rightarrow>
          if u = [] then (Some (required ''RevokeToken'' ''userID is required''), s)
          else if k = [] then (Some (required ''RevokeToken'' ''tokenID is required''), s)
          else (case q_exec (sv_env c) (\<lambda>io d. store_RevokeToken io u k (now_of s)) s of
              (None, s1) \<Rightarrow> (None, s1)
            | (Some e, s1) \<Rightarrow> (Some (if e = ErrNotFound then plain SvcNotFound else wrap ''RevokeToken: '' (raw_error c e) []), s1))) of
        (err, s1) \<Rightarrow> (err, audit c u ''token.revoke'' k err s1))"

definition ListTokens :: "service \<Rightarrow> string \<Rightarrow> user_id \<Rightarrow> sys \<Rightarrow> (svc_error + TokenRow list) \<times> sys" where
  "ListTokens c caller u s =
     (case (case RequireOperatorScope caller of
          Some e \<Rightarrow> (Inl (wrap ''ListTokens: '' e []), s)
        | None \<Rightarrow>
          if u = [] then (Inl (required ''ListTokens'' ''userID is required''), s)
          else (case q_read (sv_env c) (\<lambda>io d. store_ListTokensForUser io u) s of
              (Inl e, s1) \<Rightarrow> (Inl (wrap ''ListTokens: '' (raw_error c e) []), s1)
            | (Inr rows, s1) \<Rightarrow> (Inr (map (\<lambda>r. r\<lparr>tr_hash := []\<rparr>) rows), s1))) of
        (r, s1) \<Rightarrow> (r, audit c u ''token.list'' [] (case r of Inl err \<Rightarrow> Some err | Inr _ \<Rightarrow> None) s1))"

end
