(* ===== verification/QuestFacts.thy ===== *)
theory QuestFacts
  imports ServiceQuests ServiceAuth
begin

text \<open>
  The well-formedness of the multi-tenant tables and the contract every store operation of a tenant
  satisfies: it keeps the tables well-formed and the rows of every other tenant as they are. The
  service verbs are compositions of such operations.
\<close>

section \<open>Well-formed tables and the rows of a tenant\<close>

definition idem_row_ok :: "(string \<Rightarrow> string) \<Rightarrow> idem_row \<Rightarrow> bool" where
  "idem_row_ok sha r \<longleftrightarrow> (\<exists>key payload. ik_key_hash r = HashIdempotencyKey sha (ik_user r) (ik_scope r) key payload \<and>
     ik_plain_hash r = HashIdempotencyPlain sha (ik_user r) (ik_scope r) key)"

definition qdb_ok :: "(string \<Rightarrow> string) \<Rightarrow> qdb \<Rightarrow> bool" where
  "qdb_ok sha q \<longleftrightarrow>
     distinct (map qu_id (q_quests q)) \<and>
     (\<forall>r \<in> set (q_quests q). \<exists>st. qu_status r = statusDBString st) \<and>
     (\<forall>e \<in> set (q_events q). \<exists>r \<in> set (q_quests q). owned_quest (qe_user e) (qe_quest e) r) \<and>
     distinct (map ik_key_hash (q_idem q)) \<and> (\<forall>r \<in> set (q_idem q). idem_row_ok sha r) \<and>
     distinct (map tk_id (q_tokens q)) \<and> distinct (map tk_hash (q_tokens q))"

type_synonym tenant_rows = "quest_row list \<times> quest_event_row list \<times> idem_row list \<times> token_row list \<times> audit_row list"

definition rows_of :: "user_id \<Rightarrow> qdb \<Rightarrow> tenant_rows" where
  "rows_of v q = (filter (\<lambda>r. qu_user r = v) (q_quests q), filter (\<lambda>r. qe_user r = v) (q_events q),
     filter (\<lambda>r. ik_user r = v) (q_idem q), filter (\<lambda>r. tk_user r = v) (q_tokens q), filter (\<lambda>r. au_user r = v) (q_audit q))"

definition tenant :: "user_id \<Rightarrow> sys \<Rightarrow> tenant_rows \<times> account_row list" where
  "tenant v s = (rows_of v (sy_q s), filter (\<lambda>a. a_user_id a = Some v) (db_accounts (w_db (sy_w s))))"

abbreviation colon_free :: "string \<Rightarrow> bool" where
  "colon_free u \<equiv> CHR '':'' \<notin> set u"

text \<open>Two tenants the key digests tell apart.\<close>

definition apart :: "(string \<Rightarrow> string) \<Rightarrow> user_id \<Rightarrow> user_id \<Rightarrow> bool" where
  "apart sha u v \<longleftrightarrow> inj sha \<and> colon_free u \<and> colon_free v \<and> u \<noteq> v"

lemma key_hash_user:
  assumes "apart sha u v"
  shows "HashIdempotencyKey sha v sc k p \<noteq> HashIdempotencyKey sha u sc' k' p'"
proof
  assume "HashIdempotencyKey sha v sc k p = HashIdempotencyKey sha u sc' k' p'"
  then have "v @ CHR '':'' # (sc @ '':'' @ k @ '':'' @ p) = u @ CHR '':'' # (sc' @ '':'' @ k' @ '':'' @ p')"
    using assms by (simp add: HashIdempotencyKey_def apart_def inj_eq)
  from sep_cancel [OF _ _ this] show False using assms unfolding apart_def by blast
qed

lemma filter_map_other:
  assumes "\<And>r. r \<in> set xs \<Longrightarrow> Q r \<Longrightarrow> \<not> P r \<and> \<not> P (f r)"
  shows "filter P (map (\<lambda>r. if Q r then f r else r) xs) = filter P xs"
  using assms by (induction xs) auto

text \<open>Updating the rows of a table without touching its keys.\<close>

lemma quests_updated:
  assumes "qdb_ok sha q" "\<And>r. qu_id (f r) = qu_id r" "\<And>r. qu_user (f r) = qu_user r"
    "\<And>r. qu_status (f r) \<in> insert (qu_status r) (range statusDBString)"
  shows "qdb_ok sha (q\<lparr>q_quests := map f (q_quests q)\<rparr>)"
proof -
  have c: "qu_id \<circ> f = qu_id" using assms(2) by auto
  have o: "owned_quest a b (f r) = owned_quest a b r" for a b r using assms by (simp add: owned_quest_def)
  have "\<exists>st. qu_status (f r) = statusDBString st" if "r \<in> set (q_quests q)" for r
    using assms(1) assms(4) [of r] that by (auto simp: qdb_ok_def)
  then show ?thesis
    using assms(1) by (simp add: qdb_ok_def c o)
qed

lemma idem_updated:
  assumes "qdb_ok sha q" "\<And>r. ik_key_hash (f r) = ik_key_hash r" "\<And>r. idem_row_ok sha (f r) = idem_row_ok sha r"
  shows "qdb_ok sha (q\<lparr>q_idem := map f (q_idem q)\<rparr>)"
proof -
  have c: "ik_key_hash \<circ> f = ik_key_hash" using assms(2) by auto
  show ?thesis using assms(1) by (simp add: qdb_ok_def c assms(3))
qed

lemma tokens_updated:
  assumes "qdb_ok sha q" "\<And>r. tk_id (f r) = tk_id r" "\<And>r. tk_hash (f r) = tk_hash r"
  shows "qdb_ok sha (q\<lparr>q_tokens := map f (q_tokens q)\<rparr>)"
proof -
  have c: "tk_id \<circ> f = tk_id" "tk_hash \<circ> f = tk_hash" using assms(2,3) by auto
  show ?thesis using assms(1) by (simp add: qdb_ok_def c)
qed

section \<open>Tenant operations\<close>

locale tenant_op =
  fixes sha :: "string \<Rightarrow> string" and u :: user_id and opn :: "io \<Rightarrow> db \<Rightarrow> qdb \<Rightarrow> 'r \<times> qdb"
  assumes keeps: "qdb_ok sha q \<Longrightarrow> qdb_ok sha (snd (opn io d q))"
    and frame: "qdb_ok sha q \<Longrightarrow> apart sha u v \<Longrightarrow> rows_of v (snd (opn io d q)) = rows_of v q"
begin

lemma exec_keeps: "qdb_ok sha (sy_q s) \<Longrightarrow> qdb_ok sha (sy_q (snd (q_exec e opn s)))"
  using keeps by (simp add: q_exec_def split: prod.split) (metis snd_conv)

lemma exec_frame: "qdb_ok sha (sy_q s) \<Longrightarrow> apart sha u v \<Longrightarrow> tenant v (snd (q_exec e opn s)) = tenant v s"
  using frame by (simp add: q_exec_def tenant_def after_store_def split: prod.split) (metis snd_conv)

end

lemma qdb_ok_audit [simp]: "qdb_ok sha (q\<lparr>q_audit := a\<rparr>) = qdb_ok sha q"
  by (simp add: qdb_ok_def)

lemma qdb_ok_caches [simp]:
  "qdb_ok sha (q\<lparr>q_venue_cache := a\<rparr>) = qdb_ok sha q" "qdb_ok sha (q\<lparr>q_name_cache := b\<rparr>) = qdb_ok sha q"
  by (simp_all add: qdb_ok_def)

lemma rows_of_caches [simp]:
  "rows_of v (q\<lparr>q_venue_cache := a\<rparr>) = rows_of v q" "rows_of v (q\<lparr>q_name_cache := b\<rparr>) = rows_of v q"
  by (simp_all add: rows_of_def)

text \<open>A read.\<close>

interpretation read_op: tenant_op sha u "\<lambda>io d q. (f io d q, q)" for sha u f
  by unfold_locales simp_all

interpretation create_op: tenant_op sha "qr_user r" "\<lambda>io d. store_CreateQuest io d r" for sha r
proof
  show "qdb_ok sha (snd (store_CreateQuest io d r q))" if "qdb_ok sha q" for q io d
    using that by (auto simp: store_CreateQuest_def qdb_ok_def split: option.splits)
  show "rows_of v (snd (store_CreateQuest io d r q)) = rows_of v q" if "apart sha (qr_user r) v" for q v io d
    using that by (auto simp: store_CreateQuest_def rows_of_def apart_def split: option.splits)
qed

interpretation status_op: tenant_op sha u "\<lambda>io d. store_UpdateQuestStatus io u k st completed updated" for sha u k st completed updated
proof
  show "qdb_ok sha (snd (store_UpdateQuestStatus io u k st completed updated q))" if "qdb_ok sha q" for q io
    using that by (auto simp: store_UpdateQuestStatus_def intro!: quests_updated split: option.splits)
  show "rows_of v (snd (store_UpdateQuestStatus io u k st completed updated q)) = rows_of v q" if "apart sha u v" for q v io
    using that by (auto simp: store_UpdateQuestStatus_def rows_of_def apart_def owned_quest_def intro!: filter_map_other split: option.splits)
qed

interpretation event_op: tenant_op sha u "\<lambda>io d. store_WriteQuestEvent io d u k ev" for sha u k ev
proof
  show "qdb_ok sha (snd (store_WriteQuestEvent io d u k ev q))" if "qdb_ok sha q" for q io d
    using that by (auto simp: store_WriteQuestEvent_def qdb_ok_def filter_empty_conv split: option.splits)
  show "rows_of v (snd (store_WriteQuestEvent io d u k ev q)) = rows_of v q" if "apart sha u v" for q v io d
    using that by (auto simp: store_WriteQuestEvent_def rows_of_def apart_def split: option.splits)
qed

lemma idem_result_keeps [simp]:
  "ik_key_hash (idem_result t err ttl now r) = ik_key_hash r" "ik_user (idem_result t err ttl now r) = ik_user r"
  "ik_scope (idem_result t err ttl now r) = ik_scope r" "ik_plain_hash (idem_result t err ttl now r) = ik_plain_hash r"
  "idem_row_ok sha (idem_result t err ttl now r) = idem_row_ok sha r"
  by (simp_all add: idem_result_def idem_row_ok_def)

interpretation put_op: tenant_op sha u "\<lambda>io d. store_PutIdempotencyResult sha io d u scope key payload target err ttl now"
  for sha u scope key payload target err ttl now
proof
  show "qdb_ok sha (snd (store_PutIdempotencyResult sha io d u scope key payload target err ttl now q))" if ok: "qdb_ok sha q" for q io d
  proof -
    let ?kh = "HashIdempotencyKey sha u scope key payload"
    have u: "qdb_ok sha (q\<lparr>q_idem := map (\<lambda>r. if ik_key_hash r = ?kh then idem_result target err ttl now r else r) (q_idem q)\<rparr>)"
      by (rule idem_updated [OF ok]) simp_all
    have i: "qdb_ok sha (q\<lparr>q_idem := q_idem q @ [r]\<rparr>)" if "?kh \<notin> ik_key_hash ` set (q_idem q)" "ik_key_hash r = ?kh" "idem_row_ok sha r" for r
      using ok that by (simp add: qdb_ok_def)
    have r: "idem_row_ok sha (idem_result target err ttl now \<lparr>ik_key_hash = ?kh, ik_user = u, ik_scope = scope,
        ik_plain_hash = HashIdempotencyPlain sha u scope key, ik_target = None, ik_code = [], ik_err = None,
        ik_created_at = [], ik_expires_at = []\<rparr>)" by (auto simp: idem_row_ok_def)
    show ?thesis
      using u i [OF _ _ r] ok by (simp add: store_PutIdempotencyResult_def Let_def split: option.splits)
  qed
  show "rows_of v (snd (store_PutIdempotencyResult sha io d u scope key payload target err ttl now q)) = rows_of v q"
    if ok: "qdb_ok sha q" and a: "apart sha u v" for q v io d
  proof -
    have n: "ik_user r \<noteq> v" if "r \<in> set (q_idem q)" "ik_key_hash r = HashIdempotencyKey sha u scope key payload" for r
      using ok that key_hash_user [OF a] unfolding qdb_ok_def idem_row_ok_def by metis
    then have "filter (\<lambda>r. ik_user r = v) (map (\<lambda>r. if ik_key_hash r = HashIdempotencyKey sha u scope key payload
        then idem_result target err ttl now r else r) (q_idem q)) = filter (\<lambda>r. ik_user r = v) (q_idem q)"
      by (intro filter_map_other) simp
    then show ?thesis using a by (auto simp: store_PutIdempotencyResult_def rows_of_def apart_def Let_def split: option.splits)
  qed
qed

interpretation audit_op: tenant_op sha "ai_user ev" "\<lambda>io d. store_WriteAuditEvent io d now ev" for sha now ev
  by unfold_locales (auto simp: store_WriteAuditEvent_def rows_of_def apart_def Let_def split: option.splits)

interpretation token_op: tenant_op sha "tr_user t" "\<lambda>io d. store_InsertToken io d t" for sha t
proof
  show "qdb_ok sha (snd (store_InsertToken io d t q))" if "qdb_ok sha q" for q io d
    using that by (simp add: store_InsertToken_def qdb_ok_def split: option.split)
  show "rows_of v (snd (store_InsertToken io d t q)) = rows_of v q" if "apart sha (tr_user t) v" for q v io d
    using that by (simp add: store_InsertToken_def rows_of_def apart_def split: option.split)
qed

interpretation revoke_op: tenant_op sha u "\<lambda>io d. store_RevokeToken io u k now" for sha u k now
proof
  show "qdb_ok sha (snd (store_RevokeToken io u k now q))" if "qdb_ok sha q" for q io
    using that by (auto simp: store_RevokeToken_def intro!: tokens_updated split: option.splits)
  show "rows_of v (snd (store_RevokeToken io u k now q)) = rows_of v q" if "apart sha u v" for q v io
    using that by (auto simp: store_RevokeToken_def rows_of_def apart_def revocable_def intro!: filter_map_other split: option.splits)
qed

interpretation venue_cache_op: tenant_op sha u "\<lambda>io d. UpsertVenueCache io slug city vn at" for sha u slug city vn at
  by unfold_locales (auto simp: UpsertVenueCache_def split: option.splits)

interpretation name_cache_op: tenant_op sha u "\<lambda>io d. UpsertNameSearchCache io key hits at" for sha u key hits at
  by unfold_locales (auto simp: UpsertNameSearchCache_def split: option.splits)

end
