(* ===== verification/ServiceFacts.thy ===== *)
theory ServiceFacts
  imports QuestFacts
begin

text \<open>
  The service verbs as compositions of tenant operations: what a call by one tenant keeps.
\<close>

section \<open>What a call keeps\<close>

text \<open>From \<open>s\<close> to \<open>s'\<close> the tables stay well-formed and every tenant other than \<open>u\<close> keeps its rows.\<close>

definition kept :: "(string \<Rightarrow> string) \<Rightarrow> user_id \<Rightarrow> sys \<Rightarrow> sys \<Rightarrow> bool" where
  "kept sha u s s' \<longleftrightarrow> (qdb_ok sha (sy_q s) \<longrightarrow> qdb_ok sha (sy_q s') \<and> (\<forall>v. apart sha u v \<longrightarrow> tenant v s' = tenant v s))"

lemma kept_refl [simp]: "kept sha u s s"
  by (simp add: kept_def)

lemma kept_trans: "kept sha u s t \<Longrightarrow> kept sha u t r \<Longrightarrow> kept sha u s r"
  by (auto simp: kept_def)

lemma kept_world:
  assumes "sy_q s' = sy_q s" "db_accounts (w_db (sy_w s')) = db_accounts (w_db (sy_w s))"
  shows "kept sha u s s'"
  using assms by (simp add: kept_def tenant_def)

context tenant_op
begin

lemma exec_kept: "kept sha u s (snd (q_exec e opn s))"
  using exec_keeps exec_frame by (simp add: kept_def)

lemma exec_kept': "q_exec e opn s = (r, s') \<Longrightarrow> kept sha u s s'"
  using exec_kept [of s e] by simp

end

lemma read_kept: "q_read e f s = (r, s') \<Longrightarrow> kept sha u s s'"
  unfolding q_read_def by (rule read_op.exec_kept')

lemma call_kept: "call_provider e f s = (r, s') \<Longrightarrow> kept sha u s s'"
  by (auto simp: call_provider_def after_call_def intro: kept_world)

lemma rand_kept: "read_rand c n s = (r, s') \<Longrightarrow> kept sha u s s'"
  by (auto simp: read_rand_def intro: kept_world)

lemma audit_kept: "kept sha u s (audit c u a t err s)"
  unfolding audit_def
  using audit_op.exec_kept [of sha "\<lparr>ai_user = u, ai_target_user = None, ai_action = a, ai_target = t, ai_ok = (err = None),
        ai_error_code = errorCodeFor err, ai_ip = [], ai_agent = [], ai_details = []\<rparr>" s "sv_env c"] by simp

lemma event_kept: "kept sha u s (writeQuestEvent c u k ev s)"
  by (simp add: writeQuestEvent_def event_op.exec_kept)

lemma record_kept: "kept (e_sha (sv_env c)) u s (recordIdempotency c u scope key payload target err now s)"
  by (simp add: recordIdempotency_def put_op.exec_kept)

section \<open>The verbs\<close>

lemma fetch_slug_kept: "kept sha u s (snd (fetch_slug e rv slug city cached s))"
proof (cases "call_provider e (\<lambda>n. rv_venue rv n slug city) s")
  case (Pair r s1)
  then show ?thesis
    using call_kept [OF Pair] kept_trans [OF call_kept [OF Pair] venue_cache_op.exec_kept]
    by (cases r) (simp_all add: fetch_slug_def)
qed

lemma fetch_name_kept: "kept sha u s (snd (fetch_name e rv t key cached s))"
proof (cases "call_provider e (\<lambda>n. rv_search rv n t) s")
  case (Pair r s1)
  then show ?thesis
    using call_kept [OF Pair] kept_trans [OF call_kept [OF Pair] name_cache_op.exec_kept]
    by (cases r) (simp_all add: fetch_name_def)
qed

lemma resolveSlug_kept: "kept sha u s (snd (resolveSlug e rv slug city s))"
proof (cases "q_read e (\<lambda>io d. GetVenueCache (e_load_location e) io (TrimSpace slug) (TrimSpace city)) s")
  case (Pair r s1)
  then show ?thesis
    using read_kept [OF Pair] kept_trans [OF read_kept [OF Pair] fetch_slug_kept]
    by (auto simp: resolveSlug_def Let_def split: sum.split)
qed

lemma resolveName_kept: "kept sha u s (snd (resolveName e rv n s))"
proof (cases "q_read e (\<lambda>io d. GetNameSearchCache (e_load_location e) io (normalizeNameQuery (rv_uni rv) (TrimSpace n))) s")
  case (Pair r s1)
  then show ?thesis
    using read_kept [OF Pair] kept_trans [OF read_kept [OF Pair] fetch_name_kept]
    by (auto simp: resolveName_def Let_def split: sum.split)
qed

lemma Resolve_kept: "kept sha u s (snd (Resolve e rv query s))"
  using resolveSlug_kept resolveName_kept
  by (auto simp: Resolve_def resolveURL_def split: option.split venue_query.split sum.split)

lemma Resolve_kept': "Resolve e rv query s = (r, s') \<Longrightarrow> kept sha u s s'"
  using Resolve_kept [of sha u s e rv query] by simp

lemma ResolveVenue_kept: "kept sha u s (snd (ResolveVenue c u query s))"
  by (auto simp: ResolveVenue_def Let_def intro: kept_trans [OF Resolve_kept' audit_kept] split: prod.split sum.split)

lemma snapshot_kept: "calendar_snapshot c g v s = (cal, s') \<Longrightarrow> kept sha u s s'"
  by (auto simp: calendar_snapshot_def intro: call_kept split: if_splits prod.splits sum.splits)

lemma PlanQuest_kept: "kept sha u s (snd (PlanQuest c u g s))"
proof -
  obtain r s1 where R: "Resolve (sv_env c) (sv_resolver c) (gl_venue_query g) s = (r, s1)" by fastforce
  have a: "kept sha u s (audit c u x t err s1)" for x t err by (rule kept_trans [OF Resolve_kept' [OF R] audit_kept])
  have b: "kept sha u s (audit c u x t err s2)" if "calendar_snapshot c g v s1 = (cal, s2)" for x t err v cal s2
    by (rule kept_trans [OF kept_trans [OF Resolve_kept' [OF R] snapshot_kept [OF that]] audit_kept])
  show ?thesis
    using a b audit_kept by (simp add: PlanQuest_def Let_def R split: option.split sum.split prod.split)
qed

lemma PlanQuest_kept': "PlanQuest c u g s = (r, s') \<Longrightarrow> kept sha u s s'"
  using PlanQuest_kept [of sha u s c g] by simp

lemma Submit_accounts: "db_accounts (w_db (snd (Submit e k i w))) = db_accounts (w_db w)"
proof -
  have c: "db_accounts (snd (CreateSnipe sha io s d)) = db_accounts d" for sha io s d
    by (simp add: CreateSnipe_def split: sum.split option.split)
  have a: "db_accounts (snd (AppendEvent io k ev d)) = db_accounts d" for io k ev d
    by (simp add: AppendEvent_def insert_event_def split: option.split)
  show ?thesis
    unfolding Submit_def Let_def case_prod_unfold by (simp add: c a after_store_def emit_def split: option.split)
qed

lemma Submit_kept: "Submit e k i (sy_w s) = (r, w) \<Longrightarrow> kept sha u s (s\<lparr>sy_w := w\<rparr>)"
  using Submit_accounts [of e k i "sy_w s"] by (intro kept_world) simp_all

lemma find_account_kept: "findAccountByID c u a s = (r, s') \<Longrightarrow> kept sha u s s'"
  by (auto simp: findAccountByID_def intro: read_kept split: prod.splits sum.splits)

lemma goal_account_kept: "goal_account c u g s = (r, s') \<Longrightarrow> kept sha u s s'"
proof -
  assume r: "goal_account c u g s = (r, s')"
  obtain x s1 where R: "q_read (sv_env c) (\<lambda>io d q. store_GetAccountByEmail io u (gl_account g) d) s = (x, s1)" by fastforce
  obtain y s2 where F: "findAccountByID c u (gl_account g) s1 = (y, s2)" by fastforce
  note k1 = read_kept [OF R, of sha u] and k2 = kept_trans [OF read_kept [OF R] find_account_kept [OF F], of sha]
  show ?thesis
    using r k1 k2 by (auto simp: goal_account_def R F split: sum.splits if_splits)
qed

lemma commit_quest_kept: "commit_quest c u g p a now s = (r, s') \<Longrightarrow> kept sha u s s'"
proof -
  assume r: "commit_quest c u g p a now s = (r, s')"
  obtain x s1 where N: "newQuestID c s = (x, s1)" by fastforce
  have n: "kept sha u s s1"
    using N by (auto simp: newQuestID_def intro: rand_kept split: prod.splits)
  show ?thesis
  proof (cases x)
    case None
    then show ?thesis using r N n by (simp add: commit_quest_def)
  next
    case (Some k)
    obtain y s2 where C: "q_exec (sv_env c) (\<lambda>io d. store_CreateQuest io d (quest_row_for u g p a now k)) s1 = (y, s2)" by fastforce
    have "qr_user (quest_row_for u g p a now k) = u" by (simp add: quest_row_for_def)
    then have m: "kept sha u s s2" using kept_trans [OF n] create_op.exec_kept' [OF C, of sha] by simp
    show ?thesis
    proof (cases y)
      case (Some e)
      then show ?thesis using r N C m \<open>x = Some k\<close> by (simp add: commit_quest_def)
    next
      case None
      obtain z w where S: "Submit (sv_env c) k (intentFromPlan u p g) (sy_w s2) = (z, w)" by fastforce
      note m2 = kept_trans [OF m Submit_kept [OF S]]
      show ?thesis
        using r N C S m2 kept_trans [OF m2 event_kept] \<open>x = Some k\<close> None
        by (cases z) (auto simp: commit_quest_def)
    qed
  qed
qed

lemma create_fresh_kept: "create_fresh c u g opts now s = (r, s') \<Longrightarrow> kept sha u s s'"
proof -
  assume r: "create_fresh c u g opts now s = (r, s')"
  obtain x s1 where P: "PlanQuest c u g s = (x, s1)" by fastforce
  obtain y s2 where A: "goal_account c u g s1 = (y, s2)" by fastforce
  note k1 = PlanQuest_kept' [OF P, of sha] and k2 = kept_trans [OF PlanQuest_kept' [OF P] goal_account_kept [OF A], of sha]
  show ?thesis
    using r k1 k2 kept_trans [OF k2 commit_quest_kept]
    by (auto simp: create_fresh_def P A split: sum.splits if_splits)
qed

lemma prior_kept: "prior_outcome c u scope key payload now s = (r, s') \<Longrightarrow> kept sha u s s'"
  by (auto simp: prior_outcome_def intro: read_kept split: prod.splits sum.splits if_splits)

lemma create_body_kept: "kept (e_sha (sv_env c)) u s (snd (create_body c u g opts s))"
proof -
  obtain x s1 where P: "prior_outcome c u scopeCreateQuest (co_key opts) (goal_payload c g) (now_of s) s = (x, s1)" by fastforce
  obtain k err s2 where F: "create_fresh c u g opts (now_of s) s1 = ((k, err), s2)" by (metis surj_pair)
  note k1 = prior_kept [OF P, of "e_sha (sv_env c)"]
  note k2 = kept_trans [OF kept_trans [OF k1 create_fresh_kept [OF F]] record_kept]
  show ?thesis
    using k1 k2 by (simp add: create_body_def Let_def P F split: sum.split option.split)
qed

lemma CreateQuest_kept: "kept (e_sha (sv_env c)) u s (snd (CreateQuest c u g opts s))"
proof -
  obtain k err s1 where B: "create_body c u g opts s = ((k, err), s1)" by (metis surj_pair)
  show ?thesis
    using kept_trans [OF create_body_kept [of c u s g opts] audit_kept, of c] by (simp add: CreateQuest_def B)
qed

lemma GetQuest_kept: "kept sha u s (snd (GetQuest c u k s))"
proof -
  have "kept sha u s (snd (get_body c u k s))"
    by (auto simp: get_body_def intro: read_kept kept_trans [OF read_kept read_kept]
        kept_trans [OF kept_trans [OF read_kept read_kept] PlanQuest_kept'] split: prod.split sum.split)
  then show ?thesis
    using kept_trans [OF _ audit_kept, of sha u s "snd (get_body c u k s)" c] by (simp add: GetQuest_def case_prod_unfold)
qed

lemma ListQuests_kept: "kept sha u s (snd (ListQuests c u f s))"
  by (auto simp: ListQuests_def Let_def intro: kept_trans [OF read_kept audit_kept] split: prod.split sum.split)

lemma cancel_fresh_kept: "cancel_fresh c u k reason now s = (r, s') \<Longrightarrow> kept sha u s s'"
  by (auto simp: cancel_fresh_def intro: read_kept kept_trans [OF read_kept status_op.exec_kept']
      kept_trans [OF kept_trans [OF read_kept status_op.exec_kept'] event_kept] split: prod.splits sum.splits option.splits if_splits)

lemma CancelQuest_kept: "kept (e_sha (sv_env c)) u s (snd (CancelQuest c u k opts s))"
proof -
  obtain x s1 where P: "prior_outcome c u scopeCancelQuest (cn_key opts) (payloadHashFor c k) (now_of s) s = (x, s1)" by fastforce
  obtain err s2 where F: "cancel_fresh c u k (cn_reason opts) (now_of s) s1 = (err, s2)" by fastforce
  note k1 = prior_kept [OF P, of "e_sha (sv_env c)"]
  note k2 = kept_trans [OF kept_trans [OF k1 cancel_fresh_kept [OF F]] record_kept]
  have "kept (e_sha (sv_env c)) u s (snd (cancel_body c u k opts s))"
    using k1 k2 by (simp add: cancel_body_def Let_def P F split: sum.split option.split)
  then show ?thesis
    using kept_trans [OF _ audit_kept, of "e_sha (sv_env c)" u s "snd (cancel_body c u k opts s)" c]
    by (simp add: CancelQuest_def case_prod_unfold)
qed

lemma bind_accounts:
  "db_accounts (snd (store_BindLegacyAccountToUser io u email q d)) = db_accounts d \<or>
   db_accounts (snd (store_BindLegacyAccountToUser io u email q d)) =
     map (\<lambda>r. if a_user_id r = None \<and> a_resy_email r = email then r\<lparr>a_user_id := Some u\<rparr> else r) (db_accounts d)"
  unfolding store_BindLegacyAccountToUser_def Let_def
  by (simp split: option.split list.split)

lemma bind_kept: "bind_account c u email s = (r, s') \<Longrightarrow> kept sha u s s'"
proof -
  assume r: "bind_account c u email s = (r, s')"
  let ?b = "snd (store_BindLegacyAccountToUser (store_io (sv_env c) (sy_w s)) u email (sy_q s) (w_db (sy_w s)))"
  have "filter (\<lambda>a. a_user_id a = Some v) (db_accounts ?b) = filter (\<lambda>a. a_user_id a = Some v) (db_accounts (w_db (sy_w s)))"
    if "u \<noteq> v" for v
  proof -
    have "filter (\<lambda>a. a_user_id a = Some v) (map (\<lambda>r. if a_user_id r = None \<and> a_resy_email r = email then r\<lparr>a_user_id := Some u\<rparr> else r)
        (db_accounts (w_db (sy_w s)))) = filter (\<lambda>a. a_user_id a = Some v) (db_accounts (w_db (sy_w s)))"
      by (rule filter_map_other) (use that in simp)
    then show ?thesis
      using bind_accounts [of "store_io (sv_env c) (sy_w s)" u email "sy_q s" "w_db (sy_w s)"] by (elim disjE) simp_all
  qed
  moreover have "s' = s\<lparr>sy_w := after_store (sv_env c) ?b (sy_w s)\<rparr>" using r by (simp add: bind_account_def case_prod_unfold)
  ultimately show ?thesis by (simp add: kept_def tenant_def apart_def after_store_def)
qed

lemma Login_kept: "kept sha u s (snd (Login c u email pw s))"
proof -
  have b: "kept sha u s s'" if "login_body c u email pw s = (r, s')" for r s'
  proof (cases "email = [] \<or> pw = [] \<or> sv_auth c = None")
    case True
    then show ?thesis using that by (auto simp: login_body_def split: if_splits option.splits)
  next
    case False
    then obtain up where up: "sv_auth c = Some up" "\<not> (email = [] \<or> pw = [])" by auto
    obtain x s1 where C: "call_provider (sv_env c) (\<lambda>n. up n email pw) s = (x, s1)" by fastforce
    note k1 = call_kept [OF C, of sha u]
    have k2: "kept sha u s s2" if "bind_account c u m s1 = (y, s2)" for m y s2
      by (rule kept_trans [OF k1 bind_kept [OF that]])
    show ?thesis
      using that up k1 k2 by (simp add: login_body_def C split: sum.splits prod.splits)
  qed
  show ?thesis
    by (auto simp: Login_def intro: kept_trans [OF b audit_kept] split: prod.split sum.split)
qed

lemma ListAccounts_kept: "kept sha u s (snd (ListAccounts c u s))"
  by (auto simp: ListAccounts_def Let_def intro: kept_trans [OF read_kept audit_kept] split: prod.split sum.split)

lemma mint_kept: "mint_token c u label scope s = (r, s') \<Longrightarrow> kept sha u s s'"
proof -
  assume r: "mint_token c u label scope s = (r, s')"
  obtain x s1 where A: "read_rand c tokenPlaintextBytes s = (x, s1)" by fastforce
  obtain y s2 where B: "read_rand c tokenIDBytes s1 = (y, s2)" by fastforce
  note k1 = rand_kept [OF A, of sha u] and k2 = kept_trans [OF rand_kept [OF A] rand_kept [OF B], of sha u]
  have i: "kept sha u s2 s3" if "q_exec e (\<lambda>io d. store_InsertToken io d t) s2 = (z, s3)" "tr_user t = u" for e t z s3
    using token_op.exec_kept' [OF that(1), of sha] that(2) by simp
  show ?thesis
    using r k1 k2 kept_trans [OF k2 i]
    by (auto simp: mint_token_def Let_def A B split: option.splits prod.splits)
qed

lemma IssueToken_kept: "kept sha u s (snd (IssueToken c caller u label scope s))"
proof -
  have a: "kept sha u s (audit c u x t err s1)" if "mint_token c u label scope s = (r, s1)" for x t err r s1
    by (rule kept_trans [OF mint_kept [OF that] audit_kept])
  show ?thesis
    using a audit_kept by (simp add: IssueToken_def split: option.split prod.split sum.split)
qed

lemma RevokeToken_kept: "kept sha u s (snd (RevokeToken c caller u k s))"
  using audit_kept by (auto simp: RevokeToken_def intro: kept_trans [OF revoke_op.exec_kept' audit_kept] split: option.splits prod.splits)

lemma ListTokens_kept: "kept sha u s (snd (ListTokens c caller u s))"
  using audit_kept by (auto simp: ListTokens_def intro: kept_trans [OF read_kept audit_kept] split: option.splits prod.splits sum.splits)

end
