(* ===== verification/EngineFacts.thy ===== *)
theory EngineFacts
  imports Engine
begin

text \<open>
  Facts on the engine. The runs of the engine on one snipe are sequences of \<open>engine_step\<close>s:
  a persisted legal move, or time passing with snipes and events untouched. What every step
  keeps is proved once by rule induction and then holds of \<^verbatim>\<open>Run\<close> and of the booking race:
  memory and database agree, the notifications form a walk of the table, other snipes are
  untouched, time does not go back.
\<close>

section \<open>Steps\<close>

inductive engine_step :: "env \<Rightarrow> snipe_state \<times> world \<Rightarrow> snipe_state \<times> world \<Rightarrow> bool" for e where
  moved: "\<lbrakk>CanTransition (s_status s) (s_status c); s_id c = s_id s; s_intent c = s_intent s;
     s_created_at c = s_created_at s; s_events c = s_events s; s_result c = s_result s;
     s_updated_at c = w_now w; ev_at ev = w_now w;
     intent_row_ok (s_intent s) \<and> valid_utf8 (s_id s) \<and> rfc_range (w_now w) \<Longrightarrow>
       (\<forall>(k, v) \<in> set (ev_attrs ev). valid_utf8 k \<and> attr_ok v) \<and> (rfc_range (s_scheduled_at s) \<longrightarrow> rfc_range (s_scheduled_at c));
     persist_swap e s c ev w = (err, s', w')\<rbrakk> \<Longrightarrow> engine_step e (s, w) (s', w')"
| quiet: "\<lbrakk>w_now w \<le> w_now w'; db_snipes (w_db w') = db_snipes (w_db w); db_events (w_db w') = db_events (w_db w);
     db_fk (w_db w') = db_fk (w_db w);
     w_emitted w' = w_emitted w; w_delivered w' = w_delivered w; w_registry w' = w_registry w\<rbrakk> \<Longrightarrow>
     engine_step e (s, w) (s, w')"

text \<open>The texts the engine itself puts into an event are UTF-8.\<close>

lemma LogKey_utf8 [simp]: "valid_utf8 LogKeySnipeID" "valid_utf8 LogKeyVenueRef" "valid_utf8 LogKeyIntentHash"
  by (simp_all add: LogKeySnipeID_def LogKeyVenueRef_def LogKeyIntentHash_def)

lemma venue_ref_utf8 [simp]: "intent_row_ok i \<Longrightarrow> valid_utf8 (venue_ref_string (i_venue i))"
  by (simp add: intent_row_ok_def intent_utf8_def venue_ref_string_def)

inductive_cases engine_stepE: "engine_step e (s, w) (s', w')"

abbreviation engine_run :: "env \<Rightarrow> snipe_state \<times> world \<Rightarrow> snipe_state \<times> world \<Rightarrow> bool" where
  "engine_run e \<equiv> (engine_step e)\<^sup>*\<^sup>*"

lemma after_store_simps [simp]:
  "w_db (after_store e d w) = d" "w_emitted (after_store e d w) = w_emitted w"
  "w_delivered (after_store e d w) = w_delivered w" "w_registry (after_store e d w) = w_registry w"
  "w_calls (after_store e d w) = w_calls w"
  "w_now w \<le> w_now (after_store e d w)"
  by (simp_all add: after_store_def)

lemma after_call_simps [simp]:
  "w_db (after_call e w) = w_db w" "w_emitted (after_call e w) = w_emitted w"
  "w_delivered (after_call e w) = w_delivered w" "w_registry (after_call e w) = w_registry w"
  "w_calls (after_call e w) = w_calls w @ [w_now w]"
  "w_now w \<le> w_now (after_call e w)"
  by (simp_all add: after_call_def)

lemma emit_simps [simp]:
  "w_db (emit n w) = w_db w" "w_emitted (emit n w) = w_emitted w @ [n]"
  "w_registry (emit n w) = w_registry w" "w_now (emit n w) = w_now w" "w_calls (emit n w) = w_calls w"
  by (simp_all add: emit_def)

lemma state_Transition_step:
  assumes "state_Transition e to et attrs s w = (err, s', w')"
    and "intent_row_ok (s_intent s) \<and> rfc_range (w_now w) \<Longrightarrow> \<forall>(k, v) \<in> set attrs. valid_utf8 k \<and> attr_ok v"
  shows "engine_run e (s, w) (s', w')"
proof (cases "CanTransition (s_status s) to")
  case True
  let ?c = "s\<lparr>s_status := to, s_updated_at := w_now w\<rparr>"
  let ?ev = "\<lparr>ev_type = et, ev_at = w_now w, ev_attrs = (LogKeySnipeID, AString (s_id s)) # attrs\<rparr>"
  have "persist_swap e s ?c ?ev w = (err, s', w')"
    using assms(1) True by (simp add: state_Transition_def Let_def)
  then have "engine_step e (s, w) (s', w')"
    using True assms(2) by (intro engine_step.moved [where c = ?c and ev = ?ev]) auto
  then show ?thesis by simp
next
  case False
  then show ?thesis using assms(1) by (simp add: state_Transition_def)
qed

lemma transitionToScheduled_step:
  assumes "transitionToScheduled e at s w = (err, s', w')" "intent_row_ok (s_intent s) \<and> rfc_range (w_now w) \<Longrightarrow> rfc_range at"
  shows "engine_run e (s, w) (s', w')"
proof (cases "CanTransition (s_status s) StatusScheduled")
  case True
  let ?c = "s\<lparr>s_status := StatusScheduled, s_scheduled_at := at, s_updated_at := w_now w\<rparr>"
  let ?ev = "\<lparr>ev_type = EventScheduled, ev_at = w_now w, ev_attrs = [(LogKeySnipeID, AString (s_id s)),
      (''scheduled_at'', ATime at), (LogKeyVenueRef, AString (venue_ref_string (i_venue (s_intent s))))]\<rparr>"
  have "persist_swap e s ?c ?ev w = (err, s', w')"
    using assms(1) True by (simp add: transitionToScheduled_def Let_def)
  then have "engine_step e (s, w) (s', w')"
    using True assms(2) by (intro engine_step.moved [where c = ?c and ev = ?ev]) auto
  then show ?thesis by simp
next
  case False
  then show ?thesis using assms(1) by (simp add: transitionToScheduled_def)
qed

lemma waitWithCtx_quiet: "waitWithCtx e d w = (r, w') \<Longrightarrow> engine_step e (s, w) (s, w')"
  by (rule engine_step.quiet) (auto simp: waitWithCtx_def Let_def split: if_splits option.splits)

lemma after_call_quiet: "engine_step e (s, w) (s, after_call e w)"
  by (rule engine_step.quiet) simp_all

lemma UpsertObserved_frame:
  "UpsertObserved io ob d = (err, d') \<Longrightarrow> db_snipes d' = db_snipes d \<and> db_events d' = db_events d \<and> db_fk d' = db_fk d"
  by (auto simp: UpsertObserved_def Let_def split: option.splits)

lemma recordObserved_quiet:
  assumes "recordObserved e i now w = (r, w')"
  shows "engine_step e (s, w) (s, w')"
proof -
  obtain lr w1 where l: "lookupVenueTZ e (i_venue i) w = (lr, w1)" by fastforce
  have w1: "w1 = after_store e (w_db w) w" using l by (simp add: lookupVenueTZ_def)
  obtain row err d where u: "UpsertObserved (store_io e w1) row (w_db w1) = (err, d)"
    and w': "w' = after_store e d w1"
    using assms by (auto simp: recordObserved_def l Let_def split: prod.splits)
  have "w_now w \<le> w_now w1" "w_now w1 \<le> w_now w'" by (simp_all add: w1 w')
  then have "w_now w \<le> w_now w'" by linarith
  then show ?thesis
    by (rule engine_step.quiet) (use UpsertObserved_frame [OF u] in \<open>simp_all add: w1 w'\<close>)
qed

lemmas quiet_steps = waitWithCtx_quiet after_call_quiet recordObserved_quiet

section \<open>The strategies are runs\<close>

lemma attr_ok_simps:
  "int64 (go_len xs)"
  using sint_greater_eq [of "word_of_nat (length xs) :: 64 word"] sint_less [of "word_of_nat (length xs) :: 64 word"]
  by (simp_all add: go_len_def int64_def)

abbreviation expired_attrs :: "instant \<Rightarrow> attr list" where
  "expired_attrs til \<equiv> [(''reason'', AString ''discovered_window_expired''), (''probe_until'', ATime til)]"

abbreviation until_attrs :: "instant \<Rightarrow> attr list" where
  "until_attrs til \<equiv> [(''reason'', AString ''continuous_window_expired''), (''until'', ATime til)]"

abbreviation venue_attr :: "snipe_state \<Rightarrow> attr" where
  "venue_attr s \<equiv> (LogKeyVenueRef, AString (venue_ref_string (i_venue (s_intent s))))"

abbreviation calendar_answer :: "env \<Rightarrow> snipe_state \<Rightarrow> world \<Rightarrow> provider_error + calendar" where
  "calendar_answer e s w \<equiv> e_calendar e (w_tick w) (i_venue (s_intent s))
     \<lparr>dr_start = i_date (s_intent s), dr_end = i_date (s_intent s), dr_party_size = i_party_size (s_intent s)\<rparr>"

abbreviation find_answer :: "env \<Rightarrow> snipe_state \<Rightarrow> world \<Rightarrow> provider_error + slot list" where
  "find_answer e s w \<equiv> e_find e (w_tick w) \<lparr>fr_venue = i_venue (s_intent s), fr_date = i_date (s_intent s),
     fr_party_size = i_party_size (s_intent s), fr_times = [], fr_session = None\<rparr>"

lemma discovered_loop_cases:
  assumes "discovered_loop e en til s w = (err, s', w')"
  obtains (ctx) "ctx_done e w" "err = Some ECtx" "s' = s" "w' = w"
  | (closed) "\<not> ctx_done e w" "til \<le> w_now w"
      "state_Transition e StatusFailed EventFailed (expired_attrs til) s w = (err, s', w')"
  | (error) p where "\<not> ctx_done e w" "w_now w < til" "calendar_answer e s w = Inl p"
      "err = Some (EProvider p)" "s' = s" "w' = after_call e w"
  | (hit) cal r w2 where "\<not> ctx_done e w" "w_now w < til" "calendar_answer e s w = Inr cal"
      "calendarContainsAvailable cal (i_date (s_intent s))"
      "recordObserved e (s_intent s) (w_now (after_call e w)) (after_call e w) = (r, w2)"
      "state_Transition e StatusAwaiting EventReleased
         [venue_attr s, (''observed_at'', ATime (w_now (after_call e w)))] s w2 = (err, s', w')"
  | (canceled) er w2 where "\<not> ctx_done e w" "w_now w < til"
      "waitWithCtx e (pollInterval en) (after_call e w) = (Some er, w2)" "err = Some er" "s' = s" "w' = w2"
  | (again) w2 where "\<not> ctx_done e w" "w_now w < til"
      "waitWithCtx e (pollInterval en) (after_call e w) = (None, w2)"
      "discovered_loop e en til s w2 = (err, s', w')"
proof -
  note eq = assms [unfolded discovered_loop.simps [of e en til s w] Let_def]
  show thesis
  proof (cases "ctx_done e w")
    case True
    then show thesis using eq by (intro ctx) simp_all
  next
    case live: False
    show thesis
    proof (cases "w_now w < til")
      case False
      then show thesis using eq live by (intro closed) simp_all
    next
      case open_win: True
      show thesis
      proof (cases "calendar_answer e s w")
        case (Inl p)
        then show thesis using eq live open_win by (intro error [of p]) simp_all
      next
        case (Inr cal)
        show thesis
        proof (cases "calendarContainsAvailable cal (i_date (s_intent s))")
          case True
          obtain r w2 where "recordObserved e (s_intent s) (w_now (after_call e w)) (after_call e w) = (r, w2)"
            by fastforce
          then show thesis using eq live open_win Inr True by (intro hit [of cal r w2]) simp_all
        next
          case False
          obtain r w2 where wt: "waitWithCtx e (pollInterval en) (after_call e w) = (r, w2)" by fastforce
          show thesis
          proof (cases r)
            case None
            then show thesis using eq live open_win Inr False wt by (intro again [of w2]) simp_all
          next
            case (Some er)
            then show thesis using eq live open_win Inr False wt by (intro canceled [of er w2]) simp_all
          qed
        qed
      qed
    qed
  qed
qed

lemma continuous_loop_cases:
  assumes "continuous_loop e en til s w = (err, s', w')"
  obtains (ctx) "ctx_done e w" "err = Some ECtx" "s' = s" "w' = w"
  | (closed) "\<not> ctx_done e w" "til \<le> w_now w"
      "state_Transition e StatusExpired EventExpired (until_attrs til) s w = (err, s', w')"
  | (error) p where "\<not> ctx_done e w" "w_now w < til" "find_answer e s w = Inl p"
      "pe_is p \<noteq> Some ErrInventoryEmpty" "err = Some (EProvider p)" "s' = s" "w' = after_call e w"
  | (hit) slots where "\<not> ctx_done e w" "w_now w < til" "find_answer e s w = Inr slots" "slots \<noteq> []"
      "state_Transition e StatusAwaiting EventFound
         [venue_attr s, (''slot_count'', AInt (go_len slots))] s (after_call e w) = (err, s', w')"
  | (canceled) er w2 where "\<not> ctx_done e w" "w_now w < til"
      "waitWithCtx e (pollInterval en) (after_call e w) = (Some er, w2)" "err = Some er" "s' = s" "w' = w2"
  | (again) w2 where "\<not> ctx_done e w" "w_now w < til"
      "waitWithCtx e (pollInterval en) (after_call e w) = (None, w2)"
      "continuous_loop e en til s w2 = (err, s', w')"
proof -
  note eq = assms [unfolded continuous_loop.simps [of e en til s w] Let_def]
  obtain r w2 where wt: "waitWithCtx e (pollInterval en) (after_call e w) = (r, w2)" by fastforce
  show thesis
  proof (cases "ctx_done e w")
    case True
    then show thesis using eq by (intro ctx) simp_all
  next
    case live: False
    show thesis
    proof (cases "w_now w < til")
      case False
      then show thesis using eq live by (intro closed) simp_all
    next
      case open_win: True
      show thesis
      proof (cases "find_answer e s w")
        case (Inl p)
        show thesis
        proof (cases "pe_is p = Some ErrInventoryEmpty")
          case True
          show thesis
          proof (cases r)
            case None
            then show thesis using eq live open_win Inl True wt by (intro again [of w2]) simp_all
          next
            case (Some er)
            then show thesis using eq live open_win Inl True wt by (intro canceled [of er w2]) simp_all
          qed
        next
          case False
          then show thesis using eq live open_win Inl by (intro error [of p]) simp_all
        qed
      next
        case (Inr slots)
        show thesis
        proof (cases "slots = []")
          case True
          show thesis
          proof (cases r)
            case None
            then show thesis using eq live open_win Inr True wt by (intro again [of w2]) simp_all
          next
            case (Some er)
            then show thesis using eq live open_win Inr True wt by (intro canceled [of er w2]) simp_all
          qed
        next
          case False
          then show thesis using eq live open_win Inr by (intro hit [of slots]) simp_all
        qed
      qed
    qed
  qed
qed

lemma wait_now: "waitWithCtx e d w = (r, w') \<Longrightarrow> w_now w \<le> w_now w'"
  by (auto simp: waitWithCtx_def Let_def split: if_splits option.splits)

lemma record_now: "recordObserved e i now w = (r, w') \<Longrightarrow> w_now w \<le> w_now w'"
  using recordObserved_quiet [of e i now w r w' undefined]
  by (auto simp: recordObserved_def lookupVenueTZ_def after_store_def Let_def split: prod.splits)

lemma rfc_range_upto: "0 \<le> t \<Longrightarrow> t \<le> u \<Longrightarrow> rfc_range u \<Longrightarrow> rfc_range t"
  using rfc_range_between [of 0 u t] by simp

lemma discovered_loop_run:
  "discovered_loop e en til s w = (err, s', w') \<Longrightarrow> (intent_row_ok (s_intent s) \<Longrightarrow> rfc_range til) \<Longrightarrow>
   0 \<le> w_now w \<Longrightarrow> engine_run e (s, w) (s', w')"
proof (induction "nat (til - w_now w)" arbitrary: w rule: less_induct)
  case less
  from less.prems(1) show ?case
  proof (cases rule: discovered_loop_cases)
    case closed
    then show ?thesis using less.prems(2) by (intro state_Transition_step) auto
  next
    case (hit cal r w2)
    have pre: "engine_run e (s, w) (s, w2)"
      using after_call_quiet recordObserved_quiet [OF hit(5)]
      by (meson converse_rtranclp_into_rtranclp r_into_rtranclp)
    have now: "0 \<le> w_now (after_call e w)" "w_now (after_call e w) \<le> w_now w2"
      using less.prems(3) after_call_now [of w e] record_now [OF hit(5)] by linarith+
    have "engine_run e (s, w2) (s', w')"
      by (rule state_Transition_step [OF hit(6)]) (use now rfc_range_upto in auto)
    with pre show ?thesis by simp
  next
    case (canceled er w2)
    then show ?thesis using after_call_quiet waitWithCtx_quiet
      by (metis converse_rtranclp_into_rtranclp r_into_rtranclp)
  next
    case (again w2)
    have "0 \<le> w_now w2" using less.prems(3) poll_later [OF again(3)] by (simp add: millisecond_def)
    have pre: "engine_run e (s, w) (s, w2)"
      using after_call_quiet waitWithCtx_quiet [OF again(3)]
      by (meson converse_rtranclp_into_rtranclp r_into_rtranclp)
    have "engine_run e (s, w2) (s', w')"
      using again \<open>0 \<le> w_now w2\<close> less.prems(2) poll_strict [OF again(3) [symmetric]]
      by (intro less.hyps) simp_all
    with pre show ?thesis by simp
  next
    case (error p)
    then show ?thesis using after_call_quiet by blast
  qed simp
qed

lemma poll_run:
  "waitWithCtx e d (after_call e w) = (r, w2) \<Longrightarrow> engine_run e (s, w) (s, w2)"
  using after_call_quiet waitWithCtx_quiet by (meson converse_rtranclp_into_rtranclp r_into_rtranclp)

lemma continuous_loop_run:
  "continuous_loop e en til s w = (err, s', w') \<Longrightarrow> (intent_row_ok (s_intent s) \<Longrightarrow> rfc_range til) \<Longrightarrow>
   engine_run e (s, w) (s', w')"
proof (induction "nat (til - w_now w)" arbitrary: w rule: less_induct)
  case less
  from less.prems(1) show ?case
  proof (cases rule: continuous_loop_cases)
    case closed
    then show ?thesis using less.prems(2) by (intro state_Transition_step) auto
  next
    case (hit slots)
    have "engine_run e (s, after_call e w) (s', w')"
      by (rule state_Transition_step [OF hit(5)]) (simp add: attr_ok_simps)
    then show ?thesis using after_call_quiet by (meson converse_rtranclp_into_rtranclp)
  next
    case (canceled er w2)
    then show ?thesis using poll_run by metis
  next
    case (again w2)
    have "engine_run e (s, w2) (s', w')"
      using again less.prems(2) poll_strict [OF again(3) [symmetric]] by (intro less.hyps) simp_all
    then show ?thesis using poll_run [OF again(3)] by (meson rtranclp_trans)
  next
    case (error p)
    then show ?thesis using after_call_quiet by blast
  qed simp
qed

lemma state_Transition_keeps:
  "state_Transition e to et attrs s w = (err, s', w') \<Longrightarrow>
   s_intent s' = s_intent s \<and> s_id s' = s_id s \<and> w_now w \<le> w_now w' \<and> w_calls w' = w_calls w \<and>
   (err = None \<longrightarrow> s_status s' = to \<and> CanTransition (s_status s) to) \<and> (err \<noteq> None \<longrightarrow> s' = s)"
  by (auto simp: state_Transition_def persist_swap_def Let_def split: if_splits option.splits prod.splits)

lemma runDiscoveredRelease_run:
  assumes "runDiscoveredRelease e en from til s w = (err, s', w')" "0 \<le> w_now w"
    and "i_release (s_intent s) = Some (DiscoveredRelease from til)"
  shows "engine_run e (s, w) (s', w')"
proof (cases "is_zero from \<or> is_zero til \<or> \<not> from < til")
  case True
  then show ?thesis using assms(1) by (auto simp: runDiscoveredRelease_def split: if_splits)
next
  case ok: False
  obtain r s1 w1 where adv: "advanceToDiscovering e from til s w = (r, s1, w1)" by (metis prod_cases3)
  have rel: "intent_row_ok (s_intent s) \<Longrightarrow> rfc_range from \<and> rfc_range til"
    using assms(3) by (simp add: intent_row_ok_def release_ok_def)
  have both: "engine_run e (s, w) (s1, w1) \<and> s_intent s1 = s_intent s \<and> w_now w \<le> w_now w1"
  proof (cases "s_status s = StatusDiscovering")
    case True
    then show ?thesis using adv by (simp add: advanceToDiscovering_def)
  next
    case False
    then have t: "state_Transition e StatusDiscovering EventDiscovered
        [venue_attr s, (''probe_from'', ATime from), (''probe_until'', ATime til)] s w = (r, s1, w1)"
      using adv by (simp add: advanceToDiscovering_def)
    show ?thesis using state_Transition_step [OF t] state_Transition_keeps [OF t] rel by simp
  qed
  note run1 = both [THEN conjunct1] and keep = both [THEN conjunct2, THEN conjunct1] both [THEN conjunct2, THEN conjunct2]
  note body = assms(1) [unfolded runDiscoveredRelease_def adv Let_def]
  show ?thesis
  proof (cases "r = None")
    case False
    then show ?thesis using run1 body ok by (auto split: if_splits)
  next
    case True
    have loop: "engine_run e (s1, w2) (s', w')"
      if "discovered_loop e en til s1 w2 = (err, s', w')" "w_now w1 \<le> w_now w2" for w2
      using that rel keep assms(2) by (intro discovered_loop_run) auto
    show ?thesis
    proof (cases "0 < time_sub from (w_now w1)")
      case False
      then show ?thesis using body ok True run1 loop [of w1] by simp
    next
      case wait: True
      obtain q w2 where w2: "waitWithCtx e (time_sub from (w_now w1)) w1 = (q, w2)" by fastforce
      have "engine_run e (s, w) (s1, w2)"
        using run1 waitWithCtx_quiet [OF w2] by (meson rtranclp.rtrancl_into_rtrancl)
      then show ?thesis
        using body ok True wait w2 loop [OF _ wait_now [OF w2]] by (cases q) (auto split: if_splits)
    qed
  qed
qed

lemma runStrategy_run:
  assumes "runStrategy e en s w = (err, s', w')" "0 \<le> w_now w"
  shows "engine_run e (s, w) (s', w')"
proof (cases "i_release (s_intent s)")
  case None
  then show ?thesis using assms(1) by (simp add: runStrategy_def)
next
  case (Some r)
  show ?thesis
  proof (cases r)
    case (ExplicitRelease at)
    then show ?thesis using assms(1) Some
      by (intro state_Transition_step) (auto simp: runStrategy_def)
  next
    case (DiscoveredRelease pf til)
    then show ?thesis using assms Some runDiscoveredRelease_run [of e en pf til s w err s' w']
      by (auto simp: runStrategy_def split: if_splits)
  next
    case (ContinuousRelease til)
    then have "intent_row_ok (s_intent s) \<Longrightarrow> rfc_range til"
      using Some by (simp add: intent_row_ok_def release_ok_def)
    then show ?thesis using assms Some ContinuousRelease continuous_loop_run [of e en til s w err s' w']
      by (auto simp: runStrategy_def runContinuousRelease_def split: if_splits)
  qed
qed

lemma waitAndFire_run:
  assumes "waitAndFire e en delay s w = (err, s', w')" "0 \<le> w_now w" "0 \<le> delay"
  shows "engine_run e (s, w) (s', w')"
proof -
  define fired where "fired = w\<lparr>w_now := w_now w + delay + int (e_late e (w_tick w)), w_tick := Suc (w_tick w)\<rparr>"
  have q: "engine_step e (s, w) (s, fired)"
    using assms(3) by (intro engine_step.quiet) (simp_all add: fired_def)
  have c: "engine_step e (s, w) (s, w\<lparr>w_now := max (w_now w) t, w_tick := n\<rparr>)" for t n
    by (intro engine_step.quiet) simp_all
  have f: "engine_run e (s, w) (s2, w2)" if "runStrategy e en s fired = (r, s2, w2)" for r s2 w2
    using runStrategy_run [OF that] assms(2,3) q by (auto simp: fired_def intro: converse_rtranclp_into_rtranclp)
  show ?thesis
    using assms(1) q c f unfolding waitAndFire_def Let_def fired_def [symmetric]
    by (auto split: option.splits if_splits prod.splits)
qed

lemma transitionToScheduled_keeps:
  "transitionToScheduled e at s w = (err, s', w') \<Longrightarrow>
   s_intent s' = s_intent s \<and> s_id s' = s_id s \<and> w_now w \<le> w_now w' \<and> w_calls w' = w_calls w \<and>
   (err = None \<longrightarrow> s_status s' = StatusScheduled \<and> s_scheduled_at s' = at) \<and> (err \<noteq> None \<longrightarrow> s' = s)"
  by (auto simp: transitionToScheduled_def persist_swap_def Let_def split: if_splits option.splits prod.splits)

lemma ensure_scheduled_run:
  assumes "ensure_scheduled e s w = (err, s', w')"
  shows "engine_run e (s, w) (s', w') \<and> w_now w \<le> w_now w' \<and> s_intent s' = s_intent s"
proof (cases "s_status s = StatusSubmitted")
  case True
  show ?thesis
  proof (cases "scheduledAtFromIntent (s_intent s) w")
    case (Inr at)
    then have t: "transitionToScheduled e at s w = (err, s', w')"
      using assms True by (simp add: ensure_scheduled_def)
    have "intent_row_ok (s_intent s) \<and> rfc_range (w_now w) \<Longrightarrow> rfc_range at"
      using Inr by (auto simp: scheduledAtFromIntent_def intent_row_ok_def release_ok_def
        split: option.splits release_strategy.splits)
    then show ?thesis using transitionToScheduled_step [OF t] transitionToScheduled_keeps [OF t] by blast
  qed (use assms True in \<open>simp add: ensure_scheduled_def\<close>)
qed (use assms in \<open>simp add: ensure_scheduled_def\<close>)

lemma fire_when_due_run:
  assumes "fire_when_due e en s w = (err, s', w')" "0 \<le> w_now w"
  shows "engine_run e (s, w) (s', w')"
  using assms runStrategy_run waitAndFire_run [of e en "time_sub (s_scheduled_at s) (w_now w)" s w err s' w']
    time_sub_pos_iff [of "s_scheduled_at s" "w_now w"]
  by (auto simp: fire_when_due_def Let_def not_le split: if_splits simp del: time_sub_pos_iff)

text \<open>A run of the engine on a snipe is its load followed by steps.\<close>

lemma Run_cases:
  assumes "Run e en sid w = (err, Some s', w')"
  obtains (unscheduled) s where "GetSnipe (store_io e w) sid (w_db w) = Inr s"
      "ensure_scheduled e s (after_store e (w_db w) w) = (err, s', w')" "err \<noteq> None"
  | (scheduled) s s2 w2 where "GetSnipe (store_io e w) sid (w_db w) = Inr s"
      "ensure_scheduled e s (after_store e (w_db w) w) = (None, s2, w2)"
      "fire_when_due e en s2 w2 = (err, s', w')"
proof (cases "GetSnipe (store_io e w) sid (w_db w)")
  case (Inl x)
  then show thesis using assms by (simp add: Run_def Load_def)
next
  case (Inr s)
  obtain r s2 w2 where es: "ensure_scheduled e s (after_store e (w_db w) w) = (r, s2, w2)" by (metis prod_cases3)
  obtain q s3 w3 where f: "fire_when_due e en s2 w2 = (q, s3, w3)" by (metis prod_cases3)
  show thesis
  proof (cases r)
    case None
    then show thesis using assms Inr es f by (intro scheduled) (simp_all add: Run_def Load_def)
  next
    case (Some x)
    then show thesis using assms Inr es by (intro unscheduled [of s]) (auto simp: Run_def Load_def)
  qed
qed

lemma Run_run:
  assumes "Run e en sid w = (err, Some s', w')" "0 \<le> w_now w"
  obtains s where "GetSnipe (store_io e w) sid (w_db w) = Inr s"
    "engine_run e (s, after_store e (w_db w) w) (s', w')"
proof -
  have now1: "0 \<le> w_now (after_store e (w_db w) w)" using assms(2) by (simp add: after_store_def)
  from assms(1) show thesis
  proof (cases rule: Run_cases)
    case (unscheduled s)
    then show thesis using that ensure_scheduled_run by blast
  next
    case (scheduled s s2 w2)
    then have "0 \<le> w_now w2" "engine_run e (s, after_store e (w_db w) w) (s2, w2)"
      using now1 ensure_scheduled_run [OF scheduled(2)] by linarith+
    then show thesis using that scheduled fire_when_due_run by (meson rtranclp_trans)
  qed
qed

end
