(* ===== verification/EngineInv.thy ===== *)
theory EngineInv
  imports EngineFacts
begin

text \<open>
  The invariants of the engine's runs: the state in memory is the persisted one
  (\<open>persisted\<close>), the notifications and the event log grow by the same walk of the table
  (\<open>walk\<close>), and no other snipe is touched. The locale \<open>step_invariant\<close> lifts what one step
  keeps to whole runs.
\<close>

locale step_invariant =
  fixes step :: "'c \<Rightarrow> 'c \<Rightarrow> bool"
    and inv :: "'c \<Rightarrow> 'c \<Rightarrow> bool"
  assumes inv_refl: "inv c c"
    and inv_trans: "inv a b \<Longrightarrow> inv b c \<Longrightarrow> inv a c"
    and inv_step: "step a b \<Longrightarrow> inv a b"
begin

lemma inv_run: "step\<^sup>*\<^sup>* a b \<Longrightarrow> inv a b"
  by (induction rule: rtranclp.induct) (blast intro: inv_refl inv_trans inv_step)+

end

definition persisted :: "snipe_state \<Rightarrow> event list \<Rightarrow> world \<Rightarrow> bool" where
  "persisted s evs w \<longleftrightarrow> db_ok (w_db w) \<and> snipe_row_ok s \<and> s_events s = [] \<and>
     snipe_at (w_db w) (s_id s) = Some (s\<lparr>s_events := evs\<rparr>)"

fun walk :: "snipe_id \<Rightarrow> status \<Rightarrow> notification list \<Rightarrow> status \<Rightarrow> bool" where
  "walk sid a [] b = (a = b)"
| "walk sid a (n # ns) b = (n_snipe_id n = sid \<and> n_from n = Some a \<and> CanTransition a (n_to n) \<and>
     walk sid (n_to n) ns b)"

lemma walk_append: "walk sid a (ns @ ms) c \<longleftrightarrow> (\<exists>b. walk sid a ns b \<and> walk sid b ms c)"
  by (induction ns arbitrary: a) auto

lemma walk_statuses: "walk sid a ns b \<Longrightarrow> successively CanTransition (a # map n_to ns) \<and> last (a # map n_to ns) = b"
  by (induction ns arbitrary: a) auto

text \<open>What a run may change, whatever the outcomes of the store: time goes on, the snipe keeps
  its identity and intent, the notifications grow by a walk to the new status.\<close>

definition run_frame :: "snipe_state \<times> world \<Rightarrow> snipe_state \<times> world \<Rightarrow> bool" where
  "run_frame a b \<longleftrightarrow> w_now (snd a) \<le> w_now (snd b) \<and> s_id (fst b) = s_id (fst a) \<and>
     s_intent (fst b) = s_intent (fst a) \<and> s_created_at (fst b) = s_created_at (fst a) \<and>
     s_result (fst b) = s_result (fst a) \<and> w_registry (snd b) = w_registry (snd a) \<and>
     (\<exists>ns. w_emitted (snd b) = w_emitted (snd a) @ ns \<and>
        walk (s_id (fst a)) (s_status (fst a)) ns (s_status (fst b)) \<and>
        (\<forall>n \<in> set ns. w_now (snd a) \<le> ev_at (n_event n) \<and> ev_at (n_event n) \<le> w_now (snd b)))"

lemma persist_swap_cases:
  assumes "persist_swap e s c ev w = (err, s', w')"
  obtains (failed) er where "err = Some (EPersist (s_status s) (s_status c) er)" "s' = s"
      "w' = after_store e (w_db w) w"
      "TransitionSnipe (e_sha e) (store_io e w) c ev (w_db w) = (Some er, w_db w)"
  | (committed) d where "err = None" "s' = c"
      "TransitionSnipe (e_sha e) (store_io e w) c ev (w_db w) = (None, d)"
      "w' = emit \<lparr>n_snipe_id = s_id c, n_from = Some (s_status s), n_to = s_status c, n_event = ev\<rparr> (after_store e d w)"
proof (cases "TransitionSnipe (e_sha e) (store_io e w) c ev (w_db w)")
  case (Pair r d)
  show thesis
  proof (cases r)
    case None
    then show thesis using assms Pair by (intro committed) (auto simp: persist_swap_def)
  next
    case (Some er)
    moreover have "d = w_db w" using Pair Some transition_op.failed_keeps by blast
    ultimately show thesis using assms Pair by (intro failed [of er]) (auto simp: persist_swap_def)
  qed
qed

lemma engine_step_frame: "engine_step e a b \<Longrightarrow> run_frame a b"
proof (induction rule: engine_step.induct)
  case (moved s c w ev err s' w')
  from moved.hyps(10) show ?case
  proof (cases rule: persist_swap_cases)
    case (failed er)
    then show ?thesis by (simp add: run_frame_def)
  next
    case (committed d)
    then have "w_emitted w' = w_emitted w @ [\<lparr>n_snipe_id = s_id c, n_from = Some (s_status s),
        n_to = s_status c, n_event = ev\<rparr>]" "s' = c" "w_now w \<le> w_now w'" "w_registry w' = w_registry w"
      by simp_all
    then show ?thesis using moved.hyps by (simp add: run_frame_def)
  qed
next
  case (quiet w w' s)
  then show ?case by (simp add: run_frame_def)
qed

interpretation run_inv: step_invariant "engine_step e" run_frame for e
proof
  show "run_frame c c" for c by (simp add: run_frame_def)
  show "run_frame a c" if ab: "run_frame a b" and bc: "run_frame b c" for a b c :: "snipe_state \<times> world"
  proof -
    obtain ns where 1: "w_emitted (snd b) = w_emitted (snd a) @ ns"
      "walk (s_id (fst a)) (s_status (fst a)) ns (s_status (fst b))"
      "\<forall>n \<in> set ns. w_now (snd a) \<le> ev_at (n_event n) \<and> ev_at (n_event n) \<le> w_now (snd b)"
      using ab by (auto simp: run_frame_def)
    obtain ms where 2: "w_emitted (snd c) = w_emitted (snd b) @ ms"
      "walk (s_id (fst b)) (s_status (fst b)) ms (s_status (fst c))"
      "\<forall>n \<in> set ms. w_now (snd b) \<le> ev_at (n_event n) \<and> ev_at (n_event n) \<le> w_now (snd c)"
      using bc by (auto simp: run_frame_def)
    have le: "w_now (snd a) \<le> w_now (snd b)" "w_now (snd b) \<le> w_now (snd c)"
      and same: "s_id (fst b) = s_id (fst a)" using ab bc by (simp_all add: run_frame_def)
    have "w_emitted (snd c) = w_emitted (snd a) @ ns @ ms" using 1 2 by simp
    moreover have "walk (s_id (fst a)) (s_status (fst a)) (ns @ ms) (s_status (fst c))"
      using 1 2 same by (auto simp: walk_append)
    moreover have "\<forall>n \<in> set (ns @ ms). w_now (snd a) \<le> ev_at (n_event n) \<and> ev_at (n_event n) \<le> w_now (snd c)"
      using 1(3) 2(3) le by (auto intro: order_trans)
    ultimately show ?thesis using ab bc unfolding run_frame_def by (auto intro: order_trans)
  qed
qed (rule engine_step_frame)

section \<open>Memory and database\<close>

definition db_frame :: "snipe_state \<times> world \<Rightarrow> snipe_state \<times> world \<Rightarrow> bool" where
  "db_frame a b \<longleftrightarrow> run_frame a b \<and>
     (0 \<le> w_now (snd a) \<and> rfc_range (w_now (snd b)) \<longrightarrow> (\<forall>evs. persisted (fst a) evs (snd a) \<longrightarrow>
        (\<exists>ns. w_emitted (snd b) = w_emitted (snd a) @ ns \<and>
           persisted (fst b) (evs @ map n_event ns) (snd b)) \<and>
        (\<forall>k. k \<noteq> s_id (fst a) \<longrightarrow> snipe_at (w_db (snd b)) k = snipe_at (w_db (snd a)) k)))"

lemma snipe_at_same_rows:
  "db_snipes d' = db_snipes d \<Longrightarrow> db_events d' = db_events d \<Longrightarrow> snipe_at d' k = snipe_at d k"
  by (rule snipe_at_cong) (simp_all add: find_snipe_def)

lemma db_ok_same_rows: "db_snipes d' = db_snipes d \<Longrightarrow> db_events d' = db_events d \<Longrightarrow> db_ok d' = db_ok d"
  by (simp add: db_ok_def)

lemma persisted_move:
  assumes p: "persisted s evs w"
    and c: "s_id c = s_id s" "s_created_at c = s_created_at s" "s_events c = []" "snipe_row_ok c" "event_row_ok ev"
    and run: "TransitionSnipe sha io c ev (w_db w) = (None, d)" and w': "w_db w' = d"
  shows "persisted c (evs @ [ev]) w' \<and> (\<forall>k. k \<noteq> s_id s \<longrightarrow> snipe_at d k = snipe_at (w_db w) k)"
proof -
  have ok: "db_ok (w_db w)" and at: "snipe_at (w_db w) (s_id s) = Some (s\<lparr>s_events := evs\<rparr>)"
    using p by (simp_all add: persisted_def)
  have eq: "snipe_at d = abs_transition c ev (snipe_at (w_db w))"
    by (rule TransitionSnipe_refines [OF run c(4,5) ok])
  have "snipe_at d (s_id c) = Some (c\<lparr>s_events := evs @ [ev]\<rparr>)"
    using at c by (simp add: eq abs_transition_def)
  moreover have "db_ok d" by (rule TransitionSnipe_db_ok [OF run c(4,5) ok])
  ultimately show ?thesis
    using c at by (simp add: persisted_def w' eq abs_transition_def)
qed

lemma engine_step_db_frame: "engine_step e a b \<Longrightarrow> db_frame a b"
proof (induction rule: engine_step.induct)
  case (moved s c w ev err s' w')
  have frame: "run_frame (s, w) (s', w')" by (rule engine_step_frame [OF engine_step.moved [OF moved.hyps]])
  then have now: "w_now w \<le> w_now w'" by (simp add: run_frame_def)
  from moved.hyps(10) show ?case
  proof (cases rule: persist_swap_cases)
    case (failed er)
    then show ?thesis using frame by (auto simp: db_frame_def persisted_def)
  next
    case (committed d)
    have "persisted c (evs @ [ev]) w' \<and> (\<forall>k. k \<noteq> s_id s \<longrightarrow> snipe_at d k = snipe_at (w_db w) k)"
      if p: "persisted s evs w" and t: "0 \<le> w_now w" "rfc_range (w_now w')" for evs
    proof (rule persisted_move [OF p moved.hyps(2,4) _ _ _ committed(3)])
      have r: "rfc_range (w_now w)" by (rule rfc_range_upto [OF t(1) now t(2)])
      have s: "snipe_row_ok s" "s_events s = []" using p by (simp_all add: persisted_def)
      then have ok: "(\<forall>(k, v) \<in> set (ev_attrs ev). valid_utf8 k \<and> attr_ok v) \<and> rfc_range (s_scheduled_at c)"
        using moved.hyps(9) r by (simp add: snipe_row_ok_def)
      show "s_events c = []" using s moved.hyps(5) by simp
      show "snipe_row_ok c" using s moved.hyps ok r by (simp add: snipe_row_ok_def)
      show "event_row_ok ev" using ok r moved.hyps(8) by (simp add: event_row_ok_def)
      show "w_db w' = d" using committed by simp
    qed
    then show ?thesis using frame committed by (auto simp: db_frame_def)
  qed
next
  case (quiet w w' s)
  have "run_frame (s, w) (s, w')" by (rule engine_step_frame [OF engine_step.quiet [OF quiet.hyps]])
  then show ?case
    using quiet snipe_at_same_rows [OF quiet(2,3)] db_ok_same_rows [OF quiet(2,3)]
    by (auto simp: db_frame_def persisted_def)
qed

lemma db_frame_trans:
  assumes "db_frame a b" "db_frame b c"
  shows "db_frame a c"
proof -
  have fr: "run_frame a b" "run_frame b c" using assms by (simp_all add: db_frame_def)
  then have ac: "run_frame a c" by (rule run_inv.inv_trans)
  have "(\<exists>ns. w_emitted (snd c) = w_emitted (snd a) @ ns \<and> persisted (fst c) (evs @ map n_event ns) (snd c)) \<and>
        (\<forall>k. k \<noteq> s_id (fst a) \<longrightarrow> snipe_at (w_db (snd c)) k = snipe_at (w_db (snd a)) k)"
    if t: "0 \<le> w_now (snd a)" "rfc_range (w_now (snd c))" and p: "persisted (fst a) evs (snd a)" for evs
  proof -
    have le: "w_now (snd a) \<le> w_now (snd b)" "w_now (snd b) \<le> w_now (snd c)"
      and sid: "s_id (fst b) = s_id (fst a)" using fr by (simp_all add: run_frame_def)
    have b: "0 \<le> w_now (snd b)" using t le by linarith
    have "rfc_range (w_now (snd b))" by (rule rfc_range_upto [OF b le(2) t(2)])
    then obtain ns where 1: "w_emitted (snd b) = w_emitted (snd a) @ ns" "persisted (fst b) (evs @ map n_event ns) (snd b)"
      "\<forall>k. k \<noteq> s_id (fst a) \<longrightarrow> snipe_at (w_db (snd b)) k = snipe_at (w_db (snd a)) k"
      using assms(1) t(1) p unfolding db_frame_def by blast
    obtain ms where 2: "w_emitted (snd c) = w_emitted (snd b) @ ms"
      "persisted (fst c) ((evs @ map n_event ns) @ map n_event ms) (snd c)"
      "\<forall>k. k \<noteq> s_id (fst b) \<longrightarrow> snipe_at (w_db (snd c)) k = snipe_at (w_db (snd b)) k"
      using assms(2) b t(2) 1(2) unfolding db_frame_def by blast
    show ?thesis
    proof (rule conjI)
      show "\<exists>ns. w_emitted (snd c) = w_emitted (snd a) @ ns \<and> persisted (fst c) (evs @ map n_event ns) (snd c)"
        using 1 2 by (intro exI [of _ "ns @ ms"]) simp
    qed (use 1 2 sid in simp)
  qed
  then show ?thesis using ac by (simp add: db_frame_def)
qed

interpretation db_inv: step_invariant "engine_step e" db_frame for e
proof
  show "db_frame c c" for c
    using run_inv.inv_refl by (auto simp: db_frame_def)
qed (fact db_frame_trans engine_step_db_frame)+

lemma GetSnipe_persisted:
  assumes "db_ok d" "GetSnipe io sid d = Inr s" "w_db w = d"
  shows "\<exists>evs. persisted s evs w \<and> s_id s = sid"
proof -
  obtain r where r: "find_snipe sid d = Some r" "scanSnipeRow r = Inr s"
    using assms(2) by (auto simp: GetSnipe_def split: option.splits)
  obtain evs where evs: "map_result scan_event (filter (\<lambda>e. er_snipe_id e = sid) (db_events d)) = Inr evs"
    using map_result_total [of "filter (\<lambda>e. er_snipe_id e = sid) (db_events d)" scan_event] assms(1)
    by (auto simp: db_ok_def)
  have rid: "r \<in> set (db_snipes d)" "r_id r = sid" using find_snipe_Some [OF r(1)] by auto
  then have "snipe_row_ok s" using assms(1) r(2) unfolding db_ok_def by fastforce
  then show ?thesis
    using assms r evs rid scanSnipeRow_created [OF r(2)] by (auto simp: persisted_def snipe_at_unfold)
qed

end
