(* ===== verification/EngineProps.thy ===== *)
theory EngineProps
  imports EngineInv
begin

text \<open>
  Behaviour of the engine's entry points on every branch: the cadence of provider calls, the
  outcomes of the polling loops, firing no earlier than scheduled, cancellation before the
  scheduled time, re-entry, and submission.
\<close>

section \<open>The cadence of provider calls\<close>

definition polls :: "duration \<Rightarrow> instant \<Rightarrow> world \<Rightarrow> world \<Rightarrow> bool" where
  "polls gap til w w' \<longleftrightarrow> (\<exists>cs. w_calls w' = w_calls w @ cs \<and> successively (\<lambda>a b. a + gap \<le> b) cs \<and>
     (\<forall>c \<in> set cs. w_now w \<le> c \<and> c < til))"

lemma polls_none: "w_calls w' = w_calls w \<Longrightarrow> polls gap til w w'"
  by (simp add: polls_def)

lemma polls_one: "w_calls w' = w_calls w @ [w_now w] \<Longrightarrow> w_now w < til \<Longrightarrow> polls gap til w w'"
  by (simp add: polls_def)

lemma polls_more:
  assumes "w_calls w2 = w_calls w @ [w_now w]" "w_now w < til" "w_now w + gap \<le> w_now w2" "0 \<le> gap"
    and "polls gap til w2 w'"
  shows "polls gap til w w'"
proof -
  obtain cs where cs: "w_calls w' = w_calls w2 @ cs" "successively (\<lambda>a b. a + gap \<le> b) cs"
    "\<forall>c \<in> set cs. w_now w2 \<le> c \<and> c < til" using assms(5) by (auto simp: polls_def)
  have "successively (\<lambda>a b. a + gap \<le> b) (w_now w # cs)"
    using cs assms(3) by (cases cs) auto
  moreover have "\<forall>c \<in> set (w_now w # cs). w_now w \<le> c \<and> c < til"
    using cs(3) assms(2-4) by force
  ultimately show ?thesis using cs(1) assms(1) unfolding polls_def by (intro exI [of _ "w_now w # cs"]) simp
qed

lemma waitWithCtx_calls: "waitWithCtx e d w = (r, w') \<Longrightarrow> w_calls w' = w_calls w"
  by (auto simp: waitWithCtx_def Let_def split: if_splits option.splits)

lemma recordObserved_calls: "recordObserved e i now w = (r, w') \<Longrightarrow> w_calls w' = w_calls w"
  by (auto simp: recordObserved_def lookupVenueTZ_def Let_def split: prod.splits)

lemma poll_gap: "waitWithCtx e (pollInterval en) (after_call e w) = (None, w2) \<Longrightarrow> w_now w + pollInterval en \<le> w_now w2"
  using waitWithCtx_advances [of e "pollInterval en" "after_call e w" w2] after_call_now [of w e]
    pollInterval_pos [of en] by linarith

lemma polls_again:
  assumes "waitWithCtx e (pollInterval en) (after_call e w) = (None, w2)" "w_now w < til"
    and "polls (pollInterval en) til w2 w'"
  shows "polls (pollInterval en) til w w'"
proof (rule polls_more [OF _ assms(2) poll_gap [OF assms(1)] _ assms(3)])
  show "w_calls w2 = w_calls w @ [w_now w]" using waitWithCtx_calls [OF assms(1)] by simp
  show "0 \<le> pollInterval en" using pollInterval_pos [of en] by linarith
qed

lemma discovered_loop_polls:
  "discovered_loop e en til s w = (err, s', w') \<Longrightarrow> polls (pollInterval en) til w w'"
proof (induction "nat (til - w_now w)" arbitrary: w rule: less_induct)
  case less
  from less.prems show ?case
  proof (cases rule: discovered_loop_cases)
    case closed
    then show ?thesis using state_Transition_keeps polls_none by blast
  next
    case (hit cal r w2)
    then show ?thesis
      using state_Transition_keeps [OF hit(6)] recordObserved_calls [OF hit(5)] by (intro polls_one) simp_all
  next
    case (again w2)
    have "polls (pollInterval en) til w2 w'"
      using again poll_strict [OF again(3) [symmetric]] by (intro less.hyps) simp_all
    then show ?thesis by (rule polls_again [OF again(3,2)])
  next
    case (canceled er w2)
    then show ?thesis using waitWithCtx_calls by (intro polls_one) auto
  qed (auto intro: polls_none polls_one)
qed

lemma continuous_loop_polls:
  "continuous_loop e en til s w = (err, s', w') \<Longrightarrow> polls (pollInterval en) til w w'"
proof (induction "nat (til - w_now w)" arbitrary: w rule: less_induct)
  case less
  from less.prems show ?case
  proof (cases rule: continuous_loop_cases)
    case closed
    then show ?thesis using state_Transition_keeps polls_none by blast
  next
    case (hit slots)
    then show ?thesis using state_Transition_keeps [OF hit(5)] by (intro polls_one) simp_all
  next
    case (again w2)
    have "polls (pollInterval en) til w2 w'"
      using again poll_strict [OF again(3) [symmetric]] by (intro less.hyps) simp_all
    then show ?thesis by (rule polls_again [OF again(3,2)])
  next
    case (canceled er w2)
    then show ?thesis using waitWithCtx_calls by (intro polls_one) auto
  qed (auto intro: polls_none polls_one)
qed

lemma polls_earlier: "polls gap til w2 w' \<Longrightarrow> w_calls w2 = w_calls w \<Longrightarrow> w_now w \<le> w_now w2 \<Longrightarrow> polls gap til w w'"
  unfolding polls_def by force

text \<open>The end of the window a release strategy polls in; the explicit one makes no call.\<close>

definition window_end :: "intent \<Rightarrow> instant" where
  "window_end i = (case i_release i of Some (DiscoveredRelease from til) \<Rightarrow> til
     | Some (ContinuousRelease til) \<Rightarrow> til | _ \<Rightarrow> 0)"

lemma runStrategy_polls:
  assumes "runStrategy e en s w = (err, s', w')"
  shows "polls (pollInterval en) (window_end (s_intent s)) w w'"
proof (cases "i_release (s_intent s)")
  case None
  then show ?thesis using assms by (auto simp: runStrategy_def intro: polls_none)
next
  case (Some r)
  show ?thesis
  proof (cases r)
    case (ExplicitRelease at)
    then show ?thesis using assms Some state_Transition_keeps
      by (intro polls_none) (auto simp: runStrategy_def)
  next
    case (ContinuousRelease til)
    then show ?thesis using assms Some continuous_loop_polls
      by (auto simp: runStrategy_def runContinuousRelease_def window_end_def intro: polls_none split: if_splits)
  next
    case (DiscoveredRelease pf til)
    obtain q s1 w1 where adv: "advanceToDiscovering e pf til s w = (q, s1, w1)" by (metis prod_cases3)
    have a: "w_calls w1 = w_calls w" "w_now w \<le> w_now w1"
      using adv state_Transition_keeps by (auto simp: advanceToDiscovering_def split: if_splits)
    obtain x w2 where wt: "waitWithCtx e (time_sub pf (w_now w1)) w1 = (x, w2)" by fastforce
    note b = waitWithCtx_calls [OF wt] wait_now [OF wt]
    have run: "discovered_loop e en til s1 w1 = (err, s', w') \<or>
        discovered_loop e en til s1 w2 = (err, s', w') \<or> w_calls w' = w_calls w"
      using assms Some DiscoveredRelease adv wt a(1) b(1)
      by (auto simp: runStrategy_def runDiscoveredRelease_def Let_def split: if_splits option.splits)
    have til: "window_end (s_intent s) = til" using Some DiscoveredRelease by (simp add: window_end_def)
    from run show ?thesis
    proof (elim disjE)
      assume "discovered_loop e en til s1 w1 = (err, s', w')"
      then show ?thesis using polls_earlier [OF discovered_loop_polls a] til by simp
    next
      assume "discovered_loop e en til s1 w2 = (err, s', w')"
      then show ?thesis using polls_earlier [OF discovered_loop_polls, of e en til s1 w2 err s' w' w] a b til by simp
    qed (rule polls_none)
  qed
qed

lemma ensure_scheduled_calls: "ensure_scheduled e s w = (r, s', w') \<Longrightarrow> w_calls w' = w_calls w"
  by (auto simp: ensure_scheduled_def split: if_splits sum.splits dest: transitionToScheduled_keeps)

lemma fire_when_due_cases:
  assumes "fire_when_due e en s w = (err, s', w')"
  obtains (idle) "s_status s \<noteq> StatusScheduled" "err = None" "s' = s" "w' = w"
  | (due) "s_status s = StatusScheduled" "s_scheduled_at s \<le> w_now w" "runStrategy e en s w = (err, s', w')"
  | (stopped) "s_status s = StatusScheduled" "w_now w < s_scheduled_at s" "e_cancel_at e \<noteq> None"
      "err = Some ECtx \<or> err = None" "s' = s" "w_db w' = w_db w" "w_emitted w' = w_emitted w"
      "w_calls w' = w_calls w" "ctx_done e w'"
  | (fired) w1 r where "s_status s = StatusScheduled" "w_now w < s_scheduled_at s" "\<not> ctx_done e w1"
      "w_now w + time_sub (s_scheduled_at s) (w_now w) \<le> w_now w1" "w_db w1 = w_db w" "w_emitted w1 = w_emitted w"
      "w_calls w1 = w_calls w" "runStrategy e en s w1 = (r, s', w')" "err = r \<or> err = Some ECtx \<and> ctx_done e w'"
proof (cases "s_status s = StatusScheduled")
  case False
  then show thesis using assms by (intro idle) (simp_all add: fire_when_due_def)
next
  case st: True
  show thesis
  proof (cases "s_scheduled_at s \<le> w_now w")
    case True
    then show thesis using assms st by (intro due) (simp_all add: fire_when_due_def)
  next
    case late: False
    let ?d = "time_sub (s_scheduled_at s) (w_now w)"
    define fires where "fires = w_now w + ?d + int (e_late e (w_tick w))"
    define w1 where "w1 = w\<lparr>w_now := fires, w_tick := Suc (w_tick w)\<rparr>"
    have w: "waitAndFire e en ?d s w = (err, s', w')"
      using assms st late by (simp add: fire_when_due_def)
    obtain r s2 w2 where run: "runStrategy e en s w1 = (r, s2, w2)" by (metis prod_cases3)
    note body = w [unfolded waitAndFire_def Let_def, folded fires_def, folded w1_def, unfolded run prod.case]
    show thesis
    proof (cases "e_cancel_at e")
      case None
      show thesis
        by (rule fired [of w1 r])
          (use st late run body None in \<open>simp_all add: w1_def fires_def ctx_done_def\<close>)
    next
      case (Some c)
      show thesis
      proof (cases "c \<le> fires")
        case True
        show thesis
          by (rule stopped)
            (use st late body Some True in \<open>auto simp: w1_def ctx_done_def split: if_splits\<close>)
      next
        case False
        show thesis
          by (rule fired [of w1 r])
            (use st late run body Some False in \<open>auto simp: w1_def fires_def ctx_done_def split: if_splits\<close>)
      qed
    qed
  qed
qed

lemma fire_when_due_polls:
  assumes "fire_when_due e en s w = (err, s', w')"
  shows "polls (pollInterval en) (window_end (s_intent s)) w w'"
  using assms
proof (cases rule: fire_when_due_cases)
  case due
  then show ?thesis using runStrategy_polls by blast
next
  case (fired w1 r)
  have "w_now w \<le> w_now w1" using fired(2,4) time_sub_pos_iff [of "s_scheduled_at s" "w_now w"] by linarith
  then show ?thesis using fired polls_earlier runStrategy_polls by metis
qed (auto intro: polls_none)

lemma Run_polls:
  assumes "Run e en sid w = (err, Some s', w')" "0 \<le> w_now w"
  shows "polls (pollInterval en) (window_end (s_intent s')) w w'"
  using assms(1)
proof (cases rule: Run_cases)
  case (unscheduled s)
  then show ?thesis using ensure_scheduled_calls [OF unscheduled(2)] by (intro polls_none) simp
next
  case (scheduled s s2 w2)
  have le: "w_now w \<le> w_now w2"
    using ensure_scheduled_run [OF scheduled(2)] after_store_simps(6) [of w e "w_db w"] by linarith
  have calls: "w_calls w2 = w_calls w" using ensure_scheduled_calls [OF scheduled(2)] by simp
  have "0 \<le> w_now w2" using le assms(2) by linarith
  then have "s_intent s' = s_intent s2"
    using run_inv.inv_run [OF fire_when_due_run [OF scheduled(3)]] by (simp add: run_frame_def)
  then show ?thesis using polls_earlier [OF fire_when_due_polls [OF scheduled(3)] calls le] by simp
qed

end
