(* ===== verification/EngineLive.thy ===== *)
theory EngineLive
  imports EngineProps
begin

text \<open>
  Outcomes of the engine: what a returned error or nil says about the snipe, and that, in an
  environment without faults, a run ends in a settled status, no earlier than scheduled.
\<close>

section \<open>Outcomes of the loops\<close>

lemma discovered_outcome:
  "discovered_loop e en til s w = (err, s', w') \<Longrightarrow>
   (if err = None then s_status s' = StatusAwaiting \<or> s_status s' = StatusFailed \<and> til \<le> w_now w'
    else s' = s)"
proof (induction "nat (til - w_now w)" arbitrary: w rule: less_induct)
  case less
  from less.prems show ?case
  proof (cases rule: discovered_loop_cases)
    case closed
    then show ?thesis using state_Transition_keeps [OF closed(3)] by auto
  next
    case (hit cal r w2)
    then show ?thesis using state_Transition_keeps [OF hit(6)] by auto
  next
    case (again w2)
    then show ?thesis using poll_strict [OF again(3) [symmetric]] by (intro less.hyps) simp_all
  qed simp_all
qed

lemma continuous_outcome:
  "continuous_loop e en til s w = (err, s', w') \<Longrightarrow>
   (if err = None then s_status s' = StatusAwaiting \<or> s_status s' = StatusExpired \<and> til \<le> w_now w'
    else s' = s)"
proof (induction "nat (til - w_now w)" arbitrary: w rule: less_induct)
  case less
  from less.prems show ?case
  proof (cases rule: continuous_loop_cases)
    case closed
    then show ?thesis using state_Transition_keeps [OF closed(3)] by auto
  next
    case (hit slots)
    then show ?thesis using state_Transition_keeps [OF hit(5)] by auto
  next
    case (again w2)
    then show ?thesis using poll_strict [OF again(3) [symmetric]] by (intro less.hyps) simp_all
  qed simp_all
qed

section \<open>Fault-free environments\<close>

definition live_env :: "env \<Rightarrow> bool" where
  "live_env e \<longleftrightarrow> e_cancel_at e = None \<and> (\<forall>n. e_io e n = io_ok)"

definition answers :: "env \<Rightarrow> bool" where
  "answers e \<longleftrightarrow> (\<forall>n ref r. \<not> isl (e_calendar e n ref r)) \<and>
     (\<forall>n req. case e_find e n req of Inl p \<Rightarrow> pe_is p = Some ErrInventoryEmpty | Inr _ \<Rightarrow> True)"

lemma live_env_simps:
  "live_env e \<Longrightarrow> ctx_done e w = False" "live_env e \<Longrightarrow> store_io e w = io_ok"
  by (simp_all add: live_env_def ctx_done_def store_io_def)

lemma live_wait: "live_env e \<Longrightarrow> waitWithCtx e d w \<noteq> (Some er, w')"
  by (simp add: live_env_def waitWithCtx_def Let_def)

lemma live_state_Transition:
  assumes run: "state_Transition e to et attrs s w = (err, s', w')"
    and "live_env e" "persisted s evs w" "CanTransition (s_status s) to" "rfc_range (w_now w)"
  shows "err = None"
proof -
  let ?c = "s\<lparr>s_status := to, s_updated_at := w_now w\<rparr>"
  let ?ev = "\<lparr>ev_type = et, ev_at = w_now w, ev_attrs = (LogKeySnipeID, AString (s_id s)) # attrs\<rparr>"
  have "snipe_row_ok ?c" "db_ok (w_db w)" "snipe_at (w_db w) (s_id ?c) \<noteq> None"
    using assms by (simp_all add: persisted_def snipe_row_ok_def)
  then obtain d where "TransitionSnipe (e_sha e) io_ok ?c ?ev (w_db w) = (None, d)"
    using TransitionSnipe_total by blast
  then show ?thesis
    using assms by (simp add: state_Transition_def persist_swap_def live_env_simps Let_def)
qed

lemma persisted_same_rows:
  "persisted s evs w \<Longrightarrow> db_snipes (w_db w') = db_snipes (w_db w) \<Longrightarrow> db_events (w_db w') = db_events (w_db w) \<Longrightarrow>
   persisted s evs w'"
  using snipe_at_same_rows db_ok_same_rows unfolding persisted_def by metis

lemma wait_rows:
  "waitWithCtx e d w = (r, w') \<Longrightarrow> w_db w' = w_db w"
  by (auto simp: waitWithCtx_def Let_def split: if_splits option.splits)

lemma record_rows:
  assumes "recordObserved e i now w = (r, w')"
  shows "db_snipes (w_db w') = db_snipes (w_db w)" "db_events (w_db w') = db_events (w_db w)"
  using assms UpsertObserved_frame
  by (auto simp: recordObserved_def lookupVenueTZ_def Let_def split: prod.splits)

lemma discovered_live:
  "discovered_loop e en til s w = (err, s', w') \<Longrightarrow> live_env e \<Longrightarrow> answers e \<Longrightarrow> persisted s evs w \<Longrightarrow>
   s_status s = StatusDiscovering \<Longrightarrow> 0 \<le> w_now w \<Longrightarrow> rfc_range (w_now w') \<Longrightarrow> err = None"
proof (induction "nat (til - w_now w)" arbitrary: w rule: less_induct)
  case less
  note live = \<open>live_env e\<close>
  from less.prems(1) show ?case
  proof (cases rule: discovered_loop_cases)
    case closed
    have "rfc_range (w_now w)"
      using state_Transition_keeps [OF closed(3)] less.prems rfc_range_upto by blast
    then show ?thesis
      using less.prems(5) by (intro live_state_Transition [OF closed(3) live less.prems(4)]) (simp_all add: transition_table)
  next
    case (hit cal r w2)
    have p2: "persisted s evs w2"
      using persisted_same_rows [OF less.prems(4)] record_rows [OF hit(5)] by simp
    have "0 \<le> w_now w2" "w_now w2 \<le> w_now w'"
      using less.prems(6) after_call_now [of w e] record_now [OF hit(5)] state_Transition_keeps [OF hit(6)]
      by linarith+
    then have "rfc_range (w_now w2)" using less.prems(7) rfc_range_upto by blast
    then show ?thesis
      using less.prems(5) by (intro live_state_Transition [OF hit(6) live p2]) (simp_all add: transition_table)
  next
    case (again w2)
    have "persisted s evs w2" "0 \<le> w_now w2"
      using persisted_same_rows [OF less.prems(4)] wait_rows [OF again(3)] less.prems(6) poll_strict [OF again(3) [symmetric]]
      by simp_all
    then show ?thesis
      using again less.prems poll_strict [OF again(3) [symmetric]] by (intro less.hyps [OF _ again(4)]) simp_all
  next
    case (error p)
    then show ?thesis using \<open>answers e\<close> unfolding answers_def by (metis sum.disc(1))
  qed (use live live_env_simps live_wait in blast)+
qed

lemma continuous_live:
  "continuous_loop e en til s w = (err, s', w') \<Longrightarrow> live_env e \<Longrightarrow> answers e \<Longrightarrow> persisted s evs w \<Longrightarrow>
   s_status s = StatusScheduled \<Longrightarrow> 0 \<le> w_now w \<Longrightarrow> rfc_range (w_now w') \<Longrightarrow> err = None"
proof (induction "nat (til - w_now w)" arbitrary: w rule: less_induct)
  case less
  note live = \<open>live_env e\<close>
  from less.prems(1) show ?case
  proof (cases rule: continuous_loop_cases)
    case closed
    have "rfc_range (w_now w)"
      using state_Transition_keeps [OF closed(3)] less.prems rfc_range_upto by blast
    then show ?thesis
      using less.prems(5) by (intro live_state_Transition [OF closed(3) live less.prems(4)]) (simp_all add: transition_table)
  next
    case (hit slots)
    have p2: "persisted s evs (after_call e w)"
      using persisted_same_rows [OF less.prems(4)] by simp
    have "0 \<le> w_now (after_call e w)" "w_now (after_call e w) \<le> w_now w'"
      using less.prems(6) after_call_now [of w e] state_Transition_keeps [OF hit(5)] by linarith+
    then have "rfc_range (w_now (after_call e w))" using less.prems(7) rfc_range_upto by blast
    then show ?thesis
      using less.prems(5) by (intro live_state_Transition [OF hit(5) live p2]) (simp_all add: transition_table)
  next
    case (again w2)
    have "persisted s evs w2" "0 \<le> w_now w2"
      using persisted_same_rows [OF less.prems(4)] wait_rows [OF again(3)] less.prems(6) poll_strict [OF again(3) [symmetric]]
      by simp_all
    then show ?thesis
      using again less.prems poll_strict [OF again(3) [symmetric]] by (intro less.hyps [OF _ again(4)]) simp_all
  next
    case (error p)
    have "case find_answer e s w of Inl p \<Rightarrow> pe_is p = Some ErrInventoryEmpty | Inr _ \<Rightarrow> True"
      using \<open>answers e\<close> unfolding answers_def by blast
    then show ?thesis using error(3,4) by simp
  qed (use live live_env_simps live_wait in blast)+
qed

section \<open>A whole run\<close>

text \<open>The statuses a run of a scheduled snipe settles in, by strategy.\<close>

definition settled :: "intent \<Rightarrow> status \<Rightarrow> bool" where
  "settled i st = (case i_release i of
       Some (ExplicitRelease at) \<Rightarrow> st = StatusAwaiting
     | Some (DiscoveredRelease from til) \<Rightarrow> st = StatusAwaiting \<or> st = StatusFailed
     | Some (ContinuousRelease til) \<Rightarrow> st = StatusAwaiting \<or> st = StatusExpired
     | None \<Rightarrow> False)"

text \<open>The strategies that pass the checks at their start.\<close>

definition release_valid :: "engine \<Rightarrow> intent \<Rightarrow> bool" where
  "release_valid en i = (case i_release i of
       Some (ExplicitRelease at) \<Rightarrow> True
     | Some (DiscoveredRelease from til) \<Rightarrow> en_has_provider en \<and> from \<noteq> 0 \<and> til \<noteq> 0 \<and> from < til
     | Some (ContinuousRelease til) \<Rightarrow> en_has_provider en \<and> til \<noteq> 0
     | None \<Rightarrow> False)"

lemma runDiscovered_live:
  assumes run: "runDiscoveredRelease e en from til s w = (err, s', w')"
    and env: "live_env e" "answers e" and p: "persisted s evs w" "s_status s = StatusScheduled"
    and rel: "i_release (s_intent s) = Some (DiscoveredRelease from til)" "from \<noteq> 0" "til \<noteq> 0" "from < til"
    and t: "0 \<le> w_now w" "rfc_range (w_now w')"
  shows "err = None \<and> (s_status s' = StatusAwaiting \<or> s_status s' = StatusFailed)"
proof -
  obtain q s1 w1 where adv: "state_Transition e StatusDiscovering EventDiscovered
      [venue_attr s, (''probe_from'', ATime from), (''probe_until'', ATime til)] s w = (q, s1, w1)"
    by (metis prod_cases3)
  obtain x w2 where wt: "waitWithCtx e (time_sub from (w_now w1)) w1 = (x, w2)" by fastforce
  have x: "x = None" using wt live_wait [OF env(1)] by (cases x) auto
  note body = run [unfolded runDiscoveredRelease_def advanceToDiscovering_def Let_def]
  have "s_status s \<noteq> StatusDiscovering" using p(2) by simp
  then have loop: "q = None \<Longrightarrow> \<exists>w3. discovered_loop e en til s1 w3 = (err, s', w') \<and> w_db w3 = w_db w1 \<and> w_now w1 \<le> w_now w3"
    using body adv rel wt x wait_rows [OF wt] wait_now [OF wt] by (auto simp: is_zero_def split: if_splits)
  have w': "q \<noteq> None \<Longrightarrow> w' = w1"
    using body adv rel \<open>s_status s \<noteq> StatusDiscovering\<close> by (auto simp: is_zero_def)
  have keep: "w_now w \<le> w_now w1" using state_Transition_keeps [OF adv] by blast
  have le: "w_now w1 \<le> w_now w'"
  proof (cases "q = None")
    case True
    then obtain w3 where w3: "discovered_loop e en til s1 w3 = (err, s', w')" "w_now w1 \<le> w_now w3" using loop by blast
    have "engine_run e (s1, w3) (s', w')"
      using p rel state_Transition_keeps [OF adv] w3 keep t(1)
      by (intro discovered_loop_run [OF w3(1)]) (auto simp: intent_row_ok_def release_ok_def)
    then show ?thesis using run_inv.inv_run w3(2) by (fastforce simp: run_frame_def)
  qed (simp add: w')
  have r1: "rfc_range (w_now w)" "rfc_range (w_now w1)"
    using rfc_range_upto [of "w_now w" "w_now w'"] rfc_range_upto [of "w_now w1" "w_now w'"] keep le t by simp_all
  have q: "q = None"
    using p(2) by (intro live_state_Transition [OF adv env(1) p(1) _ r1(1)]) (simp add: transition_table)
  have rr: "rfc_range from" "rfc_range til"
    using p(1) rel(1) by (simp_all add: persisted_def snipe_row_ok_def intent_row_ok_def release_ok_def)
  have "db_frame (s, w) (s1, w1)"
    by (rule db_inv.inv_run [OF state_Transition_step [OF adv]]) (use rr in simp)
  then obtain evs1 where p1: "persisted s1 evs1 w1"
    using p(1) t(1) r1(2) by (auto simp: db_frame_def)
  obtain w3 where w3: "discovered_loop e en til s1 w3 = (err, s', w')" "w_db w3 = w_db w1" "w_now w1 \<le> w_now w3"
    using loop [OF q] by blast
  have "persisted s1 evs1 w3" using persisted_same_rows [OF p1] w3(2) by simp
  moreover have "s_status s1 = StatusDiscovering" using state_Transition_keeps [OF adv] q by simp
  ultimately have "err = None"
    using discovered_live [OF w3(1) env] t keep w3(3) by simp
  then show ?thesis using discovered_outcome [OF w3(1)] by auto
qed

lemma runStrategy_live:
  assumes run: "runStrategy e en s w = (err, s', w')"
    and env: "live_env e" "answers e" and p: "persisted s evs w" "s_status s = StatusScheduled"
    and rel: "release_valid en (s_intent s)" and t: "0 \<le> w_now w" "rfc_range (w_now w')"
  shows "err = None \<and> settled (s_intent s) (s_status s')"
proof (cases "i_release (s_intent s)")
  case None
  then show ?thesis using rel by (simp add: release_valid_def)
next
  case (Some r)
  show ?thesis
  proof (cases r)
    case (ExplicitRelease at)
    then have tr: "state_Transition e StatusAwaiting EventReleased [venue_attr s] s w = (err, s', w')"
      using run Some by (simp add: runStrategy_def)
    have "rfc_range (w_now w)"
      using state_Transition_keeps [OF tr] t rfc_range_upto by blast
    then have "err = None"
      using p(2) by (intro live_state_Transition [OF tr env(1) p(1)]) (simp_all add: transition_table)
    then show ?thesis using state_Transition_keeps [OF tr] Some ExplicitRelease by (simp add: settled_def)
  next
    case (DiscoveredRelease pf til)
    then show ?thesis
      using runDiscovered_live [OF _ env p _ _ _ _ t, of en pf til] run rel Some
      by (simp add: runStrategy_def release_valid_def settled_def)
  next
    case (ContinuousRelease til)
    then have "continuous_loop e en til s w = (err, s', w')"
      using run rel Some by (simp add: runStrategy_def release_valid_def runContinuousRelease_def is_zero_def)
    then show ?thesis
      using continuous_live [OF _ env p t] continuous_outcome [of e en til s w err s' w'] Some ContinuousRelease
      by (auto simp: settled_def)
  qed
qed

lemma live_transitionToScheduled:
  assumes run: "transitionToScheduled e at s w = (err, s', w')"
    and env: "live_env e" and p: "persisted s evs w" "s_status s = StatusSubmitted"
    and t: "rfc_range (w_now w)" "rfc_range at"
  shows "err = None"
proof -
  let ?c = "s\<lparr>s_status := StatusScheduled, s_scheduled_at := at, s_updated_at := w_now w\<rparr>"
  let ?ev = "\<lparr>ev_type = EventScheduled, ev_at = w_now w, ev_attrs = [(LogKeySnipeID, AString (s_id s)),
      (''scheduled_at'', ATime at), (LogKeyVenueRef, AString (venue_ref_string (i_venue (s_intent s))))]\<rparr>"
  have "snipe_row_ok ?c" "db_ok (w_db w)" "snipe_at (w_db w) (s_id ?c) \<noteq> None"
    using p t by (simp_all add: persisted_def snipe_row_ok_def)
  then obtain d where "TransitionSnipe (e_sha e) io_ok ?c ?ev (w_db w) = (None, d)"
    using TransitionSnipe_total by blast
  moreover have "CanTransition (s_status s) StatusScheduled" using p(2) by (simp add: transition_table)
  ultimately show ?thesis
    using run by (simp add: transitionToScheduled_def persist_swap_def live_env_simps [OF env] Let_def)
qed

lemma ensure_scheduled_live:
  assumes run: "ensure_scheduled e s w = (err, s', w')"
    and env: "live_env e" and p: "persisted s evs w" "s_status s \<in> {StatusSubmitted, StatusScheduled}"
    and rel: "release_valid en (s_intent s)" and t: "rfc_range (w_now w)"
  shows "err = None \<and> s_status s' = StatusScheduled"
proof (cases "s_status s = StatusSubmitted")
  case False
  then show ?thesis using run p(2) by (auto simp: ensure_scheduled_def)
next
  case True
  obtain at where at: "scheduledAtFromIntent (s_intent s) w = Inr at"
    using rel by (auto simp: scheduledAtFromIntent_def release_valid_def split: option.splits release_strategy.splits)
  have "release_ok (i_release (s_intent s))"
    using p(1) by (simp add: persisted_def snipe_row_ok_def intent_row_ok_def)
  then have "rfc_range at"
    using at t by (auto simp: scheduledAtFromIntent_def release_ok_def split: option.splits release_strategy.splits)
  moreover have tr: "transitionToScheduled e at s w = (err, s', w')"
    using run True at by (simp add: ensure_scheduled_def)
  ultimately show ?thesis
    using live_transitionToScheduled [OF tr env p(1) True t] transitionToScheduled_keeps [OF tr] by simp
qed

lemma fire_when_due_live:
  assumes run: "fire_when_due e en s w = (err, s', w')"
    and env: "live_env e" "answers e" and p: "persisted s evs w" "s_status s = StatusScheduled"
    and rel: "release_valid en (s_intent s)" and t: "0 \<le> w_now w" "rfc_range (w_now w')"
  shows "err = None \<and> settled (s_intent s) (s_status s')"
  using run
proof (cases rule: fire_when_due_cases)
  case due
  then show ?thesis using runStrategy_live [OF _ env p rel t] by blast
next
  case (fired w1 r)
  have "persisted s evs w1" using persisted_same_rows [OF p(1)] fired(5) by simp
  moreover have "0 \<le> w_now w1" using fired(2,4) t(1) time_sub_pos_iff [of "s_scheduled_at s" "w_now w"] by linarith
  ultimately show ?thesis
    using runStrategy_live [OF fired(8) env _ p(2) rel _ t(2)] fired(9) live_env_simps(1) [OF env(1)] by auto
qed (use p(2) env in \<open>auto simp: live_env_def\<close>)

lemma Run_live:
  assumes run: "Run e en sid w = (err, so, w')"
    and env: "live_env e" "answers e" and d: "db_ok (w_db w)" "snipe_at (w_db w) sid = Some s0"
    and st: "s_status s0 \<in> {StatusSubmitted, StatusScheduled}" and rel: "release_valid en (s_intent s0)"
    and t: "0 \<le> w_now w" "rfc_range (w_now w')"
  shows "err = None \<and> (\<exists>s'. so = Some s' \<and> settled (s_intent s0) (s_status s') \<and>
    (\<exists>evs. persisted s' evs w'))"
proof -
  let ?w1 = "after_store e (w_db w) w"
  obtain s where s: "GetSnipe io_ok sid (w_db w) = Inr s" "s_status s = s_status s0" "s_intent s = s_intent s0"
    using d(2) by (auto simp: snipe_at_def split: sum.splits)
  obtain evs where p: "persisted s evs ?w1"
    using GetSnipe_persisted [OF d(1) s(1), of ?w1] by auto
  obtain q s2 w2 where es: "ensure_scheduled e s ?w1 = (q, s2, w2)" by (metis prod_cases3)
  obtain r s3 w3 where f: "fire_when_due e en s2 w2 = (r, s3, w3)" by (metis prod_cases3)
  have R: "(err, so, w') = (case q of Some er \<Rightarrow> (Some er, Some s2, w2) | None \<Rightarrow> (r, Some s3, w3))"
    using run s(1) es f by (auto simp: Run_def Load_def live_env_simps [OF env(1)] split: option.splits)
  have n1: "0 \<le> w_now ?w1" "w_now ?w1 \<le> w_now w2"
    using t(1) after_store_simps(6) [of w e "w_db w"] ensure_scheduled_run [OF es] by linarith+
  have fr: "run_frame (s2, w2) (s3, w3)"
    by (rule run_inv.inv_run [OF fire_when_due_run [OF f]]) (use n1 in linarith)
  then have "w_now w2 \<le> w_now w3" by (simp add: run_frame_def)
  then have le: "w_now w2 \<le> w_now w'" using R by (cases q) auto
  have rng: "rfc_range (w_now ?w1)" "rfc_range (w_now w2)"
    using rfc_range_upto [of "w_now ?w1" "w_now w'"] rfc_range_upto [of "w_now w2" "w_now w'"] n1 le t(2) by simp_all
  have q: "q = None" "s_status s2 = StatusScheduled"
    using ensure_scheduled_live [OF es env(1) p _ _ rng(1)] st rel s by auto
  have i2: "s_intent s2 = s_intent s0" using ensure_scheduled_run [OF es] s(3) by simp
  obtain evs2 where p2: "persisted s2 evs2 w2"
    using db_inv.inv_run [OF conjunct1 [OF ensure_scheduled_run [OF es]]] p n1(1) rng(2)
    by (auto simp: db_frame_def)
  have R': "err = r" "so = Some s3" "w' = w3" using R q(1) by auto
  have "r = None \<and> settled (s_intent s0) (s_status s3)"
    using fire_when_due_live [OF f env p2 q(2)] rel i2 n1 t(2) R' by simp
  moreover have "\<exists>evs. persisted s3 evs w3"
    using db_inv.inv_run [OF fire_when_due_run [OF f]] p2 n1 t(2) R' by (auto simp: db_frame_def)
  ultimately show ?thesis using R' by simp
qed

section \<open>Firing no earlier than scheduled\<close>

lemma fire_when_due_late:
  assumes run: "fire_when_due e en s w = (err, s', w')" and t: "0 \<le> w_now w"
    and far: "s_scheduled_at s - w_now w \<le> max_duration" and w': "w_emitted w' = w_emitted w @ ns"
    and n: "n \<in> set ns"
  shows "s_scheduled_at s \<le> ev_at (n_event n)"
  using run
proof (cases rule: fire_when_due_cases)
  case due
  then have "run_frame (s, w) (s', w')" using run_inv.inv_run [OF runStrategy_run [OF due(3) t]] by simp
  then show ?thesis using due(2) w' n by (auto simp: run_frame_def)
next
  case (fired w1 r)
  have exact: "time_sub (s_scheduled_at s) (w_now w) = s_scheduled_at s - w_now w"
    using far fired(2) by (simp add: time_sub_def min_duration_def max_duration_def)
  then have "0 \<le> w_now w1" "s_scheduled_at s \<le> w_now w1" using fired(2,4) t by linarith+
  then have "run_frame (s, w1) (s', w')" using run_inv.inv_run [OF runStrategy_run [OF fired(8)]] by simp
  then show ?thesis using \<open>s_scheduled_at s \<le> w_now w1\<close> w' n fired(6) by (auto simp: run_frame_def)
qed (use w' n in simp_all)

end
