(* ===== verification/ServiceFrame.thy ===== *)
theory ServiceFrame
  imports ServiceFacts EngineLive
begin

text \<open>
  What a call of the service leaves alone. An observation of the state that does not see the clock
  and the venue caches survives every lookup and every provider call; one that does not see the
  audit log either survives planning and reading.
\<close>

section \<open>Observations\<close>

definition keeps :: "(sys \<Rightarrow> 'o) \<Rightarrow> (sys \<Rightarrow> 'r \<times> sys) \<Rightarrow> bool" where
  "keeps obs f \<longleftrightarrow> (\<forall>s. obs (snd (f s)) = obs s)"

lemma keepsD: "keeps obs f \<Longrightarrow> f s = (r, s') \<Longrightarrow> obs s' = obs s"
  unfolding keeps_def by (metis snd_conv)

lemma keeps_return: "keeps obs (\<lambda>s. (r s, s))"
  by (simp add: keeps_def)

lemma keeps_bind: "keeps obs f \<Longrightarrow> (\<And>r. keeps obs (g r)) \<Longrightarrow> keeps obs (\<lambda>s. case f s of (r, s') \<Rightarrow> g r s')"
  by (simp add: keeps_def case_prod_unfold)

lemma keeps_at: "(\<And>x. keeps obs (g x)) \<Longrightarrow> keeps obs (\<lambda>s. g (h s) s)"
  by (simp add: keeps_def)

lemma keeps_sum: "(\<And>e. keeps obs (f e)) \<Longrightarrow> (\<And>v. keeps obs (g v)) \<Longrightarrow> keeps obs (\<lambda>s. case r of Inl e \<Rightarrow> f e s | Inr v \<Rightarrow> g v s)"
  by (cases r) simp_all

lemma keeps_option: "keeps obs f \<Longrightarrow> (\<And>v. keeps obs (g v)) \<Longrightarrow> keeps obs (\<lambda>s. case r of None \<Rightarrow> f s | Some v \<Rightarrow> g v s)"
  by (cases r) simp_all

lemma keeps_pair: "(\<And>x y. keeps obs (f x y)) \<Longrightarrow> keeps obs (\<lambda>s. case p of (x, y) \<Rightarrow> f x y s)"
  by (cases p) simp

lemma keeps_if: "keeps obs f \<Longrightarrow> keeps obs g \<Longrightarrow> keeps obs (\<lambda>s. if b s then f s else g s)"
  by (simp add: keeps_def)

lemmas keeps_steps = keeps_return keeps_sum keeps_option keeps_pair keeps_if

lemma sys_swap: "(s :: sys)\<lparr>sy_q := q, sy_w := w\<rparr> = s\<lparr>sy_w := w, sy_q := q\<rparr>"
  by simp

locale frame =
  fixes obs :: "sys \<Rightarrow> 'o"
  assumes store_time: "obs (s\<lparr>sy_w := after_store e (w_db (sy_w s)) (sy_w s)\<rparr>) = obs s"
    and call_time: "obs (s\<lparr>sy_w := after_call e (sy_w s)\<rparr>) = obs s"
    and tick: "obs (s\<lparr>sy_w := (sy_w s)\<lparr>w_tick := n\<rparr>\<rparr>) = obs s"
    and venues: "obs (s\<lparr>sy_q := (sy_q s)\<lparr>q_venue_cache := vs\<rparr>\<rparr>) = obs s"
    and names: "obs (s\<lparr>sy_q := (sy_q s)\<lparr>q_name_cache := ns\<rparr>\<rparr>) = obs s"
begin

lemma exec_obs: "obs (snd (q_exec e f s)) = obs (s\<lparr>sy_q := snd (f (store_io e (sy_w s)) (w_db (sy_w s)) (sy_q s))\<rparr>)"
  using store_time [of e "s\<lparr>sy_q := snd (f (store_io e (sy_w s)) (w_db (sy_w s)) (sy_q s))\<rparr>"]
  by (simp add: q_exec_def case_prod_unfold sys_swap)

lemma read_keeps: "keeps obs (q_read e f)"
  by (simp add: keeps_def q_read_def exec_obs)

lemma provider_keeps: "keeps obs (call_provider e f)"
  by (simp add: keeps_def call_provider_def call_time)

lemma rand_keeps: "keeps obs (read_rand c n)"
  by (simp add: keeps_def read_rand_def tick)

lemma put_venue_keeps: "keeps obs (\<lambda>s. (r, snd (q_exec e (\<lambda>io d. UpsertVenueCache io slug city v (t s)) s)))"
  by (simp add: keeps_def exec_obs UpsertVenueCache_def venues split: option.split)

lemma put_name_keeps: "keeps obs (\<lambda>s. (r, snd (q_exec e (\<lambda>io d. UpsertNameSearchCache io key hits (t s)) s)))"
  by (simp add: keeps_def exec_obs UpsertNameSearchCache_def names split: option.split)

lemma fetch_slug_keeps: "keeps obs (fetch_slug e rv slug city cached)"
  unfolding fetch_slug_def by (intro keeps_bind [OF provider_keeps] keeps_steps put_venue_keeps)

lemma fetch_name_keeps: "keeps obs (fetch_name e rv trimmed key cached)"
  unfolding fetch_name_def by (intro keeps_bind [OF provider_keeps] keeps_steps put_name_keeps)

lemma resolveSlug_keeps: "keeps obs (resolveSlug e rv slug city)"
  unfolding resolveSlug_def Let_def by (intro keeps_bind [OF read_keeps] keeps_steps fetch_slug_keeps)

lemma resolveName_keeps: "keeps obs (resolveName e rv n)"
  unfolding resolveName_def Let_def by (intro keeps_bind [OF read_keeps] keeps_steps fetch_name_keeps)

lemma Resolve_keeps: "keeps obs (Resolve e rv query)"
  by (cases query; cases "the query") (simp_all add: Resolve_def [abs_def] resolveURL_def [abs_def] keeps_return
      resolveSlug_keeps resolveName_keeps keeps_sum keeps_pair)

lemma snapshot_keeps: "keeps obs (calendar_snapshot c g v)"
  unfolding calendar_snapshot_def by (intro keeps_bind [OF provider_keeps] keeps_steps)

lemma findAccountByID_keeps: "keeps obs (findAccountByID c u a)"
  unfolding findAccountByID_def by (intro keeps_bind [OF read_keeps] keeps_steps)

lemma goal_account_keeps: "keeps obs (goal_account c u g)"
  unfolding goal_account_def by (intro keeps_bind [OF read_keeps] keeps_bind [OF findAccountByID_keeps] keeps_steps)

lemma prior_keeps: "keeps obs (prior_outcome c u scope key payload now)"
  unfolding prior_outcome_def by (intro keeps_bind [OF read_keeps] keeps_steps)

lemma newQuestID_keeps: "keeps obs (newQuestID c)"
  unfolding newQuestID_def by (intro keeps_bind [OF rand_keeps] keeps_steps)

end

text \<open>Observations that do not see the audit log.\<close>

locale audited_frame = frame +
  assumes log: "obs (s\<lparr>sy_q := (sy_q s)\<lparr>q_audit := rows\<rparr>\<rparr>) = obs s"
begin

lemma audit_obs [simp]: "obs (audit c u a target err s) = obs s"
  by (simp add: audit_def exec_obs store_WriteAuditEvent_def Let_def log split: option.split)

lemma audit_keeps: "keeps obs (\<lambda>s. (r, audit c u a target err s))"
  by (simp add: keeps_def)

lemma ResolveVenue_keeps: "keeps obs (ResolveVenue c u query)"
  unfolding ResolveVenue_def Let_def by (intro keeps_bind [OF Resolve_keeps] keeps_steps audit_keeps)

lemma PlanQuest_keeps: "keeps obs (PlanQuest c u g)"
proof -
  have "keeps obs (\<lambda>s. case goal_Validate (rv_uni (sv_resolver c)) g (now_of s) of
        Some ge \<Rightarrow> (Inl (err ge), audit c u ''quest.plan'' [] (Some (err ge)) s)
      | None \<Rightarrow> case Resolve (sv_env c) (sv_resolver c) (gl_venue_query g) s of
        (Inl re, s1) \<Rightarrow> (Inl (mapResolverError c re), audit c u ''quest.plan'' [] (Some (mapResolverError c re)) s1)
      | (Inr v, s1) \<Rightarrow> (case calendar_snapshot c g v s1 of (cal, s2) \<Rightarrow>
        (case B v cal (now_of s) of Inl pe \<Rightarrow> (Inl (f pe), audit c u ''quest.plan'' [] (Some (f pe)) s2)
         | Inr p \<Rightarrow> (Inr p, audit c u ''quest.plan'' (pl_hash p) None s2))))" for err B f
    by (rule keeps_at, intro keeps_option keeps_sum keeps_bind [OF Resolve_keeps] keeps_bind [OF snapshot_keeps] audit_keeps)
  then show ?thesis
    unfolding PlanQuest_def Let_def by (intro keeps_if keeps_return)
qed

lemma get_body_keeps: "keeps obs (get_body c u k)"
  unfolding get_body_def by (intro keeps_bind [OF read_keeps] keeps_bind [OF PlanQuest_keeps] keeps_steps)

lemma GetQuest_keeps: "keeps obs (GetQuest c u k)"
  unfolding GetQuest_def by (intro keeps_bind [OF get_body_keeps] keeps_steps audit_keeps)

lemma ListQuests_keeps: "keeps obs (ListQuests c u f)"
  unfolding ListQuests_def Let_def by (intro keeps_bind [OF read_keeps] keeps_steps audit_keeps)

lemma ListAccounts_keeps: "keeps obs (ListAccounts c u)"
  unfolding ListAccounts_def Let_def by (intro keeps_bind [OF read_keeps] keeps_steps audit_keeps)

lemma ListTokens_keeps: "keeps obs (ListTokens c caller u)"
  unfolding ListTokens_def by (intro read_keeps keeps_bind keeps_steps audit_keeps)

end

text \<open>Everything a call can write but the audit log and the caches.\<close>

definition durable :: "sys \<Rightarrow> user_row list \<times> quest_row list \<times> quest_event_row list \<times> idem_row list \<times> token_row list \<times> db" where
  "durable s = (q_users (sy_q s), q_quests (sy_q s), q_events (sy_q s), q_idem (sy_q s), q_tokens (sy_q s), w_db (sy_w s))"

interpretation durable: audited_frame durable
  by unfold_locales (simp_all add: durable_def after_store_def after_call_def)

text \<open>What decides whether a row may refer to a user, and the audit log.\<close>

definition members :: "sys \<Rightarrow> user_row list \<times> bool" where
  "members s = (q_users (sy_q s), db_fk (w_db (sy_w s)))"

interpretation members: audited_frame members
  by unfold_locales (simp_all add: members_def after_store_def after_call_def)

definition trail :: "sys \<Rightarrow> audit_row list" where
  "trail s = q_audit (sy_q s)"

interpretation trail: frame trail
  by unfold_locales (simp_all add: trail_def after_store_def after_call_def)

section \<open>Creating a quest\<close>

text \<open>The quest rows and the engine's database: the calls that follow the commit of a quest keep them.\<close>

definition booked_rows :: "sys \<Rightarrow> quest_row list \<times> db" where
  "booked_rows s = (q_quests (sy_q s), w_db (sy_w s))"

interpretation booked_rows: audited_frame booked_rows
  by unfold_locales (simp_all add: booked_rows_def after_store_def after_call_def)

lemma booked_rows_event [simp]: "booked_rows (writeQuestEvent c u k ev s) = booked_rows s"
  by (simp add: writeQuestEvent_def booked_rows.exec_obs store_WriteQuestEvent_def split: option.split) (simp add: booked_rows_def)

lemma booked_rows_record [simp]: "booked_rows (recordIdempotency c u scope key payload target err now s) = booked_rows s"
  by (simp add: recordIdempotency_def booked_rows.exec_obs store_PutIdempotencyResult_def Let_def split: option.split)
    (simp add: booked_rows_def)

text \<open>The row a new quest has, and the snipe the engine holds for it.\<close>

definition new_quest_row :: "user_id \<Rightarrow> goal \<Rightarrow> plan \<Rightarrow> account_id \<Rightarrow> instant \<Rightarrow> string \<Rightarrow> quest_row" where
  "new_quest_row u g p a now k = \<lparr>qu_id = k, qu_user = u, qu_account = a, qu_goal_json = marshaled (marshalGoalJSON g), qu_plan_hash = pl_hash p,
     qu_status = ''pending'', qu_created_at = unix_milli now, qu_updated_at = unix_milli now, qu_completed_at = None\<rparr>"

definition submitted :: "string \<Rightarrow> intent \<Rightarrow> db \<Rightarrow> bool" where
  "submitted k i d \<longleftrightarrow> (\<exists>r. find_snipe k d = Some r \<and> r_status r = status_string StatusSubmitted \<and> MarshalIntent i = Inr (r_intent_json r))"

lemma Submit_submitted:
  assumes "Submit e k i w = (Inr x, w')"
  shows "submitted k i (w_db w')"
proof -
  let ?s = "NewSnipeState k i (w_now w)"
  obtain d where c: "CreateSnipe (e_sha e) (store_io e w) ?s (w_db w) = (None, d)" and
      d': "db_snipes (w_db w') = db_snipes d"
    using assms by (auto simp: Submit_def Let_def AppendEvent_def insert_event_def after_store_def emit_def
        split: prod.splits option.splits if_splits)
  from c show ?thesis
  proof (cases rule: CreateSnipe_cases)
    case (1 ij rj)
    then show ?thesis using d'
      by (simp add: submitted_def find_snipe_def NewSnipeState_def find_append)
  qed
qed

lemma CreateQuest_cases:
  assumes "store_CreateQuest io d (quest_row_for u g p a now k) q = (None, q')"
  shows "q' = q\<lparr>q_quests := q_quests q @ [new_quest_row u g p a now k]\<rparr>" "k \<noteq> []" "k \<notin> qu_id ` set (q_quests q)"
  using assms by (auto simp: store_CreateQuest_def quest_row_for_def new_quest_row_def split: if_splits option.splits)

text \<open>The three ends of a commit: refused before the row, refused by the engine after it, done.\<close>

lemma commit_quest_cases:
  assumes "commit_quest c u g p a now s = ((k, err), s')"
  obtains (refused) "k = []" "err \<noteq> None" "q_quests (sy_q s') = q_quests (sy_q s)" "w_db (sy_w s') = w_db (sy_w s)"
  | (orphan) "k \<noteq> []" "err \<noteq> None" "k \<notin> qu_id ` set (q_quests (sy_q s))"
      "q_quests (sy_q s') = q_quests (sy_q s) @ [new_quest_row u g p a now k]"
  | (committed) "k \<noteq> []" "err = None" "k \<notin> qu_id ` set (q_quests (sy_q s))"
      "q_quests (sy_q s') = q_quests (sy_q s) @ [new_quest_row u g p a now k]"
      "submitted k (intentFromPlan u p g) (w_db (sy_w s'))"
proof -
  obtain x s1 where n: "newQuestID c s = (x, s1)" by fastforce
  have b1: "booked_rows s1 = booked_rows s" by (rule keepsD [OF booked_rows.newQuestID_keeps n])
  show thesis
  proof (cases x)
    case None
    then show thesis using assms n b1 by (intro refused) (auto simp: commit_quest_def booked_rows_def)
  next
    case (Some k')
    let ?op = "\<lambda>io d. store_CreateQuest io d (quest_row_for u g p a now k')"
    let ?q = "snd (?op (store_io (sv_env c) (sy_w s1)) (w_db (sy_w s1)) (sy_q s1))"
    obtain y s2 where cq: "q_exec (sv_env c) ?op s1 = (y, s2)" by fastforce
    then have y: "?op (store_io (sv_env c) (sy_w s1)) (w_db (sy_w s1)) (sy_q s1) = (y, sy_q s2)" "w_db (sy_w s2) = w_db (sy_w s1)"
      by (auto simp: q_exec_def after_store_def split: prod.splits)
    show thesis
    proof (cases y)
      case (Some e)
      then have "q_quests (sy_q s2) = q_quests (sy_q s1)"
        using y(1) by (auto simp: store_CreateQuest_def split: if_splits option.splits)
      then show thesis using assms n cq b1 y(2) Some \<open>x = Some k'\<close>
        by (intro refused) (auto simp: commit_quest_def booked_rows_def)
    next
      case None
      note row = CreateQuest_cases [OF y(1) [unfolded None]]
      obtain z w where sub: "Submit (sv_env c) k' (intentFromPlan u p g) (sy_w s2) = (z, w)" by fastforce
      let ?ev = "\<lparr>ev_type = EventSubmitted, ev_at = now, ev_attrs = []\<rparr>"
      have b: "booked_rows (writeQuestEvent c u k' ?ev (s2\<lparr>sy_w := w\<rparr>)) = (q_quests (sy_q s2), w_db w)"
        by simp (simp add: booked_rows_def)
      show thesis
        using assms n cq b1 b row sub None \<open>x = Some k'\<close> Submit_submitted [of "sv_env c" k' "intentFromPlan u p g" "sy_w s2"]
        by (cases z) (auto simp: commit_quest_def booked_rows_def intro: orphan committed)
    qed
  qed
qed

lemma goal_account_owned:
  assumes "goal_account c u g s = (Inr a, s')"
  shows "\<exists>acc \<in> set (db_accounts (w_db (sy_w s))). a_user_id acc = Some u \<and> a_id acc = ar_id a"
proof -
  let ?d = "w_db (sy_w s)"
  have f: "store_GetAccountByEmail io u email d = Inr r \<Longrightarrow> \<exists>acc \<in> set (db_accounts d). a_user_id acc = Some u \<and> a_id acc = ar_id r" for io email d r
    by (auto simp: store_GetAccountByEmail_def bound_account_def scanAccountRow_def find_Some_iff split: if_splits option.splits)
  have l: "store_ListAccountsForUser io u d = Inr rows \<Longrightarrow> r \<in> set rows \<Longrightarrow>
      \<exists>acc \<in> set (db_accounts d). a_user_id acc = Some u \<and> a_id acc = ar_id r" for io d rows r
    by (fastforce simp: store_ListAccountsForUser_def scanAccountRow_def split: if_splits option.splits)
  obtain x s1 where r: "q_read (sv_env c) (\<lambda>io d q. store_GetAccountByEmail io u (gl_account g) d) s = (x, s1)" by fastforce
  have x: "x = store_GetAccountByEmail (store_io (sv_env c) (sy_w s)) u (gl_account g) ?d" "w_db (sy_w s1) = ?d"
    using r by (auto simp: q_read_def q_exec_def after_store_def)
  obtain y s2 where r2: "q_read (sv_env c) (\<lambda>io d q. store_ListAccountsForUser io u d) s1 = (y, s2)" by fastforce
  have y: "y = store_ListAccountsForUser (store_io (sv_env c) (sy_w s1)) u ?d"
    using r2 x(2) by (auto simp: q_read_def q_exec_def)
  have "x = Inr a \<or> (\<exists>rows. y = Inr rows \<and> a \<in> set rows)"
    using assms by (auto simp: goal_account_def r findAccountByID_def r2 find_Some_iff split: sum.splits if_splits option.splits)
  then show ?thesis using f l x(1) y by metis
qed

lemma create_fresh_cases:
  assumes "create_fresh c u g opts now s = ((k, err), s')"
  obtains (refused) "k = []" "err \<noteq> None" "q_quests (sy_q s') = q_quests (sy_q s)" "w_db (sy_w s') = w_db (sy_w s)"
  | (orphan) p a where "k \<noteq> []" "err \<noteq> None" "k \<notin> qu_id ` set (q_quests (sy_q s))"
      "q_quests (sy_q s') = q_quests (sy_q s) @ [new_quest_row u g p a now k]"
  | (committed) p a where "k \<noteq> []" "err = None" "k \<notin> qu_id ` set (q_quests (sy_q s))"
      "q_quests (sy_q s') = q_quests (sy_q s) @ [new_quest_row u g p a now k]"
      "submitted k (intentFromPlan u p g) (w_db (sy_w s'))" "fst (PlanQuest c u g s) = Inr p"
      "co_plan_hash opts = None \<or> co_plan_hash opts = Some (pl_hash p)"
      "\<exists>acc \<in> set (db_accounts (w_db (sy_w s))). a_user_id acc = Some u \<and> a_id acc = a"
proof -
  obtain x s1 where pl: "PlanQuest c u g s = (x, s1)" by fastforce
  have b1: "booked_rows s1 = booked_rows s" by (rule keepsD [OF booked_rows.PlanQuest_keeps pl])
  obtain y s2 where ac: "goal_account c u g s1 = (y, s2)" by fastforce
  have b2: "booked_rows s2 = booked_rows s" using keepsD [OF booked_rows.goal_account_keeps ac] b1 by simp
  show thesis
  proof (cases "\<exists>p a. x = Inr p \<and> y = Inr a \<and> (co_plan_hash opts = None \<or> co_plan_hash opts = Some (pl_hash p))")
    case False
    then show thesis using assms b1 b2
      by (intro refused) (auto simp: create_fresh_def pl ac booked_rows_def split: sum.splits if_splits)
  next
    case True
    then obtain p a where xy: "x = Inr p" "y = Inr a" "co_plan_hash opts = None \<or> co_plan_hash opts = Some (pl_hash p)" by blast
    have "commit_quest c u g p (ar_id a) now s2 = ((k, err), s')"
      using assms xy by (auto simp: create_fresh_def pl ac)
    then show thesis
    proof (cases rule: commit_quest_cases)
      case (committed)
      moreover have "\<exists>acc \<in> set (db_accounts (w_db (sy_w s))). a_user_id acc = Some u \<and> a_id acc = ar_id a"
        using goal_account_owned [of c u g s1 a s2] ac xy(2) b1 by (simp add: booked_rows_def)
      ultimately show thesis using xy pl b2 that(3) by (simp add: booked_rows_def)
    qed (use b2 that(1,2) in \<open>simp_all add: booked_rows_def\<close>)
  qed
qed

lemma new_quest_readable:
  assumes "k \<notin> qu_id ` set qs" "goal_row_ok g"
  shows "\<exists>row. store_GetQuest io_ok u k (q\<lparr>q_quests := qs @ [new_quest_row u g p a now k]\<rparr>) = Inr row \<and> qr_status row = StatusSubmitted \<and>
    unmarshalGoalJSON (qr_goal_json row) = Inr g \<and> qr_plan_hash row = pl_hash p \<and> qr_account row = a"
proof -
  have "find (owned_quest u k) qs = None" using assms(1) by (auto simp: find_None_iff owned_quest_def)
  moreover have "owned_quest u k (new_quest_row u g p a now k)" by (simp add: owned_quest_def new_quest_row_def)
  ultimately show ?thesis
    using service_goal_codec.dec_enc [OF assms(2)]
    by (simp add: store_GetQuest_def find_append scanQuestRow_def parseStatusDB_def new_quest_row_def)
qed

section \<open>A quest that can be committed is\<close>

lemma live_io: "live_env e \<Longrightarrow> store_io e w = io_ok"
  by (simp add: live_env_simps)

lemma goal_account_found:
  assumes "live_env (sv_env c)" "u \<noteq> []" "gl_account g \<noteq> []" "find (bound_account u (gl_account g)) (db_accounts (w_db (sy_w s))) = Some acc"
  shows "\<exists>s'. goal_account c u g s = (Inr (scanAccountRow u acc), s')"
  using assms by (simp add: goal_account_def q_read_def q_exec_def live_io store_GetAccountByEmail_def)

lemma Submit_live:
  assumes "live_env e" "MarshalIntent i = Inr ij" "find_snipe k (w_db w) = None"
  shows "\<exists>x w'. Submit e k i w = (Inr x, w')"
proof -
  have "k \<notin> r_id ` set (db_snipes (w_db w))" using assms(3) by (auto simp: find_snipe_def find_None_iff)
  then show ?thesis
    using assms(1,2) by (simp add: Submit_def Let_def live_io CreateSnipe_def NewSnipeState_def MarshalResult_def AppendEvent_def
        insert_event_def after_store_def)
qed

lemma commit_quest_live:
  assumes "live_env (sv_env c)" "\<And>n. sv_rand c n 4 = Some bs" "MarshalIntent (intentFromPlan u p g) = Inr ij"
    "u \<noteq> []" "a \<noteq> []" "u \<in> us_id ` set (q_users (sy_q s))" "a \<in> a_id ` set (db_accounts (w_db (sy_w s)))"
    "k = ''q_'' @ hex_encode bs" "k \<notin> qu_id ` set (q_quests (sy_q s))" "find_snipe k (w_db (sy_w s)) = None"
  shows "fst (commit_quest c u g p a now s) = (k, None)"
proof -
  let ?s1 = "s\<lparr>sy_w := (sy_w s)\<lparr>w_tick := Suc (w_tick (sy_w s))\<rparr>\<rparr>"
  have n: "newQuestID c s = (Some k, ?s1)" using assms(2,8) by (simp add: newQuestID_def read_rand_def)
  let ?op = "\<lambda>io d. store_CreateQuest io d (quest_row_for u g p a now k)"
  obtain y s2 where cq: "q_exec (sv_env c) ?op ?s1 = (y, s2)" by fastforce
  have "y = None" "w_db (sy_w s2) = w_db (sy_w s)"
    using cq assms by (auto simp: q_exec_def live_io store_CreateQuest_def quest_row_for_def user_fk_def after_store_def)
  moreover from this(2) obtain x w where "Submit (sv_env c) k (intentFromPlan u p g) (sy_w s2) = (Inr x, w)"
    using Submit_live [OF assms(1,3), of k "sy_w s2"] assms(10) by auto
  ultimately show ?thesis using n cq by (simp add: commit_quest_def)
qed

lemma CreateQuest_live:
  assumes live: "live_env (sv_env c)" "\<And>n. sv_rand c n 4 = Some bs" and u: "u \<noteq> []" "u \<in> us_id ` set (q_users (sy_q s))"
    and prior: "prior_outcome c u scopeCreateQuest (co_key opts) (goal_payload c g) (now_of s) s = (Inr None, s0)"
    and plan: "fst (PlanQuest c u g s0) = Inr p" "co_plan_hash opts \<in> {None, Some (pl_hash p)}"
      "MarshalIntent (intentFromPlan u p g) = Inr ij"
    and acc: "gl_account g \<noteq> []" "find (bound_account u (gl_account g)) (db_accounts (w_db (sy_w s))) = Some acc" "a_id acc \<noteq> []"
    and k: "k = ''q_'' @ hex_encode bs" "k \<notin> qu_id ` set (q_quests (sy_q s))" "find_snipe k (w_db (sy_w s)) = None"
  shows "fst (CreateQuest c u g opts s) = (k, None)"
proof -
  obtain s1 where p: "PlanQuest c u g s0 = (Inr p, s1)" using plan(1) by (metis prod.collapse)
  have d0: "durable s0 = durable s" by (rule keepsD [OF durable.prior_keeps prior])
  have d1: "durable s1 = durable s" using keepsD [OF durable.PlanQuest_keeps p] d0 by simp
  then obtain s2 where a: "goal_account c u g s1 = (Inr (scanAccountRow u acc), s2)"
    using goal_account_found [OF live(1) u(1) acc(1), of s1 acc] acc(2) by (auto simp: durable_def)
  have d2: "durable s2 = durable s" using keepsD [OF durable.goal_account_keeps a] d1 by simp
  have "acc \<in> set (db_accounts (w_db (sy_w s)))" using acc(2) by (auto simp: find_Some_iff)
  then have "fst (commit_quest c u g p (a_id acc) (now_of s) s2) = (k, None)"
    using d2 u k acc(3) by (intro commit_quest_live [OF live plan(3)]) (auto simp: durable_def)
  then show ?thesis
    using u(1) plan(2) by (auto simp: CreateQuest_def create_body_def prior create_fresh_def p a scanAccountRow_def Let_def case_prod_unfold)
qed

section \<open>Outcomes filed under a key\<close>

definition outcome_row :: "(string \<Rightarrow> string) \<Rightarrow> user_id \<Rightarrow> string \<Rightarrow> string \<Rightarrow> string \<Rightarrow> string \<Rightarrow> string option \<Rightarrow> instant \<Rightarrow> idem_row" where
  "outcome_row sha u scope key payload target err now = idem_result target err idempotencyTTL now
     \<lparr>ik_key_hash = HashIdempotencyKey sha u scope key payload, ik_user = u, ik_scope = scope,
      ik_plain_hash = HashIdempotencyPlain sha u scope key, ik_target = None, ik_code = [], ik_err = None,
      ik_created_at = [], ik_expires_at = []\<rparr>"

text \<open>No row is filed under the key yet.\<close>

definition unused_key :: "(string \<Rightarrow> string) \<Rightarrow> user_id \<Rightarrow> string \<Rightarrow> string \<Rightarrow> qdb \<Rightarrow> bool" where
  "unused_key sha u scope key q \<longleftrightarrow> (\<forall>r \<in> set (q_idem q). ik_plain_hash r \<noteq> HashIdempotencyPlain sha u scope key \<and>
     (\<forall>payload. ik_key_hash r \<noteq> HashIdempotencyKey sha u scope key payload))"

lemma put_unused:
  assumes "unused_key sha u scope key q" "u \<noteq> []" "scope \<noteq> []" "key \<noteq> []" "user_fk d u q"
  shows "store_PutIdempotencyResult sha io_ok d u scope key payload target err idempotencyTTL now q =
    (None, q\<lparr>q_idem := q_idem q @ [outcome_row sha u scope key payload target err now]\<rparr>)"
proof -
  have "HashIdempotencyKey sha u scope key payload \<notin> ik_key_hash ` set (q_idem q)"
    using assms(1) by (metis imageE unused_key_def)
  then show ?thesis using assms(2-5) by (simp add: store_PutIdempotencyResult_def outcome_row_def Let_def)
qed

text \<open>The instant at which an outcome filed at \<open>now\<close> stops being replayed: the column has milliseconds.\<close>

definition outcome_expiry :: "instant \<Rightarrow> instant" where
  "outcome_expiry now = now + idempotencyTTL - (now + idempotencyTTL) mod millisecond"

lemma scan_outcome:
  assumes "rfc_range (now + idempotencyTTL)" "now' < outcome_expiry now"
  shows "scanIdempotencyRow now' (Some (outcome_row sha u scope key payload target err now)) =
    Inr (Some (no_lookup\<lparr>il_target := target, il_code := (if err = None then ''ok'' else ''error''), il_err := string_of_null err\<rparr>))"
  using assms parse_rfc3339_any [OF parse_format_millis [OF assms(1)]]
  by (simp add: scanIdempotencyRow_def outcome_row_def idem_result_def outcome_expiry_def string_of_null_def null_if_empty_def no_lookup_def)

lemma get_replay:
  assumes "filter (\<lambda>r. ik_user r = u) (q_idem t) = filter (\<lambda>r. ik_user r = u) (q_idem q) @ [outcome_row sha u scope key payload target err now]"
    and "unused_key sha u scope key q" "u \<noteq> []" "scope \<noteq> []" "key \<noteq> []" "rfc_range (now + idempotencyTTL)" "now' < outcome_expiry now"
  shows "store_GetIdempotencyResult sha io_ok u scope key payload now' t =
    Inr (no_lookup\<lparr>il_found := True, il_match := True, il_target := target, il_code := (if err = None then ''ok'' else ''error''),
      il_err := string_of_null err\<rparr>)"
proof -
  let ?P = "\<lambda>r. ik_key_hash r = HashIdempotencyKey sha u scope key payload \<and> ik_user r = u"
  have "find ?P (q_idem t) = find ?P (filter (\<lambda>r. ik_user r = u) (q_idem t))" by (rule find_filter) simp
  also have "find ?P (filter (\<lambda>r. ik_user r = u) (q_idem q)) = None"
    using assms(2) by (auto simp: find_None_iff unused_key_def)
  then have "find ?P (filter (\<lambda>r. ik_user r = u) (q_idem t)) = Some (outcome_row sha u scope key payload target err now)"
    unfolding assms(1) find_append by (simp add: outcome_row_def)
  finally show ?thesis
    using assms(3-5) scan_outcome [OF assms(6,7)] by (simp add: store_GetIdempotencyResult_def)
qed

lemma get_conflict:
  assumes "filter (\<lambda>r. ik_user r = u) (q_idem t) = filter (\<lambda>r. ik_user r = u) (q_idem q) @ [outcome_row sha u scope key payload target err now]"
    and "unused_key sha u scope key q" "u \<noteq> []" "scope \<noteq> []" "key \<noteq> []" "rfc_range (now + idempotencyTTL)" "now' < outcome_expiry now"
    and "inj sha" "payload' \<noteq> payload"
  shows "\<exists>l. store_GetIdempotencyResult sha io_ok u scope key payload' now' t = Inr l \<and> il_found l \<and> \<not> il_match l \<and> \<not> il_expired l"
proof -
  let ?P = "\<lambda>r. ik_key_hash r = HashIdempotencyKey sha u scope key payload' \<and> ik_user r = u"
  let ?Q = "\<lambda>r. ik_scope r = scope \<and> ik_plain_hash r = HashIdempotencyPlain sha u scope key"
  have "HashIdempotencyKey sha u scope key payload \<noteq> HashIdempotencyKey sha u scope key payload'"
    using assms(8,9) by (simp add: HashIdempotencyKey_def inj_eq)
  moreover have "find ?P (filter (\<lambda>r. ik_user r = u) (q_idem q)) = None"
    using assms(2) by (auto simp: find_None_iff unused_key_def)
  ultimately have "find ?P (filter (\<lambda>r. ik_user r = u) (q_idem t)) = None"
    unfolding assms(1) find_append by (simp add: outcome_row_def)
  then have x: "find ?P (q_idem t) = None" by (metis (mono_tags, lifting) find_filter)
  have "filter (\<lambda>r. ik_user r = u \<and> ?Q r) (q_idem t) = filter ?Q (filter (\<lambda>r. ik_user r = u) (q_idem t))" by simp
  also have "\<dots> = [outcome_row sha u scope key payload target err now]"
    using assms(2) unfolding assms(1) filter_append by (auto simp: filter_empty_conv unused_key_def outcome_row_def)
  finally show ?thesis
    using assms(3-5) x scan_outcome [OF assms(6,7)] by (simp add: store_GetIdempotencyResult_def no_lookup_def scanIdempotencyRow_def)
qed

section \<open>A fresh run leaves the keys alone\<close>

definition keys :: "sys \<Rightarrow> user_row list \<times> idem_row list \<times> bool" where
  "keys s = (q_users (sy_q s), q_idem (sy_q s), db_fk (w_db (sy_w s)))"

interpretation keys: audited_frame keys
  by unfold_locales (simp_all add: keys_def after_store_def after_call_def)

lemma Submit_fk: "db_fk (w_db (snd (Submit e k i w))) = db_fk (w_db w)"
proof -
  have c: "db_fk (snd (CreateSnipe sha io s d)) = db_fk d" for sha io s d
    by (simp add: CreateSnipe_def split: sum.split option.split)
  have a: "db_fk (snd (AppendEvent io k ev d)) = db_fk d" for io k ev d
    by (simp add: AppendEvent_def insert_event_def split: option.split)
  show ?thesis
    unfolding Submit_def Let_def case_prod_unfold by (simp add: c a after_store_def emit_def split: option.split)
qed

lemma keys_event [simp]: "keys (writeQuestEvent c u k ev s) = keys s"
  by (simp add: writeQuestEvent_def keys.exec_obs store_WriteQuestEvent_def split: option.split) (simp add: keys_def)

lemma keys_create: "keeps keys (q_exec e (\<lambda>io d. store_CreateQuest io d r))"
  by (simp add: keeps_def keys.exec_obs store_CreateQuest_def split: option.split) (simp add: keys_def)

lemma keys_submit:
  "keeps keys (\<lambda>s. case Submit e k i (sy_w s) of (Inl ee, w) \<Rightarrow> (f ee, s\<lparr>sy_w := w\<rparr>)
     | (Inr x, w) \<Rightarrow> (r, writeQuestEvent c u k ev (s\<lparr>sy_w := w\<rparr>)))"
  unfolding keeps_def
proof
  fix s :: sys
  obtain z w where "Submit e k i (sy_w s) = (z, w)" by fastforce
  then show "keys (snd (case Submit e k i (sy_w s) of (Inl ee, w) \<Rightarrow> (f ee, s\<lparr>sy_w := w\<rparr>)
     | (Inr x, w) \<Rightarrow> (r, writeQuestEvent c u k ev (s\<lparr>sy_w := w\<rparr>)))) = keys s"
    using Submit_fk [of e k i "sy_w s"] by (cases z) (simp_all add: keys_def [of "s\<lparr>sy_w := w\<rparr>"] keys_def [of s])
qed

lemma keys_fresh: "keeps keys (create_fresh c u g opts now)"
proof -
  have "keeps keys (commit_quest c u g p a now)" for p a
    unfolding commit_quest_def
    by (intro keeps_bind [OF keys.newQuestID_keeps] keeps_bind [OF keys_create] keys_submit keeps_option keeps_return)
  then show ?thesis
    unfolding create_fresh_def
    by (intro keeps_bind [OF keys.PlanQuest_keeps] keeps_bind [OF keys.goal_account_keeps] keeps_sum keeps_if keeps_return)
qed

lemma sentinel_text_nonempty [simp]: "sentinel_text x \<noteq> []"
  by (cases x) simp_all

lemma error_text_nonempty: "create_fresh c u g opts now s = ((k, Some err), s') \<Longrightarrow> sx_text err \<noteq> []"
proof -
  have p: "PlanQuest c u g s = (Inl err, s') \<Longrightarrow> sx_text err \<noteq> []" for err s'
    by (auto simp: PlanQuest_def wrap_def plain_def required_def mapResolverError_def Let_def split: if_splits option.splits prod.splits sum.splits)
  have c: "commit_quest c u g p a now s1 = ((k, Some err), s') \<Longrightarrow> sx_text err \<noteq> []" for p a s1
    by (auto simp: commit_quest_def wrap_def split: prod.splits option.splits sum.splits)
  have a: "goal_account c u g s1 = (Inl err, s2) \<Longrightarrow> sx_text err \<noteq> []" for s1 s2
    by (auto simp: goal_account_def wrap_def plain_def split: prod.splits sum.splits if_splits)
  show "create_fresh c u g opts now s = ((k, Some err), s') \<Longrightarrow> sx_text err \<noteq> []"
    using p c a by (auto simp: create_fresh_def hash_mismatch_def wrap_def split: prod.splits sum.splits if_splits)
qed

end
