(* ===== verification/QuestStream.thy ===== *)
theory QuestStream
  imports ServiceFrame "HOL-Library.Sublist"
begin

text \<open>
  The event stream of a quest (\<^verbatim>\<open>SubscribeQuest\<close> of \<^verbatim>\<open>service/standard_quest.go\<close>): the tenancy gate, the
  replay of the persisted history, and the live phase, in which the engine's emitting goroutine
  stages events in a buffered channel and the caller's goroutine hands them to the callback. The
  live phase is a step relation. The callback is the list of the events it was given; how
  long each call of it takes is an argument, and a nil callback has no counterpart. The engine
  calls the registered handler from a snapshot of its subscribers, so a call may also come after
  the stream has ended.
\<close>

section \<open>The gate and the replay\<close>

definition isTerminalEvent :: "event_type \<Rightarrow> bool" where
  "isTerminalEvent t \<longleftrightarrow> t \<in> {EventBooked, EventFailed, EventCanceled, EventExpired}"

definition callback :: "(nat \<Rightarrow> nat) \<Rightarrow> sys \<Rightarrow> sys" where
  "callback cbt s = s\<lparr>sy_w := (sy_w s)\<lparr>w_tick := Suc (w_tick (sy_w s)), w_now := w_now (sy_w s) + int (cbt (w_tick (sy_w s)))\<rparr>\<rparr>"

text \<open>The replay loop looks at the context before each event; the flag says that it stopped there.\<close>

fun replay_events :: "service \<Rightarrow> (nat \<Rightarrow> nat) \<Rightarrow> event list \<Rightarrow> sys \<Rightarrow> (event list \<times> bool) \<times> sys" where
  "replay_events c cbt [] s = (([], False), s)"
| "replay_events c cbt (ev # evs) s =
     (if ctx_done (sv_env c) (sy_w s) then (([], True), s)
      else case replay_events c cbt evs (callback cbt s) of ((out, stopped), s') \<Rightarrow> ((ev # out, stopped), s'))"

datatype sub_start = Returned "svc_error option" | Streaming

definition subscribe_start :: "service \<Rightarrow> (nat \<Rightarrow> nat) \<Rightarrow> user_id \<Rightarrow> string \<Rightarrow> sys \<Rightarrow> (sub_start \<times> event list) \<times> sys" where
  "subscribe_start c cbt u k s =
     (if u = [] then ((Returned (Some (required ''SubscribeQuest'' ''userID is required'')), []), s)
      else case q_read (sv_env c) (\<lambda>io d. store_GetQuest io u k) s of
        (Inl e, s1) \<Rightarrow>
          if e = ErrCanceled then ((Returned None, []), s1)
          else ((Returned (Some (fold_error c e)), []), audit c u ''quest.subscribe'' k (Some (fold_error c e)) s1)
      | (Inr row, s1) \<Rightarrow>
        (case q_read (sv_env c) (\<lambda>io d. store_ListQuestEvents io u k 0) (audit c u ''quest.subscribe'' k None s1) of
           (Inl e, s2) \<Rightarrow>
             ((Returned (if e = ErrCanceled then None else Some (wrap ''SubscribeQuest replay: '' (raw_error c e) [])), []), s2)
         | (Inr history, s2) \<Rightarrow>
           (case replay_events c cbt history s2 of ((out, stopped), s3) \<Rightarrow>
              ((if stopped \<or> IsTerminal (qr_status row) then Returned None else Streaming, out), s3))))"

lemma replay_same: "sy_q (snd (replay_events c cbt evs s)) = sy_q s \<and> w_db (sy_w (snd (replay_events c cbt evs s))) = w_db (sy_w s)"
  by (induction evs arbitrary: s) (simp_all add: case_prod_unfold callback_def)

lemma replay_kept: "kept sha u s (snd (replay_events c cbt evs s))"
  using replay_same [of c cbt evs s] by (intro kept_world) simp_all

lemma subscribe_kept: "kept sha u s (snd (subscribe_start c cbt u k s))"
proof -
  obtain x s1 where g: "q_read (sv_env c) (\<lambda>io d. store_GetQuest io u k) s = (x, s1)" by fastforce
  note k1 = read_kept [OF g, of sha u]
  have k2: "kept sha u s (audit c u ''quest.subscribe'' k err s1)" for err by (rule kept_trans [OF k1 audit_kept])
  obtain y s2 where h: "q_read (sv_env c) (\<lambda>io d. store_ListQuestEvents io u k 0) (audit c u ''quest.subscribe'' k None s1) = (y, s2)" by fastforce
  note k3 = kept_trans [OF k2 read_kept [OF h]]
  note k4 = kept_trans [OF k3 replay_kept]
  show ?thesis
    using k1 k2 k3 k4 by (simp add: subscribe_start_def g h case_prod_unfold split: sum.split)
qed

text \<open>What a subscription is told first: its own quest's history, or that there is no such quest.\<close>

lemma replay_live: "live_env (sv_env c) \<Longrightarrow> fst (replay_events c cbt evs s) = (evs, False)"
  by (induction evs arbitrary: s) (simp_all add: case_prod_unfold live_env_simps)

section \<open>The live phase\<close>

definition liveBuf :: nat where "liveBuf = 64"

record live_sub =
  ls_id :: sub_id
  ls_chan :: "event list"
  ls_out :: "event list"
  ls_dropped :: "event list"
  ls_done :: bool

text \<open>Registering with the engine, and the deferred cancel.\<close>

definition open_stream :: "string \<Rightarrow> sys \<Rightarrow> live_sub \<times> sys" where
  "open_stream k s = (case Subscribe (''quest:'' @ k) (w_registry (sy_w s)) of (i, g) \<Rightarrow>
     (\<lparr>ls_id = i, ls_chan = [], ls_out = [], ls_dropped = [], ls_done = False\<rparr>, s\<lparr>sy_w := (sy_w s)\<lparr>w_registry := g\<rparr>\<rparr>))"

definition close_stream :: "live_sub \<Rightarrow> sys \<Rightarrow> live_sub \<times> sys" where
  "close_stream l s = (l\<lparr>ls_done := True\<rparr>, s\<lparr>sy_w := (sy_w s)\<lparr>w_registry := cancel_sub (ls_id l) (w_registry (sy_w s))\<rparr>\<rparr>)"

text \<open>The handler: persist the transition, then send without blocking.\<close>

definition on_notification :: "service \<Rightarrow> user_id \<Rightarrow> string \<Rightarrow> notification \<Rightarrow> live_sub \<Rightarrow> sys \<Rightarrow> live_sub \<times> sys" where
  "on_notification c u k n l s =
     (if n_snipe_id n \<noteq> k then (l, s)
      else (if length (ls_chan l) < liveBuf then l\<lparr>ls_chan := ls_chan l @ [n_event n]\<rparr>
            else l\<lparr>ls_dropped := ls_dropped l @ [n_event n]\<rparr>, writeQuestEvent c u k (n_event n) s))"

text \<open>One event from the channel to the callback.\<close>

definition pump :: "(nat \<Rightarrow> nat) \<Rightarrow> event \<Rightarrow> event list \<Rightarrow> live_sub \<Rightarrow> sys \<Rightarrow> live_sub \<times> sys" where
  "pump cbt ev rest l s =
     (if isTerminalEvent (ev_type ev) then close_stream (l\<lparr>ls_chan := rest, ls_out := ls_out l @ [ev]\<rparr>) (callback cbt s)
      else (l\<lparr>ls_chan := rest, ls_out := ls_out l @ [ev]\<rparr>, callback cbt s))"

datatype sub_label = SEmit notification | SRecv | SDone | SElapse nat

inductive sub_step :: "service \<Rightarrow> (nat \<Rightarrow> nat) \<Rightarrow> user_id \<Rightarrow> string \<Rightarrow> live_sub \<times> sys \<Rightarrow> sub_label \<Rightarrow> live_sub \<times> sys \<Rightarrow> bool"
  for c cbt u k where
  emit: "sub_step c cbt u k (l, s) (SEmit n) (on_notification c u k n l s)"
| recv: "\<not> ls_done l \<Longrightarrow> ls_chan l = ev # rest \<Longrightarrow> sub_step c cbt u k (l, s) SRecv (pump cbt ev rest l s)"
| stop: "\<not> ls_done l \<Longrightarrow> ctx_done (sv_env c) (sy_w s) \<Longrightarrow> sub_step c cbt u k (l, s) SDone (close_stream l s)"
| elapse: "sub_step c cbt u k (l, s) (SElapse d) (l, s\<lparr>sy_w := (sy_w s)\<lparr>w_now := w_now (sy_w s) + int d\<rparr>\<rparr>)"

inductive sub_run :: "service \<Rightarrow> (nat \<Rightarrow> nat) \<Rightarrow> user_id \<Rightarrow> string \<Rightarrow> live_sub \<times> sys \<Rightarrow> sub_label list \<Rightarrow> live_sub \<times> sys \<Rightarrow> bool"
  for c cbt u k where
  start: "sub_run c cbt u k x [] x"
| step: "sub_run c cbt u k x ls (l, s) \<Longrightarrow> sub_step c cbt u k (l, s) a y \<Longrightarrow> sub_run c cbt u k x (ls @ [a]) y"

inductive_cases sub_stepE: "sub_step c cbt u k (l, s) a (l', s')"

section \<open>Invariants\<close>

text \<open>The events of the quest the engine emitted.\<close>

fun emitted_of :: "string \<Rightarrow> sub_label list \<Rightarrow> event list" where
  "emitted_of k [] = []"
| "emitted_of k (SEmit n # ls) = (if n_snipe_id n = k then n_event n # emitted_of k ls else emitted_of k ls)"
| "emitted_of k (_ # ls) = emitted_of k ls"

lemma emitted_of_append [simp]: "emitted_of k (ls @ ms) = emitted_of k ls @ emitted_of k ms"
  by (induction k ls rule: emitted_of.induct) auto

text \<open>Nothing is reordered or invented, the channel stays within its bound, an event is dropped only
  when the channel is full, and the callback sees nothing after a terminal event.\<close>

definition stream_inv :: "event list \<Rightarrow> live_sub \<Rightarrow> bool" where
  "stream_inv evs l \<longleftrightarrow> subseq (ls_out l @ ls_chan l) evs \<and> length (ls_chan l) \<le> liveBuf \<and>
     length evs = length (ls_out l) + length (ls_chan l) + length (ls_dropped l) \<and>
     (ls_dropped l \<noteq> [] \<longrightarrow> liveBuf < length evs) \<and>
     (\<forall>ev \<in> set (butlast (ls_out l)). \<not> isTerminalEvent (ev_type ev)) \<and>
     (ls_out l \<noteq> [] \<longrightarrow> isTerminalEvent (ev_type (last (ls_out l))) \<longrightarrow> ls_done l)"

lemma step_inv:
  assumes "sub_step c cbt u k (l, s) a (l', s')" "stream_inv evs l"
  shows "stream_inv (evs @ emitted_of k [a]) l'"
  using assms(1)
proof cases
  case (emit n)
  have "subseq (xs @ ys @ [ev]) (evs @ [ev])" "subseq (xs @ ys) (evs @ [ev])" if "subseq (xs @ ys) evs" for xs ys ev
    using that list_emb_append_mono [OF that, of "[ev]" "[ev]"] by (simp_all add: subseq_rev_drop_many)
  then show ?thesis
    using emit assms(2) by (auto simp: on_notification_def stream_inv_def split: if_splits)
next
  case (recv ev rest)
  have "\<forall>x \<in> set (ls_out l). \<not> isTerminalEvent (ev_type x)"
    using assms(2) recv by (cases "ls_out l" rule: rev_cases) (auto simp: stream_inv_def)
  then have "stream_inv evs l'"
    using recv assms(2) by (auto simp: pump_def close_stream_def stream_inv_def split: if_splits)
  then show ?thesis using recv by simp
next
  case stop
  then show ?thesis using assms(2) by (auto simp: close_stream_def stream_inv_def)
next
  case (elapse d)
  then show ?thesis using assms(2) by simp
qed

lemma run_inv: "sub_run c cbt u k (l0, s0) ls (l, s) \<Longrightarrow> stream_inv evs l0 \<Longrightarrow> stream_inv (evs @ emitted_of k ls) l"
proof (induction "(l0, s0)" ls "(l, s)" arbitrary: l s rule: sub_run.induct)
  case (step ls l s a l' s')
  then show ?case using step_inv [of c cbt u k l s a l' s' "evs @ emitted_of k ls"] by simp
qed simp

lemma open_inv: "open_stream k s = (l, s') \<Longrightarrow> stream_inv [] l"
  by (auto simp: open_stream_def stream_inv_def Subscribe_def)

text \<open>What the handler persists.\<close>

definition stream_row :: "user_id \<Rightarrow> string \<Rightarrow> event \<Rightarrow> quest_event_row" where
  "stream_row u k ev = \<lparr>qe_quest = k, qe_user = u, qe_type = ev_type ev, qe_at = unix_milli (ev_at ev), qe_fields = EncodeAttrs (ev_attrs ev)\<rparr>"

definition can_persist :: "service \<Rightarrow> user_id \<Rightarrow> string \<Rightarrow> sys \<Rightarrow> bool" where
  "can_persist c u k s \<longleftrightarrow> live_env (sv_env c) \<and> sv_persist_events c \<and> u \<noteq> [] \<and> k \<noteq> [] \<and>
     filter (owned_quest u k) (q_quests (sy_q s)) \<noteq> [] \<and> user_fk (w_db (sy_w s)) u (sy_q s)"

lemma step_persist:
  assumes "sub_step c cbt u k (l, s) a (l', s')" "can_persist c u k s" "list_all (\<lambda>ev. ev_type ev \<noteq> []) (emitted_of k [a])"
  shows "q_events (sy_q s') = q_events (sy_q s) @ map (stream_row u k) (emitted_of k [a]) \<and> can_persist c u k s'"
  using assms(1)
proof cases
  case (emit n)
  then show ?thesis
    using assms(2,3)
    by (auto simp: on_notification_def writeQuestEvent_def q_exec_def can_persist_def live_io store_WriteQuestEvent_def stream_row_def
        after_store_def user_fk_def split: if_splits)
next
  case (recv ev rest)
  then show ?thesis using assms(2) by (auto simp: pump_def close_stream_def callback_def can_persist_def split: if_splits)
next
  case stop
  then show ?thesis using assms(2) by (auto simp: close_stream_def can_persist_def)
next
  case (elapse d)
  then show ?thesis using assms(2) by (auto simp: can_persist_def)
qed

lemma run_persist:
  "sub_run c cbt u k (l0, s0) ls (l, s) \<Longrightarrow> can_persist c u k s0 \<Longrightarrow> list_all (\<lambda>ev. ev_type ev \<noteq> []) (emitted_of k ls) \<Longrightarrow>
     q_events (sy_q s) = q_events (sy_q s0) @ map (stream_row u k) (emitted_of k ls) \<and> can_persist c u k s"
proof (induction "(l0, s0)" ls "(l, s)" arbitrary: l s rule: sub_run.induct)
  case (step ls l s a l' s')
  then have "q_events (sy_q s) = q_events (sy_q s0) @ map (stream_row u k) (emitted_of k ls)" "can_persist c u k s"
    "list_all (\<lambda>ev. ev_type ev \<noteq> []) (emitted_of k [a])" by simp_all
  then show ?case using step_persist [OF step(3)] by simp
qed simp

text \<open>Receiving the staged events reaches the terminal one, and ends the stream.\<close>

lemma pump_plain:
  assumes "ls_chan l = xs @ zs" "\<not> ls_done l" "\<forall>x \<in> set xs. \<not> isTerminalEvent (ev_type x)"
  shows "\<exists>l' s'. sub_run c cbt u k (l, s) (replicate (length xs) SRecv) (l', s') \<and> \<not> ls_done l' \<and> ls_chan l' = zs \<and> ls_out l' = ls_out l @ xs"
  using assms
proof (induction xs arbitrary: zs rule: rev_induct)
  case Nil
  have "sub_run c cbt u k (l, s) (replicate (length []) SRecv) (l, s)" by (simp add: start)
  then show ?case using Nil by fastforce
next
  case (snoc x xs)
  then obtain l' s' where r: "sub_run c cbt u k (l, s) (replicate (length xs) SRecv) (l', s')" "\<not> ls_done l'" "ls_chan l' = x # zs"
    "ls_out l' = ls_out l @ xs" by fastforce
  have "sub_run c cbt u k (l, s) (replicate (length (xs @ [x])) SRecv) (pump cbt x zs l' s')"
    using step [OF r(1) recv [OF r(2,3)]] by (simp add: replicate_append_same)
  then show ?case using snoc(4) r by (fastforce simp: pump_def)
qed

lemma pump_until_terminal:
  assumes "ls_chan l = xs @ ev # ys" "\<not> ls_done l" "\<forall>x \<in> set xs. \<not> isTerminalEvent (ev_type x)" "isTerminalEvent (ev_type ev)"
  shows "\<exists>l' s'. sub_run c cbt u k (l, s) (replicate (Suc (length xs)) SRecv) (l', s') \<and> ls_done l' \<and> ls_out l' = ls_out l @ xs @ [ev]"
proof -
  obtain l' s' where r: "sub_run c cbt u k (l, s) (replicate (length xs) SRecv) (l', s')" "\<not> ls_done l'" "ls_chan l' = ev # ys"
    "ls_out l' = ls_out l @ xs" using pump_plain [OF assms(1-3)] by blast
  have "sub_run c cbt u k (l, s) (replicate (Suc (length xs)) SRecv) (pump cbt ev ys l' s')"
    using step [OF r(1) recv [OF r(2,3)]] by (simp add: replicate_append_same)
  then show ?thesis using assms(4) r by (fastforce simp: pump_def close_stream_def)
qed

end
