(* ===== verification/ServiceView.thy ===== *)
theory ServiceView
  imports QuestStream
begin

text \<open>
  What a tenant sees. Two states look the same to tenant \<open>u\<close> when they agree on its rows, its
  accounts, the shared venue caches and the clock. A call is step consistent for \<open>u\<close> when it
  returns the same from two such states and leads to two such states; the calls that read, plan
  and cancel are.
\<close>

section \<open>The view of a tenant\<close>

definition q_view :: "(string \<Rightarrow> string) \<Rightarrow> user_id \<Rightarrow> qdb \<Rightarrow> qdb \<Rightarrow> bool" where
  "q_view sha u q q' \<longleftrightarrow> rows_of u q = rows_of u q' \<and> q_venue_cache q = q_venue_cache q' \<and> q_name_cache q = q_name_cache q' \<and>
     (u \<in> us_id ` set (q_users q) \<longleftrightarrow> u \<in> us_id ` set (q_users q')) \<and>
     (\<forall>r \<in> set (q_idem q) \<union> set (q_idem q'). ik_user r \<noteq> u \<longrightarrow> apart sha u (ik_user r) \<and> idem_row_ok sha r)"

definition sees :: "(string \<Rightarrow> string) \<Rightarrow> user_id \<Rightarrow> sys \<Rightarrow> sys \<Rightarrow> bool" where
  "sees sha u s t \<longleftrightarrow> q_view sha u (sy_q s) (sy_q t) \<and>
     w_now (sy_w s) = w_now (sy_w t) \<and> w_tick (sy_w s) = w_tick (sy_w t) \<and>
     db_fk (w_db (sy_w s)) = db_fk (w_db (sy_w t)) \<and>
     filter (\<lambda>a. a_user_id a = Some u) (db_accounts (w_db (sy_w s))) = filter (\<lambda>a. a_user_id a = Some u) (db_accounts (w_db (sy_w t)))"

definition consistent :: "(string \<Rightarrow> string) \<Rightarrow> user_id \<Rightarrow> (sys \<Rightarrow> 'r \<times> sys) \<Rightarrow> bool" where
  "consistent sha u f \<longleftrightarrow> (\<forall>s t. sees sha u s t \<longrightarrow> fst (f s) = fst (f t) \<and> sees sha u (snd (f s)) (snd (f t)))"

lemma consistentD:
  assumes "consistent sha u f" "sees sha u s t" "f s = (r, s')"
  obtains t' where "f t = (r, t')" "sees sha u s' t'"
  using assms unfolding consistent_def by (metis fst_conv prod.collapse snd_conv)

lemma consistent_return [simp]: "consistent sha u (\<lambda>s. (r, s))"
  by (simp add: consistent_def)

text \<open>Sequencing: what the second step does depends on the first one's result only.\<close>

lemma consistent_bind:
  assumes "consistent sha u f" "\<And>r. consistent sha u (g r)"
  shows "consistent sha u (\<lambda>s. case f s of (r, s') \<Rightarrow> g r s')"
  unfolding consistent_def
proof (intro allI impI)
  fix s t
  assume "sees sha u s t"
  then have "fst (f s) = fst (f t)" "sees sha u (snd (f s)) (snd (f t))" using assms(1) by (auto simp: consistent_def)
  then show "fst (case f s of (r, s') \<Rightarrow> g r s') = fst (case f t of (r, s') \<Rightarrow> g r s') \<and>
      sees sha u (snd (case f s of (r, s') \<Rightarrow> g r s')) (snd (case f t of (r, s') \<Rightarrow> g r s'))"
    using assms(2) by (auto simp: consistent_def case_prod_unfold)
qed

text \<open>A step whose result is not looked at, and a result computed from the clock.\<close>

lemma consistent_then:
  assumes "consistent sha u f" "consistent sha u (\<lambda>s. ((), h s))"
  shows "consistent sha u (\<lambda>s. case f s of (r, s') \<Rightarrow> (r, h s'))"
  using consistent_bind [OF assms(1), of "\<lambda>r s'. (r, h s')"] assms(2) by (auto simp: consistent_def)

lemma consistent_now:
  assumes "\<And>now. consistent sha u (g now)"
  shows "consistent sha u (\<lambda>s. g (now_of s) s)"
  using assms by (auto simp: consistent_def sees_def now_of_def)

section \<open>Store calls\<close>

lemma store_io_cong: "w_now w = w_now w' \<Longrightarrow> w_tick w = w_tick w' \<Longrightarrow> store_io e w = store_io e w'"
  by (simp add: store_io_def ctx_done_def cong: option.case_cong)

locale view_op =
  fixes sha :: "string \<Rightarrow> string" and u :: user_id and opn :: "io \<Rightarrow> db \<Rightarrow> qdb \<Rightarrow> 'r \<times> qdb"
  assumes same: "q_view sha u q q' \<Longrightarrow> db_fk d = db_fk d' \<Longrightarrow>
      filter (\<lambda>a. a_user_id a = Some u) (db_accounts d) = filter (\<lambda>a. a_user_id a = Some u) (db_accounts d') \<Longrightarrow>
      fst (opn io d q) = fst (opn io d' q') \<and> q_view sha u (snd (opn io d q)) (snd (opn io d' q'))"
begin

lemma exec_consistent: "consistent sha u (q_exec e opn)"
  unfolding consistent_def
proof (intro allI impI)
  fix s t
  assume v: "sees sha u s t"
  then have "store_io e (sy_w s) = store_io e (sy_w t)"
    by (intro store_io_cong) (simp_all add: sees_def)
  then show "fst (q_exec e opn s) = fst (q_exec e opn t) \<and> sees sha u (snd (q_exec e opn s)) (snd (q_exec e opn t))"
    using v same [of "sy_q s" "sy_q t" "w_db (sy_w s)" "w_db (sy_w t)" "store_io e (sy_w s)"]
    by (simp add: q_exec_def case_prod_unfold sees_def after_store_def)
qed

lemma exec_unit: "consistent sha u (\<lambda>s. ((), snd (q_exec e opn s)))"
  using exec_consistent by (simp add: consistent_def)

end

text \<open>A search that only looks at the tenant's rows.\<close>

lemma find_own: "filter Q xs = filter Q ys \<Longrightarrow> (\<And>r. P r \<Longrightarrow> Q r) \<Longrightarrow> find P xs = find P ys"
  by (metis find_filter)

lemma filter_filter_mono: "(\<And>r. P r \<Longrightarrow> Q r) \<Longrightarrow> filter P xs = filter P (filter Q xs)"
  by (induction xs) auto

lemma q_view_rows:
  assumes "q_view sha u q q'"
  shows "filter (\<lambda>r. qu_user r = u) (q_quests q) = filter (\<lambda>r. qu_user r = u) (q_quests q')"
    "filter (\<lambda>r. qe_user r = u) (q_events q) = filter (\<lambda>r. qe_user r = u) (q_events q')"
    "filter (\<lambda>r. ik_user r = u) (q_idem q) = filter (\<lambda>r. ik_user r = u) (q_idem q')"
    "filter (\<lambda>r. tk_user r = u) (q_tokens q) = filter (\<lambda>r. tk_user r = u) (q_tokens q')"
    "filter (\<lambda>r. au_user r = u) (q_audit q) = filter (\<lambda>r. au_user r = u) (q_audit q')"
  using assms by (simp_all add: q_view_def rows_of_def)

lemma view_owned:
  assumes "q_view sha u q q'"
  shows "find (owned_quest u k) (q_quests q) = find (owned_quest u k) (q_quests q')"
    "filter (owned_quest u k) (q_quests q) = filter (owned_quest u k) (q_quests q')"
  using find_filter [of "owned_quest u k" "\<lambda>r. qu_user r = u"] filter_filter_mono [of "owned_quest u k" "\<lambda>r. qu_user r = u"]
    q_view_rows(1) [OF assms] by (metis owned_quest_def)+

lemma view_user_fk: "q_view sha u q q' \<Longrightarrow> db_fk d = db_fk d' \<Longrightarrow> user_fk d u q = user_fk d' u q'"
  by (simp add: q_view_def user_fk_def)

interpretation get_quest: view_op sha u "\<lambda>io d q. (store_GetQuest io u k q, q)" for sha u k
  by unfold_locales (simp add: store_GetQuest_def view_owned(1) split: option.split)

interpretation list_quests: view_op sha u "\<lambda>io d q. (store_ListQuests io u f q, q)" for sha u f
proof
  fix q q' :: qdb and d d' :: db and io
  assume v: "q_view sha u q q'"
  have "filter (quest_where u f cursor) (q_quests q) = filter (quest_where u f cursor) (q_quests q')" for cursor
    using filter_filter_mono [of "quest_where u f cursor" "\<lambda>r. qu_user r = u"] q_view_rows(1) [OF v] by (metis quest_where_def)
  then show "fst (store_ListQuests io u f q, q) = fst (store_ListQuests io u f q', q') \<and>
      q_view sha u (snd (store_ListQuests io u f q, q)) (snd (store_ListQuests io u f q', q'))"
    using v by (cases "io 0") (simp_all add: store_ListQuests_def)
qed

interpretation list_events: view_op sha u "\<lambda>io d q. (store_ListQuestEvents io u k n q, q)" for sha u k n
proof
  fix q q' :: qdb and d d' :: db and io
  assume v: "q_view sha u q q'"
  have "filter (\<lambda>r. qe_user r = u \<and> qe_quest r = k) (q_events q) = filter (\<lambda>r. qe_user r = u \<and> qe_quest r = k) (q_events q')"
    using arg_cong [OF q_view_rows(2) [OF v], of "filter (\<lambda>r. qe_quest r = k)"] by simp
  then show "fst (store_ListQuestEvents io u k n q, q) = fst (store_ListQuestEvents io u k n q', q') \<and>
      q_view sha u (snd (store_ListQuestEvents io u k n q, q)) (snd (store_ListQuestEvents io u k n q', q'))"
    using v by (simp add: store_ListQuestEvents_def cong: option.case_cong)
qed

interpretation list_tokens: view_op sha u "\<lambda>io d q. (store_ListTokensForUser io u q, q)" for sha u
  by unfold_locales (simp add: store_ListTokensForUser_def q_view_rows(4) cong: option.case_cong)

interpretation list_accounts: view_op sha u "\<lambda>io d q. (store_ListAccountsForUser io u d, q)" for sha u
  by unfold_locales (simp add: store_ListAccountsForUser_def cong: option.case_cong)

interpretation venue_cache: view_op sha u "\<lambda>io d q. (GetVenueCache load io slug city q, q)" for sha u load slug city
  by unfold_locales (simp add: GetVenueCache_def q_view_def cong: option.case_cong)

interpretation name_cache: view_op sha u "\<lambda>io d q. (GetNameSearchCache load io key q, q)" for sha u load key
  by unfold_locales (simp add: GetNameSearchCache_def q_view_def cong: option.case_cong)

interpretation account_by_email: view_op sha u "\<lambda>io d q. (store_GetAccountByEmail io u email d, q)" for sha u email
proof
  fix q q' :: qdb and d d' :: db and io
  assume v: "q_view sha u q q'"
    and a: "filter (\<lambda>a. a_user_id a = Some u) (db_accounts d) = filter (\<lambda>a. a_user_id a = Some u) (db_accounts d')"
  have "find (bound_account u email) (db_accounts d) = find (bound_account u email) (db_accounts d')"
    by (rule find_own [OF a]) (simp add: bound_account_def)
  then show "fst (store_GetAccountByEmail io u email d, q) = fst (store_GetAccountByEmail io u email d', q') \<and>
      q_view sha u (snd (store_GetAccountByEmail io u email d, q)) (snd (store_GetAccountByEmail io u email d', q'))"
    using v by (simp add: store_GetAccountByEmail_def cong: option.case_cong)
qed

interpretation lookup_key: view_op sha u "\<lambda>io d q. (store_GetIdempotencyResult sha' io u scope key payload now q, q)"
  for sha u sha' scope key payload now
proof
  fix q q' :: qdb and d d' :: db and io
  assume v: "q_view sha u q q'"
  note r = q_view_rows(3) [OF v]
  have "find (\<lambda>r. ik_key_hash r = h \<and> ik_user r = u) (q_idem q) = find (\<lambda>r. ik_key_hash r = h \<and> ik_user r = u) (q_idem q')" for h
    by (rule find_own [OF r]) simp
  moreover have "filter (\<lambda>r. ik_user r = u \<and> ik_scope r = scope \<and> ik_plain_hash r = h) (q_idem q) =
      filter (\<lambda>r. ik_user r = u \<and> ik_scope r = scope \<and> ik_plain_hash r = h) (q_idem q')" for h
    using arg_cong [OF r, of "filter (\<lambda>r. ik_scope r = scope \<and> ik_plain_hash r = h)"] by simp
  ultimately show "fst (store_GetIdempotencyResult sha' io u scope key payload now q, q) =
      fst (store_GetIdempotencyResult sha' io u scope key payload now q', q') \<and>
      q_view sha u (snd (store_GetIdempotencyResult sha' io u scope key payload now q, q))
        (snd (store_GetIdempotencyResult sha' io u scope key payload now q', q'))"
    using v by (simp add: store_GetIdempotencyResult_def cong: option.case_cong)
qed

section \<open>Writes\<close>

text \<open>An update of the tenant's own rows shows in its view as the same update.\<close>

lemma filter_map_own:
  assumes "\<And>r. P (f r) = P r" "\<And>r. Q r \<Longrightarrow> P r"
  shows "filter P (map (\<lambda>r. if Q r then f r else r) xs) = map (\<lambda>r. if Q r then f r else r) (filter P xs)"
  using assms by (induction xs) auto

interpretation set_status: view_op sha u "\<lambda>io d. store_UpdateQuestStatus io u k st completed updated" for sha u k st completed updated
proof
  fix q q' :: qdb and d d' :: db and io
  assume v: "q_view sha u q q'"
  let ?g = "\<lambda>r. r\<lparr>qu_status := statusDBString st, qu_updated_at := unix_milli updated, qu_completed_at := map_option unix_milli completed\<rparr>"
  have "filter (\<lambda>r. qu_user r = u) (map (\<lambda>r. if owned_quest u k r then ?g r else r) xs) =
      map (\<lambda>r. if owned_quest u k r then ?g r else r) (filter (\<lambda>r. qu_user r = u) xs)" for xs
    by (rule filter_map_own) (simp_all add: owned_quest_def)
  then have "q_view sha u (q\<lparr>q_quests := map (\<lambda>r. if owned_quest u k r then ?g r else r) (q_quests q)\<rparr>)
      (q'\<lparr>q_quests := map (\<lambda>r. if owned_quest u k r then ?g r else r) (q_quests q')\<rparr>)"
    using v q_view_rows(1) [OF v] by (simp add: q_view_def rows_of_def)
  then show "fst (store_UpdateQuestStatus io u k st completed updated q) = fst (store_UpdateQuestStatus io u k st completed updated q') \<and>
      q_view sha u (snd (store_UpdateQuestStatus io u k st completed updated q)) (snd (store_UpdateQuestStatus io u k st completed updated q'))"
    using v view_owned(2) [OF v] by (simp add: store_UpdateQuestStatus_def split: option.split)
qed

interpretation write_event: view_op sha u "\<lambda>io d. store_WriteQuestEvent io d u k ev" for sha u k ev
proof
  fix q q' :: qdb and d d' :: db and io
  assume v: "q_view sha u q q'" and d: "db_fk d = db_fk d'"
  have "q_view sha u (q\<lparr>q_events := q_events q @ [r]\<rparr>) (q'\<lparr>q_events := q_events q' @ [r]\<rparr>)" for r
    using v by (simp add: q_view_def rows_of_def)
  then show "fst (store_WriteQuestEvent io d u k ev q) = fst (store_WriteQuestEvent io d' u k ev q') \<and>
      q_view sha u (snd (store_WriteQuestEvent io d u k ev q)) (snd (store_WriteQuestEvent io d' u k ev q'))"
    using v view_owned(2) [OF v] view_user_fk [OF v d] by (simp add: store_WriteQuestEvent_def split: option.split)
qed

definition audit_input :: "user_id \<Rightarrow> string \<Rightarrow> string \<Rightarrow> svc_error option \<Rightarrow> AuditEventInput" where
  "audit_input u action target err = \<lparr>ai_user = u, ai_target_user = None, ai_action = action, ai_target = target, ai_ok = (err = None),
     ai_error_code = errorCodeFor err, ai_ip = [], ai_agent = [], ai_details = []\<rparr>"

interpretation write_audit: view_op sha u "\<lambda>io d. store_WriteAuditEvent io d now (audit_input u action target err)"
  for sha u now action target err
proof
  fix q q' :: qdb and d d' :: db and io
  assume v: "q_view sha u q q'" and d: "db_fk d = db_fk d'"
  have "q_view sha u (q\<lparr>q_audit := q_audit q @ [r]\<rparr>) (q'\<lparr>q_audit := q_audit q' @ [r]\<rparr>)" for r
    using v by (simp add: q_view_def rows_of_def)
  then show "fst (store_WriteAuditEvent io d now (audit_input u action target err) q) =
        fst (store_WriteAuditEvent io d' now (audit_input u action target err) q') \<and>
      q_view sha u (snd (store_WriteAuditEvent io d now (audit_input u action target err) q))
        (snd (store_WriteAuditEvent io d' now (audit_input u action target err) q'))"
    using v view_user_fk [OF v d] by (cases "u = []") (simp_all add: store_WriteAuditEvent_def audit_input_def split: option.split)
qed

interpretation put_key: view_op sha u "\<lambda>io d. store_PutIdempotencyResult sha io d u scope key payload target err ttl now"
  for sha u scope key payload target err ttl now
proof
  fix q q' :: qdb and d d' :: db and io
  assume v: "q_view sha u q q'" and d: "db_fk d = db_fk d'"
  let ?kh = "HashIdempotencyKey sha u scope key payload"
  let ?f = "\<lambda>r. if ik_key_hash r = ?kh then idem_result target err ttl now r else r"
  have own: "ik_user r = u" if "ik_key_hash r = ?kh" "r \<in> set (q_idem q) \<union> set (q_idem q')" for r
    using v that key_hash_user [of sha u "ik_user r"] unfolding q_view_def idem_row_ok_def by metis
  have "?kh \<in> ik_key_hash ` set (q_idem p) \<longleftrightarrow> ?kh \<in> ik_key_hash ` set (filter (\<lambda>r. ik_user r = u) (q_idem p))"
    if "p = q \<or> p = q'" for p
    using own that by (auto simp: image_iff)
  then have m: "?kh \<in> ik_key_hash ` set (q_idem q) \<longleftrightarrow> ?kh \<in> ik_key_hash ` set (q_idem q')"
    using q_view_rows(3) [OF v] by metis
  have "filter (\<lambda>r. ik_user r = u) (map ?f xs) = map ?f (filter (\<lambda>r. ik_user r = u) xs)" for xs
    by (induction xs) auto
  then have u: "q_view sha u (q\<lparr>q_idem := map ?f (q_idem q)\<rparr>) (q'\<lparr>q_idem := map ?f (q_idem q')\<rparr>)"
    using v q_view_rows(3) [OF v] by (auto simp: q_view_def rows_of_def)
  have i: "q_view sha u (q\<lparr>q_idem := q_idem q @ [r]\<rparr>) (q'\<lparr>q_idem := q_idem q' @ [r]\<rparr>)" if "ik_user r = u" for r
    using v that by (auto simp: q_view_def rows_of_def)
  show "fst (store_PutIdempotencyResult sha io d u scope key payload target err ttl now q) =
        fst (store_PutIdempotencyResult sha io d' u scope key payload target err ttl now q') \<and>
      q_view sha u (snd (store_PutIdempotencyResult sha io d u scope key payload target err ttl now q))
        (snd (store_PutIdempotencyResult sha io d' u scope key payload target err ttl now q'))"
    using v u i m view_user_fk [OF v d] by (simp add: store_PutIdempotencyResult_def Let_def split: option.split)
qed

interpretation revoke_token: view_op sha u "\<lambda>io d. store_RevokeToken io u k now" for sha u k now
proof
  fix q q' :: qdb and d d' :: db and io
  assume v: "q_view sha u q q'"
  let ?f = "\<lambda>r. if revocable u k r then r\<lparr>tk_revoked_at := Some (unix_sec now)\<rparr> else r"
  have "filter (revocable u k) (q_tokens q) = filter (revocable u k) (q_tokens q')"
    using arg_cong [OF q_view_rows(4) [OF v], of "filter (revocable u k)"] by (simp add: revocable_def [abs_def] conj_ac cong: conj_cong)
  moreover have "filter (\<lambda>r. tk_user r = u) (map ?f xs) = map ?f (filter (\<lambda>r. tk_user r = u) xs)" for xs
    by (rule filter_map_own) (simp_all add: revocable_def)
  then have "q_view sha u (q\<lparr>q_tokens := map ?f (q_tokens q)\<rparr>) (q'\<lparr>q_tokens := map ?f (q_tokens q')\<rparr>)"
    using v q_view_rows(4) [OF v] by (simp add: q_view_def rows_of_def)
  ultimately show "fst (store_RevokeToken io u k now q) = fst (store_RevokeToken io u k now q') \<and>
      q_view sha u (snd (store_RevokeToken io u k now q)) (snd (store_RevokeToken io u k now q'))"
    using v by (cases "u = []") (simp_all add: store_RevokeToken_def split: option.split)
qed

interpretation put_venue: view_op sha u "\<lambda>io d. UpsertVenueCache io slug city vn at" for sha u slug city vn at
  by unfold_locales (auto simp: UpsertVenueCache_def q_view_def split: option.split)

interpretation put_name: view_op sha u "\<lambda>io d. UpsertNameSearchCache io key hits at" for sha u key hits at
  by unfold_locales (auto simp: UpsertNameSearchCache_def q_view_def split: option.split)

section \<open>Calls of the service\<close>

lemma provider_consistent: "consistent sha u (call_provider e f)"
  by (simp add: consistent_def call_provider_def sees_def after_call_def)

lemma stale_consistent:
  assumes "consistent sha u f" "consistent sha u g"
  shows "consistent sha u (\<lambda>s. if isStale rv at s then f s else g s)"
proof -
  have "isStale rv at s = isStale rv at t" if "sees sha u s t" for s t
    using that by (simp add: isStale_def sees_def)
  then show ?thesis using assms by (simp add: consistent_def)
qed

lemma sum_consistent:
  assumes "\<And>e. consistent sha u (f e)" "\<And>v. consistent sha u (g v)"
  shows "consistent sha u (\<lambda>s. case r of Inl e \<Rightarrow> f e s | Inr v \<Rightarrow> g v s)"
  using assms by (cases r) simp_all

lemma option_consistent:
  assumes "consistent sha u f" "\<And>v. consistent sha u (g v)"
  shows "consistent sha u (\<lambda>s. case r of None \<Rightarrow> f s | Some v \<Rightarrow> g v s)"
  using assms by (cases r) simp_all

lemma pair_consistent: "(\<And>x y. consistent sha u (f x y)) \<Longrightarrow> consistent sha u (\<lambda>s. case p of (x, y) \<Rightarrow> f x y s)"
  by (cases p) simp

lemma if_consistent: "consistent sha u f \<Longrightarrow> consistent sha u g \<Longrightarrow> consistent sha u (\<lambda>s. if b then f s else g s)"
  by (cases b) simp_all

lemmas step_consistent = consistent_return sum_consistent option_consistent if_consistent pair_consistent

lemma audit_consistent: "consistent sha u (\<lambda>s. (r, audit c u action target err s))"
proof -
  have "consistent sha u (\<lambda>s. ((), snd (q_exec (sv_env c) (\<lambda>io d. store_WriteAuditEvent io d now (audit_input u action target err)) s)))" for now
    by (rule write_audit.exec_unit)
  from consistent_now [OF this] show ?thesis
    by (simp add: consistent_def audit_def audit_input_def)
qed

lemma event_consistent: "consistent sha u (\<lambda>s. (r, writeQuestEvent c u k ev s))"
  using write_event.exec_unit [of sha u "sv_env c" k ev] by (simp add: writeQuestEvent_def consistent_def)

lemma record_consistent: "consistent (e_sha (sv_env c)) u (\<lambda>s. (r, recordIdempotency c u scope key payload target err now s))"
  using put_key.exec_unit [of "e_sha (sv_env c)" u "sv_env c" scope "the key" payload target "map_option sx_text err" idempotencyTTL now]
  by (simp add: recordIdempotency_def consistent_def)

lemma prior_consistent: "consistent sha u (prior_outcome c u scope key payload now)"
  unfolding prior_outcome_def q_read_def
  by (intro if_consistent consistent_bind [OF lookup_key.exec_consistent] sum_consistent consistent_return)

lemma put_venue_consistent: "consistent sha u (\<lambda>s. (r, snd (q_exec e (\<lambda>io d. UpsertVenueCache io slug city v (w_now (sy_w s))) s)))"
  using consistent_now [of sha u "\<lambda>now s. ((), snd (q_exec e (\<lambda>io d. UpsertVenueCache io slug city v now) s))", OF put_venue.exec_unit]
  by (simp add: consistent_def now_of_def)

lemma put_name_consistent: "consistent sha u (\<lambda>s. (r, snd (q_exec e (\<lambda>io d. UpsertNameSearchCache io key hits (w_now (sy_w s))) s)))"
  using consistent_now [of sha u "\<lambda>now s. ((), snd (q_exec e (\<lambda>io d. UpsertNameSearchCache io key hits now) s))", OF put_name.exec_unit]
  by (simp add: consistent_def now_of_def)

lemma fetch_slug_consistent: "consistent sha u (fetch_slug e rv slug city cached)"
  unfolding fetch_slug_def by (intro consistent_bind [OF provider_consistent] step_consistent put_venue_consistent)

lemma fetch_name_consistent: "consistent sha u (fetch_name e rv trimmed key cached)"
  unfolding fetch_name_def by (intro consistent_bind [OF provider_consistent] step_consistent put_name_consistent)

lemma resolveSlug_consistent: "consistent sha u (resolveSlug e rv slug city)"
  unfolding resolveSlug_def Let_def q_read_def
  by (intro if_consistent consistent_return consistent_bind [OF venue_cache.exec_consistent] sum_consistent pair_consistent
      stale_consistent fetch_slug_consistent)

lemma resolveName_consistent: "consistent sha u (resolveName e rv n)"
  unfolding resolveName_def Let_def q_read_def
  by (intro if_consistent consistent_return consistent_bind [OF name_cache.exec_consistent] sum_consistent pair_consistent
      stale_consistent fetch_name_consistent)

lemma Resolve_consistent: "consistent sha u (Resolve e rv query)"
proof (cases query)
  case None
  then show ?thesis by (simp add: Resolve_def [abs_def])
next
  case (Some v)
  then show ?thesis
    by (cases v) (simp_all add: Resolve_def [abs_def] resolveURL_def [abs_def] resolveSlug_consistent resolveName_consistent
        sum_consistent pair_consistent)
qed

lemma snapshot_consistent: "consistent sha u (calendar_snapshot c g v)"
  unfolding calendar_snapshot_def by (intro if_consistent consistent_bind [OF provider_consistent] step_consistent)

lemma PlanQuest_consistent: "consistent sha u (PlanQuest c u g)"
proof -
  have "consistent sha u (\<lambda>s. case goal_Validate (rv_uni (sv_resolver c)) g now of
        Some ge \<Rightarrow> (Inl (err ge), audit c u ''quest.plan'' [] (Some (err ge)) s)
      | None \<Rightarrow> case Resolve (sv_env c) (sv_resolver c) (gl_venue_query g) s of
        (Inl re, s1) \<Rightarrow> (Inl (mapResolverError c re), audit c u ''quest.plan'' [] (Some (mapResolverError c re)) s1)
      | (Inr v, s1) \<Rightarrow> (case calendar_snapshot c g v s1 of (cal, s2) \<Rightarrow>
        (case B v cal of Inl pe \<Rightarrow> (Inl (f pe), audit c u ''quest.plan'' [] (Some (f pe)) s2)
         | Inr p \<Rightarrow> (Inr p, audit c u ''quest.plan'' (pl_hash p) None s2))))" for now err B f
    by (intro option_consistent sum_consistent consistent_bind [OF Resolve_consistent] consistent_bind [OF snapshot_consistent] audit_consistent)
  from consistent_now [OF this] show ?thesis
    unfolding PlanQuest_def Let_def by (intro if_consistent consistent_return)
qed

lemma ResolveVenue_consistent: "consistent sha u (ResolveVenue c u query)"
  unfolding ResolveVenue_def Let_def
  by (intro if_consistent consistent_return consistent_bind [OF Resolve_consistent] sum_consistent audit_consistent)

lemma get_body_consistent: "consistent sha u (get_body c u k)"
  unfolding get_body_def q_read_def
  by (intro consistent_return sum_consistent consistent_bind [OF get_quest.exec_consistent]
      consistent_bind [OF list_events.exec_consistent] consistent_bind [OF PlanQuest_consistent])

lemma GetQuest_consistent: "consistent sha u (GetQuest c u k)"
  unfolding GetQuest_def
  by (intro if_consistent consistent_return consistent_bind [OF get_body_consistent] audit_consistent)

lemma ListQuests_consistent: "consistent sha u (ListQuests c u f)"
  unfolding ListQuests_def Let_def q_read_def
  by (intro if_consistent consistent_return consistent_bind [OF list_quests.exec_consistent] sum_consistent audit_consistent)

lemma ListAccounts_consistent: "consistent sha u (ListAccounts c u)"
  unfolding ListAccounts_def Let_def q_read_def
  by (intro if_consistent consistent_return consistent_bind [OF list_accounts.exec_consistent] sum_consistent audit_consistent)

lemma ListTokens_consistent: "consistent sha u (ListTokens c caller u)"
  unfolding ListTokens_def q_read_def
  by (intro consistent_bind if_consistent consistent_return option_consistent list_tokens.exec_consistent sum_consistent audit_consistent)

lemma RevokeToken_consistent: "consistent sha u (RevokeToken c caller u k)"
proof -
  have x: "consistent sha u (\<lambda>s. q_exec (sv_env c) (\<lambda>io d. store_RevokeToken io u k (now_of s)) s)"
    by (rule consistent_now) (rule revoke_token.exec_consistent)
  show ?thesis
    unfolding RevokeToken_def by (intro x consistent_bind if_consistent consistent_return option_consistent audit_consistent)
qed

lemma InviteUser_consistent: "consistent sha u (InviteUser c u email)"
  unfolding InviteUser_def by (rule audit_consistent)

lemma ListUsers_consistent: "consistent sha u (service_ListUsers c u)"
  unfolding service_ListUsers_def by (rule audit_consistent)

lemma cancel_fresh_consistent: "consistent sha u (cancel_fresh c u k reason now)"
  unfolding cancel_fresh_def q_read_def
  by (intro if_consistent consistent_return consistent_bind [OF get_quest.exec_consistent]
      consistent_bind [OF set_status.exec_consistent] sum_consistent option_consistent event_consistent)

lemma CancelQuest_consistent: "consistent (e_sha (sv_env c)) u (CancelQuest c u k opts)"
proof -
  have "consistent (e_sha (sv_env c)) u (cancel_body c u k opts)"
    unfolding cancel_body_def Let_def
    by (rule consistent_now, intro if_consistent consistent_return consistent_bind [OF prior_consistent]
        consistent_bind [OF cancel_fresh_consistent] sum_consistent option_consistent record_consistent)
  then show ?thesis
    unfolding CancelQuest_def
    by (intro if_consistent consistent_return consistent_bind audit_consistent)
qed

lemma replay_consistent: "consistent sha u (replay_events c cbt evs)"
proof (induction evs)
  case Nil
  have "replay_events c cbt [] = (\<lambda>s. (([], False), s))" by auto
  then show ?case by (simp add: consistent_def)
next
  case (Cons ev evs)
  have call: "consistent sha u (\<lambda>s. ((), callback cbt s))"
    by (simp add: consistent_def callback_def sees_def)
  have done_same: "ctx_done (sv_env c) (sy_w s) = ctx_done (sv_env c) (sy_w t)" if "sees sha u s t" for s t
    using that by (simp add: ctx_done_def sees_def cong: option.case_cong)
  have "consistent sha u (\<lambda>s. case replay_events c cbt evs s of ((out, stopped), s') \<Rightarrow> ((ev # out, stopped), s'))"
    by (intro consistent_bind [OF Cons] pair_consistent consistent_return)
  then have "consistent sha u (\<lambda>s. case replay_events c cbt evs (callback cbt s) of ((out, stopped), s') \<Rightarrow> ((ev # out, stopped), s'))"
    using call by (auto simp: consistent_def)
  then show ?case
    using done_same by (auto simp: consistent_def)
qed

lemma subscribe_consistent: "consistent sha u (subscribe_start c cbt u k)"
proof -
  have a: "consistent sha u (\<lambda>s. q_exec (sv_env c) (\<lambda>io d q. (store_ListQuestEvents io u k 0 q, q)) (audit c u ''quest.subscribe'' k None s))"
    using audit_consistent [of sha u "()" c "''quest.subscribe''" k None] list_events.exec_consistent [of sha u "sv_env c" k 0]
    by (auto simp: consistent_def)
  show ?thesis
    unfolding subscribe_start_def q_read_def
    by (intro if_consistent consistent_return consistent_bind [OF get_quest.exec_consistent] consistent_bind [OF a]
        consistent_bind [OF replay_consistent] sum_consistent pair_consistent audit_consistent)
qed

end
