(* ===== verification/DomainSpec.thy ===== *)
theory DomainSpec
  imports Lifecycle
begin

text \<open>The properties of the domain types and of the life-cycle table, with their witnesses.\<close>

definition ex_intent :: intent where
  "ex_intent = \<lparr>i_user = ''ana@example.com'', i_venue = \<lparr>vr_provider = ''resy'', vr_ref = ''1505''\<rparr>,
     i_date = Date 2026 5 9, i_party_size = 2,
     i_slot_prefs = [\<lparr>sp_time = WallTime 19 0 0, sp_table_type = ''Dining Room''\<rparr>,
                     \<lparr>sp_time = WallTime 19 30 0, sp_table_type = ''''\<rparr>],
     i_release = Some (ExplicitRelease 63900000000000000000)\<rparr>"

lemma ex_intent_ok: "intent_ok ex_intent"
  by (simp add: ex_intent_def intent_ok_def valid_walltime_def release_ok_def) code_simp

text \<open>C33: the intent hash identifies the intent. For a digest without collisions, two
  well-formed intents have the same \<^verbatim>\<open>Hash\<close> exactly when they are equal: no two different
  users, venues, dates, party sizes, ordered slot preferences or release strategies are
  written as the same canonical text.\<close>

theorem intent_hash_identifies:
  assumes "inj sha" "intent_ok i" "intent_ok j"
  shows "Hash sha i = Hash sha j \<longleftrightarrow> i = j"
  using assms intent_canonical_inject by (auto simp: Hash_def dest: injD)

text \<open>Another party size, and another account with the same reservation: other hashes.\<close>

theorem intent_hash_identifies_witness:
  "Hash (\<lambda>x. x) (ex_intent\<lparr>i_party_size := 4\<rparr>) \<noteq> Hash (\<lambda>x. x) ex_intent \<and>
   Hash (\<lambda>x. x) (ex_intent\<lparr>i_user := ''bob@example.com''\<rparr>) \<noteq> Hash (\<lambda>x. x) ex_intent"
proof -
  have "intent_ok (ex_intent\<lparr>i_party_size := 4\<rparr>)" "intent_ok (ex_intent\<lparr>i_user := ''bob@example.com''\<rparr>)"
    by (simp add: ex_intent_def intent_ok_def valid_walltime_def release_ok_def, code_simp)+
  then show ?thesis
    using intent_hash_identifies [OF inj_on_id2 _ ex_intent_ok] by (simp add: ex_intent_def)
qed

text \<open>an idempotency key is reused only for the same attempt. For a digest without
  collisions, equal keys come from equal intent hashes, equal attempt numbers and slot payloads
  with the same canonical line, so two attempts of one race never share a key.\<close>

theorem idempotency_key_separates:
  assumes "inj sha" "one_line h" "one_line h'" "payload_ok p" "payload_ok p'"
    and "IdempotencyKey sha h p a = IdempotencyKey sha h' p' a'"
  shows "h = h' \<and> a = a' \<and> writeSlotPayloadCanonical p = writeSlotPayloadCanonical p'"
proof -
  have "idempotency_canonical h p a = idempotency_canonical h' p' a'"
    using assms(1,6) by (simp add: IdempotencyKey_def inj_eq)
  then show ?thesis using idempotency_canonical_inject [OF assms(2-5)] by blast
qed

theorem idempotency_key_separates_witness:
  "IdempotencyKey (\<lambda>x. x) ''ab'' None 1 \<noteq> IdempotencyKey (\<lambda>x. x) ''ab'' None 2"
  using idempotency_key_separates [of "\<lambda>x. x" "''ab''" "''ab''" None None 1 2]
  by (auto simp: payload_ok_def)

text \<open>Dates and wall-clock times survive printing and parsing. A calendar date of the
  years 0 to 9999 and a time of day print to text that parses back to them, and whatever
  \<^verbatim>\<open>ParseDate\<close> accepts is a calendar date.\<close>

theorem date_walltime_roundtrip:
  assumes "valid_date d" "valid_walltime w"
  shows "ParseDate (date_string d) = Inr d \<and> ParseWallTime (walltime_string w) = Inr w \<and>
    (\<forall>s e. ParseDate s = Inr e \<longrightarrow> valid_date e)"
  using date_codec.dec_enc [OF assms(1)] walltime_codec.dec_enc [OF assms(2)] ParseDate_valid by blast

theorem date_walltime_roundtrip_witness:
  "ParseDate (date_string (Date 2024 2 29)) = Inr (Date 2024 2 29) \<and>
   ParseWallTime (walltime_string (WallTime 23 5 0)) = Inr (WallTime 23 5 0)"
proof -
  have "valid_date (Date 2024 2 29)" "valid_walltime (WallTime 23 5 0)" by code_simp+
  then show ?thesis using date_walltime_roundtrip by blast
qed

text \<open>The life-cycle table. A status is terminal exactly when the table allows no move from
  it, every other status can fail and be cancelled, no move stays in place, and the boot-time
  assertion accepts the table.\<close>

theorem lifecycle_table:
  "(IsTerminal s \<longleftrightarrow> (\<forall>t. \<not> CanTransition s t)) \<and>
   (IsTerminal s \<or> CanTransition s StatusFailed \<and> CanTransition s StatusCanceled) \<and>
   \<not> CanTransition s s \<and> init_check allowedTransitions"
  using terminal_iff_no_moves live_can_fail CanTransition_irrefl init_check_table by blast

text \<open>the phases of a booking come in order. A walk of the table from Submitted that ends in
  Booked has passed through Awaiting, Finding and Booking, in this order, and stops there.\<close>

theorem booked_through_phases:
  assumes "successively CanTransition (StatusSubmitted # xs)" "last (StatusSubmitted # xs) = StatusBooked"
  shows "subseq [StatusAwaiting, StatusFinding, StatusBooking, StatusBooked] xs \<and>
    (\<forall>ys. successively CanTransition ((StatusSubmitted # xs) @ ys) \<longrightarrow> ys = [])"
proof (intro conjI allI impI)
  show "subseq [StatusAwaiting, StatusFinding, StatusBooking, StatusBooked] xs"
    using phases_in_order [OF assms(1)] assms(2) by blast
  obtain zs where z: "StatusSubmitted # xs = zs @ [StatusBooked]"
    using assms(2) by (metis append_butlast_last_id list.distinct(1))
  show "ys = []" if "successively CanTransition ((StatusSubmitted # xs) @ ys)" for ys
    using snipe_life.terminal_last_of_walk [of zs StatusBooked ys] that unfolding z
    by (simp add: IsTerminal_def)
qed

theorem booked_through_phases_witness:
  "subseq [StatusAwaiting, StatusFinding, StatusBooking, StatusBooked]
     [StatusScheduled, StatusAwaiting, StatusFinding, StatusAwaiting, StatusFinding, StatusBooking, StatusBooked]"
  by (rule booked_through_phases [THEN conjunct1]) (simp_all add: transition_table)

end
