(* ===== verification/StoreSpec.thy ===== *)
theory StoreSpec
  imports StoreFacts DomainSpec
begin

text \<open>The properties of the SQLite store, with their witnesses.\<close>

definition empty_db :: db where
  "empty_db = \<lparr>db_snipes = [], db_events = [], db_accounts = [], db_sessions = [], db_venues = [],
     db_observed = [], db_fk = True\<rparr>"

definition ex_now :: instant where
  "ex_now = 63890000000000000000"

definition ex_snipe :: snipe_state where
  "ex_snipe = NewSnipeState ''snp_1'' ex_intent ex_now"

definition ex_event :: event where
  "ex_event = \<lparr>ev_type = EventScheduled, ev_at = ex_now,
     ev_attrs = [(''snipe_id'', AString ''snp_1''), (''scheduled_at'', ATime ex_now), (''attempt'', AInt (- 7))]\<rparr>"

definition ex_db :: db where
  "ex_db = snd (CreateSnipe (\<lambda>x. x) io_ok ex_snipe empty_db)"

lemma ex_now_range [simp]: "rfc_range ex_now"
  by code_simp

lemma ex_intent_row_ok: "intent_row_ok ex_intent"
  by code_simp

lemma ex_snipe_row_ok: "snipe_row_ok ex_snipe"
  by (simp add: snipe_row_ok_def ex_snipe_def ex_intent_row_ok result_row_ok_def)

lemma ex_event_row_ok: "event_row_ok ex_event"
  by (simp add: event_row_ok_def ex_event_def int64_def)

lemma empty_db_ok: "db_ok empty_db"
  by (simp add: db_ok_def empty_db_def)

lemma empty_snipe_at: "snipe_at empty_db = (\<lambda>_. None)"
  by (rule ext) (simp add: snipe_at_unfold find_snipe_def empty_db_def)

lemma ex_create: "CreateSnipe (\<lambda>x. x) io_ok ex_snipe empty_db = (None, ex_db)"
proof -
  obtain d where "CreateSnipe (\<lambda>x. x) io_ok ex_snipe empty_db = (None, d)"
    using CreateSnipe_total [OF ex_snipe_row_ok empty_db_ok] empty_snipe_at by fastforce
  then show ?thesis by (simp add: ex_db_def)
qed

lemma ex_db_ok: "db_ok ex_db"
  by (rule CreateSnipe_db_ok [OF ex_create ex_snipe_row_ok empty_db_ok])

lemma ex_db_at: "snipe_at ex_db = [''snp_1'' \<mapsto> ex_snipe]"
  using CreateSnipe_refines [OF ex_create ex_snipe_row_ok empty_db_ok]
  by (simp add: abs_create_def empty_snipe_at) (simp add: ex_snipe_def NewSnipeState_def)

text \<open>C3: \<^verbatim>\<open>TransitionSnipe\<close> is atomic and does what it says. Whatever its statements report, an
  error leaves the database exactly as it was; without an error the snipe reads back as the
  state written (with its original creation time and the event appended to its log), every
  other snipe is unchanged and the database stays well formed. Without a fault it succeeds on
  every existing snipe.\<close>

theorem transition_snipe_atomic:
  assumes "db_ok d" "snipe_row_ok s" "event_row_ok ev"
  shows "(case TransitionSnipe sha io s ev d of
            (Some e, d') \<Rightarrow> d' = d
          | (None, d') \<Rightarrow> db_ok d' \<and> snipe_at d' = abs_transition s ev (snipe_at d)) \<and>
         (snipe_at d (s_id s) \<noteq> None \<longrightarrow> fst (TransitionSnipe sha io_ok s ev d) = None)"
proof (rule conjI)
  show "case TransitionSnipe sha io s ev d of (Some e, d') \<Rightarrow> d' = d
      | (None, d') \<Rightarrow> db_ok d' \<and> snipe_at d' = abs_transition s ev (snipe_at d)"
    using transition_op.failed_keeps TransitionSnipe_refines [OF _ assms(2,3,1)]
      TransitionSnipe_db_ok [OF _ assms(2,3,1)]
    by (auto split: prod.split option.split)
  show "snipe_at d (s_id s) \<noteq> None \<longrightarrow> fst (TransitionSnipe sha io_ok s ev d) = None"
    using TransitionSnipe_total [OF assms(2,1)] by (metis fst_conv)
qed

theorem transition_snipe_atomic_witness:
  "fst (TransitionSnipe (\<lambda>x. x) io_ok ex_snipe ex_event ex_db) = None"
  using transition_snipe_atomic [OF ex_db_ok ex_snipe_row_ok ex_event_row_ok, of "\<lambda>x. x" io_ok]
  by (simp add: ex_db_at) (simp add: ex_snipe_def)

text \<open>A created snipe is there. \<^verbatim>\<open>CreateSnipe\<close> refuses an id that is taken and, when it
  reports no error, \<^verbatim>\<open>GetSnipe\<close> returns the state created, other snipes are unchanged and the
  new snipe has an empty event log; without a fault it succeeds on a free id.\<close>

theorem create_then_get:
  assumes "db_ok d" "snipe_row_ok s" "s_events s = []"
  shows "(case CreateSnipe sha io s d of
            (Some e, d') \<Rightarrow> d' = d
          | (None, d') \<Rightarrow> snipe_at d (s_id s) = None \<and> db_ok d' \<and> GetSnipe io_ok (s_id s) d' = Inr s \<and>
              (\<forall>k. k \<noteq> s_id s \<longrightarrow> snipe_at d' k = snipe_at d k)) \<and>
         (snipe_at d (s_id s) = None \<longrightarrow> fst (CreateSnipe sha io_ok s d) = None)"
proof (rule conjI)
  have ok: "snipe_at d (s_id s) = None \<and> db_ok d' \<and> GetSnipe io_ok (s_id s) d' = Inr s \<and>
      (\<forall>k. k \<noteq> s_id s \<longrightarrow> snipe_at d' k = snipe_at d k)" if run: "CreateSnipe sha io s d = (None, d')" for d'
  proof -
    have at: "snipe_at d' = abs_create s (snipe_at d)" by (rule CreateSnipe_refines [OF run assms(2,1)])
    then have x: "GetSnipe io_ok (s_id s) d' = Inr s"
      using GetSnipe_of_snipe_at [of d' "s_id s" "s\<lparr>s_events := []\<rparr>"] assms(3) by (simp add: abs_create_def)
    moreover have "find_snipe (s_id s) d = None" using CreateSnipe_cases [OF run] by blast
    ultimately show ?thesis
      using at x CreateSnipe_db_ok [OF run assms(2,1)] db_ok_snipe_at [OF assms(1)]
      by (simp add: abs_create_def)
  qed
  show "case CreateSnipe sha io s d of (Some e, d') \<Rightarrow> d' = d
      | (None, d') \<Rightarrow> snipe_at d (s_id s) = None \<and> db_ok d' \<and> GetSnipe io_ok (s_id s) d' = Inr s \<and>
          (\<forall>k. k \<noteq> s_id s \<longrightarrow> snipe_at d' k = snipe_at d k)"
    using create_op.failed_keeps ok by (auto split: prod.split option.split)
  show "snipe_at d (s_id s) = None \<longrightarrow> fst (CreateSnipe sha io_ok s d) = None"
    using CreateSnipe_total [OF assms(2,1)] by (metis fst_conv)
qed

theorem create_then_get_witness:
  "GetSnipe io_ok ''snp_1'' ex_db = Inr ex_snipe"
  using create_then_get [OF empty_db_ok ex_snipe_row_ok, of "\<lambda>x. x" io_ok] ex_create
  by (simp add: ex_snipe_def)

text \<open>What a reader of the columns finds: the texts with every byte that is no UTF-8 replaced. The values a column can
  hold are those whose numbers, dates and times fit.\<close>

definition stored_intent :: "intent \<Rightarrow> intent" where
  "stored_intent i = i\<lparr>i_user := coerce_utf8 (i_user i),
     i_venue := \<lparr>vr_provider = coerce_utf8 (vr_provider (i_venue i)), vr_ref = coerce_utf8 (vr_ref (i_venue i))\<rparr>,
     i_slot_prefs := map (\<lambda>p. p\<lparr>sp_table_type := coerce_utf8 (sp_table_type p)\<rparr>) (i_slot_prefs i)\<rparr>"

definition intent_fits :: "intent \<Rightarrow> bool" where
  "intent_fits i \<longleftrightarrow> valid_date (i_date i) \<and> int64 (i_party_size i) \<and>
     list_all (\<lambda>p. valid_walltime (sp_time p)) (i_slot_prefs i) \<and> release_ok (i_release i)"

definition stored_result :: "booking_result option \<Rightarrow> booking_result option" where
  "stored_result = map_option (\<lambda>b. b\<lparr>br_confirmation_id := coerce_utf8 (br_confirmation_id b)\<rparr>)"

definition attr_fits :: "attr \<Rightarrow> bool" where
  "attr_fits = (\<lambda>(k, v). case v of AInt n \<Rightarrow> int64 n | ATime t \<Rightarrow> rfc_range t | _ \<Rightarrow> True)"

lemma coerce_utf8_empty [simp]: "coerce_utf8 s = [] \<longleftrightarrow> s = []"
proof (cases s)
  case (Cons c r)
  then show ?thesis
    using utf8_len_bounds [of s] by (auto simp: coerce_utf8.simps(2) replacement_def split: option.splits)
qed simp

lemma slot_pref_stored:
  "marshaled (slot_pref_marshal (p\<lparr>sp_table_type := coerce_utf8 (sp_table_type p)\<rparr>)) = marshaled (slot_pref_marshal p)"
  by (simp add: slot_pref_marshal_def omitempty_str_def)

lemma MarshalIntent_stored: "MarshalIntent (stored_intent i) = MarshalIntent i"
  by (auto simp: MarshalIntent_def stored_intent_def venue_ref_marshal_def slot_pref_stored bind_result_def split: sum.split)

lemma stored_fits:
  "intent_fits i \<Longrightarrow> intent_row_ok (stored_intent i)" "(case r of None \<Rightarrow> True | Some b \<Rightarrow> rfc_range (br_booked_at b)) \<Longrightarrow> result_row_ok (stored_result r)"
  "list_all attr_fits as \<Longrightarrow> \<forall>(k, v) \<in> set (stored_attrs as). valid_utf8 k \<and> attr_ok v"
  by (auto simp: intent_fits_def intent_row_ok_def intent_utf8_def stored_intent_def list_all_iff result_row_ok_def stored_result_def
      stored_attrs_def attr_fits_def split: option.splits attr_value.splits)

text \<open>C32: the encoded columns lose nothing but bytes that are no UTF-8. An intent, a booking result, a timestamp
  and the attributes of an event decode to what was encoded, with such bytes replaced by U+FFFD as
  \<^verbatim>\<open>json.Marshal\<close> does, so to exactly what was encoded if all texts are UTF-8; what the release discriminator and
  the omitted zero times drop is restored.\<close>

theorem columns_roundtrip:
  assumes "intent_fits i" "case r of None \<Rightarrow> True | Some b \<Rightarrow> rfc_range (br_booked_at b)" "rfc_range t" "list_all attr_fits as"
  shows "bind_result (MarshalIntent i) UnmarshalIntent = Inr (stored_intent i) \<and> (intent_utf8 i \<longrightarrow> stored_intent i = i) \<and>
    bind_result (MarshalResult r) UnmarshalResult = Inr (stored_result r) \<and>
    (case r of None \<Rightarrow> True | Some b \<Rightarrow> valid_utf8 (br_confirmation_id b) \<longrightarrow> stored_result r = r) \<and>
    parseTime (formatTime t) = Inr t \<and> DecodeAttrs (EncodeAttrs as) = stored_attrs as \<and>
    ((\<forall>(k, v) \<in> set as. valid_utf8 k \<and> attr_ok v) \<longrightarrow> stored_attrs as = as)"
proof (intro conjI impI)
  show "bind_result (MarshalIntent i) UnmarshalIntent = Inr (stored_intent i)"
    using intent_codec.dec_enc [OF stored_fits(1) [OF assms(1)]] by (simp add: MarshalIntent_stored)
  show "stored_intent i = i" if "intent_utf8 i"
  proof -
    have "map (\<lambda>p. p\<lparr>sp_table_type := coerce_utf8 (sp_table_type p)\<rparr>) (i_slot_prefs i) = i_slot_prefs i"
      using that by (intro map_idI) (simp add: intent_utf8_def list_all_iff)
    then show ?thesis using that by (simp add: intent_utf8_def stored_intent_def)
  qed
  have "MarshalResult (stored_result r) = MarshalResult r"
    by (cases r) (simp_all add: MarshalResult_def stored_result_def split: sum.split)
  then show "bind_result (MarshalResult r) UnmarshalResult = Inr (stored_result r)"
    using result_codec.dec_enc [OF stored_fits(2) [OF assms(2)]] by simp
  show "case r of None \<Rightarrow> True | Some b \<Rightarrow> valid_utf8 (br_confirmation_id b) \<longrightarrow> stored_result r = r"
    by (simp add: stored_result_def split: option.split)
  show "parseTime (formatTime t) = Inr t" by (rule time_codec.dec_enc [OF assms(3)])
  show "DecodeAttrs (EncodeAttrs as) = stored_attrs as"
    using attrs_codec.dec_enc [OF stored_fits(3) [OF assms(4)]] by (simp add: EncodeAttrs_stored)
  show "\<forall>(k, v) \<in> set as. valid_utf8 k \<and> attr_ok v \<Longrightarrow> stored_attrs as = as"
    by (fastforce simp: stored_attrs_def intro!: map_idI split: attr_value.split)
qed

text \<open>The example intent comes back as it was; with a Latin-1 e in the user's name, the byte is replaced.\<close>

theorem columns_roundtrip_witness:
  "bind_result (MarshalIntent ex_intent) UnmarshalIntent = Inr ex_intent \<and> parseTime (formatTime ex_now) = Inr ex_now \<and>
   bind_result (MarshalIntent (ex_intent\<lparr>i_user := ''ren'' @ [CHR 0xE9]\<rparr>)) UnmarshalIntent =
     Inr (ex_intent\<lparr>i_user := ''ren'' @ replacement\<rparr>)"
proof -
  have u: "intent_utf8 ex_intent" "intent_fits ex_intent"
    using ex_intent_row_ok by (simp_all add: intent_row_ok_def intent_fits_def)
  then have "intent_fits (ex_intent\<lparr>i_user := ''ren'' @ [CHR 0xE9]\<rparr>)" by (simp add: intent_fits_def)
  moreover have "coerce_utf8 (''ren'' @ [CHR 0xE9]) = ''ren'' @ replacement" by code_simp
  then have "stored_intent (ex_intent\<lparr>i_user := ''ren'' @ [CHR 0xE9]\<rparr>) = (stored_intent ex_intent)\<lparr>i_user := ''ren'' @ replacement\<rparr>"
    by (simp add: stored_intent_def)
  ultimately show ?thesis
    using u columns_roundtrip [of ex_intent None ex_now "[]"] columns_roundtrip [of "ex_intent\<lparr>i_user := ''ren'' @ [CHR 0xE9]\<rparr>" None ex_now "[]"]
    by simp
qed

text \<open>Every persisted status can be restored. \<^verbatim>\<open>forceStatus\<close> drives a fresh state to any of the
  ten statuses and changes nothing else, along paths every step of which the table allows.\<close>

theorem force_status_reaches:
  assumes "s_status s = StatusSubmitted"
  shows "forceStatus s target = Inr (s\<lparr>s_status := target\<rparr>) \<and>
    (\<forall>path \<in> set (statusPaths target). hd path = StatusSubmitted \<and> last path = target \<and>
       successively CanTransition path) \<and> parseStatus (status_string target) = Inr target"
  using forceStatus_submitted [OF assms] statusPaths_walks status_codec.dec_enc by blast

theorem force_status_reaches_witness:
  "forceStatus ex_snipe StatusBooked = Inr (ex_snipe\<lparr>s_status := StatusBooked\<rparr>)"
  using force_status_reaches [of ex_snipe StatusBooked] by (simp add: ex_snipe_def)

text \<open>The venue cache and the observed release times are last-write-wins tables. After any
  sequence of upserts a lookup returns the last row written for its key, and what was there
  before for a key not written; \<open>load\<close> is the lookup of a zone by name, which must find the
  zones that were stored.\<close>

theorem upserts_last_write_wins:
  assumes "\<forall>v \<in> set vs. venue_ok load v" "\<forall>ob \<in> set obs. observed_ok ob"
  shows "result_option (GetVenue load io_ok ref (fold (\<lambda>v d. snd (UpsertVenue io_ok v d)) vs d)) =
      (case find (\<lambda>v. AsRef v = ref) (rev vs) of Some v \<Rightarrow> Some v | None \<Rightarrow> result_option (GetVenue load io_ok ref d)) \<and>
    result_option (GetObserved io_ok ref (fold (\<lambda>ob d. snd (UpsertObserved io_ok ob d)) obs d)) =
      (case find (\<lambda>ob. ob_venue ob = ref) (rev obs) of Some ob \<Rightarrow> Some ob | None \<Rightarrow> result_option (GetObserved io_ok ref d))"
  using venue_table.get_fold_put [where load = load and vs = vs and d = d and k = ref]
    observed_table.get_fold_put [where vs = obs and d = d and k = ref] assms by simp

definition ex_observed :: "int \<Rightarrow> ObservedRelease" where
  "ex_observed days = \<lparr>ob_venue = \<lparr>vr_provider = ''resy'', vr_ref = ''1505''\<rparr>, ob_local_time = WallTime 9 0 0,
     ob_days_offset = days, ob_observed_at = ex_now\<rparr>"

theorem upserts_last_write_wins_witness:
  "result_option (GetObserved io_ok \<lparr>vr_provider = ''resy'', vr_ref = ''1505''\<rparr>
     (fold (\<lambda>ob d. snd (UpsertObserved io_ok ob d)) [ex_observed 14, ex_observed 30] empty_db)) = Some (ex_observed 30)"
  using upserts_last_write_wins [of "[]" "\<lambda>_. None" "[ex_observed 14, ex_observed 30]"
      "\<lparr>vr_provider = ''resy'', vr_ref = ''1505''\<rparr>" empty_db]
  by (simp add: observed_ok_def ex_observed_def valid_walltime_def)

text \<open>The first session of a user is the one found. On a database that knows neither the
  e-mail nor the account derived from it, \<^verbatim>\<open>GetSession\<close> after \<^verbatim>\<open>UpsertSession\<close> returns the session
  written, flagged expired from the instant of its expiry on and never when it has none.\<close>

theorem session_upsert_get:
  assumes "fresh_user (se_user sess) d" "session_ok sess"
  shows "fst (UpsertSession io_ok sess d) = None \<and>
    GetSession io_ok (se_user sess) (se_provider sess) now (snd (UpsertSession io_ok sess d)) =
      (Some sess, if se_expires_at sess \<noteq> 0 \<and> se_expires_at sess \<le> now then Some ErrSessionExpired else None)"
  using GetSession_fresh [OF assms] UpsertSession_fresh [OF assms(1)] by simp

definition ex_session :: "string \<Rightarrow> SessionRow" where
  "ex_session jwt = \<lparr>se_user = ''ana@example.com'', se_provider = ''resy'', se_jwt = jwt,
     se_expires_at = ex_now, se_created_at = ex_now, se_updated_at = ex_now\<rparr>"

theorem session_upsert_get_witness:
  "GetSession io_ok ''ana@example.com'' ''resy'' 0 (snd (UpsertSession io_ok (ex_session ''jwt'') empty_db)) =
     (Some (ex_session ''jwt''), None)"
  using session_upsert_get [of "ex_session ''jwt''" empty_db 0]
  by (simp add: fresh_user_def empty_db_def session_ok_def ex_session_def) (simp add: ex_now_def)

definition ex_shared_db :: db where
  "ex_shared_db = empty_db\<lparr>
     db_accounts := [\<lparr>a_id = ''acct_b'', a_user_id = Some ''usr_bob'', a_resy_email = ''ana@example.com'',
       a_display_name = ''bob'', a_created_at = 0\<rparr>],
     db_sessions := [\<lparr>sr_account_id = ''acct_b'', sr_provider = ''resy'', sr_jwt = ''other'', sr_exp = [],
       sr_created_at = [], sr_updated_at = []\<rparr>]\<rparr>"

text \<open>A session written for an e-mail can be shadowed by another account's. When an account of
  a homelab user with the same e-mail already has a session, \<^verbatim>\<open>UpsertSession\<close> writes the new
  token to the account without a user and \<^verbatim>\<open>GetSession\<close> still returns the other account's
  token.\<close>

theorem session_shadowed_by_other_account:
  "(case GetSession io_ok ''ana@example.com'' ''resy'' 0 (snd (UpsertSession io_ok (ex_session ''mine'') ex_shared_db)) of
      (Some sess, err) \<Rightarrow> se_jwt sess = ''other'' \<and> err = None | _ \<Rightarrow> False)"
  by (simp add: UpsertSession_def ensure_account_def upsert_session_row_def GetSession_def session_join_def
      ex_shared_db_def empty_db_def ex_session_def legacy_account_def parseTime_def is_zero_def Let_def)

lemma frac_half: "frac_text 500000000 = ''.5''"
proof -
  have "show_nat 500000000 = ''500000000''"
    by (simp add: show_nat.simps digit_char_def digits_def)
  then show ?thesis by (simp add: frac_text_def zero_pad_def strip_zeros_def)
qed

lemma frac_none: "frac_text 0 = []"
  by code_simp

lemma less_append: "(xs::string) < ys \<Longrightarrow> ps @ xs < ps @ ys"
  by (induction ps) simp_all

text \<open>The timestamp text does not sort as the timestamps do. \<^verbatim>\<open>RFC3339Nano\<close> drops the trailing
  zeros of the fraction, so the text of every whole second is greater than the text of the
  instant half a second later; the snipes of one status are listed by this text.\<close>

theorem timestamp_text_order_differs:
  assumes "t mod second = 0" "0 < t"
  shows "formatTime (t + 500 * millisecond) < formatTime t"
proof -
  have d: "(t + 500 * millisecond) div second = t div second" "(t + 500 * millisecond) mod second = 500000000"
    using assms(1) by (auto simp: second_def millisecond_def mod_0_imp_dvd elim!: dvdE)
  define p where "p = date_text (date_in t utc) @ ''T'' @ clock_text (clock_in t utc)"
  have "rfc3339nano (t + 500 * millisecond) = p @ ''.5Z''"
    by (simp add: rfc3339nano_def p_def date_in_def clock_in_def wall_secs_def d frac_half)
  moreover have "rfc3339nano t = p @ ''Z''"
    using assms(1) by (simp add: rfc3339nano_def p_def frac_none)
  moreover have "p @ ''.5Z'' < p @ ''Z''"
    by (rule less_append) (simp add: less_char_def)
  ultimately show ?thesis
    using assms(2) by (simp add: formatTime_def is_zero_def millisecond_def)
qed

theorem timestamp_text_order_differs_witness:
  "formatTime (ex_now + 500 * millisecond) < formatTime ex_now"
  by (rule timestamp_text_order_differs) (simp_all add: ex_now_def second_def)

end
