(* ===== verification/EngineSpec.thy ===== *)
theory EngineSpec
  imports EngineLive StoreSpec
begin

text \<open>The properties of the engine, with their witnesses.\<close>

section \<open>An example world\<close>

definition ex_due :: instant where
  "ex_due = 63900000000000000000"

definition ex_env :: env where
  "ex_env = \<lparr>e_sha = (\<lambda>x. x), e_load_location = (\<lambda>_. Some utc), e_cancel_at = None, e_io = (\<lambda>_. io_ok),
     e_store_time = (\<lambda>_. 0), e_late = (\<lambda>_. 0), e_tie = (\<lambda>_. TieDone),
     e_calendar = (\<lambda>_ ref r. Inr \<lparr>cal_venue = ref, cal_days = [\<lparr>cd_date = dr_start r, cd_available = True\<rparr>]\<rparr>),
     e_find = (\<lambda>_ _. Inr []), e_call_time = (\<lambda>_. 0)\<rparr>"

definition ex_world :: world where
  "ex_world = \<lparr>w_now = ex_due, w_tick = 0, w_db = ex_db,
     w_registry = \<lparr>subs = [(1, ''cli''), (0, ''log'')], nextSubID = 2\<rparr>, w_calls = [], w_emitted = [], w_delivered = []\<rparr>"

definition ex_engine :: engine where
  "ex_engine = \<lparr>en_has_provider = True, en_policy = defaultBookingPolicy\<rparr>"

lemma ex_due_range [simp]: "rfc_range ex_due" "0 \<le> ex_due" "0 < ex_due"
  by (code_simp, simp_all add: ex_due_def)

lemma ex_env_live: "live_env ex_env" "answers ex_env"
  by (simp_all add: live_env_def answers_def ex_env_def)

lemma ex_world_simps [simp]:
  "w_now ex_world = ex_due" "w_db ex_world = ex_db" "w_emitted ex_world = []" "w_calls ex_world = []"
  by (simp_all add: ex_world_def)

lemma ex_get: "GetSnipe io_ok ''snp_1'' ex_db = Inr ex_snipe"
  using GetSnipe_of_snipe_at [of ex_db "''snp_1''" ex_snipe] ex_db_at by (simp add: ex_snipe_def NewSnipeState_def)

lemma ex_snipe_simps [simp]:
  "s_id ex_snipe = ''snp_1''" "s_status ex_snipe = StatusSubmitted" "s_intent ex_snipe = ex_intent"
  "s_events ex_snipe = []"
  by (simp_all add: ex_snipe_def)

lemma ex_intent_release [simp]: "i_release ex_intent = Some (ExplicitRelease ex_due)"
  by (simp add: ex_intent_def ex_due_def)

lemma ex_persisted: "persisted ex_snipe [] ex_world"
  by (simp add: persisted_def ex_db_ok ex_snipe_row_ok ex_db_at)

text \<open>With a store that takes no time, a snipe that is already due is moved at the instant of the
  run.\<close>

lemma persist_swap_now:
  "e_store_time e = (\<lambda>_. 0) \<Longrightarrow> w_now (snd (snd (persist_swap e s c ev w))) = w_now w"
  by (simp add: persist_swap_def after_store_def split: prod.split option.split)

lemma state_Transition_now:
  "e_store_time e = (\<lambda>_. 0) \<Longrightarrow> w_now (snd (snd (state_Transition e to et attrs s w))) = w_now w"
  by (simp add: state_Transition_def Let_def persist_swap_now)

lemma ensure_scheduled_now:
  "e_store_time e = (\<lambda>_. 0) \<Longrightarrow> w_now (snd (snd (ensure_scheduled e s w))) = w_now w"
  by (simp add: ensure_scheduled_def transitionToScheduled_def Let_def persist_swap_now split: sum.split)

lemma Run_due_now:
  assumes "e_store_time e = (\<lambda>_. 0)" "GetSnipe (store_io e w) sid (w_db w) = Inr s"
    "i_release (s_intent s) = Some (ExplicitRelease at)" "at \<le> w_now w" "s_status s = StatusSubmitted"
  shows "w_now (snd (snd (Run e en sid w))) = w_now w"
proof -
  obtain q s2 w2 where es: "ensure_scheduled e s (after_store e (w_db w) w) = (q, s2, w2)" by (metis prod_cases3)
  have now2: "w_now w2 = w_now w"
    using ensure_scheduled_now [OF assms(1), of s "after_store e (w_db w) w"] es assms(1) by (simp add: after_store_def)
  have "q = None \<Longrightarrow> s_scheduled_at s2 = at \<and> s_intent s2 = s_intent s"
    using es assms(3,5) transitionToScheduled_keeps by (fastforce simp: ensure_scheduled_def scheduledAtFromIntent_def)
  then show ?thesis
    using es now2 assms state_Transition_now [OF assms(1), of StatusAwaiting EventReleased "[venue_attr s2]" s2 w2]
    by (auto simp: Run_def Load_def fire_when_due_def runStrategy_def Let_def split: option.split prod.splits)
qed

lemma ex_run: "\<exists>s' w'. Run ex_env ex_engine ''snp_1'' ex_world = (None, Some s', w') \<and> w_now w' = ex_due \<and>
    s_status s' = StatusAwaiting"
proof -
  obtain err so w' where run: "Run ex_env ex_engine ''snp_1'' ex_world = (err, so, w')" by (metis prod_cases3)
  have now: "w_now w' = ex_due"
    using Run_due_now [of ex_env ex_world "''snp_1''" ex_snipe ex_due ex_engine] ex_get run
      live_env_simps(2) [OF ex_env_live(1)] by (simp add: ex_env_def)
  have "err = None \<and> (\<exists>s'. so = Some s' \<and> settled (s_intent ex_snipe) (s_status s') \<and> (\<exists>evs. persisted s' evs w'))"
    by (rule Run_live [OF run ex_env_live, of ex_snipe])
      (simp_all add: ex_db_ok ex_db_at release_valid_def now)
  then show ?thesis using run now by (auto simp: settled_def)
qed

section \<open>The gate for status changes\<close>

text \<open>C1: \<^verbatim>\<open>SnipeState.Transition\<close> is the atomic gate it claims to be. A move that is not in the table
  is refused and touches nothing. If the persist fails, the state in memory and the database
  are unchanged and nobody is notified. Otherwise memory and database both hold the new
  status with the event appended, and one notification with the old and the new status has
  been sent.\<close>

theorem transition_gate:
  assumes run: "state_Transition e to et attrs s w = (err, s', w')" and p: "persisted s evs w"
    and t: "rfc_range (w_now w)" and a: "\<forall>(k, v) \<in> set attrs. valid_utf8 k \<and> attr_ok v"
  shows "if \<not> CanTransition (s_status s) to then err = Some (EInvalidTransition (s_status s) to) \<and> s' = s \<and> w' = w
    else if err \<noteq> None then s' = s \<and> w_db w' = w_db w \<and> w_emitted w' = w_emitted w \<and> w_delivered w' = w_delivered w
    else s_status s' = to \<and> (\<exists>ev. ev_type ev = et \<and> ev_at ev = w_now w \<and>
        persisted s' (evs @ [ev]) w' \<and>
        w_emitted w' = w_emitted w @ [\<lparr>n_snipe_id = s_id s, n_from = Some (s_status s), n_to = to, n_event = ev\<rparr>])"
proof (cases "CanTransition (s_status s) to")
  case False
  then show ?thesis using run by (auto simp: state_Transition_def)
next
  case True
  let ?c = "s\<lparr>s_status := to, s_updated_at := w_now w\<rparr>"
  let ?ev = "\<lparr>ev_type = et, ev_at = w_now w, ev_attrs = (LogKeySnipeID, AString (s_id s)) # attrs\<rparr>"
  have ps: "persist_swap e s ?c ?ev w = (err, s', w')"
    using run True by (simp add: state_Transition_def Let_def)
  then show ?thesis
  proof (cases rule: persist_swap_cases)
    case (failed er)
    then show ?thesis using True by simp
  next
    case (committed d)
    have "persisted ?c (evs @ [?ev]) w' \<and> (\<forall>k. k \<noteq> s_id s \<longrightarrow> snipe_at d k = snipe_at (w_db w) k)"
      by (rule persisted_move [OF p _ _ _ _ _ committed(3)])
        (use p t a committed in \<open>auto simp: persisted_def snipe_row_ok_def event_row_ok_def\<close>)
    then show ?thesis using True committed by (auto intro!: exI [of _ ?ev])
  qed
qed

theorem transition_gate_witness:
  "\<exists>s' w'. state_Transition ex_env StatusFailed EventFailed [] ex_snipe ex_world = (None, s', w') \<and> s_status s' = StatusFailed"
proof -
  obtain err s' w' where run: "state_Transition ex_env StatusFailed EventFailed [] ex_snipe ex_world = (err, s', w')"
    by (metis prod_cases3)
  moreover have "err = None"
    by (rule live_state_Transition [OF run ex_env_live(1) ex_persisted]) (simp_all add: transition_table)
  ultimately show ?thesis
    using transition_gate [OF run ex_persisted] by (simp add: transition_table)
qed

section \<open>Runs\<close>

text \<open>C2: a run keeps memory and database together, whatever faults occur. After \<^verbatim>\<open>Run\<close> the persisted
  snipe is the one the engine holds; its event log has grown by exactly the events notified
  during the run; these are legal moves, each from the status the one before it reached,
  stamped within the run; and no other snipe has changed.\<close>

theorem run_coherent:
  assumes run: "Run e en sid w = (err, Some s', w')" and d: "db_ok (w_db w)"
    and t: "0 \<le> w_now w" "rfc_range (w_now w')"
  shows "\<exists>s0 ns. snipe_at (w_db w) sid = Some s0 \<and> w_emitted w' = w_emitted w @ ns \<and>
    snipe_at (w_db w') sid = Some (s'\<lparr>s_events := s_events s0 @ map n_event ns\<rparr>) \<and>
    walk sid (s_status s0) ns (s_status s') \<and>
    (\<forall>n \<in> set ns. w_now w \<le> ev_at (n_event n) \<and> ev_at (n_event n) \<le> w_now w') \<and>
    (\<forall>k. k \<noteq> sid \<longrightarrow> snipe_at (w_db w') k = snipe_at (w_db w) k)"
proof -
  let ?w1 = "after_store e (w_db w) w"
  obtain s where s: "GetSnipe (store_io e w) sid (w_db w) = Inr s" and steps: "engine_run e (s, ?w1) (s', w')"
    by (rule Run_run [OF run t(1)])
  obtain evs where p: "persisted s evs ?w1" "s_id s = sid"
    using GetSnipe_persisted [OF d s, of ?w1] by auto
  have le: "w_now w \<le> w_now ?w1" "0 \<le> w_now ?w1" using t(1) by (simp_all add: after_store_def)
  have at: "snipe_at (w_db w) sid = Some (s\<lparr>s_events := evs\<rparr>)" using p by (simp add: persisted_def)
  have fr: "run_frame (s, ?w1) (s', w')" by (rule run_inv.inv_run [OF steps])
  have "db_frame (s, ?w1) (s', w')" by (rule db_inv.inv_run [OF steps])
  then obtain ns where ns: "w_emitted w' = w_emitted w @ ns" "persisted s' (evs @ map n_event ns) w'"
    and other: "\<forall>k. k \<noteq> sid \<longrightarrow> snipe_at (w_db w') k = snipe_at (w_db w) k"
    using le(2) t(2) p by (auto simp: db_frame_def)
  have wk: "walk sid (s_status s) ns (s_status s') \<and> (\<forall>n \<in> set ns. w_now ?w1 \<le> ev_at (n_event n) \<and> ev_at (n_event n) \<le> w_now w')"
    and sid': "s_id s' = sid"
    using fr ns(1) p(2) by (auto simp: run_frame_def)
  have st: "snipe_at (w_db w') sid = Some (s'\<lparr>s_events := evs @ map n_event ns\<rparr>)"
    using ns(2) sid' by (simp add: persisted_def)
  have tm: "\<forall>n \<in> set ns. w_now w \<le> ev_at (n_event n) \<and> ev_at (n_event n) \<le> w_now w'"
    using wk order_trans [OF le(1)] by blast
  show ?thesis
    by (rule exI [of _ "s\<lparr>s_events := evs\<rparr>"], rule exI [of _ ns])
      (use at ns(1) st wk tm other in simp)
qed

theorem run_coherent_witness:
  "\<exists>s' w'. Run ex_env ex_engine ''snp_1'' ex_world = (None, Some s', w') \<and> s_status s' = StatusAwaiting \<and>
     (\<exists>ns. w_emitted w' = ns \<and> walk ''snp_1'' StatusSubmitted ns StatusAwaiting)"
proof -
  obtain s' w' where run: "Run ex_env ex_engine ''snp_1'' ex_world = (None, Some s', w')" "w_now w' = ex_due"
    "s_status s' = StatusAwaiting" using ex_run by blast
  then show ?thesis using run_coherent [OF run(1)] by (simp add: ex_db_ok ex_db_at)
qed

text \<open>C7: the provider is never called too often. During one \<^verbatim>\<open>Run\<close>, consecutive calendar or find
  calls start at least the configured poll floor, and at least 100 ms, apart, and none starts
  at or after the end of the strategy's window.\<close>

theorem run_poll_floor:
  assumes "Run e en sid w = (err, Some s', w')" "0 \<le> w_now w"
  shows "\<exists>cs. w_calls w' = w_calls w @ cs \<and>
    successively (\<lambda>a b. a + max (bp_poll_floor (en_policy en)) (100 * millisecond) \<le> b) cs \<and>
    (\<forall>c \<in> set cs. w_now w \<le> c \<and> c < window_end (s_intent s'))"
  using Run_polls [OF assms] unfolding polls_def pollInterval_def by blast

theorem run_poll_floor_witness:
  "\<exists>s' w'. Run ex_env ex_engine ''snp_1'' ex_world = (None, Some s', w') \<and>
     (\<exists>cs. w_calls w' = cs \<and> successively (\<lambda>a b. a + 100 * millisecond \<le> b) cs)"
proof -
  obtain s' w' where run: "Run ex_env ex_engine ''snp_1'' ex_world = (None, Some s', w')" using ex_run by blast
  show ?thesis
    using run_poll_floor [OF run] run by (auto simp: ex_engine_def defaultBookingPolicy_def)
qed

text \<open>C4: a run ends. In an environment without cancellation and store faults, with a provider
  that answers (an empty inventory is an answer), \<^verbatim>\<open>Run\<close> on a submitted or scheduled snipe with a
  usable strategy returns nil, and the snipe is, in memory and in the database, Awaiting, or
  Failed (discovery window over) or Expired (continuous window over).\<close>

theorem run_completes:
  assumes "live_env e" "answers e" "db_ok (w_db w)" "snipe_at (w_db w) sid = Some s0"
    and "s_status s0 \<in> {StatusSubmitted, StatusScheduled}" "release_valid en (s_intent s0)"
    and "0 \<le> w_now w" "rfc_range (w_now (snd (snd (Run e en sid w))))"
  shows "\<exists>s' evs w'. Run e en sid w = (None, Some s', w') \<and> settled (s_intent s0) (s_status s') \<and>
    snipe_at (w_db w') (s_id s') = Some (s'\<lparr>s_events := evs\<rparr>)"
proof -
  obtain err so w' where run: "Run e en sid w = (err, so, w')" by (metis prod_cases3)
  then show ?thesis
    using Run_live [OF run assms(1-7)] assms(8) by (auto simp: persisted_def)
qed

theorem run_completes_witness:
  "\<exists>s' evs w'. Run ex_env ex_engine ''snp_1'' ex_world = (None, Some s', w') \<and> settled ex_intent (s_status s') \<and>
    snipe_at (w_db w') (s_id s') = Some (s'\<lparr>s_events := evs\<rparr>)"
proof -
  obtain s' w' where run: "Run ex_env ex_engine ''snp_1'' ex_world = (None, Some s', w')" "w_now w' = ex_due"
    using ex_run by blast
  show ?thesis
    using run_completes [OF ex_env_live, of ex_world "''snp_1''" ex_snipe ex_engine] run
    by (simp add: ex_db_ok ex_db_at release_valid_def)
qed

section \<open>Due time and cancellation\<close>

text \<open>The instant a run may act on a snipe: the scheduled time, or the one its strategy will set.\<close>

definition due_time :: "snipe_state \<Rightarrow> instant" where
  "due_time s = (if s_status s = StatusSubmitted then
     (case i_release (s_intent s) of Some (ExplicitRelease at) \<Rightarrow> at
        | Some (DiscoveredRelease from til) \<Rightarrow> from | _ \<Rightarrow> 0)
   else s_scheduled_at s)"

definition cancel_frame :: "env \<Rightarrow> snipe_state \<times> world \<Rightarrow> snipe_state \<times> world \<Rightarrow> bool" where
  "cancel_frame e a b \<longleftrightarrow> (\<exists>ns. w_emitted (snd b) = w_emitted (snd a) @ ns \<and>
     (\<forall>n \<in> set ns. \<forall>c. e_cancel_at e = Some c \<longrightarrow> ev_at (n_event n) < c))"

lemma TransitionSnipe_canceled: "TransitionSnipe sha (\<lambda>_. Some er) s ev d \<noteq> (None, d')"
  by (auto simp: TransitionSnipe_def split: sum.split)

interpretation cancel_inv: step_invariant "engine_step e" "cancel_frame e" for e
proof
  show "cancel_frame e c c" for c by (simp add: cancel_frame_def)
  show "cancel_frame e a b \<Longrightarrow> cancel_frame e b c \<Longrightarrow> cancel_frame e a c" for a b c
    unfolding cancel_frame_def by (metis UnE append_assoc set_append)
  show "engine_step e a b \<Longrightarrow> cancel_frame e a b" for a b
  proof (induction rule: engine_step.induct)
    case (moved s c w ev err s' w')
    from moved.hyps(10) show ?case
    proof (cases rule: persist_swap_cases)
      case (committed d)
      have "\<not> ctx_done e w"
        using committed(3) TransitionSnipe_canceled by (auto simp: store_io_def)
      then show ?thesis
        using committed(4) moved.hyps(8) by (auto simp: cancel_frame_def ctx_done_def)
    qed (simp add: cancel_frame_def)
  qed (simp add: cancel_frame_def)
qed

lemma ensure_scheduled_emits:
  assumes "ensure_scheduled e s w = (None, s2, w2)" "0 \<le> w_now w"
  obtains ms where "w_emitted w2 = w_emitted w @ ms" "\<forall>n \<in> set ms. n_to n = StatusScheduled"
    "due_time s \<le> s_scheduled_at s2" "s_scheduled_at s2 \<le> max (due_time s) (w_now w)"
proof (cases "s_status s = StatusSubmitted")
  case False
  then show thesis using assms by (intro that [of "[]"]) (auto simp: ensure_scheduled_def due_time_def)
next
  case True
  then obtain at where at: "scheduledAtFromIntent (s_intent s) w = Inr at" "transitionToScheduled e at s w = (None, s2, w2)"
    using assms by (auto simp: ensure_scheduled_def split: sum.splits)
  have "\<exists>n. w_emitted w2 = w_emitted w @ [n] \<and> n_to n = StatusScheduled"
    using at(2) True
    by (auto simp: transitionToScheduled_def persist_swap_def Let_def split: if_splits prod.splits option.splits)
  then obtain n where n: "w_emitted w2 = w_emitted w @ [n]" "n_to n = StatusScheduled" by blast
  have sch: "s_scheduled_at s2 = at" using transitionToScheduled_keeps [OF at(2)] by simp
  have cs: "at = due_time s \<or> due_time s = 0 \<and> at = w_now w"
    using at(1) True
    by (auto simp: scheduledAtFromIntent_def due_time_def split: option.splits release_strategy.splits)
  show thesis
  proof (rule that [OF n(1)])
    show "\<forall>n \<in> set [n]. n_to n = StatusScheduled" using n(2) by simp
    show "due_time s \<le> s_scheduled_at s2" "s_scheduled_at s2 \<le> max (due_time s) (w_now w)"
      using cs sch assms(2) by auto
  qed
qed

lemma Run_late:
  assumes run: "Run e en sid w = (err, Some s', w')" and get: "GetSnipe (store_io e w) sid (w_db w) = Inr s"
    and t: "0 \<le> w_now w" and far: "due_time s - w_now w \<le> max_duration"
    and em: "w_emitted w' = w_emitted w @ ns" "n \<in> set ns" "n_to n \<noteq> StatusScheduled"
  shows "due_time s \<le> ev_at (n_event n)"
  using run
proof (cases rule: Run_cases)
  case (unscheduled s1)
  then have "w_emitted w' = w_emitted w"
    by (auto simp: ensure_scheduled_def transitionToScheduled_def persist_swap_def Let_def
        split: if_splits sum.splits prod.splits option.splits)
  then show ?thesis using em by simp
next
  case (scheduled s1 s2 w2)
  let ?w1 = "after_store e (w_db w) w"
  have s1: "s1 = s" using scheduled(1) get by simp
  have n1: "w_now w \<le> w_now ?w1" "0 \<le> w_now ?w1" "w_now ?w1 \<le> w_now w2"
    using t ensure_scheduled_run [OF scheduled(2)] by (simp_all add: after_store_def)
  obtain ms where ms: "w_emitted w2 = w_emitted ?w1 @ ms" "\<forall>n \<in> set ms. n_to n = StatusScheduled"
    "due_time s \<le> s_scheduled_at s2" "s_scheduled_at s2 \<le> max (due_time s) (w_now ?w1)"
    using ensure_scheduled_emits [OF scheduled(2) n1(2)] s1 by metis
  have n2: "0 \<le> w_now w2" using n1 by linarith
  have "run_frame (s2, w2) (s', w')" by (rule run_inv.inv_run [OF fire_when_due_run [OF scheduled(3) n2]])
  then obtain ks where ks: "w_emitted w' = w_emitted w2 @ ks" by (auto simp: run_frame_def)
  have "n \<in> set ks" using em ks ms(1,2) by auto
  moreover have "w_now w \<le> w_now w2" using n1 by linarith
  then have "s_scheduled_at s2 - w_now w2 \<le> max_duration"
    using ms(4) far n1(3) by (simp add: max_duration_def max_def split: if_splits)
  ultimately have "s_scheduled_at s2 \<le> ev_at (n_event n)"
    using fire_when_due_late [OF scheduled(3) n2 _ ks] by blast
  then show ?thesis using ms(3) by linarith
qed

text \<open>C5: nothing is released early. Apart from the move to Scheduled, every move a run makes on a
  snipe is stamped no earlier than the snipe's due time (the release moment of an explicit
  strategy, the start of the probe window, or the persisted scheduled time of a resumed
  snipe), provided the due time is less than 292 years away.\<close>

theorem run_not_early:
  assumes "Run e en sid w = (err, Some s', w')" "GetSnipe (store_io e w) sid (w_db w) = Inr s"
    and "0 \<le> w_now w" "due_time s - w_now w \<le> max_duration"
    and "w_emitted w' = w_emitted w @ ns" "n \<in> set ns" "n_to n \<noteq> StatusScheduled"
  shows "due_time s \<le> ev_at (n_event n)"
  by (rule Run_late [OF assms])

theorem run_not_early_witness:
  "\<exists>s' w'. Run ex_env ex_engine ''snp_1'' ex_world = (None, Some s', w') \<and>
     (\<forall>n. n \<in> set (w_emitted w') \<longrightarrow> n_to n = StatusScheduled \<or> ex_due \<le> ev_at (n_event n))"
proof -
  obtain s' w' where run: "Run ex_env ex_engine ''snp_1'' ex_world = (None, Some s', w')" using ex_run by blast
  have due: "due_time ex_snipe = ex_due" by (simp add: due_time_def)
  have get: "GetSnipe (store_io ex_env ex_world) ''snp_1'' (w_db ex_world) = Inr ex_snipe"
    using ex_get live_env_simps(2) [OF ex_env_live(1)] by simp
  show ?thesis
    using run_not_early [OF run get] run due by (auto simp: max_duration_def)
qed

text \<open>C6: cancellation is respected. No move is begun at or after the instant the context is
  cancelled: every move that Run makes was stamped, and its transaction handed to the store, before that instant. (A transaction
  in flight at that instant can still commit after it.) If that instant is no later than the due time the snipe is never released:
  at most the move to Scheduled has been made.\<close>

theorem run_cancel_safe:
  assumes run: "Run e en sid w = (err, Some s', w')" "GetSnipe (store_io e w) sid (w_db w) = Inr s"
    and t: "0 \<le> w_now w" "due_time s - w_now w \<le> max_duration" and c: "e_cancel_at e = Some c"
  shows "\<exists>ns. w_emitted w' = w_emitted w @ ns \<and> (\<forall>n \<in> set ns. ev_at (n_event n) < c) \<and>
    (c \<le> due_time s \<longrightarrow> (\<forall>n \<in> set ns. n_to n = StatusScheduled))"
proof -
  obtain s1 where "engine_run e (s1, after_store e (w_db w) w) (s', w')"
    using Run_run [OF run(1) t(1)] by blast
  then have "cancel_frame e (s1, after_store e (w_db w) w) (s', w')" by (rule cancel_inv.inv_run)
  then obtain ns where ns: "w_emitted w' = w_emitted w @ ns" "\<forall>n \<in> set ns. ev_at (n_event n) < c"
    using c by (auto simp: cancel_frame_def)
  moreover have "c \<le> due_time s \<Longrightarrow> n \<in> set ns \<Longrightarrow> n_to n = StatusScheduled" for n
    using Run_late [OF run t ns(1)] ns(2) by fastforce
  ultimately show ?thesis by blast
qed

definition ex_canceled_env :: env where
  "ex_canceled_env = ex_env\<lparr>e_cancel_at := Some (ex_due + 1)\<rparr>"

theorem run_cancel_safe_witness:
  "\<exists>err s' w'. Run ex_canceled_env ex_engine ''snp_1'' ex_world = (err, Some s', w') \<and>
     (\<forall>n \<in> set (w_emitted w'). ev_at (n_event n) < ex_due + 1)"
proof -
  have get: "GetSnipe (store_io ex_canceled_env ex_world) ''snp_1'' (w_db ex_world) = Inr ex_snipe"
    using ex_get by (simp add: store_io_def ctx_done_def ex_canceled_env_def ex_env_def)
  obtain err so w' where run: "Run ex_canceled_env ex_engine ''snp_1'' ex_world = (err, so, w')" by (metis prod_cases3)
  then obtain s' where s': "so = Some s'"
    using get by (auto simp: Run_def Load_def split: option.splits prod.splits)
  show ?thesis
    using run_cancel_safe [OF run [unfolded s'] get] run s'
    by (auto simp: due_time_def ex_canceled_env_def max_duration_def)
qed

text \<open>Re-entry is harmless. A run on a snipe that is past Scheduled (someone else has picked it up,
  or it is over) returns nil and changes neither the database nor the notifications.\<close>

theorem run_reentry:
  assumes "GetSnipe (store_io e w) sid (w_db w) = Inr s" "s_status s \<notin> {StatusSubmitted, StatusScheduled}"
  shows "Run e en sid w = (None, Some s, after_store e (w_db w) w)"
  using assms by (simp add: Run_def Load_def ensure_scheduled_def fire_when_due_def)

definition ex_done_db :: db where
  "ex_done_db = snd (CreateSnipe (\<lambda>x. x) io_ok (ex_snipe\<lparr>s_status := StatusBooked\<rparr>) empty_db)"

theorem run_reentry_witness:
  "Run ex_env ex_engine ''snp_1'' (ex_world\<lparr>w_db := ex_done_db\<rparr>) =
     (None, Some (ex_snipe\<lparr>s_status := StatusBooked\<rparr>),
      after_store ex_env ex_done_db (ex_world\<lparr>w_db := ex_done_db\<rparr>))"
proof -
  let ?s = "ex_snipe\<lparr>s_status := StatusBooked\<rparr>"
  have ok: "snipe_row_ok ?s" using ex_snipe_row_ok by (simp add: snipe_row_ok_def)
  obtain d where d: "CreateSnipe (\<lambda>x. x) io_ok ?s empty_db = (None, d)"
    using CreateSnipe_total [OF ok empty_db_ok, where sha = "\<lambda>x. x"] empty_snipe_at by auto
  then have "snipe_at ex_done_db ''snp_1'' = Some ?s"
    using CreateSnipe_refines [OF d ok empty_db_ok] by (simp add: ex_done_db_def abs_create_def)
  then have "GetSnipe io_ok ''snp_1'' ex_done_db = Inr ?s"
    using GetSnipe_of_snipe_at [of ex_done_db "''snp_1''" ?s] by simp
  then show ?thesis
    using run_reentry [of ex_env "ex_world\<lparr>w_db := ex_done_db\<rparr>" "''snp_1''" ?s ex_engine]
      live_env_simps(2) [OF ex_env_live(1)] by simp
qed

section \<open>Submission and observation\<close>

definition submitted_event :: "env \<Rightarrow> snipe_id \<Rightarrow> intent \<Rightarrow> world \<Rightarrow> event" where
  "submitted_event e sid i w = \<lparr>ev_type = EventSubmitted, ev_at = w_now w,
     ev_attrs = [(LogKeySnipeID, AString sid), (LogKeyIntentHash, AString (Hash (e_sha e) i)),
                 (LogKeyVenueRef, AString (venue_ref_string (i_venue i)))]\<rparr>"

lemma new_row_ok: "valid_utf8 sid \<Longrightarrow> intent_row_ok i \<Longrightarrow> rfc_range t \<Longrightarrow> snipe_row_ok (NewSnipeState sid i t)"
  by (simp add: snipe_row_ok_def result_row_ok_def)

lemma NewSnipeState_no_events [simp]: "(NewSnipeState sid i t)\<lparr>s_events := []\<rparr> = NewSnipeState sid i t"
  by (simp add: NewSnipeState_def)

lemma Submit_cases:
  assumes run: "Submit e sid i w = (r, w')" and d: "db_ok (w_db w)" and i: "intent_row_ok i" "rfc_range (w_now w)"
    and u: "valid_utf8 sid" "valid_utf8 (Hash (e_sha e) i)"
  obtains (refused) err where "r = Inl err" "w_db w' = w_db w" "w_emitted w' = w_emitted w"
  | (half) err where "r = Inl err" "snipe_at (w_db w) sid = None" "w_emitted w' = w_emitted w"
      "snipe_at (w_db w') = (snipe_at (w_db w))(sid \<mapsto> NewSnipeState sid i (w_now w))"
  | (stored) "r = Inr (NewSnipeState sid i (w_now w))" "snipe_at (w_db w) sid = None"
      "snipe_at (w_db w') = (snipe_at (w_db w))(sid \<mapsto>
         (NewSnipeState sid i (w_now w))\<lparr>s_events := [submitted_event e sid i w]\<rparr>)"
      "w_emitted w' = w_emitted w @ [\<lparr>n_snipe_id = sid, n_from = None, n_to = StatusSubmitted,
         n_event = submitted_event e sid i w\<rparr>]"
proof -
  let ?s = "NewSnipeState sid i (w_now w)"
  let ?ev = "submitted_event e sid i w"
  obtain r1 d1 where c: "CreateSnipe (e_sha e) (store_io e w) ?s (w_db w) = (r1, d1)" by fastforce
  show thesis
  proof (cases r1)
    case (Some er)
    then have "d1 = w_db w" using c create_op.failed_keeps by blast
    then show thesis using run c Some by (intro refused) (auto simp: Submit_def Let_def)
  next
    case None
    note c = c [unfolded None]
    let ?w1 = "after_store e d1 w"
    have ok: "snipe_row_ok ?s" by (rule new_row_ok [OF u(1) i])
    have at: "snipe_at d1 = (snipe_at (w_db w))(sid \<mapsto> ?s)"
      using CreateSnipe_refines [OF c ok d] by (simp add: abs_create_def)
    have free: "snipe_at (w_db w) sid = None"
      using CreateSnipe_cases [OF c] db_ok_snipe_at [OF d] by (metis NewSnipeState_simps(2))
    have d1: "db_ok d1" by (rule CreateSnipe_db_ok [OF c ok d])
    obtain r2 d2 where a: "AppendEvent (store_io e ?w1) sid ?ev d1 = (r2, d2)" by fastforce
    show thesis
    proof (cases r2)
      case (Some er)
      then have "d2 = d1" using a append_op.failed_keeps by blast
      then show thesis using run c a Some free at
        by (intro half) (auto simp: Submit_def Let_def submitted_event_def)
    next
      case None
      have "event_row_ok ?ev" using i u by (simp add: event_row_ok_def submitted_event_def)
      then have "snipe_at d2 = abs_append sid ?ev (snipe_at d1)"
        using AppendEvent_refines a None d1 by blast
      then have "snipe_at d2 = (snipe_at (w_db w))(sid \<mapsto> ?s\<lparr>s_events := [?ev]\<rparr>)"
        by (simp add: at abs_append_def)
      then show thesis using run c a None free
        by (intro stored) (auto simp: Submit_def Let_def submitted_event_def)
    qed
  qed
qed

text \<open>C39: a submission that returns a snipe has stored it in Submitted with its Submitted event and
  sent the bootstrap notification; one that returns an error has notified nobody, and has
  either changed nothing or left the row without its event. The id and the hash are UTF-8, as a ULID
  and a hexadecimal digest are.\<close>

theorem submit_outcome:
  assumes "Submit e sid i w = (r, w')" "db_ok (w_db w)" "intent_row_ok i" "rfc_range (w_now w)"
    and "valid_utf8 sid" "valid_utf8 (Hash (e_sha e) i)"
  shows "case r of
      Inr s \<Rightarrow> s = NewSnipeState sid i (w_now w) \<and>
        snipe_at (w_db w') = (snipe_at (w_db w))(sid \<mapsto> s\<lparr>s_events := [submitted_event e sid i w]\<rparr>) \<and>
        w_emitted w' = w_emitted w @ [\<lparr>n_snipe_id = sid, n_from = None, n_to = StatusSubmitted,
          n_event = submitted_event e sid i w\<rparr>]
    | Inl _ \<Rightarrow> w_emitted w' = w_emitted w \<and> (w_db w' = w_db w \<or>
        snipe_at (w_db w') = (snipe_at (w_db w))(sid \<mapsto> NewSnipeState sid i (w_now w)))"
  using assms by (cases rule: Submit_cases) simp_all

definition ex_empty_world :: world where
  "ex_empty_world = ex_world\<lparr>w_db := empty_db\<rparr>"

lemma ex_submit_created:
  obtains d where "CreateSnipe (\<lambda>x. x) io_ok (NewSnipeState ''snp_9'' ex_intent ex_due) empty_db = (None, d)"
    "snipe_at d = [''snp_9'' \<mapsto> NewSnipeState ''snp_9'' ex_intent ex_due]" "db_ok d" "db_fk d"
proof -
  have ok: "snipe_row_ok (NewSnipeState ''snp_9'' ex_intent ex_due)" by (rule new_row_ok [OF _ ex_intent_row_ok]) simp_all
  obtain d where d: "CreateSnipe (\<lambda>x. x) io_ok (NewSnipeState ''snp_9'' ex_intent ex_due) empty_db = (None, d)"
    using CreateSnipe_total [OF ok empty_db_ok, where sha = "\<lambda>x. x"] empty_snipe_at by auto
  moreover have "db_fk d" by (rule CreateSnipe_cases [OF d]) (simp add: empty_db_def)
  ultimately show thesis
    using that CreateSnipe_refines [OF d ok empty_db_ok] CreateSnipe_db_ok [OF d ok empty_db_ok]
    by (simp add: abs_create_def empty_snipe_at)
qed

theorem submit_outcome_witness:
  "\<exists>w'. snipe_at (w_db w') ''snp_9'' = Some ((NewSnipeState ''snp_9'' ex_intent ex_due)\<lparr>s_events :=
      [submitted_event ex_env ''snp_9'' ex_intent ex_empty_world]\<rparr>) \<and>
      Submit ex_env ''snp_9'' ex_intent ex_empty_world = (Inr (NewSnipeState ''snp_9'' ex_intent ex_due), w')"
proof -
  obtain d where d: "CreateSnipe (\<lambda>x. x) io_ok (NewSnipeState ''snp_9'' ex_intent ex_due) empty_db = (None, d)"
    "snipe_at d = [''snp_9'' \<mapsto> NewSnipeState ''snp_9'' ex_intent ex_due]" "db_ok d" "db_fk d"
    by (rule ex_submit_created)
  have "''snp_9'' \<in> r_id ` set (db_snipes d)"
    using d(2) db_ok_snipe_at [OF d(3), of "''snp_9''"] find_snipe_None [of "''snp_9''" d] by simp
  moreover have w: "w_now ex_empty_world = ex_due" "w_db ex_empty_world = empty_db" "e_sha ex_env = (\<lambda>x. x)"
    by (simp_all add: ex_empty_world_def ex_env_def)
  ultimately have "\<exists>r w'. Submit ex_env ''snp_9'' ex_intent ex_empty_world = (Inr r, w')"
    using d(1) by (simp add: Submit_def Let_def w AppendEvent_def insert_event_def live_env_simps(2) [OF ex_env_live(1)])
  then obtain r w' where run: "Submit ex_env ''snp_9'' ex_intent ex_empty_world = (Inr r, w')" by blast
  moreover have "valid_utf8 (Hash (e_sha ex_env) ex_intent)" unfolding w by code_simp
  ultimately show ?thesis
    using submit_outcome [OF run] by (simp add: ex_empty_world_def empty_db_ok ex_intent_row_ok)
qed

definition ex_faulty_env :: env where
  "ex_faulty_env = ex_env\<lparr>e_io := (\<lambda>n. if n = 1 then (\<lambda>_. Some (ErrDriver ''database is locked'')) else io_ok)\<rparr>"

text \<open>a submission is not atomic. When the statement that appends the Submitted event fails,
  \<^verbatim>\<open>Submit\<close> reports an error although the row is stored, without any event.\<close>

theorem submit_leaves_row_without_event:
  "\<exists>err w'. Submit ex_faulty_env ''snp_9'' ex_intent ex_empty_world = (Inl err, w') \<and>
     snipe_at (w_db w') ''snp_9'' = Some (NewSnipeState ''snp_9'' ex_intent ex_due)"
proof -
  obtain d where d: "CreateSnipe (\<lambda>x. x) io_ok (NewSnipeState ''snp_9'' ex_intent ex_due) empty_db = (None, d)"
    "snipe_at d = [''snp_9'' \<mapsto> NewSnipeState ''snp_9'' ex_intent ex_due]" "db_ok d" "db_fk d"
    by (rule ex_submit_created)
  have io: "store_io ex_faulty_env ex_empty_world = io_ok" "e_sha ex_faulty_env = (\<lambda>x. x)"
    "store_io ex_faulty_env (after_store ex_faulty_env d ex_empty_world) = (\<lambda>_. Some (ErrDriver ''database is locked''))"
    by (simp_all add: store_io_def ctx_done_def ex_faulty_env_def ex_env_def ex_empty_world_def ex_world_def after_store_def)
  have w: "w_now ex_empty_world = ex_due" "w_db ex_empty_world = empty_db" by (simp_all add: ex_empty_world_def)
  show ?thesis using d(1,2) by (simp add: Submit_def Let_def io w AppendEvent_def)
qed

text \<open>What a discovery run learns is what the next snipe reads. With a working store, recording an
  observed release stores, for the venue, the wall-clock time of the observation in the venue's zone
  (UTC when the venue is unknown), the number of whole days to the target date and the
  instant; \<^verbatim>\<open>GetObserved\<close> returns exactly this.\<close>

theorem observed_release_recorded:
  assumes "live_env e" "recordObserved e i now w = (r, w')" "rfc_range now"
    and "loc = (case fst (lookupVenueTZ e (i_venue i) w) of Inl _ \<Rightarrow> utc | Inr l \<Rightarrow> l)"
    and "clock_in now loc = (h, mi, sec)"
  shows "r = None \<and> GetObserved io_ok (i_venue i) (w_db w') = Inr \<lparr>ob_venue = i_venue i,
     ob_local_time = WallTime h mi sec,
     ob_days_offset = quot (time_sub (date_at (i_date i) loc) now) (24 * 3600 * second),
     ob_observed_at = now\<rparr>"
proof -
  obtain lr w1 where l: "lookupVenueTZ e (i_venue i) w = (lr, w1)" by fastforce
  define ob where "ob = \<lparr>ob_venue = i_venue i, ob_local_time = WallTime h mi sec,
     ob_days_offset = quot (time_sub (date_at (i_date i) loc) now) (24 * 3600 * second), ob_observed_at = now\<rparr>"
  have loc: "loc = (case lr of Inl _ \<Rightarrow> utc | Inr l \<Rightarrow> l)" using assms(4) l by simp
  have run: "(map_option EStore (fst (UpsertObserved io_ok ob (w_db w1))),
      after_store e (snd (UpsertObserved io_ok ob (w_db w1))) w1) = (r, w')"
    using assms(2,5) by (simp add: recordObserved_def l Let_def loc [symmetric] live_env_simps(2) [OF assms(1)]
        ob_def split: prod.splits)
  have "fst (UpsertObserved io_ok ob (w_db w1)) = None" by (simp add: UpsertObserved_def Let_def)
  then have r: "r = None" "w_db w' = snd (UpsertObserved io_ok ob (w_db w1))" using run by auto
  have "observed_ok ob"
    using clock_in_bounds [OF assms(5)] assms(3) by (simp add: observed_ok_def ob_def valid_walltime_def)
  then have "result_option (GetObserved io_ok (ob_venue ob) (w_db w')) = Some ob"
    using observed_table.get_put [where v = ob and d = "w_db w1" and k = "ob_venue ob"] r(2) by simp
  then show ?thesis
    using r(1) by (cases "GetObserved io_ok (ob_venue ob) (w_db w')") (simp_all add: ob_def)
qed

theorem observed_release_recorded_witness:
  "\<exists>h mi sec r w'. clock_in ex_due utc = (h, mi, sec) \<and> recordObserved ex_env ex_intent ex_due ex_world = (r, w') \<and>
     r = None \<and> ob_local_time (the (result_option (GetObserved io_ok (i_venue ex_intent) (w_db w')))) = WallTime h mi sec"
proof -
  obtain h mi sec where c: "clock_in ex_due utc = (h, mi, sec)" by (metis prod_cases3)
  obtain r w' where run: "recordObserved ex_env ex_intent ex_due ex_world = (r, w')" by fastforce
  have "db_venues ex_db = []"
    by (rule CreateSnipe_cases [OF ex_create]) (drule arg_cong [where f = db_venues], simp add: empty_db_def)
  then have l: "utc = (case fst (lookupVenueTZ ex_env (i_venue ex_intent) ex_world) of Inl _ \<Rightarrow> utc | Inr l \<Rightarrow> l)"
    by (simp add: lookupVenueTZ_def GetVenue_def live_env_simps(2) [OF ex_env_live(1)])
  show ?thesis
    using observed_release_recorded [OF ex_env_live(1) run _ l c] c run by simp
qed

section \<open>The event stream\<close>

text \<open>Notifications reach the subscribers in the order of registration. Whatever order the map of
  subscribers is ranged over, \<^verbatim>\<open>emit\<close> serves them in the same order; a new subscriber comes
  last; cancelling one leaves the order of the others and is idempotent. The ids are those
  of a registry whose 64-bit counter has not wrapped.\<close>

theorem event_stream_order:
  assumes "registry_ok g" "mset (subs g') = mset (subs g)" "nextSubID g' = nextSubID g"
  shows "emit_order g' = emit_order g \<and> emit_order (snd (Subscribe f g)) = emit_order g @ [f] \<and>
    emit_order (cancel_sub k g) = map (\<lambda>j. the (map_of (subs g) j)) (filter (\<lambda>j. j \<noteq> k) (sort (map fst (subs g)))) \<and>
    cancel_sub k (cancel_sub k g) = cancel_sub k g"
  using emit_order_perm [OF assms(1,2)] emit_order_Subscribe [OF assms(1)] emit_order_cancel cancel_sub_idem
  by blast

theorem event_stream_order_witness:
  "emit_order (\<lparr>subs = [(0, ''log''), (1, ''cli'')], nextSubID = 2\<rparr>) = emit_order (w_registry ex_world)"
  using event_stream_order [of "w_registry ex_world" "\<lparr>subs = [(0, ''log''), (1, ''cli'')], nextSubID = 2\<rparr>"]
  by (simp add: ex_world_def registry_ok_def)

text \<open>The hand-written insertion sort on the array of ids is the library's sort.\<close>

theorem insertion_sort_correct: "sortUint64 a = sort a"
  by (rule sortUint64_sort)

end
