(* ===== verification/PlannerSpec.thy ===== *)
theory PlannerSpec
  imports Planner DomainSpec
begin

text \<open>The properties of the planner, with their witnesses.\<close>

section \<open>Slot expansion\<close>

lemma wallTimeFromMinutes_nonneg: "0 \<le> m \<Longrightarrow> wallTimeFromMinutes m s = WallTime (m div 60) (m mod 60) s"
  by (simp add: wallTimeFromMinutes_def quot_def minus_mult_div_eq_mod)

lemma wallTimeFromMinutes_less:
  assumes "0 \<le> a" "a < b"
  shows "wallTimeFromMinutes a s < wallTimeFromMinutes b s"
proof -
  have "a div 60 \<le> b div 60" using assms by (simp add: zdiv_mono1)
  moreover have "a div 60 = b div 60 \<Longrightarrow> a mod 60 < b mod 60"
    using assms(2) mult_div_mod_eq [of 60 a] mult_div_mod_eq [of 60 b] by linarith
  ultimately show ?thesis
    using assms by (auto simp: wallTimeFromMinutes_nonneg less_walltime_def wallTimeAfter_def)
qed

lemma step_times_map:
  "step_times m e s = map (\<lambda>k. wallTimeFromMinutes (m + 30 * int k) s) [0..<nat ((e - m) div 30 + 1)]"
proof (induction m e s rule: step_times.induct)
  case (1 m e s)
  show ?case
  proof (cases "m \<le> e")
    case True
    have d: "(e - (m + 30)) div 30 = (e - m) div 30 - 1" using div_add_self2 [of 30 "e - (m + 30)"] by simp
    have nn: "0 \<le> (e - m) div 30" using True by (simp add: pos_imp_zdiv_nonneg_iff)
    have "nat ((e - m) div 30 + 1) = Suc (nat ((e - m) div 30))" using nn by simp
    then have "[0..<nat ((e - m) div 30 + 1)] = 0 # map Suc [0..<nat ((e - m) div 30)]"
      by (simp add: map_Suc_upt upt_conv_Cons del: upt_Suc)
    moreover have "step_times (m + 30) e s = map (\<lambda>k. wallTimeFromMinutes (m + 30 + 30 * int k) s) [0..<nat ((e - m) div 30)]"
      using 1 True d by (simp add: SlotStepV1_def)
    ultimately show ?thesis
      using True by (simp add: step_times.simps [of m] SlotStepV1_def comp_def algebra_simps)
  next
    case False
    then have "(e - m) div 30 < 0" by simp
    then show ?thesis using False by (simp add: step_times.simps [of m])
  qed
qed

lemma step_times_sorted: "0 \<le> m \<Longrightarrow> sorted_wrt (<) (step_times m e s)"
  by (auto simp: step_times_map sorted_wrt_map sorted_wrt_iff_nth_less intro!: wallTimeFromMinutes_less)

lemma step_times_set:
  assumes m: "0 \<le> m" and e: "e < 1440" and s: "0 \<le> s" "s < 60"
  shows "set (step_times m e s) = {t. valid_walltime t \<and> wt_second t = s \<and> m \<le> minutesOfDay t \<and> minutesOfDay t \<le> e \<and>
    30 dvd (minutesOfDay t - m)}" (is "_ = ?R")
proof (intro set_eqI iffI)
  fix t
  assume "t \<in> set (step_times m e s)"
  then obtain k where k: "t = wallTimeFromMinutes (m + 30 * int k) s" "int k \<le> (e - m) div 30"
    by (auto simp: step_times_map)
  then have "30 * int k \<le> e - m" using mult_div_mod_eq [of 30 "e - m"] by (smt (verit) pos_mod_sign)
  moreover define n where "n = m + 30 * int k"
  ultimately have n: "0 \<le> n" "m \<le> n" "n \<le> e" "t = WallTime (n div 60) (n mod 60) s" "30 dvd (n - m)"
    using k m by (simp_all add: wallTimeFromMinutes_nonneg)
  moreover have "n div 60 < 24" using n e by simp
  moreover have "0 \<le> n div 60" using n by simp
  moreover have "minutesOfDay t = n" using n by (simp add: minutesOfDay_def mult.commute)
  ultimately show "t \<in> ?R" using s by (simp add: valid_walltime_def)
next
  fix t
  assume t: "t \<in> ?R"
  then obtain j where j: "minutesOfDay t - m = 30 * j" by auto
  then have j0: "0 \<le> j" "30 * j \<le> e - m" using t by auto
  then have "j \<le> (e - m) div 30" by simp
  moreover have "t = wallTimeFromMinutes (m + 30 * int (nat j)) s"
  proof -
    have mm: "m + 30 * int (nat j) = wt_hour t * 60 + wt_minute t" using j j0 by (simp add: minutesOfDay_def)
    show ?thesis unfolding mm using t
      by (cases t) (simp add: wallTimeFromMinutes_nonneg valid_walltime_def)
  qed
  ultimately show "t \<in> set (step_times m e s)"
    using j0 by (auto simp: step_times_map intro!: image_eqI [where x = "nat j"])
qed

lemma wallTimeAfterPub_iff [simp]: "wallTimeAfterPub a b \<longleftrightarrow> b < a"
  by (simp add: wallTimeAfterPub_def less_walltime_def wallTimeAfter_def)

lemma minutes_mono: "valid_walltime a \<Longrightarrow> valid_walltime b \<Longrightarrow> a \<le> b \<Longrightarrow> minutesOfDay a \<le> minutesOfDay b"
  by (auto simp: less_eq_walltime_def wallTimeAfter_def minutesOfDay_def valid_walltime_def split: if_splits)

lemma minutes_le:
  "valid_walltime a \<Longrightarrow> valid_walltime b \<Longrightarrow> minutesOfDay a \<le> minutesOfDay b \<Longrightarrow> wt_second a \<le> wt_second b \<Longrightarrow> a \<le> b"
  by (auto simp: less_eq_walltime_def wallTimeAfter_def minutesOfDay_def valid_walltime_def)

definition slot_product :: "walltime list \<Rightarrow> string list \<Rightarrow> slot_preference list" where
  "slot_product ts tables = concat (map (\<lambda>t. map (\<lambda>tbl. \<lparr>sp_time = t, sp_table_type = tbl\<rparr>) tables) ts)"

lemma enumerateTimes_valid:
  assumes "valid_walltime (tw_start w)" "valid_walltime (tw_end w)" "tw_start w \<le> tw_end w"
  shows "enumerateTimes w = Inr ((if tw_priority w = PriorityLater then rev else id)
    (step_times (minutesOfDay (tw_start w)) (minutesOfDay (tw_end w)) (wt_second (tw_start w))))"
proof -
  let ?m = "minutesOfDay (tw_start w)" and ?e = "minutesOfDay (tw_end w)"
  have le: "?m \<le> ?e" by (rule minutes_mono [OF assms])
  have "\<not> ?e + 30 \<le> ?e" by simp
  then have one: "step_times ?e ?e s = [wallTimeFromMinutes ?e s]" for s
    by (simp add: step_times.simps SlotStepV1_def)
  show ?thesis
  proof (cases "?m = ?e")
    case True
    then show ?thesis using one by (simp add: enumerateTimes_def)
  next
    case False
    moreover have "\<not> quot (?e - ?m) SlotStepV1 + 1 < 0"
      using le by (simp add: quot_def SlotStepV1_def pos_imp_zdiv_nonneg_iff add_nonneg_nonneg not_less)
    ultimately show ?thesis by (simp add: enumerateTimes_def Let_def split: time_priority.split)
  qed
qed

text \<open>C35: slot expansion. For a window of wall-clock times with its start not after its end, the
  expanded preferences are every half hour from the start on whose hour and minute are not past the end's,
  with the seconds of the start,
  in ascending order, or descending for \<^verbatim>\<open>PriorityLater\<close>, each with every table type in the
  user's order (one entry without a type if none or any is wanted). All lie in the window if the
  end's seconds are not smaller than the start's; otherwise the last one can be past the end by less than a minute, against
  the comment that bounds it by the end. Without a priority the order is the ascending one, against the comment
  that has it center out. A window that is inverted is refused.\<close>

theorem slot_expansion:
  assumes "valid_walltime (tw_start w)" "valid_walltime (tw_end w)"
  shows "if tw_end w < tw_start w then ExpandSlots w c = Inl (ErrInvalidWindow (tw_start w) (tw_end w))
    else \<exists>ts. ExpandSlots w c = Inr (slot_product ts (normalizeTables c)) \<and>
      sorted_wrt (\<lambda>a b. if tw_priority w = PriorityLater then b < a else a < b) ts \<and>
      set ts = {t. valid_walltime t \<and> wt_second t = wt_second (tw_start w) \<and>
        minutesOfDay (tw_start w) \<le> minutesOfDay t \<and> minutesOfDay t \<le> minutesOfDay (tw_end w) \<and>
        30 dvd (minutesOfDay t - minutesOfDay (tw_start w))} \<and>
      (wt_second (tw_start w) \<le> wt_second (tw_end w) \<longrightarrow> (\<forall>t \<in> set ts. tw_start w \<le> t \<and> t \<le> tw_end w))"
proof (cases "tw_end w < tw_start w")
  case True
  then show ?thesis by (simp add: ExpandSlots_def)
next
  case False
  let ?m = "minutesOfDay (tw_start w)" and ?e = "minutesOfDay (tw_end w)" and ?s = "wt_second (tw_start w)"
  let ?ts = "step_times ?m ?e ?s"
  let ?tt = "(if tw_priority w = PriorityLater then rev else id) ?ts"
  have b: "0 \<le> ?m" "?e < 1440" "0 \<le> ?s" "?s < 60" using assms by (auto simp: valid_walltime_def minutesOfDay_def)
  have set: "set ?tt = {t. valid_walltime t \<and> wt_second t = ?s \<and> ?m \<le> minutesOfDay t \<and> minutesOfDay t \<le> ?e \<and>
      30 dvd (minutesOfDay t - ?m)}"
    using step_times_set [OF b] by simp
  have "ExpandSlots w c = Inr (slot_product ?tt (normalizeTables c))"
    using enumerateTimes_valid [OF assms] False by (simp add: ExpandSlots_def slot_product_def not_less)
  moreover have "sorted_wrt (\<lambda>a b. if tw_priority w = PriorityLater then b < a else a < b) ?tt"
    using step_times_sorted [OF b(1)] by (simp add: sorted_wrt_rev)
  moreover have "\<forall>t \<in> set ?tt. tw_start w \<le> t \<and> t \<le> tw_end w" if "?s \<le> wt_second (tw_end w)"
    using that assms minutes_le unfolding set by auto
  ultimately show ?thesis using False set by (auto intro!: exI [of _ ?tt])
qed

theorem slot_expansion_witness:
  "\<exists>ts. ExpandSlots \<lparr>tw_start = WallTime 18 30 0, tw_end = WallTime 21 0 0, tw_priority = PriorityLater\<rparr>
     \<lparr>ct_table_types = [], ct_any_table = False\<rparr> = Inr (slot_product ts ['''']) \<and> WallTime 21 0 0 \<in> set ts"
  using slot_expansion [of "\<lparr>tw_start = WallTime 18 30 0, tw_end = WallTime 21 0 0, tw_priority = PriorityLater\<rparr>"
      "\<lparr>ct_table_types = [], ct_any_table = False\<rparr>"]
  by (auto simp: valid_walltime_def less_walltime_def wallTimeAfter_def normalizeTables_def minutesOfDay_def)

section \<open>The drop moment and the strategy\<close>

definition day_of :: "date \<Rightarrow> int" where
  "day_of d = days_from_civil (d_year d) (d_month d) (d_day d)"

definition wall_of :: "walltime \<Rightarrow> int" where
  "wall_of w = 3600 * wt_hour w + 60 * wt_minute w + wt_second w"

lemma add_days_date:
  assumes "wall_exact l (86400 * day_of d)" "wall_exact l (86400 * (day_of d + n))"
  shows "date_in (add_days (date_at d l) n l) l = civil_from_days (day_of d + n)"
proof -
  have "add_days (date_at d l) n l = go_date (d_year d) (d_month d) (d_day d + n) 0 0 0 0 l"
    using add_days_midnight assms(1) by (simp add: date_at_def day_of_def)
  then show ?thesis
    using date_in_midnight(1) [of l "d_year d" "d_month d" "d_day d + n"] assms(2)
    by (simp add: day_of_def days_from_civil_add)
qed

lemma go_date_reads:
  assumes "wall_exact l (86400 * days_from_civil y m d + wall_of w)" "valid_walltime w"
  shows "date_in (go_date y m d (wt_hour w) (wt_minute w) (wt_second w) 0 l) l = civil_from_days (days_from_civil y m d)"
    "clock_in (go_date y m d (wt_hour w) (wt_minute w) (wt_second w) 0 l) l = (wt_hour w, wt_minute w, wt_second w)"
proof -
  let ?D = "days_from_civil y m d"
  have ws: "wall_secs (go_date y m d (wt_hour w) (wt_minute w) (wt_second w) 0 l) l = ?D * 86400 + wall_of w"
    using wall_secs_go_date [of 0 l y m d "wt_hour w" "wt_minute w" "wt_second w"] assms(1)
    by (simp add: wall_of_def add.assoc mult.commute)
  have r: "0 \<le> wall_of w" "wall_of w < 86400" using assms(2) by (auto simp: valid_walltime_def wall_of_def)
  then show "date_in (go_date y m d (wt_hour w) (wt_minute w) (wt_second w) 0 l) l = civil_from_days ?D"
    by (simp add: date_in_def ws)
  have v: "wt_minute w < 60" "wt_second w < 60" "0 \<le> wt_minute w" "0 \<le> wt_second w"
    using assms(2) by (simp_all add: valid_walltime_def)
  have a: "wall_of w = (60 * wt_minute w + wt_second w) + 3600 * wt_hour w"
    and b: "wall_of w = wt_second w + 60 * (60 * wt_hour w + wt_minute w)" by (simp_all add: wall_of_def)
  have "wall_of w mod 3600 = (60 * wt_minute w + wt_second w) mod 3600" unfolding a by (rule mod_mult_self2)
  moreover have "wall_of w mod 60 = wt_second w mod 60" unfolding b by (rule mod_mult_self2)
  moreover have "wall_of w div 3600 = wt_hour w + (60 * wt_minute w + wt_second w) div 3600" unfolding a by simp
  ultimately have "wall_of w mod 3600 = 60 * wt_minute w + wt_second w" "wall_of w div 3600 = wt_hour w"
    "(60 * wt_minute w + wt_second w) div 60 = wt_minute w" "wall_of w mod 60 = wt_second w"
    using v by simp_all
  then show "clock_in (go_date y m d (wt_hour w) (wt_minute w) (wt_second w) 0 l) l = (wt_hour w, wt_minute w, wt_second w)"
    using r by (simp add: clock_in_def ws Let_def)
qed

text \<open>C36: the drop moment is what the venue's clock says. \<^verbatim>\<open>ComputeDrop\<close> refuses a missing location and
  a negative number of days; otherwise, unless one of the wall clocks involved falls into a
  spring-forward gap, the instant it returns shows, in the venue's location, the calendar day
  that many days before the target and exactly the release time, across changes of the offset.\<close>

theorem drop_moment:
  assumes "valid_walltime w" "wall_exact l (86400 * day_of d)" "wall_exact l (86400 * (day_of d - n))"
    "wall_exact l (86400 * (day_of d - n) + wall_of w)"
  shows "ComputeDrop d n w None = Inl ErrMissingLocation \<and>
    (if n < 0 then ComputeDrop d n w (Some l) = Inl (ErrInvalidReleaseDaysAhead n)
     else \<exists>t. ComputeDrop d n w (Some l) = Inr t \<and> date_in t l = civil_from_days (day_of d - n) \<and>
       clock_in t l = (wt_hour w, wt_minute w, wt_second w))"
proof (cases "n < 0")
  case False
  obtain y m k where c: "civil_from_days (day_of d - n) = (y, m, k)" by (metis prod_cases3)
  have days: "days_from_civil y m k = day_of d - n" by (rule days_from_civil_from_days [OF c])
  have "date_in (add_days (date_at d l) (- n) l) l = (y, m, k)"
    using add_days_date [of l d "- n"] assms(2,3) c by simp
  then show ?thesis
    using False go_date_reads [of l y m k w] assms(1,4) c days by (simp add: ComputeDrop_def)
qed (simp add: ComputeDrop_def)

definition new_york :: location where
  "new_york = Location ''America/New_York'' (- 18000) [(63908550000, - 14400), (63929109600, - 18000)]"

theorem drop_moment_witness:
  "\<exists>t. ComputeDrop (Date 2026 11 9) 30 (WallTime 9 0 0) (Some new_york) = Inr t \<and> clock_in t new_york = (9, 0, 0) \<and>
     date_in t new_york = (2026, 10, 10)"
proof -
  have "wall_exact new_york (86400 * day_of (Date 2026 11 9))" "wall_exact new_york (86400 * (day_of (Date 2026 11 9) - 30))"
    "wall_exact new_york (86400 * (day_of (Date 2026 11 9) - 30) + wall_of (WallTime 9 0 0))" "valid_walltime (WallTime 9 0 0)"
    "civil_from_days (day_of (Date 2026 11 9) - 30) = (2026, 10, 10)"
    by code_simp+
  then show ?thesis using drop_moment [of "WallTime 9 0 0" new_york "Date 2026 11 9" 30] by auto
qed


definition ex_window :: time_window where
  "ex_window = \<lparr>tw_start = WallTime 18 30 0, tw_end = WallTime 20 0 0, tw_priority = PriorityEarlier\<rparr>"

definition ex_goal :: "string list \<Rightarrow> goal" where
  "ex_goal tables = \<lparr>gl_venue_query = Some (VenueQuerySlug ''astoria-dc'' ''washington-dc''), gl_date = Date 2026 6 9, gl_party = 2,
     gl_time_prefs = ex_window, gl_account = ''ana@example.com'', gl_constraints = \<lparr>ct_table_types = tables, ct_any_table = False\<rparr>\<rparr>"

definition ex_plan_input :: "string list \<Rightarrow> bool \<Rightarrow> instant \<Rightarrow> PlanInput" where
  "ex_plan_input tables bookable now = \<lparr>pi_goal = ex_goal tables,
     pi_venue = \<lparr>v_provider = ''resy'', v_ref = ''1505'', v_name = ''Astoria'', v_tz = Some utc\<rparr>, pi_now = now,
     pi_calendar = \<lparr>cal_venue = \<lparr>vr_provider = ''resy'', vr_ref = ''1505''\<rparr>, cal_days = [\<lparr>cd_date = Date 2026 6 9, cd_available = bookable\<rparr>]\<rparr>,
     pi_observed = None, pi_config = None, pi_until = 63911000000000000000\<rparr>"

definition ex_plan_now :: instant where
  "ex_plan_now = 63910000000000000000"


section \<open>Plans\<close>

lemma ComputeHash_volatile [simp]:
  "ComputeHash sha (p\<lparr>pl_hash := h\<rparr>) = ComputeHash sha p" "ComputeHash sha (p\<lparr>pl_notes := ns\<rparr>) = ComputeHash sha p"
  "ComputeHash sha (p\<lparr>pl_computed_at := t\<rparr>) = ComputeHash sha p"
  by (simp_all add: ComputeHash_def CanonicalBytes_def canonicalPayload_def planHashVersion_def)

lemma WithHash_simps [simp]:
  "pl_goal (WithHash sha p) = pl_goal p" "pl_venue (WithHash sha p) = pl_venue p" "pl_strategy (WithHash sha p) = pl_strategy p"
  "pl_fire_schedule (WithHash sha p) = pl_fire_schedule p" "pl_drop_moment (WithHash sha p) = pl_drop_moment p"
  "pl_signing_required (WithHash sha p) = pl_signing_required p" "planHashVersion (WithHash sha p) = planHashVersion p"
  "pl_hash_version (WithHash sha p) = pl_hash_version p" "pl_computed_at (WithHash sha p) = pl_computed_at p"
  "pl_hash (WithHash sha p) = ComputeHash sha p" "ComputeHash sha' (WithHash sha p) = ComputeHash sha' p"
  by (simp_all add: WithHash_def planHashVersion_def)

text \<open>C34: the plan hash identifies the plan. For a digest without collisions two plans over ASCII texts
  have the same hash exactly when they agree in the hash version, the venue's identity, the drop
  moment, the strategy, the fire schedule, the signing flag and the goal, up to the order of its
  table types. The notes, the time of the computation and a hash already set do not count.\<close>

theorem plan_hash_identifies:
  assumes "inj sha" "plan_text_ok p" "plan_text_ok q"
  shows "(ComputeHash sha p = ComputeHash sha q \<longleftrightarrow> same_plan p q) \<and>
    pl_hash (WithHash sha (p\<lparr>pl_hash := h, pl_notes := ns, pl_computed_at := t\<rparr>)) = ComputeHash sha p"
proof (rule conjI)
  show "ComputeHash sha p = ComputeHash sha q \<longleftrightarrow> same_plan p q"
  proof -
    have "ComputeHash sha p = ComputeHash sha q \<longleftrightarrow> CanonicalBytes p = CanonicalBytes q"
      using assms(1) by (simp add: ComputeHash_def inj_eq)
    then show ?thesis using CanonicalBytes_inject [OF _ assms(2,3)] CanonicalBytes_cong by blast
  qed
  show "pl_hash (WithHash sha (p\<lparr>pl_hash := h, pl_notes := ns, pl_computed_at := t\<rparr>)) = ComputeHash sha p" by simp
qed

lemma BuildPlan_cases:
  "BuildPlan sha p = Inr q \<longleftrightarrow> (\<exists>st ns slots d fs. SelectStrategy (strategy_input p) = Inr (st, ns) \<and>
     ExpandSlots (gl_time_prefs (pi_goal p)) (gl_constraints (pi_goal p)) = Inr slots \<and>
     fireScheduleFor st slots (pi_now p) = (d, fs) \<and>
     q = WithHash sha \<lparr>pl_goal = pi_goal p, pl_venue = pi_venue p, pl_drop_moment = d, pl_strategy = Some st,
           pl_fire_schedule = fs, pl_signing_required = False, pl_hash = [],
           pl_notes = ns @ [''signing_required=false (v1: domain.Venue carries no peak-venue indicator; signer adapter is consulted live at fire time)''],
           pl_hash_version = PlanHashVersionV1, pl_computed_at = pi_now p\<rparr>)"
  by (auto simp: BuildPlan_def bind_result_def split: sum.splits prod.splits)

text \<open>When a strategy fires: at the release; while the table is already on offer, at once; in the middle of
  a probe window, whose start is then the drop moment.\<close>

fun drop_of :: "release_strategy \<Rightarrow> instant \<Rightarrow> instant" where
  "drop_of (ExplicitRelease at) now = at"
| "drop_of (ContinuousRelease til) now = now"
| "drop_of (DiscoveredRelease from til) now = from"

fun fires_at :: "release_strategy \<Rightarrow> instant \<Rightarrow> instant" where
  "fires_at (ExplicitRelease at) now = at"
| "fires_at (ContinuousRelease til) now = now"
| "fires_at (DiscoveredRelease from til) now = from + 150 * second"

lemma fireScheduleFor_shape:
  assumes "SelectStrategy si = Inr (st, ns)"
  shows "fireScheduleFor st slots now = (drop_of st now, replicate (length slots) (fires_at st now))"
proof (cases st)
  case (DiscoveredRelease f u)
  then have "u = f + 300 * second"
    using assms by (auto simp: SelectStrategy_def bestEffortDiscoveredProbe_def Let_def split: option.splits if_splits prod.splits)
  then have "time_sub u f = 300 * second" by (simp add: time_sub_def max_duration_def min_duration_def second_def)
  then show ?thesis by (simp add: DiscoveredRelease map_replicate_const quot_def second_def)
qed (simp_all add: map_replicate_const)


lemma ex_plan_today: "startOfDayIn ex_plan_now utc \<le> date_at (Date 2026 6 9) utc"
  "startOfDayIn (ex_plan_now + 1) utc \<le> date_at (Date 2026 6 9) utc"
  by code_simp+

lemma ex_plan_input_simps [simp]:
  "pi_goal (ex_plan_input ts b now) = ex_goal ts" "pi_now (ex_plan_input ts b now) = now"
  "v_tz (pi_venue (ex_plan_input ts b now)) = Some utc" "gl_date (ex_goal ts) = Date 2026 6 9"
  "gl_time_prefs (ex_goal ts) = ex_window" "gl_constraints (ex_goal ts) = \<lparr>ct_table_types = ts, ct_any_table = False\<rparr>"
  by (simp_all add: ex_plan_input_def ex_goal_def)

lemma ex_window_ok: "valid_walltime (tw_start ex_window)" "valid_walltime (tw_end ex_window)" "tw_start ex_window \<le> tw_end ex_window"
  by (simp_all add: ex_window_def valid_walltime_def less_eq_walltime_def wallTimeAfter_def)


text \<open>The strategy and the schedule of a plan do not depend on the table types but for their number.\<close>

lemma ex_strategy:
  "now \<in> {ex_plan_now, ex_plan_now + 1} \<Longrightarrow> \<exists>ns. SelectStrategy (strategy_input (ex_plan_input ts True now)) = Inr (ContinuousRelease 63911000000000000000, ns)"
  using ex_plan_today
  by (auto simp: SelectStrategy_def strategy_input_def ex_plan_input_def ex_goal_def calendarShowsBookable_def is_zero_def Let_def)

lemma ex_slots:
  "ExpandSlots ex_window \<lparr>ct_table_types = ts, ct_any_table = False\<rparr> =
   Inr (slot_product [WallTime 18 30 0, WallTime 19 0 0, WallTime 19 30 0, WallTime 20 0 0] (normalizeTables \<lparr>ct_table_types = ts, ct_any_table = False\<rparr>))"
proof -
  have "step_times (minutesOfDay (tw_start ex_window)) (minutesOfDay (tw_end ex_window)) (wt_second (tw_start ex_window)) =
      [WallTime 18 30 0, WallTime 19 0 0, WallTime 19 30 0, WallTime 20 0 0]" by code_simp
  then show ?thesis
    using enumerateTimes_valid [OF ex_window_ok] ex_window_ok(3)
    by (simp add: ExpandSlots_def slot_product_def not_less) (simp add: ex_window_def)
qed

lemma ex_build:
  assumes "now \<in> {ex_plan_now, ex_plan_now + 1}"
  shows "\<exists>q. BuildPlan sha (ex_plan_input ts True now) = Inr q \<and> pl_goal q = ex_goal ts \<and> pl_venue q = pi_venue (ex_plan_input ts True now) \<and>
    pl_drop_moment q = now \<and> pl_strategy q = Some (ContinuousRelease 63911000000000000000) \<and> pl_signing_required q = False \<and>
    pl_fire_schedule q = replicate (4 * length (normalizeTables \<lparr>ct_table_types = ts, ct_any_table = False\<rparr>)) now \<and>
    planHashVersion q = 1 \<and> pl_hash q = ComputeHash sha q"
proof -
  obtain ns where "SelectStrategy (strategy_input (ex_plan_input ts True now)) = Inr (ContinuousRelease 63911000000000000000, ns)"
    using ex_strategy [OF assms] by blast
  then show ?thesis
    by (simp add: BuildPlan_def ex_slots planHashVersion_def PlanHashVersionV1_def map_replicate_const slot_product_def
        length_concat comp_def)
qed

text \<open>two limits of the hash. It does not see the order of the table types, although that order is
  the order in which slots are tried: two plans of one hash can race differently. And for a date
  that is already bookable, the hash depends on the instant of the planning, even though the
  strategy is the same, so that planning again a moment later gives another hash.\<close>

theorem plan_hash_divergence:
  "(\<exists>q q'. BuildPlan sha (ex_plan_input [''Bar'', ''Patio''] True ex_plan_now) = Inr q \<and>
     BuildPlan sha (ex_plan_input [''Patio'', ''Bar''] True ex_plan_now) = Inr q' \<and> pl_hash q = pl_hash q' \<and>
     ExpandSlots (gl_time_prefs (pl_goal q)) (gl_constraints (pl_goal q)) \<noteq>
     ExpandSlots (gl_time_prefs (pl_goal q')) (gl_constraints (pl_goal q'))) \<and>
   (\<exists>q q'. BuildPlan (\<lambda>x. x) (ex_plan_input [] True ex_plan_now) = Inr q \<and>
     BuildPlan (\<lambda>x. x) (ex_plan_input [] True (ex_plan_now + 1)) = Inr q' \<and> pl_strategy q = pl_strategy q' \<and> pl_hash q \<noteq> pl_hash q')"
proof (rule conjI)
  obtain q where q: "BuildPlan sha (ex_plan_input [''Bar'', ''Patio''] True ex_plan_now) = Inr q" "pl_goal q = ex_goal [''Bar'', ''Patio'']"
    "pl_venue q = pi_venue (ex_plan_input [] True ex_plan_now)" "pl_drop_moment q = ex_plan_now" "planHashVersion q = 1"
    "pl_strategy q = Some (ContinuousRelease 63911000000000000000)" "pl_signing_required q = False" "pl_fire_schedule q = replicate 8 ex_plan_now"
    "pl_hash q = ComputeHash sha q"
    using ex_build [of ex_plan_now sha "[''Bar'', ''Patio'']"] by (auto simp: normalizeTables_def ex_plan_input_def)
  obtain q' where q': "BuildPlan sha (ex_plan_input [''Patio'', ''Bar''] True ex_plan_now) = Inr q'" "pl_goal q' = ex_goal [''Patio'', ''Bar'']"
    "pl_venue q' = pi_venue (ex_plan_input [] True ex_plan_now)" "pl_drop_moment q' = ex_plan_now" "planHashVersion q' = 1"
    "pl_strategy q' = Some (ContinuousRelease 63911000000000000000)" "pl_signing_required q' = False" "pl_fire_schedule q' = replicate 8 ex_plan_now"
    "pl_hash q' = ComputeHash sha q'"
    using ex_build [of ex_plan_now sha "[''Patio'', ''Bar'']"] by (auto simp: normalizeTables_def ex_plan_input_def)
  have "same_plan q q'" using q q' by (simp add: same_plan_def same_goal_def ex_goal_def)
  then have "pl_hash q = pl_hash q'" using q(9) q'(9) CanonicalBytes_cong by (simp add: ComputeHash_def)
  moreover have "ExpandSlots ex_window \<lparr>ct_table_types = [''Bar'', ''Patio''], ct_any_table = False\<rparr> \<noteq>
      ExpandSlots ex_window \<lparr>ct_table_types = [''Patio'', ''Bar''], ct_any_table = False\<rparr>"
    by (simp add: ex_slots slot_product_def normalizeTables_def)
  ultimately show "\<exists>q q'. BuildPlan sha (ex_plan_input [''Bar'', ''Patio''] True ex_plan_now) = Inr q \<and>
     BuildPlan sha (ex_plan_input [''Patio'', ''Bar''] True ex_plan_now) = Inr q' \<and> pl_hash q = pl_hash q' \<and>
     ExpandSlots (gl_time_prefs (pl_goal q)) (gl_constraints (pl_goal q)) \<noteq>
     ExpandSlots (gl_time_prefs (pl_goal q')) (gl_constraints (pl_goal q'))"
    using q q' by auto
next
  obtain q where q: "BuildPlan (\<lambda>x. x) (ex_plan_input [] True ex_plan_now) = Inr q" "pl_drop_moment q = ex_plan_now"
    "pl_strategy q = Some (ContinuousRelease 63911000000000000000)" "pl_hash q = ComputeHash (\<lambda>x. x) q"
    using ex_build [of ex_plan_now "\<lambda>x. x" "[]"] by auto
  obtain q' where q': "BuildPlan (\<lambda>x. x) (ex_plan_input [] True (ex_plan_now + 1)) = Inr q'" "pl_drop_moment q' = ex_plan_now + 1"
    "pl_strategy q' = Some (ContinuousRelease 63911000000000000000)" "pl_hash q' = ComputeHash (\<lambda>x. x) q'"
    using ex_build [of "ex_plan_now + 1" "\<lambda>x. x" "[]"] by auto
  have "utcNanos ex_plan_now \<noteq> utcNanos (ex_plan_now + 1)" by code_simp
  then have "CanonicalBytes q \<noteq> CanonicalBytes q'" using bytes_drop q(2) q'(2) by metis
  then show "\<exists>q q'. BuildPlan (\<lambda>x. x) (ex_plan_input [] True ex_plan_now) = Inr q \<and>
     BuildPlan (\<lambda>x. x) (ex_plan_input [] True (ex_plan_now + 1)) = Inr q' \<and> pl_strategy q = pl_strategy q' \<and> pl_hash q \<noteq> pl_hash q'"
    using q q' by (auto simp: ComputeHash_def)
qed

text \<open>A plan over ASCII texts.\<close>

definition ex_plan :: "string list \<Rightarrow> plan" where
  "ex_plan tables = \<lparr>pl_goal = ex_goal tables, pl_venue = \<lparr>v_provider = ''resy'', v_ref = ''1505'', v_name = ''Astoria'', v_tz = Some utc\<rparr>,
     pl_drop_moment = ex_plan_now, pl_strategy = Some (ExplicitRelease ex_plan_now), pl_fire_schedule = [ex_plan_now],
     pl_signing_required = False, pl_hash = [], pl_notes = [], pl_hash_version = 0, pl_computed_at = 0\<rparr>"

theorem plan_hash_identifies_witness:
  "ComputeHash (\<lambda>x. x) (ex_plan [''Bar'', ''Patio'']) \<noteq> ComputeHash (\<lambda>x. x) (ex_plan [''Bar''])"
proof -
  have "plan_text_ok (ex_plan [''Bar'', ''Patio''])" "plan_text_ok (ex_plan [''Bar''])" by code_simp+
  then show ?thesis
    using plan_hash_identifies [of "\<lambda>x. x" "ex_plan [''Bar'', ''Patio'']" "ex_plan [''Bar'']"]
    by (simp add: same_plan_def same_goal_def ex_plan_def)
qed

end
