(* ===== verification/ServiceExample.thy ===== *)
theory ServiceExample
  imports ServiceView ServiceFrame EngineSpec PlannerSpec
begin

text \<open>A daemon with two users, one account and a provider that always answers, on which the
  properties of the service layer are witnessed.\<close>

section \<open>An example daemon\<close>

definition ex_venue :: venue where
  "ex_venue = \<lparr>v_provider = ''resy'', v_ref = ''1505'', v_name = ''Astoria'', v_tz = Some utc\<rparr>"

definition ex_service :: service where
  "ex_service = \<lparr>sv_env = ex_env, sv_resolver = \<lparr>rv_venue = (\<lambda>_ _ _. Inr ex_venue), rv_search = (\<lambda>_ _. Inr [ex_venue]),
       rv_ttl = 24 * 3600 * second, rv_uni = (\<lambda>x. x)\<rparr>, sv_has_provider = True, sv_persist_events = True, sv_auth = None,
     sv_rand = (\<lambda>_ n. Some (replicate n (CHR 0x5A))), sv_blake2b = (\<lambda>x. x), sv_text = (\<lambda>_. ''cause''), sv_uni_quote = (\<lambda>x. x)\<rparr>"

definition ex_quest :: "user_id \<Rightarrow> string \<Rightarrow> quest_row" where
  "ex_quest u k = \<lparr>qu_id = k, qu_user = u, qu_account = ''acc_1'', qu_goal_json = marshaled (marshalGoalJSON (ex_goal [])), qu_plan_hash = ''h'',
     qu_status = ''pending'', qu_created_at = 1767225600000, qu_updated_at = 1767225600000, qu_completed_at = None\<rparr>"

definition ex_qdb :: "quest_row list \<Rightarrow> qdb" where
  "ex_qdb quests = \<lparr>q_users = [\<lparr>us_id = ''u_ana'', us_email = ''ana@example.com'', us_role = ''user''\<rparr>,
       \<lparr>us_id = ''u_bo'', us_email = ''bo@example.com'', us_role = ''user''\<rparr>], q_quests = quests,
     q_events = [], q_idem = [], q_tokens = [], q_audit = [], q_venue_cache = [], q_name_cache = []\<rparr>"

definition ex_account :: account_row where
  "ex_account = \<lparr>a_id = ''acc_1'', a_user_id = Some ''u_ana'', a_resy_email = ''ana@example.com'', a_display_name = [], a_created_at = 0\<rparr>"

definition ex_sys :: "quest_row list \<Rightarrow> sys" where
  "ex_sys quests = \<lparr>sy_w = ex_world\<lparr>w_now := ex_plan_now, w_db := empty_db\<lparr>db_accounts := [ex_account]\<rparr>\<rparr>, sy_q = ex_qdb quests\<rparr>"

lemma ex_service_simps [simp]:
  "sv_env ex_service = ex_env" "e_sha ex_env = (\<lambda>x. x)" "sy_q (ex_sys quests) = ex_qdb quests"
  by (simp_all add: ex_service_def ex_env_def ex_sys_def)

lemma ex_qdb_ok: "qdb_ok sha (ex_qdb [ex_quest ''u_ana'' ''q_1'', ex_quest ''u_bo'' ''q_2''])"
  by (simp add: qdb_ok_def ex_qdb_def ex_quest_def) (metis statusDBString.simps(1))

definition ex_opts :: CreateOpts where
  "ex_opts = \<lparr>co_plan_hash = None, co_key = Some ''key-1''\<rparr>"

definition ex_input :: PlanInput where
  "ex_input = \<lparr>pi_goal = ex_goal [], pi_venue = ex_venue, pi_now = ex_plan_now, pi_calendar = \<lparr>cal_venue = AsRef ex_venue,
     cal_days = [\<lparr>cd_date = Date 2026 6 9, cd_available = True\<rparr>]\<rparr>, pi_observed = None, pi_config = None, pi_until = 0\<rparr>"

lemma ex_input_plan: "\<exists>p. BuildPlan (\<lambda>x. x) ex_input = Inr p \<and> release_ok (pl_strategy p) \<and> pl_venue p = ex_venue"
proof -
  have "case SelectStrategy (strategy_input ex_input) of Inr (ContinuousRelease t, _) \<Rightarrow> rfc_range t | _ \<Rightarrow> False" by code_simp
  then obtain t ns where s: "SelectStrategy (strategy_input ex_input) = Inr (ContinuousRelease t, ns)" "rfc_range t"
    by (auto split: sum.splits release_strategy.splits)
  obtain d fs where f: "fireScheduleFor (ContinuousRelease t) (slot_product [WallTime 18 30 0, WallTime 19 0 0, WallTime 19 30 0, WallTime 20 0 0]
      (normalizeTables \<lparr>ct_table_types = [], ct_any_table = False\<rparr>)) ex_plan_now = (d, fs)" by fastforce
  show ?thesis
    using s(2) by (simp add: BuildPlan_def s(1)) (simp add: ex_input_def ex_slots f release_ok_def WithHash_def)
qed

text \<open>The example daemon plans the example goal in every state with an empty cache, and nothing can fail.\<close>

lemma ex_planned:
  assumes "w_now (sy_w s) = ex_plan_now" "q_venue_cache (sy_q s) = []"
  shows "\<exists>p. fst (PlanQuest ex_service ''u_ana'' (ex_goal []) s) = Inr p \<and> release_ok (pl_strategy p) \<and> pl_venue p = ex_venue"
proof -
  have v: "goal_Validate (rv_uni (sv_resolver ex_service)) (ex_goal []) ex_plan_now = None"
    "TrimSpace ''astoria-dc'' = ''astoria-dc''" "TrimSpace ''washington-dc'' = ''washington-dc''" by code_simp+
  have q: "gl_venue_query (ex_goal []) = Some (VenueQuerySlug ''astoria-dc'' ''washington-dc'')" by (simp add: ex_goal_def)
  obtain s1 where r: "Resolve ex_env (sv_resolver ex_service) (gl_venue_query (ex_goal [])) s = (Inr ex_venue, s1)"
    using assms(2) by (simp add: q Resolve_def resolveSlug_def v Let_def q_read_def q_exec_def live_io [OF ex_env_live(1)] GetVenueCache_def
        fetch_slug_def call_provider_def) (simp add: ex_service_def)
  obtain s2 where c: "calendar_snapshot ex_service (ex_goal []) ex_venue s1 = (pi_calendar ex_input, s2)"
    by (simp add: calendar_snapshot_def call_provider_def ex_env_def ex_service_def ex_input_def)
  obtain p where p: "BuildPlan (\<lambda>x. x) ex_input = Inr p" "release_ok (pl_strategy p) \<and> pl_venue p = ex_venue" using ex_input_plan by blast
  then have "BuildPlan (\<lambda>x. x) \<lparr>pi_goal = ex_goal [], pi_venue = ex_venue, pi_now = ex_plan_now, pi_calendar = pi_calendar ex_input,
      pi_observed = None, pi_config = None, pi_until = 0\<rparr> = Inr p" by (simp add: ex_input_def)
  then show ?thesis
    using p(2) by (simp add: PlanQuest_def now_of_def assms(1) v(1) r c)
qed

lemma ex_goal_ok: "list_all valid_utf8 ts \<Longrightarrow> goal_row_ok (ex_goal ts)" "list_all ascii ts \<Longrightarrow> goal_ascii (ex_goal ts)"
proof -
  show "goal_row_ok (ex_goal ts)" if "list_all valid_utf8 ts"
    using that ex_window_ok by (simp add: goal_row_ok_def goal_utf8_def query_utf8_def ex_goal_def int64_def) code_simp
  show "list_all ascii ts \<Longrightarrow> goal_ascii (ex_goal ts)"
    by (simp add: goal_ascii_def ex_goal_def) code_simp
qed

lemma ex_prior_plan:
  "\<exists>p s0. prior_outcome ex_service ''u_ana'' scopeCreateQuest (co_key ex_opts) (goal_payload ex_service (ex_goal [])) (now_of (ex_sys [])) (ex_sys [])
      = (Inr None, s0) \<and> fst (PlanQuest ex_service ''u_ana'' (ex_goal []) s0) = Inr p \<and> intent_row_ok (intentFromPlan ''u_ana'' p (ex_goal []))"
proof -
  let ?s0 = "(ex_sys [])\<lparr>sy_w := after_store ex_env (w_db (sy_w (ex_sys []))) (sy_w (ex_sys []))\<rparr>"
  have p: "prior_outcome ex_service ''u_ana'' scopeCreateQuest (co_key ex_opts) payload now (ex_sys []) = (Inr None, ?s0)" for payload now
    by (simp add: prior_outcome_def q_read_def q_exec_def live_io [OF ex_env_live(1)] store_GetIdempotencyResult_def ex_opts_def opted_in_def
        scopeCreateQuest_def scanIdempotencyRow_def ex_qdb_def no_lookup_def)
  have "w_now (sy_w ?s0) = ex_plan_now" "q_venue_cache (sy_q ?s0) = []"
    by (simp_all add: after_store_def ex_sys_def ex_env_def ex_qdb_def)
  then obtain pl where pl: "fst (PlanQuest ex_service ''u_ana'' (ex_goal []) ?s0) = Inr pl" "release_ok (pl_strategy pl)" "pl_venue pl = ex_venue"
    using ex_planned by blast
  have "intent_row_ok (intentFromPlan ''u_ana'' pl (ex_goal []))"
    using ex_goal_ok(1) [of "[]"] pl(2,3)
    by (simp add: intent_row_ok_def intent_utf8_def intentFromPlan_def goal_row_ok_def AsRef_def) (simp add: ex_venue_def)
  with p pl(1) show ?thesis by blast
qed

lemma ex_created: "fst (CreateQuest ex_service ''u_ana'' (ex_goal []) ex_opts (ex_sys [])) = (''q_5a5a5a5a'', None)"
proof -
  obtain s0 p where p: "prior_outcome ex_service ''u_ana'' scopeCreateQuest (co_key ex_opts) (goal_payload ex_service (ex_goal []))
      (now_of (ex_sys [])) (ex_sys []) = (Inr None, s0)" "fst (PlanQuest ex_service ''u_ana'' (ex_goal []) s0) = Inr p"
    "intent_row_ok (intentFromPlan ''u_ana'' p (ex_goal []))" using ex_prior_plan by blast
  obtain ij where ij: "MarshalIntent (intentFromPlan ''u_ana'' p (ex_goal [])) = Inr ij" using MarshalIntent_total [OF p(3)] by blast
  have bs: "sv_rand ex_service n 4 = Some (replicate 4 (CHR 0x5A))" for n by (simp add: ex_service_def)
  have k: "''q_5a5a5a5a'' = ''q_'' @ hex_encode (replicate 4 (CHR 0x5A))" by code_simp
  show ?thesis
    by (rule CreateQuest_live [OF _ bs _ _ p(1,2) _ ij _ _ _ k, where acc = ex_account])
      (simp_all add: ex_env_live ex_opts_def ex_qdb_def ex_sys_def ex_goal_def bound_account_def ex_account_def empty_db_def find_snipe_def)
qed

end
