(* ===== verification/ServiceSpec.thy ===== *)
theory ServiceSpec
  imports ServiceExample
begin

text \<open>The properties of the service layer over the multi-tenant store, with their witnesses.\<close>

section \<open>Requests\<close>

text \<open>The verbs a transport may call on behalf of a user, and what they answer; of a subscription, the
  part before its live phase.\<close>

datatype request =
    ReqResolveVenue "venue_query option" | ReqPlanQuest goal | ReqCreateQuest goal CreateOpts | ReqGetQuest string
  | ReqListQuests QuestListFilter | ReqCancelQuest string CancelOpts | ReqLogin string string | ReqListAccounts
  | ReqInviteUser string | ReqListUsers | ReqIssueToken string string string | ReqRevokeToken string string | ReqListTokens string
  | ReqSubscribeQuest "nat \<Rightarrow> nat" string

datatype response =
    RespVenue "svc_error + venue" | RespPlan "svc_error + plan" | RespCreated "string \<times> svc_error option"
  | RespQuest "svc_error + QuestState" | RespQuests "svc_error + QuestSummary list" | RespDone "svc_error option"
  | RespAccount "svc_error + account_id" | RespAccounts "svc_error + AccountRow list"
  | RespToken "svc_error + BearerToken" | RespTokens "svc_error + TokenRow list" | RespStream "sub_start \<times> event list"

fun respond :: "service \<Rightarrow> user_id \<Rightarrow> request \<Rightarrow> sys \<Rightarrow> response \<times> sys" where
  "respond c u (ReqResolveVenue query) s = apfst RespVenue (ResolveVenue c u query s)"
| "respond c u (ReqPlanQuest g) s = apfst RespPlan (PlanQuest c u g s)"
| "respond c u (ReqCreateQuest g opts) s = apfst RespCreated (CreateQuest c u g opts s)"
| "respond c u (ReqGetQuest k) s = apfst RespQuest (GetQuest c u k s)"
| "respond c u (ReqListQuests f) s = apfst RespQuests (ListQuests c u f s)"
| "respond c u (ReqCancelQuest k opts) s = apfst RespDone (CancelQuest c u k opts s)"
| "respond c u (ReqLogin email pw) s = apfst RespAccount (Login c u email pw s)"
| "respond c u ReqListAccounts s = apfst RespAccounts (ListAccounts c u s)"
| "respond c u (ReqInviteUser email) s = apfst (RespDone \<circ> Some) (InviteUser c u email s)"
| "respond c u ReqListUsers s = apfst (RespDone \<circ> Some) (service_ListUsers c u s)"
| "respond c u (ReqIssueToken caller label scope) s = apfst RespToken (IssueToken c caller u label scope s)"
| "respond c u (ReqRevokeToken caller k) s = apfst RespDone (RevokeToken c caller u k s)"
| "respond c u (ReqListTokens caller) s = apfst RespTokens (ListTokens c caller u s)"
| "respond c u (ReqSubscribeQuest cbt k) s = apfst RespStream (subscribe_start c cbt u k s)"

lemma respond_kept: "kept (e_sha (sv_env c)) u s (snd (respond c u r s))"
  by (cases r) (simp_all add: ResolveVenue_kept PlanQuest_kept CreateQuest_kept GetQuest_kept ListQuests_kept CancelQuest_kept
      Login_kept ListAccounts_kept InviteUser_def service_ListUsers_def audit_kept IssueToken_kept RevokeToken_kept ListTokens_kept subscribe_kept)

fun respond_all :: "service \<Rightarrow> (user_id \<times> request) list \<Rightarrow> sys \<Rightarrow> response list \<times> sys" where
  "respond_all c [] s = ([], s)"
| "respond_all c ((u, r) # rs) s = (case respond c u r s of (a, s1) \<Rightarrow> case respond_all c rs s1 of (as, s2) \<Rightarrow> (a # as, s2))"

text \<open>The requests whose answer depends on the caller's own rows only. A new quest id or token must
  be unused by every tenant, and a login claims a legacy account that belongs to nobody yet.\<close>

fun private_request :: "request \<Rightarrow> bool" where
  "private_request (ReqCreateQuest g opts) = False"
| "private_request (ReqLogin email pw) = False"
| "private_request (ReqIssueToken caller label scope) = False"
| "private_request r = True"

lemma apfst_consistent: "consistent sha u f \<Longrightarrow> consistent sha u (\<lambda>s. apfst h (f s))"
  by (simp add: consistent_def apfst_def map_prod_def case_prod_unfold)

lemma respond_consistent: "private_request r \<Longrightarrow> consistent (e_sha (sv_env c)) u (respond c u r)"
  by (cases r) (simp_all add: apfst_consistent ResolveVenue_consistent PlanQuest_consistent GetQuest_consistent ListQuests_consistent
      CancelQuest_consistent ListAccounts_consistent ListTokens_consistent RevokeToken_consistent InviteUser_consistent ListUsers_consistent subscribe_consistent
      respond.simps [abs_def])

section \<open>Tenants\<close>

text \<open>C16: tenants are isolated. Whatever requests other users send, in any number and order and
  with any failures of the store and the provider, the rows of a tenant (its quests, events,
  idempotency keys, tokens, audit rows and accounts) stay exactly as they are, and the tables stay
  well-formed: keys unique, every event of an existing quest of its user, every status one of
  the column's, every idempotency row filed under the digest of its own user. The users are told
  apart by a digest without collisions.\<close>

theorem tenant_isolation:
  assumes "qdb_ok (e_sha (sv_env c)) (sy_q s)" "list_all (\<lambda>(u, r). apart (e_sha (sv_env c)) u v) rs"
  shows "tenant v (snd (respond_all c rs s)) = tenant v s \<and> qdb_ok (e_sha (sv_env c)) (sy_q (snd (respond_all c rs s)))"
  using assms
proof (induction c rs s rule: respond_all.induct)
  case (2 c u r rs s)
  obtain a s1 where step: "respond c u r s = (a, s1)" by fastforce
  then have "qdb_ok (e_sha (sv_env c)) (sy_q s1) \<and> tenant v s1 = tenant v s"
    using respond_kept [of c u s r] 2(2,3) by (simp add: kept_def)
  then show ?case using 2(1) [OF step [symmetric]] 2(3) by (simp add: step case_prod_unfold)
qed simp

theorem tenant_isolation_witness:
  "tenant ''u_ana'' (snd (respond_all ex_service [(''u_bo'', ReqGetQuest ''q_1''), (''u_bo'', ReqCancelQuest ''q_1'' \<lparr>cn_reason = [], cn_key = Some ''k''\<rparr>),
       (''u_bo'', ReqRevokeToken ''operator'' ''tok_1'')] (ex_sys [ex_quest ''u_ana'' ''q_1'', ex_quest ''u_bo'' ''q_2'']))) =
     tenant ''u_ana'' (ex_sys [ex_quest ''u_ana'' ''q_1'', ex_quest ''u_bo'' ''q_2''])"
proof -
  have "qdb_ok (e_sha (sv_env ex_service)) (sy_q (ex_sys [ex_quest ''u_ana'' ''q_1'', ex_quest ''u_bo'' ''q_2'']))"
    by (simp add: ex_qdb_ok)
  then show ?thesis by (rule tenant_isolation [THEN conjunct1]) (simp add: apart_def)
qed

text \<open>C17: what a tenant is told depends on its own rows. From two states that agree on a user's rows
  and accounts, on the shared venue caches and on the clock, any sequence of the user's reads, plans,
  cancellations, token listings and revocations gets the same answers, and leads to two states that
  still agree: no answer reveals the rows of another tenant.\<close>

theorem tenant_noninterference:
  assumes "sees (e_sha (sv_env c)) u s t" "list_all private_request rs"
  shows "fst (respond_all c (map (Pair u) rs) s) = fst (respond_all c (map (Pair u) rs) t) \<and>
    sees (e_sha (sv_env c)) u (snd (respond_all c (map (Pair u) rs) s)) (snd (respond_all c (map (Pair u) rs) t))"
  using assms
proof (induction rs arbitrary: s t)
  case (Cons r rs)
  have "consistent (e_sha (sv_env c)) u (respond c u r)" by (rule respond_consistent) (use Cons(3) in simp)
  from this Cons(2) obtain a s1 t1 where "respond c u r s = (a, s1)" "respond c u r t = (a, t1)" "sees (e_sha (sv_env c)) u s1 t1"
    by (metis consistentD prod.collapse)
  then show ?case using Cons(1) [of s1 t1] Cons(3) by (simp add: case_prod_unfold)
qed simp

theorem tenant_noninterference_witness:
  "fst (respond_all ex_service (map (Pair ''u_ana'') [ReqGetQuest ''q_1'', ReqCancelQuest ''q_1'' \<lparr>cn_reason = [], cn_key = Some ''k''\<rparr>,
      ReqGetQuest ''q_2'']) (ex_sys [ex_quest ''u_ana'' ''q_1''])) =
   fst (respond_all ex_service (map (Pair ''u_ana'') [ReqGetQuest ''q_1'', ReqCancelQuest ''q_1'' \<lparr>cn_reason = [], cn_key = Some ''k''\<rparr>,
      ReqGetQuest ''q_2'']) (ex_sys [ex_quest ''u_bo'' ''q_2'', ex_quest ''u_ana'' ''q_1'']))"
proof -
  have "sees (e_sha (sv_env ex_service)) ''u_ana'' (ex_sys [ex_quest ''u_ana'' ''q_1''])
      (ex_sys [ex_quest ''u_bo'' ''q_2'', ex_quest ''u_ana'' ''q_1''])"
    by (simp add: sees_def q_view_def rows_of_def ex_sys_def ex_qdb_def ex_quest_def)
  then show ?thesis by (rule tenant_noninterference [THEN conjunct1]) simp
qed

section \<open>Quests\<close>

text \<open>C19: what creating a quest leaves behind. A call with no live earlier outcome under its key
  either fails before the quest has an id, and then no quest, event or snipe exists that did not
  before; or succeeds, and then the caller can read the quest back under a fresh id: pending, with
  the goal as given, the hash of the plan just computed, which is the one the caller pinned if it
  pinned one, and an account that belongs to the caller, while the engine holds a submitted
  snipe with the plan's intent under the same id. The third end is the engine refusing the snipe
  after the quest row was committed: the row stays.\<close>

theorem create_quest_outcome:
  assumes "CreateQuest c u g opts s = ((k, err), s')" "u \<noteq> []" "goal_row_ok g"
    and "prior_outcome c u scopeCreateQuest (co_key opts) (goal_payload c g) (now_of s) s = (Inr None, s0)"
  shows "(case err of
      None \<Rightarrow> \<exists>p row. store_GetQuest io_ok u k (sy_q s') = Inr row \<and> qr_status row = StatusSubmitted \<and>
          unmarshalGoalJSON (qr_goal_json row) = Inr g \<and> qr_plan_hash row = pl_hash p \<and>
          fst (PlanQuest c u g s0) = Inr p \<and> co_plan_hash opts \<in> {None, Some (pl_hash p)} \<and>
          (\<exists>acc \<in> set (db_accounts (w_db (sy_w s))). a_user_id acc = Some u \<and> a_id acc = qr_account row) \<and>
          submitted k (intentFromPlan u p g) (w_db (sy_w s'))
    | Some _ \<Rightarrow> k = [] \<longrightarrow> w_db (sy_w s') = w_db (sy_w s)) \<and>
    (if k = [] then q_quests (sy_q s') = q_quests (sy_q s)
     else k \<notin> qu_id ` set (q_quests (sy_q s)) \<and> (\<exists>row. q_quests (sy_q s') = q_quests (sy_q s) @ [row] \<and> owned_quest u k row))"
proof -
  obtain s1 where f: "create_fresh c u g opts (now_of s) s0 = ((k, err), s1)"
    and s': "s' = audit c u ''quest.create'' k err
      (recordIdempotency c u scopeCreateQuest (co_key opts) (goal_payload c g) k err (now_of s) s1)"
    using assms(1,2,4) by (auto simp: CreateQuest_def create_body_def Let_def split: prod.splits)
  have b: "booked_rows s' = booked_rows s1" "booked_rows s0 = booked_rows s"
    using s' keepsD [OF booked_rows.prior_keeps assms(4)] by simp_all
  from f show ?thesis
  proof (cases rule: create_fresh_cases)
    case refused
    then show ?thesis using b by (auto simp: booked_rows_def)
  next
    case (orphan p a)
    then show ?thesis using b by (auto simp: booked_rows_def new_quest_row_def owned_quest_def)
  next
    case (committed p a)
    then have "store_GetQuest io_ok u k (sy_q s') =
        store_GetQuest io_ok u k (sy_q s'\<lparr>q_quests := q_quests (sy_q s) @ [new_quest_row u g p a (now_of s) k]\<rparr>)"
      using b by (simp add: booked_rows_def store_GetQuest_def)
    moreover have "q_quests (sy_q s') = q_quests (sy_q s) @ [new_quest_row u g p a (now_of s) k]"
      "owned_quest u k (new_quest_row u g p a (now_of s) k)"
      using committed(4) b by (simp_all add: booked_rows_def new_quest_row_def owned_quest_def)
    moreover have "k \<notin> qu_id ` set (q_quests (sy_q s))" "submitted k (intentFromPlan u p g) (w_db (sy_w s'))"
      "\<exists>acc \<in> set (db_accounts (w_db (sy_w s))). a_user_id acc = Some u \<and> a_id acc = a"
      using committed(3,5,8) b by (simp_all add: booked_rows_def)
    ultimately show ?thesis
      using new_quest_readable [of k "q_quests (sy_q s)" g u, where q = "sy_q s'" and p = p and a = a and now = "now_of s"] assms(3) committed(1,2,6,7) by auto
  qed
qed

theorem create_quest_outcome_witness:
  "\<exists>p row s'. snd (CreateQuest ex_service ''u_ana'' (ex_goal []) ex_opts (ex_sys [])) = s' \<and>
     store_GetQuest io_ok ''u_ana'' ''q_5a5a5a5a'' (sy_q s') = Inr row \<and> qr_status row = StatusSubmitted \<and>
     unmarshalGoalJSON (qr_goal_json row) = Inr (ex_goal []) \<and> submitted ''q_5a5a5a5a'' (intentFromPlan ''u_ana'' p (ex_goal [])) (w_db (sy_w s'))"
proof -
  obtain s0 s' where p: "prior_outcome ex_service ''u_ana'' scopeCreateQuest (co_key ex_opts) (goal_payload ex_service (ex_goal []))
      (now_of (ex_sys [])) (ex_sys []) = (Inr None, s0)"
    and c: "CreateQuest ex_service ''u_ana'' (ex_goal []) ex_opts (ex_sys []) = ((''q_5a5a5a5a'', None), s')"
    using ex_created ex_prior_plan by (metis prod.collapse)
  show ?thesis
    using create_quest_outcome [OF c _ ex_goal_ok(1) p] c by auto
qed

text \<open>C20: a plan that can be computed can be committed. When no statement fails, the goal plans, the
  caller pins no other plan, its account is found by address, its user exists, the drawn id is
  unused by the quests and the snipes and the plan's intent can be encoded, \<^verbatim>\<open>CreateQuest\<close> returns
  that id and no error.\<close>

theorem create_quest_succeeds:
  assumes "live_env (sv_env c)" "\<And>n. sv_rand c n 4 = Some bs" "u \<noteq> []" "u \<in> us_id ` set (q_users (sy_q s))"
    and "prior_outcome c u scopeCreateQuest (co_key opts) (goal_payload c g) (now_of s) s = (Inr None, s0)"
    and "fst (PlanQuest c u g s0) = Inr p" "co_plan_hash opts \<in> {None, Some (pl_hash p)}"
    and "intent_row_ok (intentFromPlan u p g)"
    and "gl_account g \<noteq> []" "find (bound_account u (gl_account g)) (db_accounts (w_db (sy_w s))) = Some acc" "a_id acc \<noteq> []"
    and "''q_'' @ hex_encode bs \<notin> qu_id ` set (q_quests (sy_q s))" "find_snipe (''q_'' @ hex_encode bs) (w_db (sy_w s)) = None"
  shows "fst (CreateQuest c u g opts s) = (''q_'' @ hex_encode bs, None)"
proof -
  obtain ij where "MarshalIntent (intentFromPlan u p g) = Inr ij" using MarshalIntent_total [OF assms(8)] by blast
  from CreateQuest_live [OF assms(1-7) this assms(9-11) refl assms(12,13)] show ?thesis .
qed

theorem create_quest_succeeds_witness:
  "fst (CreateQuest ex_service ''u_ana'' (ex_goal []) ex_opts (ex_sys [])) = (''q_'' @ hex_encode (replicate 4 (CHR 0x5A)), None)"
proof -
  obtain s0 p where p: "prior_outcome ex_service ''u_ana'' scopeCreateQuest (co_key ex_opts) (goal_payload ex_service (ex_goal []))
      (now_of (ex_sys [])) (ex_sys []) = (Inr None, s0)" "fst (PlanQuest ex_service ''u_ana'' (ex_goal []) s0) = Inr p"
    "intent_row_ok (intentFromPlan ''u_ana'' p (ex_goal []))" using ex_prior_plan by blast
  have bs: "sv_rand ex_service n 4 = Some (replicate 4 (CHR 0x5A))" for n by (simp add: ex_service_def)
  have "''q_'' @ hex_encode (replicate 4 (CHR 0x5A)) = ''q_5a5a5a5a''" by code_simp
  then show ?thesis
    by (intro create_quest_succeeds [OF _ bs _ _ p(1,2) _ p(3), where acc = ex_account])
      (simp_all add: ex_env_live ex_opts_def ex_qdb_def ex_sys_def ex_goal_def bound_account_def ex_account_def empty_db_def find_snipe_def)
qed

text \<open>The second call: the lookup replays the first call's outcome, or reports a conflict.\<close>

lemma prior_live:
  assumes "live_env (sv_env c)" "opted_in (Some key)"
    "store_GetIdempotencyResult (e_sha (sv_env c)) io_ok u scope key payload now (sy_q t) = Inr l" "il_found l" "\<not> il_expired l"
  shows "\<exists>t1. prior_outcome c u scope (Some key) payload now t = (Inr (Some l), t1) \<and> durable t1 = durable t \<and> w_calls (sy_w t1) = w_calls (sy_w t)"
  using assms by (simp add: prior_outcome_def q_read_def q_exec_def live_io durable_def after_store_def)

lemma audit_calls [simp]: "w_calls (sy_w (audit c u a target err s)) = w_calls (sy_w s)"
  by (simp add: audit_def q_exec_def after_store_def case_prod_unfold)

text \<open>The first call: what it files under its key.\<close>

lemma create_files_outcome:
  assumes "live_env (sv_env c)" "CreateQuest c u g opts s = ((k, err), s')" "u \<noteq> []" "co_key opts = Some key" "key \<noteq> []"
    and "unused_key (e_sha (sv_env c)) u scopeCreateQuest key (sy_q s)" "user_fk (w_db (sy_w s)) u (sy_q s)"
  shows "q_idem (sy_q s') = q_idem (sy_q s) @
      [outcome_row (e_sha (sv_env c)) u scopeCreateQuest key (goal_payload c g) k (map_option sx_text err) (now_of s)]"
    and "\<And>e. err = Some e \<Longrightarrow> sx_text e \<noteq> []"
proof -
  let ?sha = "e_sha (sv_env c)"
  have "store_GetIdempotencyResult ?sha io_ok u scopeCreateQuest key payload now (sy_q s) = Inr no_lookup" for payload now
  proof -
    have "find (\<lambda>r. ik_key_hash r = HashIdempotencyKey ?sha u scopeCreateQuest key payload \<and> ik_user r = u) (q_idem (sy_q s)) = None"
      "filter (\<lambda>r. ik_user r = u \<and> ik_scope r = scopeCreateQuest \<and> ik_plain_hash r = HashIdempotencyPlain ?sha u scopeCreateQuest key)
        (q_idem (sy_q s)) = []"
      using assms(6) by (auto simp: find_None_iff filter_empty_conv unused_key_def)
    then show ?thesis using assms(3,5) by (simp add: store_GetIdempotencyResult_def scanIdempotencyRow_def scopeCreateQuest_def)
  qed
  then obtain s0 where p: "prior_outcome c u scopeCreateQuest (co_key opts) (goal_payload c g) (now_of s) s = (Inr None, s0)"
    using assms(1,4,5) by (simp add: prior_outcome_def q_read_def q_exec_def live_io opted_in_def no_lookup_def)
  then obtain s1 where f: "create_fresh c u g opts (now_of s) s0 = ((k, err), s1)"
    and s': "s' = audit c u ''quest.create'' k err
      (recordIdempotency c u scopeCreateQuest (co_key opts) (goal_payload c g) k err (now_of s) s1)"
    using assms(2,3) by (auto simp: CreateQuest_def create_body_def Let_def split: prod.splits)
  have k1: "keys s1 = keys s" using keepsD [OF keys_fresh f] keepsD [OF keys.prior_keeps p] by simp
  then have "user_fk (w_db (sy_w s1)) u (sy_q s1)" "unused_key ?sha u scopeCreateQuest key (sy_q s1)"
    using assms(6,7) by (simp_all add: keys_def user_fk_def unused_key_def)
  then have "q_idem (sy_q (recordIdempotency c u scopeCreateQuest (co_key opts) (goal_payload c g) k err (now_of s) s1)) = q_idem (sy_q s1) @
      [outcome_row ?sha u scopeCreateQuest key (goal_payload c g) k (map_option sx_text err) (now_of s)]"
    using put_unused [of ?sha u scopeCreateQuest key "sy_q s1" "w_db (sy_w s1)"] assms(1,3-5)
    by (simp add: recordIdempotency_def q_exec_def live_io opted_in_def scopeCreateQuest_def)
  then show "q_idem (sy_q s') = q_idem (sy_q s) @
      [outcome_row ?sha u scopeCreateQuest key (goal_payload c g) k (map_option sx_text err) (now_of s)]"
    using k1 s' keys.audit_obs by (simp add: keys_def)
  show "sx_text e \<noteq> []" if "err = Some e" for e
    using f error_text_nonempty that by blast
qed

text \<open>What a replayed error keeps of the first one: its text, and its sentinel where the text names one alone.\<close>

lemma contains_inner: "contains (a @ p @ b) p"
proof -
  have "prefix p (p @ b)" by simp
  then have "find_sub p (p @ b) \<noteq> None" by (cases "p @ b") simp_all
  then have "find_sub p (a @ p @ b) \<noteq> None" by (induction a) auto
  then show ?thesis by (simp add: contains_def)
qed

definition replayable :: "svc_sentinel list" where
  "replayable = [SvcInvalidPlanHash, SvcNotFound, SvcInvalidArgument, SvcVenueNotFound, SvcVenueAmbiguous, SvcUpstreamUnavailable]"

lemma replay_quotes: "contains (sx_text (replayServiceErr p)) p"
proof (cases "find (\<lambda>x. contains p (sentinel_text x)) replayable")
  case None
  then have "sx_text (replayServiceErr p) = ''service: idempotent replay: '' @ p @ []"
    unfolding replayServiceErr_def replayable_def by simp
  then show ?thesis using contains_inner by metis
next
  case (Some x)
  then have "sx_text (replayServiceErr p) = (sentinel_text x @ '' (replay: '') @ p @ '')''"
    unfolding replayServiceErr_def replayable_def by (simp add: wrap_def plain_def)
  then show ?thesis using contains_inner by metis
qed

lemma replay_sentinel:
  assumes "k \<in> set replayable" "\<forall>j \<in> set replayable. contains p (sentinel_text j) \<longleftrightarrow> j = k"
  shows "sx_is (replayServiceErr p) = [k]"
proof -
  have "find (\<lambda>x. contains p (sentinel_text x)) replayable = Some k"
    using assms unfolding replayable_def by auto
  then show ?thesis by (simp add: replayServiceErr_def replayable_def wrap_def plain_def)
qed

text \<open>C18: retrying the creation of a quest is safe. After a first call under an unused key, any
  later call of the same user with the same key and goal, made before the outcome expires (a day
  later, to the millisecond) from a state in which the user's keys are as the first call left
  them, is answered from the stored outcome. A first success is answered with its quest id again. A first failure is answered
  with the id it had and an error rebuilt from the stored text: it quotes that text, and its sentinel is the
  first of the replayable ones whose text occurs in it, which is the first call's if its text names no
  other. The stored text can name another, and only the id and the text are stored: the replay is not
  always the response the design promises. The later call
  asks no provider and writes nothing but its audit row. The same key with another goal is a
  conflict, and writes nothing either.\<close>

theorem create_quest_replay:
  assumes "live_env (sv_env c)" "u \<noteq> []" "co_key opts = Some key" "key \<noteq> []"
    and "unused_key (e_sha (sv_env c)) u scopeCreateQuest key (sy_q s)" "user_fk (w_db (sy_w s)) u (sy_q s)"
    and "CreateQuest c u g opts s = ((k, err), s')"
    and "filter (\<lambda>r. ik_user r = u) (q_idem (sy_q t)) = filter (\<lambda>r. ik_user r = u) (q_idem (sy_q s'))"
    and "rfc_range (now_of s + idempotencyTTL)" "now_of t < outcome_expiry (now_of s)"
    and "inj (e_sha (sv_env c))" "goal_row_ok g" "goal_ascii g" "goal_row_ok g'" "goal_ascii g'"
  shows "case CreateQuest c u g' opts t of (r, t') \<Rightarrow>
    durable t' = durable t \<and> w_calls (sy_w t') = w_calls (sy_w t) \<and>
    (if g' = g then r = (k, map_option (replayServiceErr \<circ> sx_text) err) \<and>
        (\<forall>e. err = Some e \<longrightarrow> contains (sx_text (replayServiceErr (sx_text e))) (sx_text e) \<and>
          (\<forall>x \<in> set replayable. sx_is e = [x] \<and> (\<forall>j \<in> set replayable. contains (sx_text e) (sentinel_text j) \<longleftrightarrow> j = x) \<longrightarrow>
             sx_is (replayServiceErr (sx_text e)) = sx_is e))
     else \<exists>e. r = ([], Some e) \<and> errorCodeFor (Some e) = ''idempotency_conflict'')"
proof -
  let ?sha = "e_sha (sv_env c)"
  note first = create_files_outcome [OF assms(1,7,2,3,4,5,6)]
  have own: "filter (\<lambda>r. ik_user r = u) (q_idem (sy_q t)) = filter (\<lambda>r. ik_user r = u) (q_idem (sy_q s)) @
      [outcome_row ?sha u scopeCreateQuest key (goal_payload c g) k (map_option sx_text err) (now_of s)]"
    unfolding assms(8) first(1) by (simp add: outcome_row_def)
  have sc: "scopeCreateQuest \<noteq> []" "opted_in (Some key)" using assms(4) by (simp_all add: scopeCreateQuest_def opted_in_def)
  show ?thesis
  proof (cases "g' = g")
    case True
    from prior_live [OF assms(1) sc(2) get_replay [OF own assms(5,2) sc(1) assms(4,9,10)]]
    obtain t1 where "prior_outcome c u scopeCreateQuest (Some key) (goal_payload c g) (now_of t) t = (Inr (Some (no_lookup\<lparr>il_found := True,
          il_match := True, il_target := k, il_code := (if map_option sx_text err = None then ''ok'' else ''error''),
          il_err := string_of_null (map_option sx_text err)\<rparr>)), t1)" "durable t1 = durable t" "w_calls (sy_w t1) = w_calls (sy_w t)"
      by (auto simp: no_lookup_def)
    then show ?thesis
      using True assms(2,3) first(2) replay_quotes replay_sentinel
      by (cases err) (simp_all add: CreateQuest_def create_body_def Let_def string_of_null_def no_lookup_def)
  next
    case False
    then have "goal_payload c g' \<noteq> goal_payload c g"
      using assms(11) goal_text_inject [OF assms(14,12,15,13)] by (simp add: goal_payload_def payloadHashFor_def inj_eq)
    from get_conflict [OF own assms(5,2) sc(1) assms(4,9,10,11) this]
    obtain l where l: "store_GetIdempotencyResult ?sha io_ok u scopeCreateQuest key (goal_payload c g') (now_of t) (sy_q t) = Inr l"
      "il_found l" "\<not> il_match l" "\<not> il_expired l" by blast
    from prior_live [OF assms(1) sc(2) l(1,2,4)] obtain t1 where
      "prior_outcome c u scopeCreateQuest (Some key) (goal_payload c g') (now_of t) t = (Inr (Some l), t1)"
      "durable t1 = durable t" "w_calls (sy_w t1) = w_calls (sy_w t)" by blast
    then show ?thesis
      using False assms(2,3) l(3) by (simp add: CreateQuest_def create_body_def Let_def errorCodeFor_def wrap_def plain_def)
  qed
qed

theorem create_quest_replay_witness:
  "\<exists>s' t t'. CreateQuest ex_service ''u_ana'' (ex_goal []) ex_opts (ex_sys []) = ((''q_5a5a5a5a'', None), s') \<and>
     t = s'\<lparr>sy_w := (sy_w s')\<lparr>w_now := ex_plan_now + 3600 * second\<rparr>\<rparr> \<and>
     CreateQuest ex_service ''u_ana'' (ex_goal []) ex_opts t = ((''q_5a5a5a5a'', None), t') \<and> durable t' = durable t"
proof -
  obtain s' where c: "CreateQuest ex_service ''u_ana'' (ex_goal []) ex_opts (ex_sys []) = ((''q_5a5a5a5a'', None), s')"
    using ex_created by (metis prod.collapse)
  let ?t = "s'\<lparr>sy_w := (sy_w s')\<lparr>w_now := ex_plan_now + 3600 * second\<rparr>\<rparr>"
  have r: "rfc_range (ex_plan_now + idempotencyTTL)" "ex_plan_now + 3600 * second < outcome_expiry ex_plan_now" by code_simp+
  show ?thesis
    using create_quest_replay [OF _ _ _ _ _ _ c, of "''key-1''" ?t "ex_goal []"] r ex_goal_ok c
    by (simp add: ex_env_live ex_opts_def unused_key_def ex_qdb_def user_fk_def ex_sys_def now_of_def split: prod.splits)
qed

end
