(* ===== verification/ServiceAudit.thy ===== *)
theory ServiceAudit
  imports QuestStream
begin

text \<open>
  The audit rows a call writes (\<^verbatim>\<open>service/audit.go\<close>): the bodies of the verbs leave the log alone, but
  for planning, which writes a row of its own, and each verb ends by appending the row of its
  outcome.
\<close>

section \<open>Writes the log does not see\<close>

locale write_frame = frame +
  assumes quests: "obs (s\<lparr>sy_q := (sy_q s)\<lparr>q_quests := qs\<rparr>\<rparr>) = obs s"
    and events: "obs (s\<lparr>sy_q := (sy_q s)\<lparr>q_events := es\<rparr>\<rparr>) = obs s"
    and idem: "obs (s\<lparr>sy_q := (sy_q s)\<lparr>q_idem := ks\<rparr>\<rparr>) = obs s"
    and engine: "db_fk (w_db w) = db_fk (w_db (sy_w s)) \<Longrightarrow> obs (s\<lparr>sy_w := w\<rparr>) = obs s"
begin

lemma create_keeps: "keeps obs (q_exec e (\<lambda>io d. store_CreateQuest io d r))"
  by (simp add: keeps_def exec_obs store_CreateQuest_def quests split: option.split)

lemma status_keeps: "keeps obs (q_exec e (\<lambda>io d. store_UpdateQuestStatus io u k st completed updated))"
  by (simp add: keeps_def exec_obs store_UpdateQuestStatus_def quests split: option.split)

lemma event_keeps: "keeps obs (\<lambda>s. (r, writeQuestEvent c u k ev s))"
  by (simp add: keeps_def writeQuestEvent_def exec_obs store_WriteQuestEvent_def events split: option.split)

lemma record_keeps: "keeps obs (\<lambda>s. (r, recordIdempotency c u scope key payload target err now s))"
  by (simp add: keeps_def recordIdempotency_def exec_obs store_PutIdempotencyResult_def idem Let_def split: option.split)

lemma cancel_fresh_keeps: "keeps obs (cancel_fresh c u k reason now)"
  unfolding cancel_fresh_def
  by (intro keeps_bind [OF read_keeps] keeps_bind [OF status_keeps] keeps_sum keeps_option keeps_if keeps_return event_keeps)

lemma cancel_body_keeps: "keeps obs (cancel_body c u k opts)"
  unfolding cancel_body_def Let_def
  by (rule keeps_at, intro keeps_bind [OF prior_keeps] keeps_bind [OF cancel_fresh_keeps] keeps_sum keeps_option keeps_return record_keeps)

lemma login_keeps: "keeps obs (login_body c u email pw)"
proof -
  have "db_fk (snd (store_BindLegacyAccountToUser io u m q d)) = db_fk d" for io m q d
    by (simp add: store_BindLegacyAccountToUser_def Let_def split: option.split list.split)
  then have "keeps obs (bind_account c u m)" for m
    by (simp add: keeps_def bind_account_def engine after_store_def case_prod_unfold)
  then show ?thesis
    unfolding login_body_def by (intro keeps_bind [OF provider_keeps] keeps_bind keeps_sum keeps_option keeps_if keeps_return)
qed

lemma submit_keeps:
  "keeps obs (\<lambda>s. case Submit e k i (sy_w s) of (Inl ee, w) \<Rightarrow> (f ee, s\<lparr>sy_w := w\<rparr>)
     | (Inr x, w) \<Rightarrow> (r, writeQuestEvent c u k ev (s\<lparr>sy_w := w\<rparr>)))"
  unfolding keeps_def
proof
  fix s :: sys
  obtain z w where sub: "Submit e k i (sy_w s) = (z, w)" by fastforce
  have "obs (writeQuestEvent c u k ev t) = obs t" for t
    using event_keeps by (simp add: keeps_def)
  then show "obs (snd (case Submit e k i (sy_w s) of (Inl ee, w) \<Rightarrow> (f ee, s\<lparr>sy_w := w\<rparr>)
     | (Inr x, w) \<Rightarrow> (r, writeQuestEvent c u k ev (s\<lparr>sy_w := w\<rparr>)))) = obs s"
    using Submit_fk [of e k i "sy_w s"] sub by (cases z) (simp_all add: engine)
qed

lemma commit_keeps: "keeps obs (commit_quest c u g p a now)"
  unfolding commit_quest_def
  by (intro keeps_bind [OF newQuestID_keeps] keeps_bind [OF create_keeps] submit_keeps keeps_option keeps_return)

end

text \<open>Observations that do not see the tokens either.\<close>

locale token_frame = write_frame +
  assumes tokens: "obs (s\<lparr>sy_q := (sy_q s)\<lparr>q_tokens := ts\<rparr>\<rparr>) = obs s"
begin

lemma token_keeps: "keeps obs (q_exec e (\<lambda>io d. store_InsertToken io d t))"
  by (simp add: keeps_def exec_obs store_InsertToken_def tokens split: option.split)

lemma revoke_keeps: "keeps obs (\<lambda>s. q_exec e (\<lambda>io d. store_RevokeToken io u k (now_of s)) s)"
  by (simp add: keeps_def exec_obs store_RevokeToken_def tokens split: option.split)

lemma mint_keeps: "keeps obs (mint_token c u label scope)"
proof -
  have "keeps obs (\<lambda>s. case q_exec e (\<lambda>io d. store_InsertToken io d (t (now_of s))) s of (Some e, s3) \<Rightarrow> (f e, s3) | (None, s3) \<Rightarrow> (r (now_of s), s3))"
    for e t f r
    by (rule keeps_at, intro keeps_bind [OF token_keeps] keeps_option keeps_return)
  then show ?thesis
    unfolding mint_token_def Let_def by (intro keeps_bind [OF rand_keeps] keeps_option keeps_return)
qed

end

text \<open>The log, and what decides whether a row may name a user.\<close>

definition ledger :: "sys \<Rightarrow> audit_row list \<times> user_row list \<times> bool" where
  "ledger s = (trail s, members s)"

interpretation ledger: token_frame ledger
  by unfold_locales (simp_all add: ledger_def trail_def members_def after_store_def after_call_def)

section \<open>The row of an outcome\<close>

definition can_log :: "user_id \<Rightarrow> sys \<Rightarrow> bool" where
  "can_log u s \<longleftrightarrow> u \<noteq> [] \<and> user_fk (w_db (sy_w s)) u (sy_q s)"

lemma can_log_members: "members s = members t \<Longrightarrow> can_log u s = can_log u t"
  by (simp add: can_log_def members_def user_fk_def)

definition logs_outcome :: "user_id \<Rightarrow> string \<Rightarrow> svc_error option \<Rightarrow> audit_row \<Rightarrow> bool" where
  "logs_outcome u action err r \<longleftrightarrow> au_user r = u \<and> au_action r = action \<and> (au_ok r \<longleftrightarrow> err = None) \<and>
     au_error_code r = null_if_empty (errorCodeFor err)"

lemma audit_logs:
  assumes "live_env (sv_env c)" "can_log u s" "a \<noteq> []"
  shows "\<exists>r. trail (audit c u a target err s) = trail s @ [r] \<and> logs_outcome u a err r \<and> members (audit c u a target err s) = members s"
  using assms members.audit_obs [of c u a target err s]
  by (simp add: audit_def q_exec_def live_io store_WriteAuditEvent_def trail_def can_log_def logs_outcome_def)

text \<open>A call that appends the row of its outcome, after at most \<open>n\<close> rows of plans.\<close>

definition logged :: "nat \<Rightarrow> user_id \<Rightarrow> string \<Rightarrow> ('r \<Rightarrow> svc_error option) \<Rightarrow> (sys \<Rightarrow> 'r \<times> sys) \<Rightarrow> bool" where
  "logged n u a err f \<longleftrightarrow> (\<forall>s. can_log u s \<longrightarrow> members (snd (f s)) = members s \<and>
     (\<exists>plans r. trail (snd (f s)) = trail s @ plans @ [r] \<and> length plans \<le> n \<and>
        (\<forall>p \<in> set plans. au_user p = u \<and> au_action p = ''quest.plan'') \<and> logs_outcome u a (err (fst (f s))) r))"

lemma logged_audit:
  assumes "live_env (sv_env c)" "err r = e" "a \<noteq> []"
  shows "logged n u a err (\<lambda>s. (r, audit c u a target e s))"
  unfolding logged_def
proof (intro allI impI)
  fix s
  assume "can_log u s"
  from audit_logs [OF assms(1) this assms(3), of target e]
  show "members (snd (r, audit c u a target e s)) = members s \<and>
     (\<exists>plans ra. trail (snd (r, audit c u a target e s)) = trail s @ plans @ [ra] \<and> length plans \<le> n \<and>
        (\<forall>p \<in> set plans. au_user p = u \<and> au_action p = ''quest.plan'') \<and> logs_outcome u a (err (fst (r, audit c u a target e s))) ra)"
    using assms(2) by (auto intro: exI [of _ "[]"])
qed

lemma logged_bind:
  assumes "keeps ledger f" "\<And>r. logged n u a err (g r)"
  shows "logged n u a err (\<lambda>s. case f s of (r, s') \<Rightarrow> g r s')"
  unfolding logged_def
proof (intro allI impI)
  fix s
  assume "can_log u s"
  moreover obtain r s' where f: "f s = (r, s')" by fastforce
  moreover have "trail s' = trail s" "members s' = members s" using keepsD [OF assms(1) f] by (simp_all add: ledger_def)
  ultimately show "members (snd (case f s of (r, s') \<Rightarrow> g r s')) = members s \<and>
     (\<exists>plans ra. trail (snd (case f s of (r, s') \<Rightarrow> g r s')) = trail s @ plans @ [ra] \<and> length plans \<le> n \<and>
        (\<forall>p \<in> set plans. au_user p = u \<and> au_action p = ''quest.plan'') \<and> logs_outcome u a (err (fst (case f s of (r, s') \<Rightarrow> g r s'))) ra)"
    using assms(2) [of r, unfolded logged_def, rule_format, of s'] can_log_members [of s' s u] by simp
qed

lemma logged_at: "(\<And>x. logged n u a err (g x)) \<Longrightarrow> logged n u a err (\<lambda>s. g (h s) s)"
  by (simp add: logged_def)

lemma logged_sum:
  "(\<And>e. logged n u a err (f e)) \<Longrightarrow> (\<And>v. logged n u a err (g v)) \<Longrightarrow> logged n u a err (\<lambda>s. case r of Inl e \<Rightarrow> f e s | Inr v \<Rightarrow> g v s)"
  by (cases r) simp_all

lemma logged_option:
  "logged n u a err f \<Longrightarrow> (\<And>v. logged n u a err (g v)) \<Longrightarrow> logged n u a err (\<lambda>s. case r of None \<Rightarrow> f s | Some v \<Rightarrow> g v s)"
  by (cases r) simp_all

lemma logged_pair: "(\<And>x y. logged n u a err (f x y)) \<Longrightarrow> logged n u a err (\<lambda>s. case p of (x, y) \<Rightarrow> f x y s)"
  by (cases p) simp

section \<open>The verbs\<close>

text \<open>The error a call returns.\<close>

definition err_of :: "svc_error + 'a \<Rightarrow> svc_error option" where
  "err_of r = (case r of Inl e \<Rightarrow> Some e | Inr _ \<Rightarrow> None)"

lemma err_of_simps [simp]: "err_of (Inl e) = Some e" "err_of (Inr v) = None"
  by (simp_all add: err_of_def)

lemma ResolveVenue_logged:
  assumes "live_env (sv_env c)" "u \<noteq> []"
  shows "logged 0 u ''venue.resolve'' err_of (ResolveVenue c u query)"
  unfolding ResolveVenue_def Let_def if_not_P [OF assms(2)]
  by (intro logged_bind [OF ledger.Resolve_keeps] logged_sum logged_audit [OF assms(1)]) simp_all

lemma PlanQuest_logged:
  assumes "live_env (sv_env c)" "u \<noteq> []"
  shows "logged 0 u ''quest.plan'' err_of (PlanQuest c u g)"
proof -
  have "logged 0 u ''quest.plan'' err_of (\<lambda>s. case goal_Validate (rv_uni (sv_resolver c)) g (now_of s) of
        Some ge \<Rightarrow> (Inl (err ge), audit c u ''quest.plan'' [] (Some (err ge)) s)
      | None \<Rightarrow> case Resolve (sv_env c) (sv_resolver c) (gl_venue_query g) s of
        (Inl re, s1) \<Rightarrow> (Inl (mapResolverError c re), audit c u ''quest.plan'' [] (Some (mapResolverError c re)) s1)
      | (Inr v, s1) \<Rightarrow> (case calendar_snapshot c g v s1 of (cal, s2) \<Rightarrow>
        (case B v cal (now_of s) of Inl pe \<Rightarrow> (Inl (f pe), audit c u ''quest.plan'' [] (Some (f pe)) s2)
         | Inr p \<Rightarrow> (Inr p, audit c u ''quest.plan'' (pl_hash p) None s2))))" for err and B :: "venue \<Rightarrow> calendar \<Rightarrow> instant \<Rightarrow> planner_error + plan" and f
    by (rule logged_at, intro logged_option logged_sum logged_bind [OF ledger.Resolve_keeps] logged_bind [OF ledger.snapshot_keeps]
        logged_audit [OF assms(1)]) simp_all
  then show ?thesis
    unfolding PlanQuest_def Let_def if_not_P [OF assms(2)] .
qed

lemma ListQuests_logged:
  assumes "live_env (sv_env c)" "u \<noteq> []"
  shows "logged 0 u ''quest.list'' err_of (ListQuests c u f)"
  unfolding ListQuests_def Let_def if_not_P [OF assms(2)]
  by (intro logged_bind [OF ledger.read_keeps] logged_sum logged_audit [OF assms(1)]) simp_all

lemma ListAccounts_logged:
  assumes "live_env (sv_env c)" "u \<noteq> []"
  shows "logged 0 u ''account.list'' err_of (ListAccounts c u)"
  unfolding ListAccounts_def Let_def if_not_P [OF assms(2)]
  by (intro logged_bind [OF ledger.read_keeps] logged_sum logged_audit [OF assms(1)]) simp_all

lemma CancelQuest_logged:
  assumes "live_env (sv_env c)" "u \<noteq> []"
  shows "logged 0 u ''quest.cancel'' (\<lambda>e. e) (CancelQuest c u k opts)"
  unfolding CancelQuest_def if_not_P [OF assms(2)]
  by (intro logged_bind [OF ledger.cancel_body_keeps] logged_audit [OF assms(1)]) simp_all

lemma Login_logged:
  assumes "live_env (sv_env c)" "u \<noteq> []"
  shows "logged 0 u ''account.login'' err_of (Login c u email pw)"
  unfolding Login_def if_not_P [OF assms(2)]
  by (intro logged_bind [OF ledger.login_keeps] logged_sum logged_audit [OF assms(1)]) simp_all

lemma IssueToken_logged:
  assumes "live_env (sv_env c)"
  shows "logged 0 u ''token.issue'' err_of (IssueToken c caller u label scope)"
  unfolding IssueToken_def
  by (intro logged_bind logged_sum logged_audit [OF assms] keeps_option keeps_if keeps_return ledger.mint_keeps) simp_all

lemma RevokeToken_logged:
  assumes "live_env (sv_env c)"
  shows "logged 0 u ''token.revoke'' (\<lambda>e. e) (RevokeToken c caller u k)"
  unfolding RevokeToken_def
  by (intro logged_bind logged_audit [OF assms] keeps_option keeps_if keeps_return keeps_bind [OF ledger.revoke_keeps]) simp_all

lemma ListTokens_logged:
  assumes "live_env (sv_env c)"
  shows "logged 0 u ''token.list'' err_of (ListTokens c caller u)"
  unfolding ListTokens_def
  by (intro logged_bind logged_audit [OF assms] keeps_option keeps_if keeps_return keeps_bind [OF ledger.read_keeps] keeps_sum)
    (simp_all add: err_of_def)

lemma not_implemented_logged:
  assumes "live_env (sv_env c)"
  shows "logged 0 u ''user.invite'' Some (InviteUser c u email)" "logged 0 u ''user.list'' Some (service_ListUsers c u)"
  unfolding InviteUser_def service_ListUsers_def by (intro logged_audit [OF assms]; simp)+

text \<open>The two verbs that plan on the way write the row of that plan first.\<close>

definition plans_once :: "user_id \<Rightarrow> (sys \<Rightarrow> 'r \<times> sys) \<Rightarrow> bool" where
  "plans_once u f \<longleftrightarrow> (\<forall>s. can_log u s \<longrightarrow> members (snd (f s)) = members s \<and>
     (\<exists>plans. trail (snd (f s)) = trail s @ plans \<and> length plans \<le> 1 \<and> (\<forall>p \<in> set plans. au_user p = u \<and> au_action p = ''quest.plan'')))"

lemma plans_once_keeps: "keeps ledger f \<Longrightarrow> plans_once u f"
  by (auto simp: plans_once_def keeps_def ledger_def intro: exI [of _ "[]"])

lemma plans_once_plan:
  assumes "live_env (sv_env c)" "u \<noteq> []"
  shows "plans_once u (PlanQuest c u g)"
  unfolding plans_once_def
proof (intro allI impI conjI)
  fix s
  assume s: "can_log u s"
  note l = PlanQuest_logged [OF assms, of g, unfolded logged_def, rule_format, OF s]
  show "members (snd (PlanQuest c u g s)) = members s" using l by blast
  obtain r where "trail (snd (PlanQuest c u g s)) = trail s @ [r]" "logs_outcome u ''quest.plan'' (err_of (fst (PlanQuest c u g s))) r"
    using l by auto
  then show "\<exists>plans. trail (snd (PlanQuest c u g s)) = trail s @ plans \<and> length plans \<le> 1 \<and>
      (\<forall>p \<in> set plans. au_user p = u \<and> au_action p = ''quest.plan'')"
    by (intro exI [of _ "[r]"]) (simp add: logs_outcome_def)
qed

lemma plans_once_before:
  assumes "keeps ledger f" "\<And>r. plans_once u (g r)"
  shows "plans_once u (\<lambda>s. case f s of (r, s') \<Rightarrow> g r s')"
  unfolding plans_once_def
proof (intro allI impI)
  fix s
  assume "can_log u s"
  moreover obtain r s' where f: "f s = (r, s')" by fastforce
  moreover have "trail s' = trail s" "members s' = members s" using keepsD [OF assms(1) f] by (simp_all add: ledger_def)
  ultimately show "members (snd (case f s of (r, s') \<Rightarrow> g r s')) = members s \<and>
     (\<exists>plans. trail (snd (case f s of (r, s') \<Rightarrow> g r s')) = trail s @ plans \<and> length plans \<le> 1 \<and>
        (\<forall>p \<in> set plans. au_user p = u \<and> au_action p = ''quest.plan''))"
    using assms(2) [of r, unfolded plans_once_def, rule_format, of s'] can_log_members [of s' s u] by simp
qed

lemma plans_once_after:
  assumes "plans_once u f" "\<And>r. keeps ledger (g r)"
  shows "plans_once u (\<lambda>s. case f s of (r, s') \<Rightarrow> g r s')"
proof -
  have "ledger (snd (g r s')) = ledger s'" for r s' using assms(2) by (simp add: keeps_def)
  then show ?thesis using assms(1) by (simp add: plans_once_def case_prod_unfold ledger_def)
qed

lemma logged_planned:
  assumes "plans_once u f" "\<And>r. logged 0 u a err (g r)"
  shows "logged 1 u a err (\<lambda>s. case f s of (r, s') \<Rightarrow> g r s')"
  unfolding logged_def
proof (intro allI impI)
  fix s
  assume s: "can_log u s"
  obtain r s' where f: "f s = (r, s')" by fastforce
  obtain plans where p: "trail s' = trail s @ plans" "length plans \<le> 1" "\<forall>p \<in> set plans. au_user p = u \<and> au_action p = ''quest.plan''"
    "members s' = members s" using assms(1) [unfolded plans_once_def, rule_format, OF s] f by auto
  from assms(2) [of r, unfolded logged_def, rule_format, of s'] can_log_members [OF p(4)] s
  obtain row where "trail (snd (g r s')) = trail s' @ [row]" "logs_outcome u a (err (fst (g r s'))) row" "members (snd (g r s')) = members s'"
    by auto
  then show "members (snd (case f s of (r, s') \<Rightarrow> g r s')) = members s \<and>
     (\<exists>plans ra. trail (snd (case f s of (r, s') \<Rightarrow> g r s')) = trail s @ plans @ [ra] \<and> length plans \<le> 1 \<and>
        (\<forall>p \<in> set plans. au_user p = u \<and> au_action p = ''quest.plan'') \<and> logs_outcome u a (err (fst (case f s of (r, s') \<Rightarrow> g r s'))) ra)"
    using f p by auto
qed

lemma plans_once_sum:
  "(\<And>e. plans_once u (f e)) \<Longrightarrow> (\<And>v. plans_once u (g v)) \<Longrightarrow> plans_once u (\<lambda>s. case r of Inl e \<Rightarrow> f e s | Inr v \<Rightarrow> g v s)"
  by (cases r) simp_all

lemma plans_once_option:
  "plans_once u f \<Longrightarrow> (\<And>v. plans_once u (g v)) \<Longrightarrow> plans_once u (\<lambda>s. case r of None \<Rightarrow> f s | Some v \<Rightarrow> g v s)"
  by (cases r) simp_all

lemma GetQuest_logged:
  assumes "live_env (sv_env c)" "u \<noteq> []"
  shows "logged 1 u ''quest.get'' err_of (GetQuest c u k)"
proof -
  have "plans_once u (get_body c u k)"
    unfolding get_body_def
    by (intro plans_once_before [OF ledger.read_keeps] plans_once_sum plans_once_after [OF plans_once_plan [OF assms]]
        plans_once_keeps keeps_return)
  then show ?thesis
    unfolding GetQuest_def if_not_P [OF assms(2)] by (intro logged_planned logged_audit [OF assms(1)]) (simp_all add: err_of_def)
qed

lemma CreateQuest_logged:
  assumes "live_env (sv_env c)" "u \<noteq> []"
  shows "logged 1 u ''quest.create'' snd (CreateQuest c u g opts)"
proof -
  have f: "plans_once u (create_fresh c u g opts now)" for now
    unfolding create_fresh_def
    by (intro plans_once_after [OF plans_once_plan [OF assms]] keeps_bind [OF ledger.goal_account_keeps] keeps_sum keeps_if
        keeps_return ledger.commit_keeps)
  have b: "plans_once u (\<lambda>s. case prior_outcome c u scopeCreateQuest (co_key opts) payload now s of
        (Inl e, s1) \<Rightarrow> (h e, s1) | (Inr (Some l), s1) \<Rightarrow> (j l, s1)
      | (Inr None, s1) \<Rightarrow> (case create_fresh c u g opts now s1 of ((k, err), s2) \<Rightarrow>
             ((k, err), recordIdempotency c u scopeCreateQuest (co_key opts) payload k err now s2)))" for payload now h j
    by (intro plans_once_before [OF ledger.prior_keeps] plans_once_sum plans_once_option plans_once_after [OF f] keeps_pair
        ledger.record_keeps plans_once_keeps keeps_return)
  have "plans_once u (create_body c u g opts)"
    using b by (simp add: create_body_def [abs_def] Let_def plans_once_def)
  then show ?thesis
    unfolding CreateQuest_def if_not_P [OF assms(2)]
    by (intro logged_planned logged_pair logged_audit [OF assms(1)]) simp_all
qed

definition start_error :: "sub_start \<times> event list \<Rightarrow> svc_error option" where
  "start_error r = (case fst r of Returned e \<Rightarrow> e | Streaming \<Rightarrow> None)"

lemma subscribe_logged:
  assumes "live_env (sv_env c)" "u \<noteq> []"
  shows "logged 0 u ''quest.subscribe'' start_error (subscribe_start c cbt u k)"
proof -
  have tail: "\<exists>out st s'. (case q_read (sv_env c) (\<lambda>io d. store_ListQuestEvents io u k 0) t of
           (Inl e, s2) \<Rightarrow> ((Returned (if e = ErrCanceled then None else Some (wrap ''SubscribeQuest replay: '' (raw_error c e) [])), []), s2)
         | (Inr history, s2) \<Rightarrow> (case replay_events c cbt history s2 of ((out, stopped), s3) \<Rightarrow>
              ((if stopped \<or> ended then Returned None else Streaming, out), s3))) = ((st, out), s') \<and>
        start_error (st, out) = None \<and> trail s' = trail t \<and> members s' = members t" for t ended
    using replay_live [OF assms(1)] replay_same
    by (simp add: q_read_def q_exec_def live_io [OF assms(1)] store_ListQuestEvents_def case_prod_unfold start_error_def trail_def members_def after_store_def)
  show ?thesis
    unfolding logged_def
  proof (intro allI impI)
    fix s
    assume s: "can_log u s"
    obtain x s1 where r: "q_read (sv_env c) (\<lambda>io d. store_GetQuest io u k) s = (x, s1)" by fastforce
    have k1: "trail s1 = trail s" "members s1 = members s" using keepsD [OF ledger.read_keeps r] by (simp_all add: ledger_def)
    have l: "\<exists>row. trail (audit c u ''quest.subscribe'' k err s1) = trail s @ [row] \<and> logs_outcome u ''quest.subscribe'' err row \<and>
        members (audit c u ''quest.subscribe'' k err s1) = members s" for err
      using audit_logs [OF assms(1), of u s1 "''quest.subscribe''" k err] s k1 can_log_members [OF k1(2)] by simp
    have "x \<noteq> Inl ErrCanceled"
      using r by (auto simp: q_read_def q_exec_def live_io [OF assms(1)] store_GetQuest_def scanQuestRow_def parseStatusDB_def bind_result_def
          split: option.splits sum.splits if_splits)
    then show "members (snd (subscribe_start c cbt u k s)) = members s \<and>
      (\<exists>plans row. trail (snd (subscribe_start c cbt u k s)) = trail s @ plans @ [row] \<and> length plans \<le> 0 \<and>
        (\<forall>p \<in> set plans. au_user p = u \<and> au_action p = ''quest.plan'') \<and>
        logs_outcome u ''quest.subscribe'' (start_error (fst (subscribe_start c cbt u k s))) row)"
    proof (cases x)
      case (Inl e)
      then show ?thesis using l [of "Some (fold_error c e)"] \<open>x \<noteq> Inl ErrCanceled\<close> assms(2) by (auto simp: subscribe_start_def r start_error_def)
    next
      case (Inr row)
      obtain out st s' where t: "subscribe_start c cbt u k s = ((st, out), s')" "start_error (st, out) = None"
        "trail s' = trail (audit c u ''quest.subscribe'' k None s1)" "members s' = members (audit c u ''quest.subscribe'' k None s1)"
        using tail [where t = "audit c u ''quest.subscribe'' k None s1" and ended = "IsTerminal (qr_status row)"] Inr assms(2) by (auto simp: subscribe_start_def r)
      then show ?thesis using l [of None] by auto
    qed
  qed
qed

end
