(* ===== verification/TokenFacts.thy ===== *)
theory TokenFacts
  imports ServiceSpec ServiceAudit
begin

text \<open>
  What happens to the token table over any history of the daemon: requests of any users, with any
  failures, and the times tokens were last seen, which the bearer check writes. A row stays the one
  of its digest and its id, and only a revocation by its own user ends it.
\<close>

section \<open>The verbs that leave the tokens alone\<close>

definition tokens :: "sys \<Rightarrow> token_row list" where
  "tokens s = q_tokens (sy_q s)"

interpretation tokens: write_frame tokens
  by unfold_locales (simp_all add: tokens_def)

interpretation tokens_log: audited_frame tokens
  by unfold_locales (simp_all add: tokens_def)

lemma CreateQuest_tokens: "keeps tokens (CreateQuest c u g opts)"
proof -
  have f: "keeps tokens (create_fresh c u g opts now)" for now
    unfolding create_fresh_def
    by (intro keeps_bind [OF tokens_log.PlanQuest_keeps] keeps_bind [OF tokens.goal_account_keeps] keeps_sum keeps_if keeps_return tokens.commit_keeps)
  have b: "keeps tokens (create_body c u g opts)"
    unfolding create_body_def Let_def
    by (rule keeps_at, intro keeps_bind [OF tokens.prior_keeps] keeps_bind [OF f] keeps_sum keeps_option keeps_pair keeps_return tokens.record_keeps)
  show ?thesis
    unfolding CreateQuest_def by (intro keeps_if keeps_return keeps_bind [OF b] keeps_pair tokens_log.audit_keeps)
qed

lemma CancelQuest_tokens: "keeps tokens (CancelQuest c u k opts)"
  unfolding CancelQuest_def by (intro keeps_if keeps_return keeps_bind [OF tokens.cancel_body_keeps] tokens_log.audit_keeps)

lemma Login_tokens: "keeps tokens (Login c u email pw)"
  unfolding Login_def by (intro keeps_if keeps_return keeps_bind [OF tokens.login_keeps] keeps_sum tokens_log.audit_keeps)

lemma subscribe_tokens: "keeps tokens (subscribe_start c cbt u k)"
proof -
  have r: "keeps tokens (replay_events c cbt evs)" for evs
    using replay_same by (simp add: keeps_def tokens_def)
  have rest: "keeps tokens (\<lambda>s. case q_read (sv_env c) (\<lambda>io d. store_ListQuestEvents io u k 0) s of
           (Inl e, s2) \<Rightarrow> (f e, s2)
         | (Inr history, s2) \<Rightarrow> (case replay_events c cbt history s2 of ((out, stopped), s3) \<Rightarrow> (h out stopped, s3)))" for f h
    by (intro keeps_bind [OF tokens.read_keeps] keeps_sum keeps_return keeps_bind [OF r] keeps_pair)
  have "keeps tokens (\<lambda>s. g (audit c u a t e s))" if "keeps tokens g" for a t e and g :: "sys \<Rightarrow> 'r \<times> sys"
    using that by (simp add: keeps_def)
  from this [OF rest] show ?thesis
    unfolding subscribe_start_def by (intro keeps_if keeps_return keeps_bind [OF tokens.read_keeps] keeps_sum tokens_log.audit_keeps)
qed

lemma respond_tokens:
  "(case req of ReqIssueToken caller label scope \<Rightarrow> False | ReqRevokeToken caller k \<Rightarrow> False | _ \<Rightarrow> True) \<Longrightarrow>
   tokens (snd (respond c u req s)) = tokens s"
  using tokens_log.ResolveVenue_keeps tokens_log.PlanQuest_keeps CreateQuest_tokens tokens_log.GetQuest_keeps tokens_log.ListQuests_keeps
    CancelQuest_tokens Login_tokens tokens_log.ListAccounts_keeps tokens_log.ListTokens_keeps subscribe_tokens
  by (cases req) (simp_all add: keeps_def InviteUser_def service_ListUsers_def)

section \<open>Issuing and revoking\<close>

lemma insert_tokens:
  "tokens (snd (q_exec e (\<lambda>io d. store_InsertToken io d t) s)) = tokens s \<or> (\<exists>r. tokens (snd (q_exec e (\<lambda>io d. store_InsertToken io d t) s)) = tokens s @ [r] \<and>
     tk_hash r \<notin> tk_hash ` set (tokens s) \<and> tk_id r \<notin> tk_id ` set (tokens s))"
  by (simp add: q_exec_def store_InsertToken_def tokens_def split: option.split)

lemma mint_tokens:
  obtains "tokens (snd (mint_token c u label scope s)) = tokens s"
  | r where "tokens (snd (mint_token c u label scope s)) = tokens s @ [r]" "tk_hash r \<notin> tk_hash ` set (tokens s)" "tk_id r \<notin> tk_id ` set (tokens s)"
proof -
  obtain x s1 where a: "read_rand c tokenPlaintextBytes s = (x, s1)" by fastforce
  obtain y s2 where b: "read_rand c tokenIDBytes s1 = (y, s2)" by fastforce
  have q: "tokens s2 = tokens s" "tokens s1 = tokens s" using a b by (auto simp: read_rand_def tokens_def)
  have "tokens (snd (mint_token c u label scope s)) = tokens s \<or> (\<exists>t. tokens (snd (mint_token c u label scope s)) =
      tokens (snd (q_exec (sv_env c) (\<lambda>io d. store_InsertToken io d t) s2)))"
    using q by (auto simp: mint_token_def Let_def a b split: option.split prod.split)
      (metis snd_conv)+
  then show thesis using insert_tokens [of "sv_env c" _ s2] q(1) that by metis
qed

lemma IssueToken_tokens:
  obtains "tokens (snd (IssueToken c caller u label scope s)) = tokens s"
  | r where "tokens (snd (IssueToken c caller u label scope s)) = tokens s @ [r]"
      "tk_hash r \<notin> tk_hash ` set (tokens s)" "tk_id r \<notin> tk_id ` set (tokens s)"
proof (rule mint_tokens [of c u label scope s])
  assume "tokens (snd (mint_token c u label scope s)) = tokens s"
  then have "tokens (snd (IssueToken c caller u label scope s)) = tokens s"
    by (auto simp: IssueToken_def split: option.split sum.split prod.split)
  then show thesis by (rule that(1))
next
  fix r
  assume r: "tokens (snd (mint_token c u label scope s)) = tokens s @ [r]" "tk_hash r \<notin> tk_hash ` set (tokens s)" "tk_id r \<notin> tk_id ` set (tokens s)"
  then have "tokens (snd (IssueToken c caller u label scope s)) \<in> {tokens s, tokens s @ [r]}"
    by (auto simp: IssueToken_def split: option.split sum.split prod.split)
  then show thesis using that r(2,3) by blast
qed

lemma RevokeToken_tokens:
  obtains "tokens (snd (RevokeToken c caller u k s)) = tokens s"
  | n where "tokens (snd (RevokeToken c caller u k s)) = map (\<lambda>r. if revocable u k r then r\<lparr>tk_revoked_at := Some n\<rparr> else r) (tokens s)"
      "RequireOperatorScope caller = None"
proof -
  have "tokens (snd (q_exec e (\<lambda>io d. store_RevokeToken io u k (now_of s)) s)) \<in>
      {tokens s, map (\<lambda>r. if revocable u k r then r\<lparr>tk_revoked_at := Some (unix_sec (now_of s))\<rparr> else r) (tokens s)}" for e
    by (auto simp: q_exec_def store_RevokeToken_def tokens_def split: option.split)
  then have "tokens (snd (RevokeToken c caller u k s)) = tokens s \<or> RequireOperatorScope caller = None \<and>
      tokens (snd (RevokeToken c caller u k s)) = map (\<lambda>r. if revocable u k r then r\<lparr>tk_revoked_at := Some (unix_sec (now_of s))\<rparr> else r) (tokens s)"
    by (auto simp: RevokeToken_def case_prod_unfold split: option.split)
  then show thesis using that by blast
qed

section \<open>Histories\<close>

datatype token_event = Requested user_id request | SeenAt string instant | Passed instant

text \<open>\<open>Passed\<close> sets the clock: time goes by between the requests.\<close>

fun elapse :: "service \<Rightarrow> token_event list \<Rightarrow> sys \<Rightarrow> sys" where
  "elapse c [] s = s"
| "elapse c (Requested u req # evs) s = elapse c evs (snd (respond c u req s))"
| "elapse c (SeenAt h now # evs) s = elapse c evs (snd (q_exec (sv_env c) (\<lambda>io _. store_TouchTokenSeen io h now) s))"
| "elapse c (Passed t # evs) s = elapse c evs (s\<lparr>sy_w := (sy_w s)\<lparr>w_now := t\<rparr>\<rparr>)"

definition revokes :: "user_id \<Rightarrow> string \<Rightarrow> token_event \<Rightarrow> bool" where
  "revokes u k ev \<longleftrightarrow> (case ev of Requested v (ReqRevokeToken caller k') \<Rightarrow> v = u \<and> k' = k | _ \<Rightarrow> False)"

text \<open>The rows with a digest or an id: one row, the token's, up to the time it was last seen.\<close>

definition rows_for :: "token_row \<Rightarrow> token_row list \<Rightarrow> token_row list" where
  "rows_for r ts = filter (\<lambda>x. tk_hash x = tk_hash r \<or> tk_id x = tk_id r) ts"

definition unseen :: "token_row \<Rightarrow> token_row" where
  "unseen r = r\<lparr>tk_last_seen := None\<rparr>"

definition in_table :: "token_row \<Rightarrow> sys \<Rightarrow> bool" where
  "in_table r s \<longleftrightarrow> map unseen (rows_for r (tokens s)) = [unseen r]"

lemma unseen_simps [simp]: "tk_hash (unseen r) = tk_hash r" "tk_id (unseen r) = tk_id r" "tk_user (unseen r) = tk_user r"
  "tk_scopes (unseen r) = tk_scopes r" "tk_label (unseen r) = tk_label r" "tk_revoked_at (unseen r) = tk_revoked_at r"
  by (simp_all add: unseen_def)

lemma unseen_eq:
  assumes "unseen x = unseen r"
  shows "tk_hash x = tk_hash r" "tk_id x = tk_id r" "tk_user x = tk_user r" "tk_scopes x = tk_scopes r" "tk_label x = tk_label r"
    "tk_revoked_at x = tk_revoked_at r"
  using arg_cong [OF assms, of tk_hash] arg_cong [OF assms, of tk_id] arg_cong [OF assms, of tk_user] arg_cong [OF assms, of tk_scopes]
    arg_cong [OF assms, of tk_label] arg_cong [OF assms, of tk_revoked_at] by simp_all

lemma in_table_row: "in_table r s \<longleftrightarrow> (\<exists>x. rows_for r (tokens s) = [x] \<and> unseen x = unseen r)"
  by (auto simp: in_table_def)

lemma rows_for_map:
  "(\<And>x. tk_hash (f x) = tk_hash x \<and> tk_id (f x) = tk_id x) \<Longrightarrow> rows_for r (map f ts) = map f (rows_for r ts)"
  by (simp add: rows_for_def filter_map comp_def)

lemma rows_for_revoked [simp]: "rows_for (r\<lparr>tk_revoked_at := n\<rparr>) ts = rows_for r ts"
  by (simp add: rows_for_def)

text \<open>The digest finds the row exactly while it is live.\<close>

lemma in_table_find:
  assumes "in_table r s" "tk_hash r \<noteq> []"
  shows "if tk_revoked_at r = None
    then \<exists>row. store_FindTokenByHash io_ok (tk_hash r) (sy_q s) = Inr row \<and> tr_user row = tk_user r \<and> tr_id row = tk_id r \<and>
      tr_scopes row = tk_scopes r \<and> tr_label row = tk_label r
    else store_FindTokenByHash io_ok (tk_hash r) (sy_q s) = Inl ErrNotFound"
proof -
  obtain x where x: "rows_for r (tokens s) = [x]" "unseen x = unseen r" using assms(1) by (auto simp: in_table_row)
  note same = unseen_eq [OF x(2)]
  have "find (live_token (tk_hash r)) (tokens s) = find (live_token (tk_hash r)) (rows_for r (tokens s))"
    unfolding rows_for_def by (rule find_filter) (simp add: live_token_def)
  then show ?thesis
    using assms(2) same x(1) by (simp add: store_FindTokenByHash_def live_token_def scanTokenRow_def tokens_def)
qed

lemma in_table_step:
  assumes t: "in_table r s" and ev: "\<not> (tk_revoked_at r = None \<and> revokes (tk_user r) (tk_id r) ev)"
  shows "in_table r (elapse c [ev] s)"
proof -
  have same: "in_table r s'" if "tokens s' = tokens s" for s' using t that by (simp add: in_table_def)
  have mapped: "in_table r s'" if "tokens s' = map f (tokens s)" "\<And>x. tk_hash (f x) = tk_hash x \<and> tk_id (f x) = tk_id x"
    "\<And>x. unseen x = unseen r \<Longrightarrow> unseen (f x) = unseen r" for s' f
    using t that by (auto simp: in_table_row rows_for_map)
  show ?thesis
  proof (cases ev)
    case (Requested u req)
    show ?thesis
    proof (cases "\<exists>caller label scope. req = ReqIssueToken caller label scope")
      case True
      then obtain caller label scope where req: "req = ReqIssueToken caller label scope" by blast
      show ?thesis
      proof (rule IssueToken_tokens [of c caller u label scope s])
        assume "tokens (snd (IssueToken c caller u label scope s)) = tokens s"
        then show ?thesis using Requested req same by simp
      next
        fix y
        assume y: "tokens (snd (IssueToken c caller u label scope s)) = tokens s @ [y]"
          "tk_hash y \<notin> tk_hash ` set (tokens s)" "tk_id y \<notin> tk_id ` set (tokens s)"
        obtain x where x: "rows_for r (tokens s) = [x]" "unseen x = unseen r" using t by (auto simp: in_table_row)
        have "x \<in> set (rows_for r (tokens s))" by (simp add: x(1))
        then have "x \<in> set (tokens s)" by (simp add: rows_for_def)
        then have "tk_hash y \<noteq> tk_hash r" "tk_id y \<noteq> tk_id r" using y(2,3) unseen_eq(1,2) [OF x(2)] by (metis image_eqI)+
        then have "rows_for r (tokens s @ [y]) = rows_for r (tokens s)" by (simp add: rows_for_def)
        then show ?thesis using Requested req y(1) t by (simp add: in_table_def)
      qed
    next
      case issue: False
      show ?thesis
      proof (cases "\<exists>caller k. req = ReqRevokeToken caller k")
        case True
        then obtain caller k where req: "req = ReqRevokeToken caller k" by blast
        show ?thesis
        proof (rule RevokeToken_tokens [of c caller u k s])
          assume "tokens (snd (RevokeToken c caller u k s)) = tokens s"
          then show ?thesis using Requested req same by simp
        next
          fix n
          assume m: "tokens (snd (RevokeToken c caller u k s)) =
            map (\<lambda>r. if revocable u k r then r\<lparr>tk_revoked_at := Some n\<rparr> else r) (tokens s)"
          have "\<not> revocable u k x" if "unseen x = unseen r" for x
            using ev Requested req unseen_eq [OF that] by (auto simp: revocable_def revokes_def)
          then have "in_table r (snd (RevokeToken c caller u k s))" by (intro mapped [OF m]) auto
          then show ?thesis using Requested req by simp
        qed
      next
        case False
        then have "tokens (snd (respond c u req s)) = tokens s"
          using issue by (intro respond_tokens) (auto split: request.split)
        then show ?thesis using Requested same by simp
      qed
    qed
  next
    case (SeenAt h now)
    have "tokens (snd (q_exec e (\<lambda>io _. store_TouchTokenSeen io h now) s)) = tokens s \<or> tokens (snd (q_exec e (\<lambda>io _. store_TouchTokenSeen io h now) s)) =
        map (\<lambda>r. if live_token h r then r\<lparr>tk_last_seen := Some (unix_sec now)\<rparr> else r) (tokens s)" for e
      by (auto simp: q_exec_def store_TouchTokenSeen_def tokens_def split: option.split)
    then have "in_table r (snd (q_exec (sv_env c) (\<lambda>io _. store_TouchTokenSeen io h now) s))"
    proof (rule disjE)
      assume "tokens (snd (q_exec (sv_env c) (\<lambda>io _. store_TouchTokenSeen io h now) s)) =
        map (\<lambda>r. if live_token h r then r\<lparr>tk_last_seen := Some (unix_sec now)\<rparr> else r) (tokens s)"
      then show ?thesis by (rule mapped) (auto simp: unseen_def)
    qed (rule same)
    then show ?thesis using SeenAt by simp
  next
    case (Passed n)
    then show ?thesis using same by (simp add: tokens_def)
  qed
qed

lemma elapse_Cons: "elapse c (ev # evs) s = elapse c evs (elapse c [ev] s)"
  by (cases ev) simp_all

lemma in_table_elapse:
  assumes "in_table r s" "tk_revoked_at r = None \<Longrightarrow> list_all (\<lambda>ev. \<not> revokes (tk_user r) (tk_id r) ev) evs"
  shows "in_table r (elapse c evs s)"
  using assms
proof (induction evs arbitrary: s)
  case (Cons ev evs)
  then show ?case using in_table_step [of r s ev c] by (subst elapse_Cons) auto
qed simp

end
