(* ===== verification/AccessSpec.thy ===== *)
theory AccessSpec
  imports TokenFacts
begin

text \<open>The properties of the audit log, of cancellation, of the resolver and of the tokens, with their witnesses.\<close>

section \<open>The audit log\<close>

fun request_action :: "request \<Rightarrow> string" where
  "request_action (ReqResolveVenue query) = ''venue.resolve''"
| "request_action (ReqPlanQuest g) = ''quest.plan''"
| "request_action (ReqCreateQuest g opts) = ''quest.create''"
| "request_action (ReqGetQuest k) = ''quest.get''"
| "request_action (ReqListQuests f) = ''quest.list''"
| "request_action (ReqCancelQuest k opts) = ''quest.cancel''"
| "request_action (ReqLogin email pw) = ''account.login''"
| "request_action ReqListAccounts = ''account.list''"
| "request_action (ReqInviteUser email) = ''user.invite''"
| "request_action ReqListUsers = ''user.list''"
| "request_action (ReqIssueToken caller label scope) = ''token.issue''"
| "request_action (ReqRevokeToken caller k) = ''token.revoke''"
| "request_action (ReqListTokens caller) = ''token.list''"
| "request_action (ReqSubscribeQuest cbt k) = ''quest.subscribe''"

fun response_error :: "response \<Rightarrow> svc_error option" where
  "response_error (RespVenue r) = err_of r"
| "response_error (RespPlan r) = err_of r"
| "response_error (RespCreated r) = snd r"
| "response_error (RespQuest r) = err_of r"
| "response_error (RespQuests r) = err_of r"
| "response_error (RespDone r) = r"
| "response_error (RespAccount r) = err_of r"
| "response_error (RespAccounts r) = err_of r"
| "response_error (RespToken r) = err_of r"
| "response_error (RespTokens r) = err_of r"
| "response_error (RespStream r) = start_error r"

lemma logged_apfst: "logged n u a err f \<Longrightarrow> err = err' \<circ> h \<Longrightarrow> logged n u a err' (\<lambda>s. apfst h (f s))"
  by (simp add: logged_def)

definition plans_first :: "request \<Rightarrow> nat" where
  "plans_first r = (case r of ReqCreateQuest _ _ \<Rightarrow> 1 | ReqGetQuest _ \<Rightarrow> 1 | _ \<Rightarrow> 0)"

lemma respond_logged:
  assumes "live_env (sv_env c)" "u \<noteq> []"
  shows "logged (plans_first r) u (request_action r) response_error (respond c u r)"
  by (cases r)
    (simp_all add: respond.simps [abs_def] plans_first_def comp_def logged_apfst [OF ResolveVenue_logged [OF assms]]
      logged_apfst [OF PlanQuest_logged [OF assms]] logged_apfst [OF CreateQuest_logged [OF assms, unfolded One_nat_def]]
      logged_apfst [OF GetQuest_logged [OF assms, unfolded One_nat_def]] logged_apfst [OF ListQuests_logged [OF assms]]
      logged_apfst [OF CancelQuest_logged [OF assms]] logged_apfst [OF Login_logged [OF assms]]
      logged_apfst [OF ListAccounts_logged [OF assms]] logged_apfst [OF not_implemented_logged(1) [OF assms(1)]]
      logged_apfst [OF not_implemented_logged(2) [OF assms(1)]] logged_apfst [OF IssueToken_logged [OF assms(1)]]
      logged_apfst [OF RevokeToken_logged [OF assms(1)]] logged_apfst [OF ListTokens_logged [OF assms(1)]] logged_apfst [OF subscribe_logged [OF assms]])

text \<open>C23: every request is audited with its outcome. When no statement fails and the user exists, a
  request appends one row for itself, last: the acting user, the verb, whether it succeeded, and
  the code of the error it returned. Creating and reading a quest plan on the way, and the row of
  that plan comes first; no request writes any other row, and none changes the rows before.\<close>

theorem audit_trail:
  assumes "live_env (sv_env c)" "u \<noteq> []" "user_fk (w_db (sy_w s)) u (sy_q s)"
  shows "\<exists>plans row. q_audit (sy_q (snd (respond c u r s))) = q_audit (sy_q s) @ plans @ [row] \<and>
    logs_outcome u (request_action r) (response_error (fst (respond c u r s))) row \<and>
    length plans \<le> plans_first r \<and> (\<forall>p \<in> set plans. au_user p = u \<and> au_action p = ''quest.plan'')"
  using respond_logged [OF assms(1,2), of r, unfolded logged_def, rule_format, of s] assms(2,3)
  by (auto simp: can_log_def trail_def)

theorem audit_trail_witness:
  "\<exists>row. q_audit (sy_q (snd (respond ex_service ''u_bo'' (ReqCancelQuest ''q_1'' \<lparr>cn_reason = [], cn_key = None\<rparr>)
      (ex_sys [ex_quest ''u_ana'' ''q_1''])))) = [row] \<and> au_action row = ''quest.cancel''"
proof -
  have "user_fk (w_db (sy_w (ex_sys qs))) ''u_bo'' (sy_q (ex_sys qs))" "q_audit (sy_q (ex_sys qs)) = []" for qs
    by (simp_all add: user_fk_def ex_qdb_def)
  then show ?thesis
    using audit_trail [of ex_service "''u_bo''" "ex_sys [ex_quest ''u_ana'' ''q_1'']" "ReqCancelQuest ''q_1'' \<lparr>cn_reason = [], cn_key = None\<rparr>"]
    by (auto simp: ex_env_live plans_first_def logs_outcome_def)
qed

text \<open>C24: reading and planning change nothing. Whatever fails on the way, resolving, planning, reading
  and listing leave the quests, their events, the keys, the tokens, the users and the engine's
  database as they were; what they write are audit rows and the venue caches.\<close>

theorem reads_change_nothing:
  "durable (snd (ResolveVenue c u query s)) = durable s \<and> durable (snd (PlanQuest c u g s)) = durable s \<and>
   durable (snd (GetQuest c u k s)) = durable s \<and> durable (snd (ListQuests c u f s)) = durable s \<and>
   durable (snd (ListAccounts c u s)) = durable s \<and> durable (snd (ListTokens c caller u s)) = durable s"
  using durable.ResolveVenue_keeps durable.PlanQuest_keeps durable.GetQuest_keeps durable.ListQuests_keeps durable.ListAccounts_keeps
    durable.ListTokens_keeps by (simp add: keeps_def)

section \<open>Canceling\<close>

text \<open>The row of a canceled quest, and the event it gets.\<close>

definition canceled_row :: "instant \<Rightarrow> quest_row \<Rightarrow> quest_row" where
  "canceled_row now r = r\<lparr>qu_status := ''cancelled'', qu_updated_at := unix_milli now, qu_completed_at := Some (unix_milli now)\<rparr>"

definition canceled_event :: "user_id \<Rightarrow> string \<Rightarrow> string \<Rightarrow> instant \<Rightarrow> quest_event_row" where
  "canceled_event u k reason now = \<lparr>qe_quest = k, qe_user = u, qe_type = EventCanceled, qe_at = unix_milli now,
     qe_fields = EncodeAttrs [(''reason'', AString reason)]\<rparr>"

lemma owned_canceled [simp]: "owned_quest u k (canceled_row now r) = owned_quest u k r"
  by (simp add: canceled_row_def owned_quest_def)

lemma cancel_unkeyed:
  assumes "\<not> opted_in (cn_key opts)" "u \<noteq> []"
  shows "CancelQuest c u k opts s = (case cancel_fresh c u k (cn_reason opts) (now_of s) s of (err, s1) \<Rightarrow> (err, audit c u ''quest.cancel'' k err s1))"
  using assms by (simp add: CancelQuest_def cancel_body_def Let_def prior_outcome_def recordIdempotency_def case_prod_unfold)

lemma cancel_stops:
  assumes "live_env (sv_env c)"
    and "case find (owned_quest u k) (q_quests (sy_q s)) of None \<Rightarrow> True | Some r \<Rightarrow> (case parseStatusDB (qu_status r) of Inl _ \<Rightarrow> True | Inr st \<Rightarrow> IsTerminal st)"
  shows "fst (cancel_fresh c u k reason now s) = (case find (owned_quest u k) (q_quests (sy_q s)) of None \<Rightarrow> Some (plain SvcNotFound)
      | Some r \<Rightarrow> (case parseStatusDB (qu_status r) of Inl e \<Rightarrow> Some (fold_error c e) | Inr _ \<Rightarrow> None)) \<and>
    durable (snd (cancel_fresh c u k reason now s)) = durable s"
  using assms
  by (auto simp: cancel_fresh_def q_read_def q_exec_def live_io store_GetQuest_def fold_error_def scanQuestRow_def durable_def after_store_def
      bind_result_def split: option.splits sum.splits)

lemma cancel_applies:
  assumes "live_env (sv_env c)" "find (owned_quest u k) (q_quests (sy_q s)) = Some r" "parseStatusDB (qu_status r) = Inr st" "\<not> IsTerminal st"
    and "u \<noteq> []" "k \<noteq> []"
  shows "case cancel_fresh c u k reason now s of (err, s') \<Rightarrow> err = None \<and> w_db (sy_w s') = w_db (sy_w s) \<and>
    q_quests (sy_q s') = map (\<lambda>r. if owned_quest u k r then canceled_row now r else r) (q_quests (sy_q s)) \<and>
    q_events (sy_q s') = q_events (sy_q s) @
      (if sv_persist_events c \<and> user_fk (w_db (sy_w s)) u (sy_q s) then [canceled_event u k reason now] else [])"
proof -
  have own: "filter (owned_quest u k) (q_quests (sy_q s)) \<noteq> []" using assms(2) by (auto simp: find_Some_iff filter_empty_conv)
  let ?f = "\<lambda>r. if owned_quest u k r then canceled_row now r else r"
  have f: "filter (owned_quest u k) (map ?f (q_quests (sy_q s))) \<noteq> []"
    by (subst filter_map_own) (use own in simp_all)
  have e: "EventCanceled \<noteq> []" by (simp add: EventCanceled_def)
  show ?thesis
    using assms own f [unfolded canceled_row_def] e
    by (simp add: cancel_fresh_def q_read_def q_exec_def live_io store_GetQuest_def scanQuestRow_def after_store_def
        store_UpdateQuestStatus_def writeQuestEvent_def store_WriteQuestEvent_def canceled_event_def user_fk_def canceled_row_def cong: if_cong)
qed

lemma find_map_own: "find (owned_quest u k) xs = Some r \<Longrightarrow> (\<And>r. owned_quest u k (f r) = owned_quest u k r) \<Longrightarrow>
    find (owned_quest u k) (map (\<lambda>r. if owned_quest u k r then f r else r) xs) = Some (f r)"
  by (induction xs) (auto split: if_splits)

text \<open>C21: what canceling a quest does. When no statement fails, a call without a key answers "not
  found" for a quest the caller does not own, whoever else does, and changes nothing; it does
  nothing to a quest that has ended; and any other quest of the caller becomes canceled, its row
  stamped with the instant of the call, all other rows as before, with a \<^verbatim>\<open>canceled\<close> event that
  carries the reason. Canceling it again does nothing. The engine's database is not touched: the
  snipe behind the quest stays as it is.\<close>

theorem cancel_quest_outcome:
  assumes "live_env (sv_env c)" "u \<noteq> []" "k \<noteq> []" "\<not> opted_in (cn_key opts)" "CancelQuest c u k opts s = (err, s')"
  shows "w_db (sy_w s') = w_db (sy_w s) \<and> (case find (owned_quest u k) (q_quests (sy_q s)) of
      None \<Rightarrow> err = Some (plain SvcNotFound) \<and> durable s' = durable s
    | Some r \<Rightarrow> (case parseStatusDB (qu_status r) of
          Inl e \<Rightarrow> err = Some (fold_error c e) \<and> durable s' = durable s
        | Inr st \<Rightarrow> if IsTerminal st then err = None \<and> durable s' = durable s
            else err = None \<and>
              q_quests (sy_q s') = map (\<lambda>r. if owned_quest u k r then canceled_row (now_of s) r else r) (q_quests (sy_q s)) \<and>
              q_events (sy_q s') = q_events (sy_q s) @ (if sv_persist_events c \<and> user_fk (w_db (sy_w s)) u (sy_q s)
                then [canceled_event u k (cn_reason opts) (now_of s)] else []) \<and>
              fst (CancelQuest c u k opts s') = None \<and> durable (snd (CancelQuest c u k opts s')) = durable s'))"
proof -
  obtain s1 where f: "cancel_fresh c u k (cn_reason opts) (now_of s) s = (err, s1)" and s': "s' = audit c u ''quest.cancel'' k err s1"
    using assms(5) cancel_unkeyed [OF assms(4,2)] by (auto split: prod.splits)
  have d: "durable s' = durable s1" using s' by simp
  show ?thesis
  proof (cases "\<exists>r st. find (owned_quest u k) (q_quests (sy_q s)) = Some r \<and> parseStatusDB (qu_status r) = Inr st \<and> \<not> IsTerminal st")
    case False
    then have "case find (owned_quest u k) (q_quests (sy_q s)) of None \<Rightarrow> True | Some r \<Rightarrow> (case parseStatusDB (qu_status r) of Inl _ \<Rightarrow> True | Inr st \<Rightarrow> IsTerminal st)"
      by (auto split: option.split sum.split)
    from cancel_stops [OF assms(1) this, where reason = "cn_reason opts" and now = "now_of s"] show ?thesis
      using False f d by (auto simp: durable_def split: option.splits sum.splits)
  next
    case True
    then obtain r st where r: "find (owned_quest u k) (q_quests (sy_q s)) = Some r" "parseStatusDB (qu_status r) = Inr st" "\<not> IsTerminal st" by blast
    note a = cancel_applies [OF assms(1) r assms(2,3), where reason = "cn_reason opts" and now = "now_of s", unfolded f prod.case]
    have "find (owned_quest u k) (q_quests (sy_q s')) = Some (canceled_row (now_of s) r)"
      using a d find_map_own [OF r(1), of "canceled_row (now_of s)"] by (simp add: durable_def)
    moreover have "parseStatusDB (qu_status (canceled_row now r)) = Inr StatusCanceled" for now
      by (simp add: canceled_row_def parseStatusDB_def)
    moreover have "IsTerminal StatusCanceled" by code_simp
    ultimately have "fst (cancel_fresh c u k reason now s') = None \<and> durable (snd (cancel_fresh c u k reason now s')) = durable s'" for reason now
      using cancel_stops [OF assms(1), where u = u and k = k and s = s' and reason = reason and now = now] by simp
    then have "fst (CancelQuest c u k opts s') = None \<and> durable (snd (CancelQuest c u k opts s')) = durable s'"
      using cancel_unkeyed [OF assms(4,2), of c k s'] by (simp add: case_prod_unfold)
    moreover have "w_db (sy_w s') = w_db (sy_w s1)" "q_quests (sy_q s') = q_quests (sy_q s1)" "q_events (sy_q s') = q_events (sy_q s1)"
      using d by (simp_all add: durable_def)
    ultimately show ?thesis using r a by simp
  qed
qed

theorem cancel_quest_outcome_witness:
  "fst (CancelQuest ex_service ''u_ana'' ''q_1'' \<lparr>cn_reason = ''plans changed'', cn_key = None\<rparr> (ex_sys [ex_quest ''u_ana'' ''q_1''])) = None \<and>
   q_quests (sy_q (snd (CancelQuest ex_service ''u_ana'' ''q_1'' \<lparr>cn_reason = ''plans changed'', cn_key = None\<rparr>
     (ex_sys [ex_quest ''u_ana'' ''q_1''])))) = [canceled_row ex_plan_now (ex_quest ''u_ana'' ''q_1'')]"
proof -
  let ?s = "ex_sys [ex_quest ''u_ana'' ''q_1'']" and ?opts = "\<lparr>cn_reason = ''plans changed'', cn_key = None\<rparr>"
  obtain err s' where c: "CancelQuest ex_service ''u_ana'' ''q_1'' ?opts ?s = (err, s')" by fastforce
  have o: "owned_quest ''u_ana'' ''q_1'' (ex_quest ''u_ana'' ''q_1'')" "q_quests (sy_q ?s) = [ex_quest ''u_ana'' ''q_1'']"
    "parseStatusDB (qu_status (ex_quest ''u_ana'' ''q_1'')) = Inr StatusSubmitted" "now_of ?s = ex_plan_now"
    by (simp_all add: owned_quest_def ex_quest_def ex_qdb_def parseStatusDB_def now_of_def ex_sys_def)
  have "\<not> IsTerminal StatusSubmitted" by code_simp
  then show ?thesis
    using cancel_quest_outcome [OF _ _ _ _ c] o c by (simp add: ex_env_live opted_in_def)
qed

section \<open>Tokens\<close>

text \<open>The row a minted token leaves.\<close>

lemma mint_row:
  assumes "mint_token c u label scope s = (Inr t, s')"
  obtains r where "q_tokens (sy_q s') = q_tokens (sy_q s) @ [r]" "tk_hash r \<notin> tk_hash ` set (q_tokens (sy_q s))"
    "tk_id r \<notin> tk_id ` set (q_tokens (sy_q s))" "tk_id r = bt_id t" "tk_user r = u" "tk_hash r = sv_blake2b c (bt_token t)"
    "tk_scopes r = scope" "tk_label r = label" "tk_revoked_at r = None" "tk_hash r \<noteq> []" "tk_id r \<noteq> []"
proof -
  obtain x s1 where a: "read_rand c tokenPlaintextBytes s = (x, s1)" by fastforce
  obtain y s2 where b: "read_rand c tokenIDBytes s1 = (y, s2)" by fastforce
  have q: "sy_q s2 = sy_q s" using a b by (auto simp: read_rand_def)
  show thesis
    using assms q that
    by (auto simp: mint_token_def Let_def a b q_exec_def store_InsertToken_def split: option.splits prod.splits if_splits)
qed

lemma IssueToken_row:
  assumes "IssueToken c caller u label scope s = (Inr t, s')"
  obtains r where "q_tokens (sy_q s') = q_tokens (sy_q s) @ [r]" "tk_hash r \<notin> tk_hash ` set (q_tokens (sy_q s))"
    "tk_id r \<notin> tk_id ` set (q_tokens (sy_q s))" "tk_id r = bt_id t" "tk_user r = u" "tk_hash r = sv_blake2b c (bt_token t)"
    "tk_scopes r = scope" "tk_label r = label" "tk_revoked_at r = None" "tk_hash r \<noteq> []" "tk_id r \<noteq> []"
    "RequireOperatorScope caller = None" "valid_scope scope" "u \<noteq> []"
proof -
  obtain s1 where m: "mint_token c u label scope s = (Inr t, s1)" and s': "s' = audit c u ''token.issue'' (bt_id t) None s1"
    and g: "RequireOperatorScope caller = None" "valid_scope scope" "u \<noteq> []"
    using assms by (auto simp: IssueToken_def split: option.splits if_splits prod.splits sum.splits)
  have "q_tokens (sy_q s') = q_tokens (sy_q s1)" using s' durable.audit_obs [of c u "''token.issue''" "bt_id t" None s1] by (simp add: durable_def)
  then show thesis using that mint_row [OF m] g by metis
qed

lemma RevokeToken_row:
  assumes "live_env (sv_env c)" "u \<noteq> []" "k \<noteq> []" "\<not> is_zero (now_of s)" "RequireOperatorScope caller = None"
  shows "fst (RevokeToken c caller u k s) = (if filter (revocable u k) (q_tokens (sy_q s)) = [] then Some (plain SvcNotFound) else None) \<and>
    q_tokens (sy_q (snd (RevokeToken c caller u k s))) =
      map (\<lambda>r. if revocable u k r then r\<lparr>tk_revoked_at := Some (unix_sec (now_of s))\<rparr> else r) (q_tokens (sy_q s))"
proof -
  have t: "q_tokens (sy_q (audit c u a tg e s1)) = q_tokens (sy_q s1)" for a tg e s1
    using durable.audit_obs [of c u a tg e s1] by (simp add: durable_def)
  have "filter (revocable u k) xs = [] \<Longrightarrow> map (\<lambda>r. if revocable u k r then f r else r) xs = xs" for f xs
    by (induction xs) (auto split: if_splits)
  then show ?thesis
    using assms by (simp add: RevokeToken_def q_exec_def live_io store_RevokeToken_def t)
qed

text \<open>What revoking does to the token of a row in the table.\<close>

lemma RevokeToken_in_table:
  assumes "in_table r s" "live_env (sv_env c)" "v \<noteq> []" "tk_id r \<noteq> []" "\<not> is_zero (now_of s)" "RequireOperatorScope caller = None"
    and "RevokeToken c caller v (tk_id r) s = (err, s2)"
  shows "if v = tk_user r \<and> tk_revoked_at r = None then err = None \<and> in_table (r\<lparr>tk_revoked_at := Some (unix_sec (now_of s))\<rparr>) s2
    else err = Some (plain SvcNotFound)"
proof -
  let ?f = "\<lambda>x. if revocable v (tk_id r) x then x\<lparr>tk_revoked_at := Some (unix_sec (now_of s))\<rparr> else x"
  obtain x where x: "rows_for r (tokens s) = [x]" "unseen x = unseen r" using assms(1) by (auto simp: in_table_row)
  note same = unseen_eq [OF x(2)]
  have "filter (revocable v (tk_id r)) (tokens s) = filter (revocable v (tk_id r)) (rows_for r (tokens s))"
    unfolding rows_for_def filter_filter by (rule filter_cong) (auto simp: revocable_def)
  then have f: "filter (revocable v (tk_id r)) (tokens s) = (if revocable v (tk_id r) x then [x] else [])" by (simp add: x(1))
  have rev: "revocable v (tk_id r) x \<longleftrightarrow> v = tk_user r \<and> tk_revoked_at r = None" using same by (auto simp: revocable_def)
  note step = RevokeToken_row [OF assms(2,3,4,5,6), unfolded assms(7) fst_conv snd_conv, folded tokens_def]
  have "rows_for r (map ?f (tokens s)) = [?f x]" by (subst rows_for_map) (simp_all add: x(1))
  moreover have "unseen (x\<lparr>tk_revoked_at := n\<rparr>) = unseen (r\<lparr>tk_revoked_at := n\<rparr>)" for n
    using x(2) by (cases x; cases r) (simp add: unseen_def)
  ultimately show ?thesis using step f rev by (auto simp: in_table_row)
qed

text \<open>C25: the life of a bearer token. Only a caller with operator scope issues one, of a known
  scope. From then on, through any history of requests by any users, last-seen updates and faults in which its user does not revoke
  it, the digest of its plaintext finds it, with the user, id, label and scope it
  was issued for. When an operator revokes it, the digest finds nothing, in any history that follows, and revoking it
  again reports that there is no such token (which the comment of the store function contradicts: it calls a second
  revocation no error). A revocation under another user's id reports the same and ends nothing.\<close>

theorem token_lifecycle:
  assumes "live_env (sv_env c)" "IssueToken c caller u label scope s = (Inr t, s')" "list_all (\<lambda>ev. \<not> revokes u (bt_id t) ev) evs"
    and "s1 = elapse c evs s'" "\<not> is_zero (now_of s1)" "RevokeToken c caller' v (bt_id t) s1 = (err, s2)"
    and "RequireOperatorScope caller' = None" "v \<noteq> []"
  shows "RequireOperatorScope caller = None \<and> valid_scope scope \<and>
    (\<exists>row. store_FindTokenByHash io_ok (sv_blake2b c (bt_token t)) (sy_q s1) = Inr row \<and> tr_user row = u \<and> tr_id row = bt_id t \<and>
       tr_scopes row = scope \<and> tr_label row = label) \<and>
    (if v = u then err = None \<and> (\<forall>later. store_FindTokenByHash io_ok (sv_blake2b c (bt_token t)) (sy_q (elapse c later s2)) = Inl ErrNotFound \<and>
         (\<not> is_zero (now_of (elapse c later s2)) \<longrightarrow> fst (RevokeToken c caller' u (bt_id t) (elapse c later s2)) = Some (plain SvcNotFound)))
     else err = Some (plain SvcNotFound) \<and> (\<forall>later. list_all (\<lambda>ev. \<not> revokes u (bt_id t) ev) later \<longrightarrow>
         store_FindTokenByHash io_ok (sv_blake2b c (bt_token t)) (sy_q (elapse c later s2)) \<noteq> Inl ErrNotFound))"
proof -
  obtain r where r: "q_tokens (sy_q s') = q_tokens (sy_q s) @ [r]" "tk_hash r \<notin> tk_hash ` set (q_tokens (sy_q s))"
    "tk_id r \<notin> tk_id ` set (q_tokens (sy_q s))" "tk_id r = bt_id t" "tk_user r = u" "tk_hash r = sv_blake2b c (bt_token t)"
    "tk_scopes r = scope" "tk_label r = label" "tk_revoked_at r = None" "tk_hash r \<noteq> []" "tk_id r \<noteq> []"
    "RequireOperatorScope caller = None" "valid_scope scope" "u \<noteq> []"
    by (rule IssueToken_row [OF assms(2)])
  have "rows_for r (q_tokens (sy_q s)) = []" using r(2,3) by (simp add: rows_for_def filter_empty_conv) (metis image_eqI)
  then have "rows_for r (tokens s') = [r]" by (simp add: tokens_def r(1) rows_for_def)
  then have "in_table r s'" by (simp add: in_table_def)
  then have t1: "in_table r s1" using in_table_elapse [of r s' evs c] assms(3,4) r(4,5) by simp
  note found = in_table_find [OF _ r(10), unfolded r(4-9), simplified]
  note step = RevokeToken_in_table [OF t1 assms(1,8) r(11) assms(5,7), unfolded r(4,5,9), OF assms(6)]
  let ?dead = "r\<lparr>tk_revoked_at := Some (unix_sec (now_of s1))\<rparr>"
  have gone: "store_FindTokenByHash io_ok (sv_blake2b c (bt_token t)) (sy_q (elapse c later s2)) = Inl ErrNotFound"
    "\<not> is_zero (now_of (elapse c later s2)) \<longrightarrow> fst (RevokeToken c caller' u (bt_id t) (elapse c later s2)) = Some (plain SvcNotFound)"
    if "v = u" for later
  proof -
    have d: "in_table ?dead (elapse c later s2)" using step that by (intro in_table_elapse) simp_all
    show "store_FindTokenByHash io_ok (sv_blake2b c (bt_token t)) (sy_q (elapse c later s2)) = Inl ErrNotFound"
      using in_table_find [OF d] r(6,10) by simp
    show "\<not> is_zero (now_of (elapse c later s2)) \<longrightarrow> fst (RevokeToken c caller' u (bt_id t) (elapse c later s2)) = Some (plain SvcNotFound)"
      using RevokeToken_in_table [OF d assms(1) r(14) _ _ assms(7) prod.collapse [symmetric]] r(4,11) by simp
  qed
  have kept: "in_table r (elapse c later s2)" if "v \<noteq> u" "list_all (\<lambda>ev. \<not> revokes u (bt_id t) ev) later" for later
  proof -
    have "in_table r (elapse c [Requested v (ReqRevokeToken caller' (bt_id t))] s1)"
      using that(1) r(5) by (intro in_table_step [OF t1]) (simp add: revokes_def)
    then show ?thesis using in_table_elapse [of r s2 later c] assms(6) that(2) r(4,5) by (simp add: apfst_def)
  qed
  have "store_FindTokenByHash io_ok (sv_blake2b c (bt_token t)) (sy_q (elapse c later s2)) \<noteq> Inl ErrNotFound"
    if "v \<noteq> u" "list_all (\<lambda>ev. \<not> revokes u (bt_id t) ev) later" for later
    using found [OF kept [OF that]] by auto
  then show ?thesis
    using found [OF t1] gone step r(12,13) by (cases "v = u") auto
qed

theorem token_lifecycle_witness:
  "\<exists>t s' err s2. IssueToken ex_service ''operator'' ''u_ana'' ''laptop'' ''user'' (ex_sys []) = (Inr t, s') \<and>
     RevokeToken ex_service ''operator'' ''u_ana'' (bt_id t)
       (elapse ex_service [Requested ''u_bob'' (ReqRevokeToken ''operator'' (bt_id t)), Requested ''u_ana'' ReqListAccounts, Passed ex_plan_now] s') = (err, s2) \<and>
     err = None \<and> store_FindTokenByHash io_ok (sv_blake2b ex_service (bt_token t)) (sy_q s2) = Inl ErrNotFound"
proof -
  have g: "valid_scope ''user''" "RequireOperatorScope ''operator'' = None" by (simp_all add: valid_scope_def RequireOperatorScope_def)
  have z: "\<not> is_zero ex_plan_now" by code_simp
  have rnd: "sv_rand ex_service n m = Some (replicate m (CHR 0x5A))" "sv_blake2b ex_service x = x" for n m x by (simp_all add: ex_service_def)
  have n: "now_of (ex_sys []) = ex_plan_now" "q_tokens (ex_qdb []) = []" "user_fk d ''u_ana'' (ex_qdb [])" for d
    by (simp_all add: now_of_def ex_sys_def ex_qdb_def user_fk_def)
  have "\<exists>t s'. IssueToken ex_service ''operator'' ''u_ana'' ''laptop'' ''user'' (ex_sys []) = (Inr t, s')"
    using g z n(1) by (simp add: IssueToken_def mint_token_def Let_def read_rand_def rnd q_exec_def store_InsertToken_def
        live_io [OF ex_env_live(1)] n(2,3) now_of_def)
  then obtain t s' where i: "IssueToken ex_service ''operator'' ''u_ana'' ''laptop'' ''user'' (ex_sys []) = (Inr t, s')" by blast
  let ?evs = "[Requested ''u_bob'' (ReqRevokeToken ''operator'' (bt_id t)), Requested ''u_ana'' ReqListAccounts, Passed ex_plan_now]"
  obtain err s2 where r: "RevokeToken ex_service ''operator'' ''u_ana'' (bt_id t) (elapse ex_service ?evs s') = (err, s2)" by fastforce
  have "list_all (\<lambda>ev. \<not> revokes ''u_ana'' (bt_id t) ev) ?evs" by (simp add: revokes_def)
  moreover have "\<not> is_zero (now_of (elapse ex_service ?evs s'))" using z by (simp add: now_of_def)
  ultimately have "err = None \<and> (\<forall>later. store_FindTokenByHash io_ok (sv_blake2b ex_service (bt_token t)) (sy_q (elapse ex_service later s2)) = Inl ErrNotFound)"
    using token_lifecycle [OF _ i _ refl _ r g(2)] ex_env_live(1) by simp
  then show ?thesis using i r by (metis elapse.simps(1))
qed

section \<open>The resolver's cache\<close>

lemma venue_cache_write_read:
  assumes "venue_loads load v" "slug \<noteq> []" "city \<noteq> []"
  shows "GetVenueCache load io_ok slug city (snd (UpsertVenueCache io_ok slug city v at q)) = Inr (v, from_unix_sec (unix_sec at))"
proof -
  let ?P = "\<lambda>r. vc_slug r = slug \<and> vc_city r = city"
  let ?g = "\<lambda>r. r\<lparr>vc_json := encodeVenue v, vc_resolved_at := unix_sec at\<rparr>"
  have hit: "\<exists>r. find ?P (map (\<lambda>r. if ?P r then ?g r else r) xs) = Some (?g r)" if "\<exists>r \<in> set xs. ?P r" for xs
    using that by (induction xs) auto
  have miss: "find ?P xs = None" if "\<not> (\<exists>r \<in> set xs. ?P r)" for xs
    using that by (auto simp: find_None_iff)
  note d = venue_codec.dec_enc [OF assms(1)]
  show ?thesis
  proof (cases "\<exists>r \<in> set (q_venue_cache q). ?P r")
    case True
    then show ?thesis
      using assms(2,3) hit [OF True] by (elim exE) (simp add: UpsertVenueCache_def GetVenueCache_def d del: bex_simps)
  next
    case False
    then show ?thesis
      using assms(2,3) miss [OF False] by (simp add: UpsertVenueCache_def GetVenueCache_def find_append d del: bex_simps)
  qed
qed

text \<open>The states after the cache read and after the provider's answer.\<close>

definition after_read :: "env \<Rightarrow> sys \<Rightarrow> sys" where
  "after_read e s = s\<lparr>sy_w := after_store e (w_db (sy_w s)) (sy_w s)\<rparr>"

definition after_answer :: "env \<Rightarrow> sys \<Rightarrow> sys" where
  "after_answer e s = (after_read e s)\<lparr>sy_w := after_call e (sy_w (after_read e s))\<rparr>"



section \<open>The event stream of a quest\<close>



end
