(* ===== verification/Wire.thy ===== *)
theory Wire
  imports ServiceQuests ServiceAuth
begin

text \<open>
  The wire shapes of the daemon's HTTP surface, on both sides: the server's codec
  (\<^verbatim>\<open>transport/http/wire.go\<close>) and the client's copy of it (\<^verbatim>\<open>client/http/wire.go\<close>), over JSON
  documents. Definitions named \<open>wire_\<close> are the server's, those named \<open>client_\<close> the client's. A
  wire struct and the function that fills it are one definition. Times travel as RFC 3339 texts
  without a fraction, the zero time as the empty text. The texts of errors are not part of a
  decoder's result: it names what failed, and the server turns that into an invalid-argument
  error. The order in which the client ranges over a map of attributes is an argument.
\<close>

datatype wire_error =
    WKindRequired | WKindUnknown string | WField string string | WQueryTime string string | WJson json_error | WEmptyBody
  | WReadBody string | WRequired string | WStatus string | WLimit string | WTag string | WLocation string

section \<open>Times\<close>

text \<open>\<^verbatim>\<open>t.UTC().Format(time.RFC3339)\<close>.\<close>

definition format_rfc3339 :: "instant \<Rightarrow> string" where
  "format_rfc3339 t = date_text (date_in t utc) @ ''T'' @ clock_text (clock_in t utc) @ ''Z''"

definition wire_rfc3339 :: "instant \<Rightarrow> string" where
  "wire_rfc3339 t = (if is_zero t then [] else format_rfc3339 t)"

definition parseRFC3339 :: "string \<Rightarrow> wire_error + instant" where
  "parseRFC3339 s = (if s = [] then Inr 0
     else case parse_rfc3339_any s of None \<Rightarrow> Inl (WField ''time'' s) | Some t \<Rightarrow> Inr t)"

definition client_parseRFC3339 :: "string \<Rightarrow> wire_error + instant" where
  "client_parseRFC3339 s = (if s = [] then Inr 0
     else case parse_rfc3339_any s of None \<Rightarrow> Inl (WField ''time'' s) | Some t \<Rightarrow> Inr t)"

text \<open>Members that are pointers to a string, and what the decoder reads of one.\<close>

definition opt_str :: "string \<Rightarrow> string option \<Rightarrow> members" where
  "opt_str k v = (case v of None \<Rightarrow> [] | Some s \<Rightarrow> [(k, JStr s)])"

definition opt_str_member :: "string \<Rightarrow> members \<Rightarrow> wire_error + string option" where
  "opt_str_member k fs = (case member k fs of None \<Rightarrow> Inr None | Some JNull \<Rightarrow> Inr None | Some (JStr s) \<Rightarrow> Inr (Some s)
     | Some _ \<Rightarrow> Inl (WJson (JsonType k)))"

definition omitempty_strs :: "string \<Rightarrow> string list \<Rightarrow> members" where
  "omitempty_strs k xs = (if xs = [] then [] else [(k, JArr (map JStr xs))])"

definition client_opt_time :: "string option \<Rightarrow> wire_error + instant option" where
  "client_opt_time v = (case v of None \<Rightarrow> Inr None | Some s \<Rightarrow> bind_result (client_parseRFC3339 s) (\<lambda>t. Inr (Some t)))"

abbreviation str_field :: "string \<Rightarrow> members \<Rightarrow> wire_error + string" where
  "str_field k fs \<equiv> map_err WJson (str_member k fs)"

definition strs_field :: "string \<Rightarrow> members \<Rightarrow> wire_error + string list" where
  "strs_field k fs = map_err WJson (bind_result (arr_member k fs) (map_result str_elem))"

definition objs_field :: "string \<Rightarrow> members \<Rightarrow> wire_error + members list" where
  "objs_field k fs = map_err WJson (bind_result (arr_member k fs) (map_result as_members))"

abbreviation obj_field :: "string \<Rightarrow> members \<Rightarrow> wire_error + members" where
  "obj_field k fs \<equiv> map_err WJson (obj_member k fs)"

definition client_time_field :: "string \<Rightarrow> members \<Rightarrow> wire_error + instant" where
  "client_time_field k fs = bind_result (str_field k fs) client_parseRFC3339"

definition client_opt_time_field :: "string \<Rightarrow> members \<Rightarrow> wire_error + instant option" where
  "client_opt_time_field k fs = bind_result (opt_str_member k fs) client_opt_time"

section \<open>Goals\<close>

text \<open>The struct has the shape of the stored document, but an empty priority is left out.\<close>

definition wire_goal_json :: "goalJSON \<Rightarrow> json" where
  "wire_goal_json g = JObj
     [(''venue_query'', query_marshal (gj_query g)), (''date'', JStr (gj_date g)), (''party'', JInt (gj_party g)),
      (''time_prefs'', JObj ([(''start'', JStr (gj_start g)), (''end'', JStr (gj_end g))] @ omitempty_str ''priority'' (gj_priority g))),
      (''account_id'', JStr (gj_account g)),
      (''constraints'', JObj (omitempty_strs ''table_types'' (gj_table_types g) @
         (if gj_any_table g then [(''any_table'', JBool True)] else [])))]"

definition wire_encodeVenueQuery :: "venue_query option \<Rightarrow> venueQueryJSON" where
  "wire_encodeVenueQuery q =
     (let zero = \<lparr>vj_kind = [], vj_url = [], vj_slug = [], vj_city = [], vj_name = []\<rparr> in
      case q of
        Some (VenueQueryURL u) \<Rightarrow> zero\<lparr>vj_kind := ''url'', vj_url := u\<rparr>
      | Some (VenueQuerySlug s c) \<Rightarrow> zero\<lparr>vj_kind := ''slug'', vj_slug := s, vj_city := c\<rparr>
      | Some (VenueQueryName n) \<Rightarrow> zero\<lparr>vj_kind := ''name'', vj_name := n\<rparr>
      | None \<Rightarrow> zero\<lparr>vj_kind := ''nil''\<rparr>)"

definition wire_decodeVenueQuery :: "venueQueryJSON \<Rightarrow> wire_error + venue_query option" where
  "wire_decodeVenueQuery w =
     (if vj_kind w = ''url'' then Inr (Some (VenueQueryURL (vj_url w)))
      else if vj_kind w = ''slug'' then Inr (Some (VenueQuerySlug (vj_slug w) (vj_city w)))
      else if vj_kind w = ''name'' then Inr (Some (VenueQueryName (vj_name w)))
      else if vj_kind w = [] then Inl WKindRequired else Inl (WKindUnknown (vj_kind w)))"

definition parsePriorityWire :: "string \<Rightarrow> time_priority" where
  "parsePriorityWire s = (if s = ''earlier'' then PriorityEarlier else if s = ''later'' then PriorityLater else PriorityNone)"

definition wire_encodeGoal :: "goal \<Rightarrow> json" where
  "wire_encodeGoal g = wire_goal_json
     \<lparr>gj_query = wire_encodeVenueQuery (gl_venue_query g), gj_date = date_string (gl_date g), gj_party = gl_party g,
      gj_start = walltime_string (tw_start (gl_time_prefs g)), gj_end = walltime_string (tw_end (gl_time_prefs g)),
      gj_priority = priority_string (tw_priority (gl_time_prefs g)), gj_account = gl_account g,
      gj_table_types = ct_table_types (gl_constraints g), gj_any_table = ct_any_table (gl_constraints g)\<rparr>"

definition goal_of_wire :: "time_priority \<Rightarrow> venue_query option \<Rightarrow> date \<Rightarrow> walltime \<Rightarrow> walltime \<Rightarrow> goalJSON \<Rightarrow> goal" where
  "goal_of_wire priority vq d start stop w = \<lparr>gl_venue_query = vq, gl_date = d, gl_party = gj_party w,
     gl_time_prefs = \<lparr>tw_start = start, tw_end = stop, tw_priority = priority\<rparr>,
     gl_account = gj_account w, gl_constraints = \<lparr>ct_table_types = gj_table_types w, ct_any_table = gj_any_table w\<rparr>\<rparr>"

definition wire_decodeGoal :: "goalJSON \<Rightarrow> wire_error + goal" where
  "wire_decodeGoal w =
     bind_result (wire_decodeVenueQuery (gj_query w)) (\<lambda>vq.
     bind_result (map_err (WField ''date'') (ParseDate (gj_date w))) (\<lambda>d.
     bind_result (map_err (WField ''time_prefs.start'') (ParseWallTime (gj_start w))) (\<lambda>s.
     bind_result (map_err (WField ''time_prefs.end'') (ParseWallTime (gj_end w))) (\<lambda>e. Inr (goal_of_wire (parsePriorityWire (gj_priority w)) vq d s e w)))))"

text \<open>The client's copies.\<close>

definition client_encodeVenueQuery :: "venue_query option \<Rightarrow> venueQueryJSON" where
  "client_encodeVenueQuery q =
     (let zero = \<lparr>vj_kind = [], vj_url = [], vj_slug = [], vj_city = [], vj_name = []\<rparr> in
      case q of
        Some (VenueQueryURL u) \<Rightarrow> zero\<lparr>vj_kind := ''url'', vj_url := u\<rparr>
      | Some (VenueQuerySlug s c) \<Rightarrow> zero\<lparr>vj_kind := ''slug'', vj_slug := s, vj_city := c\<rparr>
      | Some (VenueQueryName n) \<Rightarrow> zero\<lparr>vj_kind := ''name'', vj_name := n\<rparr>
      | None \<Rightarrow> zero\<lparr>vj_kind := ''nil''\<rparr>)"

definition client_encodeGoal :: "goal \<Rightarrow> json" where
  "client_encodeGoal g = wire_goal_json
     \<lparr>gj_query = client_encodeVenueQuery (gl_venue_query g), gj_date = date_string (gl_date g), gj_party = gl_party g,
      gj_start = walltime_string (tw_start (gl_time_prefs g)), gj_end = walltime_string (tw_end (gl_time_prefs g)),
      gj_priority = priority_string (tw_priority (gl_time_prefs g)), gj_account = gl_account g,
      gj_table_types = ct_table_types (gl_constraints g), gj_any_table = ct_any_table (gl_constraints g)\<rparr>"

definition client_parsePriorityWire :: "string \<Rightarrow> time_priority" where
  "client_parsePriorityWire s = (if s = ''earlier'' then PriorityEarlier else if s = ''later'' then PriorityLater else PriorityNone)"

definition client_decodeVenueQuery :: "venueQueryJSON \<Rightarrow> wire_error + venue_query option" where
  "client_decodeVenueQuery w =
     (if vj_kind w = ''url'' then Inr (Some (VenueQueryURL (vj_url w)))
      else if vj_kind w = ''slug'' then Inr (Some (VenueQuerySlug (vj_slug w) (vj_city w)))
      else if vj_kind w = ''name'' then Inr (Some (VenueQueryName (vj_name w)))
      else if vj_kind w = [] \<or> vj_kind w = ''nil'' then Inr None else Inl (WKindUnknown (vj_kind w)))"

definition decodeWallTime :: "string \<Rightarrow> string + walltime" where
  "decodeWallTime s = (if s = [] then Inr (WallTime 0 0 0) else ParseWallTime s)"

definition client_decodeGoal :: "goalJSON \<Rightarrow> wire_error + goal" where
  "client_decodeGoal w =
     bind_result (client_decodeVenueQuery (gj_query w)) (\<lambda>vq.
     bind_result (if gj_date w = [] then Inr (Date 0 0 0) else map_err (WField ''date'') (ParseDate (gj_date w))) (\<lambda>d.
     bind_result (map_err (WField ''time_prefs.start'') (decodeWallTime (gj_start w))) (\<lambda>s.
     bind_result (map_err (WField ''time_prefs.end'') (decodeWallTime (gj_end w))) (\<lambda>e. Inr (goal_of_wire (client_parsePriorityWire (gj_priority w)) vq d s e w)))))"

section \<open>Venues, strategies and plans\<close>

definition wire_encodeVenue :: "venue \<Rightarrow> json" where
  "wire_encodeVenue v = JObj ([(''provider'', JStr (v_provider v)), (''ref'', JStr (v_ref v))] @ omitempty_str ''name'' (v_name v) @
     [(''tz'', JStr (case v_tz v of None \<Rightarrow> [] | Some l \<Rightarrow> loc_name l))])"

definition client_decodeVenue :: "(string \<Rightarrow> location option) \<Rightarrow> members \<Rightarrow> wire_error + venue" where
  "client_decodeVenue load fs =
     bind_result (str_field ''provider'' fs) (\<lambda>p.
     bind_result (str_field ''ref'' fs) (\<lambda>r.
     bind_result (str_field ''name'' fs) (\<lambda>n.
     bind_result (str_field ''tz'' fs) (\<lambda>z.
     bind_result (if z = [] then Inr None else case load z of None \<Rightarrow> Inl (WLocation z) | Some l \<Rightarrow> Inr (Some l)) (\<lambda>tz.
       Inr \<lparr>v_provider = p, v_ref = r, v_name = n, v_tz = tz\<rparr>)))))"

definition wire_encodeStrategy :: "release_strategy option \<Rightarrow> json" where
  "wire_encodeStrategy st = JObj (case st of
       Some (ExplicitRelease at) \<Rightarrow> (''tag'', JStr ''explicit'') # omitempty_str ''at'' (wire_rfc3339 at)
     | Some (DiscoveredRelease f u) \<Rightarrow> (''tag'', JStr ''discovered'') # omitempty_str ''probe_from'' (wire_rfc3339 f) @
         omitempty_str ''probe_until'' (wire_rfc3339 u)
     | Some (ContinuousRelease u) \<Rightarrow> (''tag'', JStr ''continuous'') # omitempty_str ''until'' (wire_rfc3339 u)
     | None \<Rightarrow> [(''tag'', JStr ''nil'')])"

definition client_decodeStrategy :: "members \<Rightarrow> wire_error + release_strategy option" where
  "client_decodeStrategy fs = bind_result (str_field ''tag'' fs) (\<lambda>tag.
     if tag = ''explicit'' then bind_result (client_time_field ''at'' fs) (\<lambda>at. Inr (Some (ExplicitRelease at)))
     else if tag = ''discovered'' then bind_result (client_time_field ''probe_from'' fs) (\<lambda>f.
       bind_result (client_time_field ''probe_until'' fs) (\<lambda>u. Inr (Some (DiscoveredRelease f u))))
     else if tag = ''continuous'' then bind_result (client_time_field ''until'' fs) (\<lambda>u. Inr (Some (ContinuousRelease u)))
     else if tag = [] \<or> tag = ''nil'' then Inr None else Inl (WTag tag))"

definition wire_encodePlan :: "plan \<Rightarrow> json" where
  "wire_encodePlan p = JObj ([(''goal'', wire_encodeGoal (pl_goal p)), (''venue'', wire_encodeVenue (pl_venue p)),
      (''drop_moment'', JStr (wire_rfc3339 (pl_drop_moment p))), (''strategy'', wire_encodeStrategy (pl_strategy p))] @
     omitempty_strs ''fire_schedule'' (map wire_rfc3339 (pl_fire_schedule p)) @ [(''signing_required'', JBool (pl_signing_required p))] @
     omitempty_str ''hash'' (pl_hash p) @ omitempty_strs ''notes'' (pl_notes p) @
     [(''plan_hash_version'', JInt (pl_hash_version p)), (''computed_at'', JStr (wire_rfc3339 (pl_computed_at p)))])"

definition client_goal_field :: "members \<Rightarrow> wire_error + goal" where
  "client_goal_field fs = bind_result (obj_field ''goal'' fs) (\<lambda>g.
     bind_result (map_err WJson (goal_unmarshal (JObj g))) client_decodeGoal)"

definition client_decodePlan :: "(string \<Rightarrow> location option) \<Rightarrow> members \<Rightarrow> wire_error + plan" where
  "client_decodePlan load fs =
     bind_result (client_goal_field fs) (\<lambda>goal.
     bind_result (bind_result (obj_field ''venue'' fs) (client_decodeVenue load)) (\<lambda>venue.
     bind_result (client_time_field ''drop_moment'' fs) (\<lambda>dm.
     bind_result (bind_result (obj_field ''strategy'' fs) client_decodeStrategy) (\<lambda>strategy.
     bind_result (bind_result (strs_field ''fire_schedule'' fs) (map_result client_parseRFC3339)) (\<lambda>schedule.
     bind_result (map_err WJson (bool_member ''signing_required'' fs)) (\<lambda>signing.
     bind_result (str_field ''hash'' fs) (\<lambda>hash.
     bind_result (strs_field ''notes'' fs) (\<lambda>notes.
     bind_result (map_err WJson (int_member ''plan_hash_version'' fs)) (\<lambda>version.
     bind_result (client_time_field ''computed_at'' fs) (\<lambda>computed.
       Inr \<lparr>pl_goal = goal, pl_venue = venue, pl_drop_moment = dm, pl_strategy = strategy, pl_fire_schedule = schedule,
            pl_signing_required = signing, pl_hash = hash, pl_notes = notes, pl_hash_version = version, pl_computed_at = computed\<rparr>))))))))))"

section \<open>Quests\<close>

definition wire_encodeQuestSummary :: "QuestSummary \<Rightarrow> json" where
  "wire_encodeQuestSummary q = JObj ([(''id'', JStr (qs_id q)), (''user_id'', JStr (qs_user q)), (''account_id'', JStr (qs_account q)),
      (''status'', JStr (status_string (qs_status q))), (''created_at'', JStr (wire_rfc3339 (qs_created_at q))),
      (''updated_at'', JStr (wire_rfc3339 (qs_updated_at q)))] @ opt_str ''completed_at'' (map_option wire_rfc3339 (qs_completed_at q)) @
     omitempty_str ''plan_hash'' (qs_plan_hash q))"

definition statusFromString :: "string \<Rightarrow> status option" where
  "statusFromString s = find (\<lambda>st. status_string st = s) AllStatuses"

definition client_statusFromString :: "string \<Rightarrow> status option" where
  "client_statusFromString s = find (\<lambda>st. status_string st = s) AllStatuses"

definition client_decodeQuestSummary :: "members \<Rightarrow> wire_error + QuestSummary" where
  "client_decodeQuestSummary fs =
     bind_result (str_field ''status'' fs) (\<lambda>st.
     bind_result (case client_statusFromString st of None \<Rightarrow> Inl (WStatus st) | Some x \<Rightarrow> Inr x) (\<lambda>status.
     bind_result (client_time_field ''created_at'' fs) (\<lambda>created.
     bind_result (client_time_field ''updated_at'' fs) (\<lambda>updated.
     bind_result (client_opt_time_field ''completed_at'' fs) (\<lambda>completed.
     bind_result (str_field ''id'' fs) (\<lambda>k.
     bind_result (str_field ''user_id'' fs) (\<lambda>u.
     bind_result (str_field ''account_id'' fs) (\<lambda>a.
     bind_result (str_field ''plan_hash'' fs) (\<lambda>h.
       Inr \<lparr>qs_id = k, qs_user = u, qs_account = a, qs_status = status, qs_created_at = created, qs_updated_at = updated,
            qs_completed_at = completed, qs_plan_hash = h\<rparr>)))))))))"

text \<open>\<^verbatim>\<open>slog.Value.String\<close>, and the attributes as a map: the last of two attributes of one key wins,
  and the encoder writes the keys sorted.\<close>

fun attr_text :: "attr_value \<Rightarrow> string" where
  "attr_text (AString s) = s"
| "attr_text (AInt n) = show_int n"
| "attr_text (ABool b) = (if b then ''true'' else ''false'')"
| "attr_text (ATime t) = date_text (date_in t utc) @ '' '' @ clock_text (clock_in t utc) @ frac_text (t mod second) @ '' +0000 UTC''"

definition attr_map :: "attr list \<Rightarrow> (string \<times> string) list" where
  "attr_map as = map (\<lambda>k. (k, attr_text (the (map_of (rev as) k)))) (sort (remdups (map fst as)))"

definition wire_encodeEvent :: "event \<Rightarrow> json" where
  "wire_encodeEvent e = JObj ([(''type'', JStr (ev_type e)), (''at'', JStr (wire_rfc3339 (ev_at e)))] @
     (if attr_map (ev_attrs e) = [] then [] else [(''attrs'', JObj (map (\<lambda>(k, v). (k, JStr v)) (attr_map (ev_attrs e))))]))"

definition str_map :: "members \<Rightarrow> wire_error + (string \<times> string) list" where
  "str_map fs = map_result (\<lambda>k. bind_result (str_field k fs) (\<lambda>v. Inr (k, v))) (remdups (map fst fs))"

definition client_decodeEvent :: "((string \<times> string) list \<Rightarrow> (string \<times> string) list) \<Rightarrow> members \<Rightarrow> wire_error + event" where
  "client_decodeEvent order fs =
     bind_result (client_time_field ''at'' fs) (\<lambda>at.
     bind_result (bind_result (obj_field ''attrs'' fs) str_map) (\<lambda>attrs.
     bind_result (str_field ''type'' fs) (\<lambda>ty.
       Inr \<lparr>ev_type = ty, ev_at = at, ev_attrs = map (\<lambda>(k, v). (k, AString v)) (order attrs)\<rparr>)))"

text \<open>The plan of a quest whose plan could not be rebuilt is the zero struct.\<close>

definition zero_plan :: plan where
  "zero_plan = \<lparr>pl_goal = \<lparr>gl_venue_query = None, gl_date = Date 0 0 0, gl_party = 0,
      gl_time_prefs = \<lparr>tw_start = WallTime 0 0 0, tw_end = WallTime 0 0 0, tw_priority = PriorityNone\<rparr>,
      gl_account = [], gl_constraints = \<lparr>ct_table_types = [], ct_any_table = False\<rparr>\<rparr>,
     pl_venue = \<lparr>v_provider = [], v_ref = [], v_name = [], v_tz = None\<rparr>, pl_drop_moment = 0, pl_strategy = None,
     pl_fire_schedule = [], pl_signing_required = False, pl_hash = [], pl_notes = [], pl_hash_version = 0, pl_computed_at = 0\<rparr>"

definition wire_encodeQuestState :: "QuestState \<Rightarrow> json" where
  "wire_encodeQuestState q = JObj [(''summary'', wire_encodeQuestSummary (qx_summary q)), (''goal'', wire_encodeGoal (qx_goal q)),
     (''plan'', wire_encodePlan (case qx_plan q of None \<Rightarrow> zero_plan | Some p \<Rightarrow> p)),
     (''events'', JArr (map wire_encodeEvent (qx_events q)))]"

definition client_decodeQuestState :: "(string \<Rightarrow> location option) \<Rightarrow> ((string \<times> string) list \<Rightarrow> (string \<times> string) list) \<Rightarrow> members
    \<Rightarrow> wire_error + QuestState" where
  "client_decodeQuestState load order fs =
     bind_result (bind_result (obj_field ''summary'' fs) client_decodeQuestSummary) (\<lambda>summary.
     bind_result (client_goal_field fs) (\<lambda>goal.
     bind_result (bind_result (obj_field ''plan'' fs) (client_decodePlan load)) (\<lambda>plan.
     bind_result (bind_result (objs_field ''events'' fs) (map_result (client_decodeEvent order))) (\<lambda>events.
       Inr \<lparr>qx_summary = summary, qx_goal = goal, qx_plan = Some plan, qx_events = events\<rparr>))))"

section \<open>Accounts and tokens\<close>

definition wire_encodeAccount :: "AccountRow \<Rightarrow> json" where
  "wire_encodeAccount a = JObj ([(''id'', JStr (ar_id a)), (''user_id'', JStr (ar_user a)), (''email'', JStr (ar_resy_email a))] @
     omitempty_str ''display_name'' (ar_display_name a) @ [(''created_at'', JStr (wire_rfc3339 (ar_created_at a)))] @
     opt_str ''disabled_at'' (map_option wire_rfc3339 (ar_disabled_at a)))"

definition client_decodeAccount :: "members \<Rightarrow> wire_error + AccountRow" where
  "client_decodeAccount fs =
     bind_result (client_time_field ''created_at'' fs) (\<lambda>created.
     bind_result (client_opt_time_field ''disabled_at'' fs) (\<lambda>disabled.
     bind_result (str_field ''id'' fs) (\<lambda>k.
     bind_result (str_field ''user_id'' fs) (\<lambda>u.
     bind_result (str_field ''email'' fs) (\<lambda>m.
     bind_result (str_field ''display_name'' fs) (\<lambda>n.
       Inr \<lparr>ar_id = k, ar_user = u, ar_resy_email = m, ar_display_name = n, ar_created_at = created, ar_disabled_at = disabled\<rparr>))))))"

text \<open>Tokens are written with \<^verbatim>\<open>Format\<close> itself: the zero time is not left empty. The user and the digest
  are not part of a listed token.\<close>

definition tokenResponse :: "TokenRow \<Rightarrow> json" where
  "tokenResponse t = JObj ([(''id'', JStr (tr_id t)), (''scope'', JStr (tr_scopes t)), (''label'', JStr (tr_label t)),
      (''created_at'', JStr (format_rfc3339 (tr_created_at t)))] @ opt_str ''last_seen'' (map_option format_rfc3339 (tr_last_seen t)) @
     opt_str ''revoked_at'' (map_option format_rfc3339 (tr_revoked_at t)))"

definition client_decodeToken :: "members \<Rightarrow> wire_error + TokenRow" where
  "client_decodeToken fs =
     bind_result (client_time_field ''created_at'' fs) (\<lambda>created.
     bind_result (client_opt_time_field ''last_seen'' fs) (\<lambda>seen.
     bind_result (client_opt_time_field ''revoked_at'' fs) (\<lambda>revoked.
     bind_result (str_field ''id'' fs) (\<lambda>k.
     bind_result (str_field ''scope'' fs) (\<lambda>sc.
     bind_result (str_field ''label'' fs) (\<lambda>l.
       Inr \<lparr>tr_id = k, tr_user = [], tr_hash = [], tr_scopes = sc, tr_label = l, tr_created_at = created,
            tr_last_seen = seen, tr_revoked_at = revoked\<rparr>))))))"

section \<open>What survives the wire\<close>

text \<open>A time is read back as the whole second it was in.\<close>

definition secs :: "instant \<Rightarrow> instant" where
  "secs t = t - t mod second"

lemma format_rfc3339_parse: "rfc_range t \<Longrightarrow> parse_rfc3339_any (format_rfc3339 t) = Some (secs t)"
proof -
  have "get_frac ''.'' ([] @ ''Z'') = (0, ''Z'')" by code_simp
  then show "rfc_range t \<Longrightarrow> ?thesis"
    using parse_rfc3339_any parse_printed [of t "[]" 0] by (simp add: format_rfc3339_def secs_def)
qed

lemma format_rfc3339_nonempty [simp]: "format_rfc3339 t \<noteq> []"
  by (simp add: format_rfc3339_def)

lemma secs_zero [simp]: "secs 0 = 0"
  by (simp add: secs_def)

lemma rfc3339_parse [simp]: "rfc_range t \<Longrightarrow> client_parseRFC3339 (wire_rfc3339 t) = Inr (secs t)"
  "rfc_range t \<Longrightarrow> parseRFC3339 (wire_rfc3339 t) = Inr (secs t)"
  "rfc_range t \<Longrightarrow> client_parseRFC3339 (format_rfc3339 t) = Inr (secs t)"
  by (simp_all add: wire_rfc3339_def client_parseRFC3339_def parseRFC3339_def is_zero_def format_rfc3339_parse)

text \<open>Reading a member that was written.\<close>

lemma member_opt_str [simp]: "member k (opt_str k' v) = (if k = k' then map_option JStr v else None)"
  by (simp add: opt_str_def member_Cons split: option.split)

lemma member_strs [simp]: "member k (omitempty_strs k' xs) = (if k = k' \<and> xs \<noteq> [] then Some (JArr (map JStr xs)) else None)"
  by (simp add: omitempty_strs_def member_Cons)

lemmas wire_reads = member_Cons member_append str_member_def int_member_def bool_member_def arr_member_def obj_member_def
  opt_str_member_def strs_field_def str_elems client_time_field_def client_opt_time_field_def client_opt_time_def

lemma wire_goal_roundtrip:
  assumes "int64 (gj_party g)"
  shows "goal_unmarshal (wire_goal_json g) = Inr g"
proof -
  define cs where "cs = omitempty_strs ''table_types'' (gj_table_types g) @ (if gj_any_table g then [(''any_table'', JBool True)] else [])"
  have t: "bind_result (arr_member ''table_types'' cs) (map_result str_elem) = Inr (gj_table_types g)"
    by (simp add: cs_def arr_member_def member_append member_Cons str_elems)
  have a: "bool_member ''any_table'' cs = Inr (gj_any_table g)"
    by (simp add: cs_def bool_member_def member_append member_Cons)
  show ?thesis
    unfolding wire_goal_json_def goal_unmarshal_def cs_def [symmetric]
    using assms by (simp add: obj_member_def str_member_def int_member_def member_Cons member_append query_marshal_roundtrip t a)
qed

lemma wire_query_eq: "wire_encodeVenueQuery q = encodeVenueQuery q"
  by (simp add: wire_encodeVenueQuery_def encodeVenueQuery_def Let_def split: option.split venue_query.split)

lemma wire_query_roundtrip: "client_decodeVenueQuery (encodeVenueQuery q) = Inr q"
  "q \<noteq> None \<Longrightarrow> wire_decodeVenueQuery (encodeVenueQuery q) = Inr q"
  by (auto simp: encodeVenueQuery_def client_decodeVenueQuery_def wire_decodeVenueQuery_def split: option.split venue_query.split)

lemma wire_priority_roundtrip: "parsePriorityWire (priority_string p) = p" "client_parsePriorityWire (priority_string p) = p"
  by (cases p; simp add: parsePriorityWire_def client_parsePriorityWire_def)+

text \<open>The client writes what the server's encoder would.\<close>

lemma client_encodes: "client_encodeVenueQuery q = wire_encodeVenueQuery q" "client_encodeGoal g = wire_encodeGoal g"
  by (simp_all add: client_encodeVenueQuery_def wire_encodeVenueQuery_def client_encodeGoal_def wire_encodeGoal_def)

end
