(* ===== verification/HttpApi.thy ===== *)
theory HttpApi
  imports Wire QuestStream
begin

text \<open>
  The HTTP surface of the daemon (\<^verbatim>\<open>transport/http\<close>): the error table, the bearer middleware
  (\<^verbatim>\<open>auth.go\<close>, over the token adapter of \<^verbatim>\<open>cmd/resy-snipe/serve.go\<close>), the handlers of the \<^verbatim>\<open>/v1\<close> routes and
  the route table. A request under \<^verbatim>\<open>/v1\<close> is its method, the decoded segments of its cleaned path, its decoded query
  parameters, the value of the Authorization header and its body; a body is absent, a JSON
  document, a text that is none, or lost while it is read. Documents are what the reader finds, with bytes that are no
  UTF-8 replaced by the encoder. Of a stream of events a response
  carries the frames written before its live phase. The texts of decoding errors, and the time
  it takes to write a frame, are arguments.
\<close>

section \<open>Errors on the wire\<close>

definition MapError :: "svc_error \<Rightarrow> nat \<times> string" where
  "MapError err = (let is = (\<lambda>k. k \<in> set (sx_is err)) in
     if is SvcTokenExpired then (401, ''token_expired'')
     else if is SvcTokenRevoked then (401, ''token_revoked'')
     else if is SvcUnauthorized then (401, ''unauthenticated'')
     else if is SvcForbidden then (403, ''forbidden'')
     else if is SvcVenueNotFound then (404, ''venue_not_found'')
     else if is SvcNotFound then (404, ''not_found'')
     else if is SvcVenueAmbiguous then (409, ''venue_ambiguous'')
     else if is SvcInviteConsumed then (409, ''invite_consumed'')
     else if is SvcIdempotencyConflict then (409, ''idempotency_conflict'')
     else if is SvcConflict then (409, ''conflict'')
     else if is SvcInviteExpired then (410, ''invite_expired'')
     else if is SvcInvalidPlanHash then (422, ''plan_hash_mismatch'')
     else if is SvcInvalidArgument then (422, ''validation_failed'')
     else if sx_prov err = Some ErrRateLimited then (429, ''rate_limited'')
     else if sx_prov err = Some ErrAuthExpired then (502, ''provider_session_expired'')
     else if is SvcUpstreamUnavailable then (502, ''provider_unavailable'')
     else (500, ''internal''))"

record http_response =
  rs_status :: nat
  rs_body :: "json option"
  rs_frames :: "(string \<times> json) list"

definition WriteErrorDetails :: "svc_error \<Rightarrow> members \<Rightarrow> http_response" where
  "WriteErrorDetails err details =
     (let (status, code) = MapError err;
          message = (if status = 500 then ''internal server error'' else sx_text err) in
      \<lparr>rs_status = status, rs_body = Some (marshaled (JObj ([(''code'', JStr code), (''message'', JStr message)] @
         (if details = [] then [] else [(''details'', JObj details)])))), rs_frames = []\<rparr>)"

definition WriteError :: "svc_error \<Rightarrow> http_response" where
  "WriteError err = WriteErrorDetails err []"

definition WriteJSON :: "nat \<Rightarrow> json \<Rightarrow> http_response" where
  "WriteJSON status body = \<lparr>rs_status = (if status = 0 then 200 else status), rs_body = Some (marshaled body), rs_frames = []\<rparr>"

definition no_content :: http_response where
  "no_content = \<lparr>rs_status = 204, rs_body = None, rs_frames = []\<rparr>"

section \<open>Requests\<close>

datatype http_method = MGet | MHead | MPost | MDelete | MOther

datatype http_body = NoBody | Document json | Garbage string | LostBody string

record http_request =
  rq_method :: http_method
  rq_path :: "string list"
  rq_query :: "(string \<times> string) list"
  rq_auth :: string
  rq_body :: http_body

record daemon =
  dm_service :: service
  dm_text :: "wire_error \<Rightarrow> string"
  dm_write_time :: "nat \<Rightarrow> nat"

definition invalid :: "daemon \<Rightarrow> wire_error \<Rightarrow> svc_error" where
  "invalid d we = wrap (case we of WQueryTime p _ \<Rightarrow> ''list_quests: '' @ p @ '': '' | _ \<Rightarrow> []) (plain SvcInvalidArgument) ('': '' @ dm_text d we)"

definition unauthorized :: "string \<Rightarrow> svc_error" where
  "unauthorized verb = wrap (verb @ '': '') (plain SvcUnauthorized) []"

definition ensureNonEmpty :: "string \<Rightarrow> string \<Rightarrow> svc_error option" where
  "ensureNonEmpty name value = (if value = [] then Some (wrap [] (plain SvcInvalidArgument) ('': '' @ name @ '' is required'')) else None)"

text \<open>\<^verbatim>\<open>io.ReadAll\<close> and \<^verbatim>\<open>decodeJSON\<close> into a struct.\<close>

definition body_members :: "daemon \<Rightarrow> string \<Rightarrow> http_body \<Rightarrow> svc_error + members" where
  "body_members d verb b = (case b of
       LostBody t \<Rightarrow> Inl (required verb t)
     | NoBody \<Rightarrow> Inl (invalid d WEmptyBody)
     | Garbage t \<Rightarrow> Inl (invalid d (WField ''body'' t))
     | Document j \<Rightarrow> map_err (invalid d) (map_err WJson (as_members j)))"

definition query_value :: "string \<Rightarrow> (string \<times> string) list \<Rightarrow> string" where
  "query_value k q = (case map_of q k of None \<Rightarrow> [] | Some v \<Rightarrow> v)"

section \<open>Authentication\<close>

definition parseBearer :: "string \<Rightarrow> string option" where
  "parseBearer header =
     (if header = [] then None
      else if length header < 7 \<or> map lower_char (take 7 header) \<noteq> ''bearer '' then None
      else let token = TrimSpace (drop 7 header) in if token = [] then None else Some token)"

definition touchInterval :: duration where
  "touchInterval = 1500 * millisecond"

record hstate =
  hs_sys :: sys
  hs_touch :: "string \<Rightarrow> instant option"

definition shouldTouch :: "string \<Rightarrow> instant \<Rightarrow> hstate \<Rightarrow> bool \<times> hstate" where
  "shouldTouch h now s = (case hs_touch s h of
       Some prev \<Rightarrow> if time_sub now prev < touchInterval then (False, s) else (True, s\<lparr>hs_touch := (hs_touch s)(h \<mapsto> now)\<rparr>)
     | None \<Rightarrow> (True, s\<lparr>hs_touch := (hs_touch s)(h \<mapsto> now)\<rparr>))"

definition authenticate :: "daemon \<Rightarrow> string \<Rightarrow> hstate \<Rightarrow> (svc_error + user_id \<times> string) \<times> hstate" where
  "authenticate d header h =
     (let c = dm_service d in
      case parseBearer header of None \<Rightarrow> (Inl (unauthorized ''auth''), h)
      | Some token \<Rightarrow>
        (case q_read (sv_env c) (\<lambda>io _. store_FindTokenByHash io (sv_blake2b c token)) (hs_sys h) of
           (Inl _, s1) \<Rightarrow> (Inl (unauthorized ''auth''), h\<lparr>hs_sys := s1\<rparr>)
         | (Inr info, s1) \<Rightarrow>
           (case shouldTouch (tr_hash info) (now_of s1) (h\<lparr>hs_sys := s1\<rparr>) of (touch, h2) \<Rightarrow>
             (Inr (tr_user info, tr_scopes info),
              if touch then h2\<lparr>hs_sys := snd (q_exec (sv_env c) (\<lambda>io _. store_TouchTokenSeen io (tr_hash info) (now_of s1)) s1)\<rparr>
              else h2))))"

section \<open>Handlers\<close>

text \<open>Each handler acts for the caller the middleware stamped on the context: a user and a scope.\<close>

definition newResolveVenueHandler :: "daemon \<Rightarrow> user_id \<times> string \<Rightarrow> http_request \<Rightarrow> sys \<Rightarrow> http_response \<times> sys" where
  "newResolveVenueHandler d who rq s =
     (case bind_result (body_members d ''resolve_venue'' (rq_body rq)) (\<lambda>fs. map_err (invalid d)
         (bind_result (map_err WJson (bind_result (obj_member ''venue_query'' fs) query_unmarshal)) wire_decodeVenueQuery)) of
        Inl err \<Rightarrow> (WriteError err, s)
      | Inr vq \<Rightarrow>
        if fst who = [] then (WriteError (unauthorized ''resolve_venue''), s)
        else (case ResolveVenue (dm_service d) (fst who) vq s of
            (Inl err, s1) \<Rightarrow> (WriteError err, s1)
          | (Inr v, s1) \<Rightarrow> (WriteJSON 200 (wire_encodeVenue v), s1)))"

definition goal_request :: "members \<Rightarrow> wire_error + goalJSON" where
  "goal_request fs = map_err WJson (bind_result (obj_member ''goal'' fs) (\<lambda>g. goal_unmarshal (JObj g)))"

definition newPlanQuestHandler :: "daemon \<Rightarrow> user_id \<times> string \<Rightarrow> http_request \<Rightarrow> sys \<Rightarrow> http_response \<times> sys" where
  "newPlanQuestHandler d who rq s =
     (case bind_result (body_members d ''plan_quest'' (rq_body rq)) (\<lambda>fs.
         map_err (invalid d) (bind_result (goal_request fs) wire_decodeGoal)) of
        Inl err \<Rightarrow> (WriteError err, s)
      | Inr g \<Rightarrow>
        if fst who = [] then (WriteError (unauthorized ''plan_quest''), s)
        else (case PlanQuest (dm_service d) (fst who) g s of
            (Inl err, s1) \<Rightarrow> (WriteError err, s1)
          | (Inr p, s1) \<Rightarrow> (WriteJSON 200 (JObj [(''plan'', wire_encodePlan p)]), s1)))"

definition createQuestRequest :: "members \<Rightarrow> wire_error + goalJSON \<times> CreateOpts" where
  "createQuestRequest fs =
     bind_result (goal_request fs) (\<lambda>w.
     bind_result (opt_str_member ''plan_hash'' fs) (\<lambda>ph.
     bind_result (opt_str_member ''idempotency_key'' fs) (\<lambda>key. Inr (w, \<lparr>co_plan_hash = ph, co_key = key\<rparr>))))"

definition newCreateQuestHandler :: "daemon \<Rightarrow> user_id \<times> string \<Rightarrow> http_request \<Rightarrow> sys \<Rightarrow> http_response \<times> sys" where
  "newCreateQuestHandler d who rq s =
     (case bind_result (body_members d ''create_quest'' (rq_body rq)) (\<lambda>fs. map_err (invalid d)
         (bind_result (createQuestRequest fs) (\<lambda>(w, opts). bind_result (wire_decodeGoal w) (\<lambda>g. Inr (g, opts))))) of
        Inl err \<Rightarrow> (WriteError err, s)
      | Inr (g, opts) \<Rightarrow>
        if fst who = [] then (WriteError (unauthorized ''create_quest''), s)
        else (case CreateQuest (dm_service d) (fst who) g opts s of
            ((k, Some err), s1) \<Rightarrow> (WriteError err, s1)
          | ((k, None), s1) \<Rightarrow> (WriteJSON 201 (JObj [(''id'', JStr k)]), s1)))"

fun splitCSV_from :: "string \<Rightarrow> string \<Rightarrow> string list" where
  "splitCSV_from cur [] = (if cur = [] then [] else [cur])"
| "splitCSV_from cur (x # xs) = (if x = CHR '','' then (if cur = [] then [] else [cur]) @ splitCSV_from [] xs
     else splitCSV_from (cur @ [x]) xs)"

definition splitCSV :: "string \<Rightarrow> string list" where
  "splitCSV s = splitCSV_from [] s"

definition parseStatusList :: "string \<Rightarrow> wire_error + status list" where
  "parseStatusList s = (if s = [] then Inr []
     else map_result (\<lambda>raw. case statusFromString raw of None \<Rightarrow> Inl (WStatus raw) | Some st \<Rightarrow> Inr st) (splitCSV s))"

definition parseListFilter :: "(string \<times> string) list \<Rightarrow> wire_error + QuestListFilter" where
  "parseListFilter q =
     bind_result (parseStatusList (query_value ''status'' q)) (\<lambda>statuses.
     bind_result (map_err (\<lambda>_. WQueryTime ''since'' (query_value ''since'' q)) (parseRFC3339 (query_value ''since'' q))) (\<lambda>since.
     bind_result (map_err (\<lambda>_. WQueryTime ''until'' (query_value ''until'' q)) (parseRFC3339 (query_value ''until'' q))) (\<lambda>until.
     bind_result (if query_value ''limit'' q = [] then Inr 0
       else case Atoi (query_value ''limit'' q) of None \<Rightarrow> Inl (WLimit (query_value ''limit'' q)) | Some n \<Rightarrow> Inr n) (\<lambda>limit.
       Inr \<lparr>lf_status = statuses, lf_account = null_if_empty (query_value ''account_id'' q),
            lf_since = (if is_zero since then None else Some since), lf_until = (if is_zero until then None else Some until),
            lf_limit = limit, lf_cursor = query_value ''cursor'' q\<rparr>))))"

definition newListQuestsHandler :: "daemon \<Rightarrow> user_id \<times> string \<Rightarrow> http_request \<Rightarrow> sys \<Rightarrow> http_response \<times> sys" where
  "newListQuestsHandler d who rq s =
     (if fst who = [] then (WriteError (unauthorized ''list_quests''), s)
      else case parseListFilter (rq_query rq) of
        Inl we \<Rightarrow> (WriteError (invalid d we), s)
      | Inr f \<Rightarrow> (case ListQuests (dm_service d) (fst who) f s of
            (Inl err, s1) \<Rightarrow> (WriteError err, s1)
          | (Inr rows, s1) \<Rightarrow> (WriteJSON 200 (JObj [(''quests'', JArr (map wire_encodeQuestSummary rows))]), s1)))"

definition newGetQuestHandler :: "daemon \<Rightarrow> user_id \<times> string \<Rightarrow> string \<Rightarrow> sys \<Rightarrow> http_response \<times> sys" where
  "newGetQuestHandler d who qid s =
     (if fst who = [] then (WriteError (unauthorized ''get_quest''), s)
      else case ensureNonEmpty ''quest_id'' qid of Some err \<Rightarrow> (WriteError err, s)
      | None \<Rightarrow> (case GetQuest (dm_service d) (fst who) qid s of
            (Inl err, s1) \<Rightarrow> (WriteErrorDetails err [(''quest_id'', JStr qid)], s1)
          | (Inr q, s1) \<Rightarrow> (WriteJSON 200 (wire_encodeQuestState q), s1)))"

definition cancelQuestRequest :: "members \<Rightarrow> wire_error + CancelOpts" where
  "cancelQuestRequest fs =
     bind_result (str_field ''reason'' fs) (\<lambda>r.
     bind_result (opt_str_member ''idempotency_key'' fs) (\<lambda>key. Inr \<lparr>cn_reason = r, cn_key = key\<rparr>))"

definition newCancelQuestHandler :: "daemon \<Rightarrow> user_id \<times> string \<Rightarrow> string \<Rightarrow> http_request \<Rightarrow> sys \<Rightarrow> http_response \<times> sys" where
  "newCancelQuestHandler d who qid rq s =
     (if fst who = [] then (WriteError (unauthorized ''cancel_quest''), s)
      else case ensureNonEmpty ''quest_id'' qid of Some err \<Rightarrow> (WriteError err, s)
      | None \<Rightarrow>
      case (if rq_body rq = NoBody then Inr \<lparr>cn_reason = [], cn_key = None\<rparr>
            else bind_result (body_members d ''cancel_quest'' (rq_body rq)) (\<lambda>fs. map_err (invalid d) (cancelQuestRequest fs))) of
        Inl err \<Rightarrow> (WriteError err, s)
      | Inr opts \<Rightarrow> (case CancelQuest (dm_service d) (fst who) qid opts s of
            (Some err, s1) \<Rightarrow> (WriteErrorDetails err [(''quest_id'', JStr qid)], s1)
          | (None, s1) \<Rightarrow> (no_content, s1)))"

text \<open>A stream: the status line is committed before the service is asked, so a refusal is a frame.\<close>

definition event_frame :: "event \<Rightarrow> string \<times> json" where
  "event_frame e = (ev_type e, marshaled (wire_encodeEvent e))"

definition newSubscribeQuestHandler :: "daemon \<Rightarrow> user_id \<times> string \<Rightarrow> string \<Rightarrow> sys \<Rightarrow> http_response \<times> sys" where
  "newSubscribeQuestHandler d who qid s =
     (if fst who = [] then (WriteError (unauthorized ''subscribe_quest''), s)
      else case ensureNonEmpty ''quest_id'' qid of Some err \<Rightarrow> (WriteError err, s)
      | None \<Rightarrow>
      case subscribe_start (dm_service d) (dm_write_time d) (fst who) qid s of ((r, replayed), s1) \<Rightarrow>
        (\<lparr>rs_status = 200, rs_body = None, rs_frames = map event_frame replayed @
           (case r of Returned (Some err) \<Rightarrow> if sx_ctx err then [] else [(''error'', marshaled (JStr (sx_text err)))] | _ \<Rightarrow> [])\<rparr>, s1))"

definition newLoginHandler :: "daemon \<Rightarrow> user_id \<times> string \<Rightarrow> http_request \<Rightarrow> sys \<Rightarrow> http_response \<times> sys" where
  "newLoginHandler d who rq s =
     (case bind_result (body_members d ''login'' (rq_body rq)) (\<lambda>fs. map_err (invalid d)
         (bind_result (str_field ''email'' fs) (\<lambda>email. bind_result (str_field ''password'' fs) (\<lambda>pw. Inr (email, pw))))) of
        Inl err \<Rightarrow> (WriteError err, s)
      | Inr (email, pw) \<Rightarrow>
        if email = [] \<or> pw = [] then (WriteError (required ''login'' ''email and password are required''), s)
        else if fst who = [] then (WriteError (unauthorized ''login''), s)
        else (case Login (dm_service d) (fst who) email pw s of
            (Inl err, s1) \<Rightarrow> (WriteError err, s1)
          | (Inr a, s1) \<Rightarrow> (WriteJSON 201 (JObj [(''account_id'', JStr a)]), s1)))"

definition newListAccountsHandler :: "daemon \<Rightarrow> user_id \<times> string \<Rightarrow> sys \<Rightarrow> http_response \<times> sys" where
  "newListAccountsHandler d who s =
     (if fst who = [] then (WriteError (unauthorized ''list_accounts''), s)
      else case ListAccounts (dm_service d) (fst who) s of
        (Inl err, s1) \<Rightarrow> (WriteError err, s1)
      | (Inr rows, s1) \<Rightarrow> (WriteJSON 200 (JObj [(''accounts'', JArr (map wire_encodeAccount rows))]), s1))"

definition issueTokenResponse :: "BearerToken \<Rightarrow> json" where
  "issueTokenResponse t = JObj [(''id'', JStr (bt_id t)), (''token'', JStr (bt_token t)), (''label'', JStr (bt_label t)),
     (''scope'', JStr (bt_scope t)), (''created_at'', JStr (format_rfc3339 (bt_created_at t)))]"

text \<open>The request is read by a streaming decoder, whose error carries the verb.\<close>

definition issueTokenRequest :: "daemon \<Rightarrow> http_body \<Rightarrow> svc_error + string \<times> string" where
  "issueTokenRequest d b =
     (let fail = (\<lambda>we. required ''issue_token'' (dm_text d we)) in
      case b of LostBody t \<Rightarrow> Inl (required ''issue_token'' t) | NoBody \<Rightarrow> Inl (fail WEmptyBody) | Garbage t \<Rightarrow> Inl (fail (WField ''body'' t))
      | Document j \<Rightarrow> map_err fail (bind_result (map_err WJson (as_members j)) (\<lambda>fs.
          bind_result (str_field ''label'' fs) (\<lambda>label. bind_result (str_field ''scope'' fs) (\<lambda>scope. Inr (label, scope))))))"

definition newIssueTokenHandler :: "daemon \<Rightarrow> user_id \<times> string \<Rightarrow> http_request \<Rightarrow> sys \<Rightarrow> http_response \<times> sys" where
  "newIssueTokenHandler d who rq s =
     (case issueTokenRequest d (rq_body rq) of
        Inl err \<Rightarrow> (WriteError err, s)
      | Inr (label, scope) \<Rightarrow>
        if fst who = [] then (WriteError (unauthorized ''issue_token''), s)
        else (case IssueToken (dm_service d) (snd who) (fst who) label scope s of
            (Inl err, s1) \<Rightarrow> (WriteError err, s1)
          | (Inr t, s1) \<Rightarrow> (WriteJSON 201 (issueTokenResponse t), s1)))"

definition newRevokeTokenHandler :: "daemon \<Rightarrow> user_id \<times> string \<Rightarrow> string \<Rightarrow> sys \<Rightarrow> http_response \<times> sys" where
  "newRevokeTokenHandler d who tid s =
     (if tid = [] then (WriteError (required ''revoke_token'' ''missing id''), s)
      else if fst who = [] then (WriteError (unauthorized ''revoke_token''), s)
      else case RevokeToken (dm_service d) (snd who) (fst who) tid s of
        (Some err, s1) \<Rightarrow> (WriteErrorDetails err [(''token_id'', JStr tid)], s1)
      | (None, s1) \<Rightarrow> (no_content, s1))"

definition newListTokensHandler :: "daemon \<Rightarrow> user_id \<times> string \<Rightarrow> sys \<Rightarrow> http_response \<times> sys" where
  "newListTokensHandler d who s =
     (if fst who = [] then (WriteError (unauthorized ''list_tokens''), s)
      else case ListTokens (dm_service d) (snd who) (fst who) s of
        (Inl err, s1) \<Rightarrow> (WriteError err, s1)
      | (Inr toks, s1) \<Rightarrow> (WriteJSON 200 (JObj [(''tokens'', JArr (map tokenResponse toks))]), s1))"

section \<open>Routes\<close>

definition method_text :: "http_method \<Rightarrow> string" where
  "method_text m = (case m of MGet \<Rightarrow> ''GET'' | MHead \<Rightarrow> ''HEAD'' | MPost \<Rightarrow> ''POST'' | MDelete \<Rightarrow> ''DELETE'' | MOther \<Rightarrow> ''OTHER'')"

definition path_text :: "string list \<Rightarrow> string" where
  "path_text ps = concat (map (\<lambda>p. CHR ''/'' # p) ps)"

definition notFound :: "http_request \<Rightarrow> http_response" where
  "notFound rq = WriteErrorDetails
     (wrap (''route '' @ method_text (rq_method rq) @ '' '' @ path_text (rq_path rq) @ '': '') (plain SvcNotFound) [])
     [(''method'', JStr (method_text (rq_method rq))), (''path'', JStr (path_text (rq_path rq)))]"

text \<open>The mux: a GET pattern serves HEAD too, and the catch-all takes every method no other pattern does.\<close>

definition reads :: "http_method \<Rightarrow> bool" where
  "reads m \<longleftrightarrow> m = MGet \<or> m = MHead"

definition route :: "daemon \<Rightarrow> user_id \<times> string \<Rightarrow> http_request \<Rightarrow> sys \<Rightarrow> http_response \<times> sys" where
  "route d who rq s =
     (let m = rq_method rq; p = rq_path rq in
      if m = MPost \<and> p = [''v1'', ''venues'', ''resolve''] then newResolveVenueHandler d who rq s
      else if m = MPost \<and> p = [''v1'', ''quests'', ''plan''] then newPlanQuestHandler d who rq s
      else if m = MPost \<and> p = [''v1'', ''quests''] then newCreateQuestHandler d who rq s
      else if reads m \<and> p = [''v1'', ''quests''] then newListQuestsHandler d who rq s
      else if m = MPost \<and> p = [''v1'', ''accounts'', ''login''] then newLoginHandler d who rq s
      else if reads m \<and> p = [''v1'', ''accounts''] then newListAccountsHandler d who s
      else if m = MPost \<and> p = [''v1'', ''auth'', ''tokens''] then newIssueTokenHandler d who rq s
      else if reads m \<and> p = [''v1'', ''auth'', ''tokens''] then newListTokensHandler d who s
      else if length p = 3 \<and> take 2 p = [''v1'', ''quests''] \<and> p ! 2 \<noteq> [] \<and> reads m then newGetQuestHandler d who (p ! 2) s
      else if length p = 3 \<and> take 2 p = [''v1'', ''quests''] \<and> p ! 2 \<noteq> [] \<and> m = MDelete then newCancelQuestHandler d who (p ! 2) rq s
      else if length p = 4 \<and> take 2 p = [''v1'', ''quests''] \<and> p ! 2 \<noteq> [] \<and> p ! 3 = ''events'' \<and> reads m
        then newSubscribeQuestHandler d who (p ! 2) s
      else if length p = 4 \<and> take 3 p = [''v1'', ''auth'', ''tokens''] \<and> p ! 3 \<noteq> [] \<and> m = MDelete then newRevokeTokenHandler d who (p ! 3) s
      else (notFound rq, s))"

text \<open>The middleware around the routes.\<close>

definition serve :: "daemon \<Rightarrow> http_request \<Rightarrow> hstate \<Rightarrow> http_response \<times> hstate" where
  "serve d rq h = (case authenticate d (rq_auth rq) h of
       (Inl err, h1) \<Rightarrow> (WriteError err, h1)
     | (Inr who, h1) \<Rightarrow> (case route d who rq (hs_sys h1) of (resp, s) \<Rightarrow> (resp, h1\<lparr>hs_sys := s\<rparr>)))"

end
