(* ===== verification/HttpClient.thy ===== *)
theory HttpClient
  imports HttpApi
begin

text \<open>
  The client of the daemon (\<^verbatim>\<open>client/http\<close>): one definition per verb, over an exchange that takes a
  request to a response or to the text of a transport failure (\<^verbatim>\<open>net/http\<close>). Building a request
  from a path sets the decoded path of the URL to a text whose variable segment was already
  escaped, so the server sees the escaped form as the segment. The check of header values and the handling of
  redirects are \<^verbatim>\<open>net/http\<close>'s: a request that it refuses is a transport failure of the exchange.
\<close>

section \<open>Errors\<close>

datatype wire_sentinel = WSvc svc_sentinel | WProv sentinel

record api_error =
  ae_status :: nat
  ae_code :: string
  ae_message :: string
  ae_details :: members
  ae_sentinel :: "wire_sentinel option"

datatype client_error = EInvalid string | ETransport string | EDecode wire_error | EHttp api_error

definition codeToSentinel :: "string \<Rightarrow> wire_sentinel option" where
  "codeToSentinel code = map_of
     [(''unauthenticated'', WSvc SvcUnauthorized), (''token_expired'', WSvc SvcTokenExpired), (''token_revoked'', WSvc SvcTokenRevoked),
      (''forbidden'', WSvc SvcForbidden), (''not_found'', WSvc SvcNotFound), (''venue_not_found'', WSvc SvcVenueNotFound),
      (''conflict'', WSvc SvcConflict), (''idempotency_conflict'', WSvc SvcIdempotencyConflict),
      (''venue_ambiguous'', WSvc SvcVenueAmbiguous), (''invite_consumed'', WSvc SvcInviteConsumed),
      (''invite_expired'', WSvc SvcInviteExpired), (''validation_failed'', WSvc SvcInvalidArgument),
      (''plan_hash_mismatch'', WSvc SvcInvalidPlanHash), (''rate_limited'', WProv ErrRateLimited),
      (''provider_session_expired'', WProv ErrAuthExpired), (''provider_unavailable'', WSvc SvcUpstreamUnavailable)] code"

text \<open>The message of a body that cannot be decoded is the client's own; it is left empty here.\<close>

definition parseErrorEnvelope :: "nat \<Rightarrow> json option \<Rightarrow> api_error" where
  "parseErrorEnvelope status body =
     (let bare = \<lparr>ae_status = status, ae_code = [], ae_message = [], ae_details = [], ae_sentinel = None\<rparr> in
      case body of None \<Rightarrow> bare
      | Some j \<Rightarrow>
        (case bind_result (as_members j) (\<lambda>fs.
            bind_result (str_member ''code'' fs) (\<lambda>code.
            bind_result (str_member ''message'' fs) (\<lambda>msg.
            bind_result (obj_member ''details'' fs) (\<lambda>details. Inr (code, msg, details))))) of
           Inl _ \<Rightarrow> bare
         | Inr (code, msg, details) \<Rightarrow>
             \<lparr>ae_status = status, ae_code = code, ae_message = msg, ae_details = details, ae_sentinel = codeToSentinel code\<rparr>))"

text \<open>\<^verbatim>\<open>errors.Is\<close> of a client error and a sentinel.\<close>

definition error_is :: "client_error \<Rightarrow> wire_sentinel \<Rightarrow> bool" where
  "error_is e k \<longleftrightarrow> (case e of EHttp a \<Rightarrow> ae_sentinel a = Some k | EInvalid _ \<Rightarrow> k = WSvc SvcInvalidArgument | _ \<Rightarrow> False)"

section \<open>The exchange\<close>

record client =
  cl_token :: string
  cl_load_location :: "string \<Rightarrow> location option"
  cl_map_order :: "(string \<times> string) list \<Rightarrow> (string \<times> string) list"

type_synonym 'h exchange = "http_request \<Rightarrow> 'h \<Rightarrow> (string + http_response) \<times> 'h"

text \<open>\<^verbatim>\<open>url.PathEscape\<close>.\<close>

definition path_byte_kept :: "char \<Rightarrow> bool" where
  "path_byte_kept c \<longleftrightarrow> is_letter c \<or> is_digit c \<or> c \<in> set ''-_.~$&+:=@''"

definition PathEscape :: "string \<Rightarrow> string" where
  "PathEscape s = concat (map (\<lambda>c. if path_byte_kept c then [c]
     else [CHR ''%'', ''0123456789ABCDEF'' ! (byte c div 16), ''0123456789ABCDEF'' ! (byte c mod 16)]) s)"

definition newRequest :: "client \<Rightarrow> http_method \<Rightarrow> string list \<Rightarrow> (string \<times> string) list \<Rightarrow> json option \<Rightarrow> http_request" where
  "newRequest cl m path q body = \<lparr>rq_method = m, rq_path = path, rq_query = q,
     rq_auth = (if cl_token cl = [] then [] else ''Bearer '' @ cl_token cl),
     rq_body = (case body of None \<Rightarrow> NoBody | Some j \<Rightarrow> Document (marshaled j))\<rparr>"

definition client_do :: "'h exchange \<Rightarrow> http_request \<Rightarrow> 'h \<Rightarrow> (client_error + json option) \<times> 'h" where
  "client_do net rq h = (case net rq h of
       (Inl t, h1) \<Rightarrow> (Inl (ETransport t), h1)
     | (Inr resp, h1) \<Rightarrow>
         (if rs_status resp < 200 \<or> 300 \<le> rs_status resp then Inl (EHttp (parseErrorEnvelope (rs_status resp) (rs_body resp)))
          else Inr (rs_body resp), h1))"

text \<open>Decoding the response into a struct: an absent body leaves it zero.\<close>

definition into :: "(members \<Rightarrow> wire_error + 'a) \<Rightarrow> (client_error + json option) \<times> 'h \<Rightarrow> (client_error + 'a) \<times> 'h" where
  "into dec r = (case r of (Inl e, h) \<Rightarrow> (Inl e, h)
     | (Inr b, h) \<Rightarrow> (map_err EDecode (bind_result (case b of None \<Rightarrow> Inr [] | Some j \<Rightarrow> map_err WJson (as_members j)) dec), h))"

section \<open>Verbs\<close>

definition client_ResolveVenue :: "client \<Rightarrow> 'h exchange \<Rightarrow> venue_query option \<Rightarrow> 'h \<Rightarrow> (client_error + venue) \<times> 'h" where
  "client_ResolveVenue cl net q h = into (client_decodeVenue (cl_load_location cl)) (client_do net
     (newRequest cl MPost [''v1'', ''venues'', ''resolve''] [] (Some (JObj [(''venue_query'', query_marshal (client_encodeVenueQuery q))]))) h)"

definition client_PlanQuest :: "client \<Rightarrow> 'h exchange \<Rightarrow> goal \<Rightarrow> 'h \<Rightarrow> (client_error + plan) \<times> 'h" where
  "client_PlanQuest cl net g h =
     into (\<lambda>fs. bind_result (obj_field ''plan'' fs) (client_decodePlan (cl_load_location cl))) (client_do net
     (newRequest cl MPost [''v1'', ''quests'', ''plan''] [] (Some (JObj [(''goal'', client_encodeGoal g)]))) h)"

definition client_CreateQuest :: "client \<Rightarrow> 'h exchange \<Rightarrow> goal \<Rightarrow> CreateOpts \<Rightarrow> 'h \<Rightarrow> (client_error + string) \<times> 'h" where
  "client_CreateQuest cl net g opts h = into (str_field ''id'') (client_do net
     (newRequest cl MPost [''v1'', ''quests''] [] (Some (JObj ((''goal'', client_encodeGoal g) #
        opt_str ''plan_hash'' (co_plan_hash opts) @ opt_str ''idempotency_key'' (co_key opts))))) h)"

definition client_GetQuest :: "client \<Rightarrow> 'h exchange \<Rightarrow> string \<Rightarrow> 'h \<Rightarrow> (client_error + QuestState) \<times> 'h" where
  "client_GetQuest cl net k h = (if k = [] then (Inl (EInvalid ''GetQuest''), h)
     else into (client_decodeQuestState (cl_load_location cl) (cl_map_order cl)) (client_do net
       (newRequest cl MGet [''v1'', ''quests'', PathEscape k] [] None) h))"

definition list_query :: "QuestListFilter \<Rightarrow> (string \<times> string) list" where
  "list_query f =
     (if lf_status f = [] then [] else [(''status'', join_with '','' (map status_string (lf_status f)))]) @
     (case lf_account f of None \<Rightarrow> [] | Some a \<Rightarrow> [(''account_id'', a)]) @
     (case lf_since f of None \<Rightarrow> [] | Some t \<Rightarrow> [(''since'', format_rfc3339 t)]) @
     (case lf_until f of None \<Rightarrow> [] | Some t \<Rightarrow> [(''until'', format_rfc3339 t)]) @
     (if 0 < lf_limit f then [(''limit'', show_int (lf_limit f))] else []) @
     (if lf_cursor f = [] then [] else [(''cursor'', lf_cursor f)])"

definition client_ListQuests :: "client \<Rightarrow> 'h exchange \<Rightarrow> QuestListFilter \<Rightarrow> 'h \<Rightarrow> (client_error + QuestSummary list) \<times> 'h" where
  "client_ListQuests cl net f h =
     into (\<lambda>fs. bind_result (objs_field ''quests'' fs) (map_result client_decodeQuestSummary)) (client_do net
     (newRequest cl MGet [''v1'', ''quests''] (list_query f) None) h)"

definition client_CancelQuest :: "client \<Rightarrow> 'h exchange \<Rightarrow> string \<Rightarrow> CancelOpts \<Rightarrow> 'h \<Rightarrow> (client_error + unit) \<times> 'h" where
  "client_CancelQuest cl net k opts h = (if k = [] then (Inl (EInvalid ''CancelQuest''), h)
     else case client_do net (newRequest cl MDelete [''v1'', ''quests'', PathEscape k] []
         (if cn_reason opts \<noteq> [] \<or> cn_key opts \<noteq> None
          then Some (JObj (omitempty_str ''reason'' (cn_reason opts) @ opt_str ''idempotency_key'' (cn_key opts))) else None)) h of
       (r, h1) \<Rightarrow> (bind_result r (\<lambda>_. Inr ()), h1))"

definition client_Login :: "client \<Rightarrow> 'h exchange \<Rightarrow> string \<Rightarrow> string \<Rightarrow> 'h \<Rightarrow> (client_error + account_id) \<times> 'h" where
  "client_Login cl net email pw h = into (str_field ''account_id'') (client_do net
     (newRequest cl MPost [''v1'', ''accounts'', ''login''] [] (Some (JObj [(''email'', JStr email), (''password'', JStr pw)]))) h)"

definition client_ListAccounts :: "client \<Rightarrow> 'h exchange \<Rightarrow> 'h \<Rightarrow> (client_error + AccountRow list) \<times> 'h" where
  "client_ListAccounts cl net h =
     into (\<lambda>fs. bind_result (objs_field ''accounts'' fs) (map_result client_decodeAccount)) (client_do net
     (newRequest cl MGet [''v1'', ''accounts''] [] None) h)"

definition client_decodeBearer :: "members \<Rightarrow> wire_error + BearerToken" where
  "client_decodeBearer fs =
     bind_result (client_time_field ''created_at'' fs) (\<lambda>created.
     bind_result (str_field ''id'' fs) (\<lambda>k.
     bind_result (str_field ''token'' fs) (\<lambda>t.
     bind_result (str_field ''label'' fs) (\<lambda>l.
     bind_result (str_field ''scope'' fs) (\<lambda>sc.
       Inr \<lparr>bt_id = k, bt_token = t, bt_label = l, bt_scope = sc, bt_created_at = created\<rparr>)))))"

definition client_IssueToken :: "client \<Rightarrow> 'h exchange \<Rightarrow> string \<Rightarrow> string \<Rightarrow> 'h \<Rightarrow> (client_error + BearerToken) \<times> 'h" where
  "client_IssueToken cl net label scope h = into client_decodeBearer (client_do net
     (newRequest cl MPost [''v1'', ''auth'', ''tokens''] [] (Some (JObj [(''label'', JStr label), (''scope'', JStr scope)]))) h)"

definition client_RevokeToken :: "client \<Rightarrow> 'h exchange \<Rightarrow> string \<Rightarrow> 'h \<Rightarrow> (client_error + unit) \<times> 'h" where
  "client_RevokeToken cl net k h = (if k = [] then (Inl (EInvalid ''RevokeToken''), h)
     else case client_do net (newRequest cl MDelete [''v1'', ''auth'', ''tokens'', PathEscape k] [] None) h of
       (r, h1) \<Rightarrow> (bind_result r (\<lambda>_. Inr ()), h1))"

definition client_ListTokens :: "client \<Rightarrow> 'h exchange \<Rightarrow> 'h \<Rightarrow> (client_error + TokenRow list) \<times> 'h" where
  "client_ListTokens cl net h =
     into (\<lambda>fs. bind_result (objs_field ''tokens'' fs) (map_result client_decodeToken)) (client_do net
     (newRequest cl MGet [''v1'', ''auth'', ''tokens''] [] None) h)"

end
