(* ===== verification/WireFacts.thy ===== *)
theory WireFacts
  imports Wire
begin

text \<open>What a value is to the other side: every server encoder with the client decoder it is read by, as
  interpretations of \<open>view_codec\<close>, and the goals a client sends, as interpretations of \<open>codec\<close>.\<close>

section \<open>Views\<close>

definition in_obj :: "(members \<Rightarrow> wire_error + 'a) \<Rightarrow> json \<Rightarrow> wire_error + 'a" where
  "in_obj dec j = bind_result (map_err WJson (as_members j)) dec"

lemma in_obj_simps [simp]: "in_obj dec (JObj fs) = dec fs"
  by (simp add: in_obj_def)

lemma obj_field_in_obj: "member k fs = Some j \<Longrightarrow> bind_result (obj_field k fs) dec = in_obj dec j"
  by (simp add: obj_member_def in_obj_def)

fun release_secs :: "release_strategy \<Rightarrow> release_strategy" where
  "release_secs (ExplicitRelease t) = ExplicitRelease (secs t)"
| "release_secs (DiscoveredRelease t u) = DiscoveredRelease (secs t) (secs u)"
| "release_secs (ContinuousRelease t) = ContinuousRelease (secs t)"

definition plan_secs :: "plan \<Rightarrow> plan" where
  "plan_secs p = \<lparr>pl_goal = pl_goal p, pl_venue = pl_venue p, pl_drop_moment = secs (pl_drop_moment p),
     pl_strategy = map_option release_secs (pl_strategy p), pl_fire_schedule = map secs (pl_fire_schedule p),
     pl_signing_required = pl_signing_required p, pl_hash = pl_hash p, pl_notes = pl_notes p, pl_hash_version = pl_hash_version p,
     pl_computed_at = secs (pl_computed_at p)\<rparr>"

definition summary_secs :: "QuestSummary \<Rightarrow> QuestSummary" where
  "summary_secs q = \<lparr>qs_id = qs_id q, qs_user = qs_user q, qs_account = qs_account q, qs_status = qs_status q,
     qs_created_at = secs (qs_created_at q), qs_updated_at = secs (qs_updated_at q),
     qs_completed_at = map_option secs (qs_completed_at q), qs_plan_hash = qs_plan_hash q\<rparr>"

definition event_view :: "((string \<times> string) list \<Rightarrow> (string \<times> string) list) \<Rightarrow> event \<Rightarrow> event" where
  "event_view order e = \<lparr>ev_type = ev_type e, ev_at = secs (ev_at e),
     ev_attrs = map (\<lambda>(k, v). (k, AString v)) (order (attr_map (ev_attrs e)))\<rparr>"

definition state_view :: "((string \<times> string) list \<Rightarrow> (string \<times> string) list) \<Rightarrow> QuestState \<Rightarrow> QuestState" where
  "state_view order q = \<lparr>qx_summary = summary_secs (qx_summary q), qx_goal = qx_goal q, qx_plan = map_option plan_secs (qx_plan q),
     qx_events = map (event_view order) (qx_events q)\<rparr>"

definition account_secs :: "AccountRow \<Rightarrow> AccountRow" where
  "account_secs a = \<lparr>ar_id = ar_id a, ar_user = ar_user a, ar_resy_email = ar_resy_email a, ar_display_name = ar_display_name a,
     ar_created_at = secs (ar_created_at a), ar_disabled_at = map_option secs (ar_disabled_at a)\<rparr>"

definition token_view :: "TokenRow \<Rightarrow> TokenRow" where
  "token_view t = \<lparr>tr_id = tr_id t, tr_user = [], tr_hash = [], tr_scopes = tr_scopes t, tr_label = tr_label t,
     tr_created_at = secs (tr_created_at t), tr_last_seen = map_option secs (tr_last_seen t),
     tr_revoked_at = map_option secs (tr_revoked_at t)\<rparr>"

text \<open>The values the wire can carry: texts in UTF-8, times within the years of RFC 3339, goals a row could hold, venues whose
  location loads under its name.\<close>

definition opt_range :: "instant option \<Rightarrow> bool" where
  "opt_range t \<longleftrightarrow> (case t of None \<Rightarrow> True | Some x \<Rightarrow> rfc_range x)"

fun release_range :: "release_strategy \<Rightarrow> bool" where
  "release_range (ExplicitRelease t) \<longleftrightarrow> rfc_range t"
| "release_range (DiscoveredRelease t u) \<longleftrightarrow> rfc_range t \<and> rfc_range u"
| "release_range (ContinuousRelease t) \<longleftrightarrow> rfc_range t"

definition plan_sendable :: "(string \<Rightarrow> location option) \<Rightarrow> plan \<Rightarrow> bool" where
  "plan_sendable load p \<longleftrightarrow> goal_row_ok (pl_goal p) \<and> venue_loads load (pl_venue p) \<and> rfc_range (pl_drop_moment p) \<and>
     (case pl_strategy p of None \<Rightarrow> True | Some r \<Rightarrow> release_range r) \<and> list_all rfc_range (pl_fire_schedule p) \<and>
     int64 (pl_hash_version p) \<and> rfc_range (pl_computed_at p) \<and> valid_utf8 (pl_hash p) \<and> list_all valid_utf8 (pl_notes p)"

definition summary_sendable :: "QuestSummary \<Rightarrow> bool" where
  "summary_sendable q \<longleftrightarrow> rfc_range (qs_created_at q) \<and> rfc_range (qs_updated_at q) \<and> opt_range (qs_completed_at q) \<and>
     valid_utf8 (qs_id q) \<and> valid_utf8 (qs_user q) \<and> valid_utf8 (qs_account q) \<and> valid_utf8 (qs_plan_hash q)"

definition state_sendable :: "(string \<Rightarrow> location option) \<Rightarrow> QuestState \<Rightarrow> bool" where
  "state_sendable load q \<longleftrightarrow> summary_sendable (qx_summary q) \<and> goal_row_ok (qx_goal q) \<and>
     (case qx_plan q of None \<Rightarrow> False | Some p \<Rightarrow> plan_sendable load p) \<and> list_all (\<lambda>e. rfc_range (ev_at e) \<and> utf8_json (wire_encodeEvent e)) (qx_events q)"

definition account_sendable :: "AccountRow \<Rightarrow> bool" where
  "account_sendable a \<longleftrightarrow> rfc_range (ar_created_at a) \<and> opt_range (ar_disabled_at a) \<and>
     valid_utf8 (ar_id a) \<and> valid_utf8 (ar_user a) \<and> valid_utf8 (ar_resy_email a) \<and> valid_utf8 (ar_display_name a)"

definition token_sendable :: "TokenRow \<Rightarrow> bool" where
  "token_sendable t \<longleftrightarrow> rfc_range (tr_created_at t) \<and> opt_range (tr_last_seen t) \<and> opt_range (tr_revoked_at t) \<and>
     valid_utf8 (tr_id t) \<and> valid_utf8 (tr_scopes t) \<and> valid_utf8 (tr_label t)"

interpretation wire_time: view_codec wire_rfc3339 client_parseRFC3339 rfc_range secs
  by unfold_locales simp

section \<open>Goals\<close>

lemma opt_time_read [simp]: "opt_range t \<Longrightarrow> client_opt_time (map_option wire_rfc3339 t) = Inr (map_option secs t)"
  "opt_range t \<Longrightarrow> client_opt_time (map_option format_rfc3339 t) = Inr (map_option secs t)"
  by (auto simp: opt_range_def client_opt_time_def split: option.splits)

text \<open>Reading a field of a struct, from what its document holds for it.\<close>

lemma read_str: "member k fs = Some (JStr v) \<Longrightarrow> str_member k fs = Inr v"
  "member k fs = (if v = [] then None else Some (JStr v)) \<Longrightarrow> str_member k fs = Inr v"
  by (simp_all add: str_member_def split: if_splits)

lemma read_opt_str: "member k fs = map_option JStr v \<Longrightarrow> opt_str_member k fs = Inr v"
  by (cases v) (simp_all add: opt_str_member_def)

lemma read_time:
  "member k fs = Some (JStr (wire_rfc3339 t)) \<Longrightarrow> rfc_range t \<Longrightarrow> client_time_field k fs = Inr (secs t)"
  "member k fs = Some (JStr (format_rfc3339 t)) \<Longrightarrow> rfc_range t \<Longrightarrow> client_time_field k fs = Inr (secs t)"
  by (simp_all add: client_time_field_def read_str)

lemma read_opt_time:
  "member k fs = map_option (JStr \<circ> wire_rfc3339) t \<Longrightarrow> opt_range t \<Longrightarrow> client_opt_time_field k fs = Inr (map_option secs t)"
  "member k fs = map_option (JStr \<circ> format_rfc3339) t \<Longrightarrow> opt_range t \<Longrightarrow> client_opt_time_field k fs = Inr (map_option secs t)"
  by (simp_all add: client_opt_time_field_def read_opt_str option.map_comp [symmetric])

lemma read_strs: "member k fs = (if xs = [] then None else Some (JArr (map JStr xs))) \<Longrightarrow> strs_field k fs = Inr xs"
  by (simp add: strs_field_def arr_member_def str_elems split: if_splits)

lemma string_forms_nonempty: "date_string d \<noteq> []" "walltime_string w \<noteq> []"
  by (simp_all add: date_string_def walltime_string_def)

interpretation wire_goal: codec wire_encodeGoal "\<lambda>j. bind_result (map_err WJson (goal_unmarshal j)) wire_decodeGoal"
  "\<lambda>g. goal_row_ok g \<and> gl_venue_query g \<noteq> None"
proof
  fix g :: goal
  assume "goal_row_ok g \<and> gl_venue_query g \<noteq> None"
  then show "bind_result (map_err WJson (goal_unmarshal (wire_encodeGoal g))) wire_decodeGoal = Inr g"
    unfolding goal_row_ok_def
    by (simp add: wire_encodeGoal_def wire_goal_roundtrip wire_decodeGoal_def goal_of_wire_def wire_query_eq wire_query_roundtrip
        wire_priority_roundtrip date_codec.dec_enc walltime_codec.dec_enc)
qed

interpretation client_goal: codec wire_encodeGoal "\<lambda>j. bind_result (map_err WJson (goal_unmarshal j)) client_decodeGoal" goal_row_ok
proof
  fix g :: goal
  assume "goal_row_ok g"
  then show "bind_result (map_err WJson (goal_unmarshal (wire_encodeGoal g))) client_decodeGoal = Inr g"
    unfolding goal_row_ok_def
    by (simp add: wire_encodeGoal_def wire_goal_roundtrip client_decodeGoal_def goal_of_wire_def wire_query_eq wire_query_roundtrip
        wire_priority_roundtrip date_codec.dec_enc walltime_codec.dec_enc decodeWallTime_def string_forms_nonempty)
qed

lemma client_goal_field_read:
  assumes "member ''goal'' fs = Some (wire_encodeGoal g)" "goal_row_ok g"
  shows "client_goal_field fs = Inr g"
proof -
  obtain gs where "wire_encodeGoal g = JObj gs" by (simp add: wire_encodeGoal_def wire_goal_json_def)
  then show ?thesis using assms client_goal.dec_enc [OF assms(2)] by (simp add: client_goal_field_def obj_member_def)
qed

section \<open>Venues, strategies, plans\<close>

interpretation wire_venue: codec wire_encodeVenue "in_obj (client_decodeVenue load)" "venue_loads load" for load
proof
  show "in_obj (client_decodeVenue load) (wire_encodeVenue v) = Inr v" if "venue_loads load v" for v
    using that by (cases v) (auto simp: client_decodeVenue_def wire_encodeVenue_def venue_loads_def wire_reads split: option.splits)
qed

interpretation wire_strategy: view_codec wire_encodeStrategy "in_obj client_decodeStrategy"
  "\<lambda>st. case st of None \<Rightarrow> True | Some r \<Rightarrow> release_range r" "map_option release_secs"
proof
  show "in_obj client_decodeStrategy (wire_encodeStrategy st) = Inr (map_option release_secs st)"
    if "case st of None \<Rightarrow> True | Some r \<Rightarrow> release_range r" for st
  proof (cases st)
    case (Some r)
    then show ?thesis using that
      by (cases r) (auto simp: wire_encodeStrategy_def client_decodeStrategy_def wire_reads wire_rfc3339_def client_parseRFC3339_def
          is_zero_def format_rfc3339_parse)
  qed (simp add: wire_encodeStrategy_def client_decodeStrategy_def wire_reads)
qed

interpretation wire_plan: view_codec wire_encodePlan "in_obj (client_decodePlan load)" "plan_sendable load" plan_secs for load
proof
  fix p :: plan
  assume ok: "plan_sendable load p"
  define fs where "fs = (case wire_encodePlan p of JObj fs \<Rightarrow> fs | _ \<Rightarrow> [])"
  have fs: "wire_encodePlan p = JObj fs" by (simp add: wire_encodePlan_def fs_def)
  have m: "member ''goal'' fs = Some (wire_encodeGoal (pl_goal p))" "member ''venue'' fs = Some (wire_encodeVenue (pl_venue p))"
    "member ''strategy'' fs = Some (wire_encodeStrategy (pl_strategy p))"
    "member ''drop_moment'' fs = Some (JStr (wire_rfc3339 (pl_drop_moment p)))" "member ''computed_at'' fs = Some (JStr (wire_rfc3339 (pl_computed_at p)))"
    "member ''fire_schedule'' fs = (if map wire_rfc3339 (pl_fire_schedule p) = [] then None else Some (JArr (map JStr (map wire_rfc3339 (pl_fire_schedule p)))))"
    "member ''notes'' fs = (if pl_notes p = [] then None else Some (JArr (map JStr (pl_notes p))))"
    "member ''hash'' fs = (if pl_hash p = [] then None else Some (JStr (pl_hash p)))"
    "member ''signing_required'' fs = Some (JBool (pl_signing_required p))" "member ''plan_hash_version'' fs = Some (JInt (pl_hash_version p))"
    by (simp_all add: fs_def wire_encodePlan_def member_Cons member_append)
  have t: "map_result client_parseRFC3339 (map wire_rfc3339 (pl_fire_schedule p)) = Inr (map secs (pl_fire_schedule p))"
    using ok by (auto simp: plan_sendable_def list_all_iff intro: wire_time.dec_view_list)
  show "in_obj (client_decodePlan load) (wire_encodePlan p) = Inr (plan_secs p)"
    using ok unfolding fs in_obj_simps client_decodePlan_def plan_sendable_def
    by (simp add: client_goal_field_read [OF m(1)] obj_field_in_obj [OF m(2)] obj_field_in_obj [OF m(3)] wire_venue.dec_enc
        wire_strategy.dec_view read_time(1) [OF m(4)] read_time(1) [OF m(5)] read_strs [OF m(6)] read_strs [OF m(7)] read_str(2) [OF m(8)]
        bool_member_def int_member_def m(9,10) t plan_secs_def)
qed

section \<open>Quests\<close>

lemma statusFromString_text [simp]: "statusFromString (status_string st) = Some st" "client_statusFromString (status_string st) = Some st"
  by (cases st; simp add: statusFromString_def client_statusFromString_def AllStatuses_def)+

interpretation wire_summary: view_codec wire_encodeQuestSummary "in_obj client_decodeQuestSummary" summary_sendable summary_secs
proof
  fix q :: QuestSummary
  assume ok: "summary_sendable q"
  define fs where "fs = (case wire_encodeQuestSummary q of JObj fs \<Rightarrow> fs | _ \<Rightarrow> [])"
  have fs: "wire_encodeQuestSummary q = JObj fs" by (simp add: wire_encodeQuestSummary_def fs_def)
  have m: "member ''id'' fs = Some (JStr (qs_id q))" "member ''user_id'' fs = Some (JStr (qs_user q))"
    "member ''account_id'' fs = Some (JStr (qs_account q))" "member ''status'' fs = Some (JStr (status_string (qs_status q)))"
    "member ''created_at'' fs = Some (JStr (wire_rfc3339 (qs_created_at q)))" "member ''updated_at'' fs = Some (JStr (wire_rfc3339 (qs_updated_at q)))"
    "member ''completed_at'' fs = map_option (JStr \<circ> wire_rfc3339) (qs_completed_at q)"
    "member ''plan_hash'' fs = (if qs_plan_hash q = [] then None else Some (JStr (qs_plan_hash q)))"
    by (simp_all add: fs_def wire_encodeQuestSummary_def member_Cons member_append option.map_comp split: option.split)
  show "in_obj client_decodeQuestSummary (wire_encodeQuestSummary q) = Inr (summary_secs q)"
    using ok by (simp add: fs client_decodeQuestSummary_def summary_secs_def summary_sendable_def read_str(1) [OF m(1)] read_str(1) [OF m(2)]
        read_str(1) [OF m(3)] read_str(1) [OF m(4)] read_time(1) [OF m(5)] read_time(1) [OF m(6)] read_opt_time(1) [OF m(7)] read_str(2) [OF m(8)])
qed

lemma attr_map_keys: "distinct (map fst (attr_map as))"
  by (simp add: attr_map_def comp_def)

lemma str_map_read:
  assumes "distinct (map fst kvs)"
  shows "str_map (map (\<lambda>(k, v). (k, JStr v)) kvs) = Inr kvs"
proof -
  let ?fs = "map (\<lambda>(k, v). (k, JStr v)) kvs"
  have k: "map fst ?fs = map fst kvs" by (simp add: comp_def case_prod_unfold)
  have "str_field k ?fs = Inr v" if "(k, v) \<in> set kvs" for k v
  proof -
    have "map fst (rev ?fs) = rev (map fst kvs)" using k by (metis rev_map)
    then have "(k, JStr v) \<in> set (rev ?fs)" "distinct (map fst (rev ?fs))" using that assms by (auto simp del: map_map)
    then show ?thesis by (simp add: str_member_def member_def map_of_is_SomeI)
  qed
  then have "map_result (\<lambda>k. bind_result (str_field k ?fs) (\<lambda>v. Inr (k, v))) (map fst kvs') = Inr kvs'" if "set kvs' \<subseteq> set kvs" for kvs'
    using that by (induction kvs') auto
  then show ?thesis using assms unfolding str_map_def k by (simp add: distinct_remdups_id)
qed

interpretation wire_event: view_codec wire_encodeEvent "in_obj (client_decodeEvent order)" "\<lambda>e. rfc_range (ev_at e)" "event_view order" for order
proof
  fix e :: event
  assume "rfc_range (ev_at e)"
  then show "in_obj (client_decodeEvent order) (wire_encodeEvent e) = Inr (event_view order e)"
    by (cases "attr_map (ev_attrs e) = []")
      (simp_all add: wire_encodeEvent_def client_decodeEvent_def event_view_def client_time_field_def str_member_def obj_member_def
        member_Cons member_append str_map_read attr_map_keys, simp add: str_map_def)
qed

lemma wire_objs_read:
  assumes "member k fs = Some (JArr (map enc xs))" "\<And>x. x \<in> set xs \<Longrightarrow> \<exists>m. enc x = JObj m"
  shows "bind_result (objs_field k fs) (map_result dec) = map_result (in_obj dec) (map enc xs)"
proof -
  have "\<exists>ms. map_result as_members (map enc xs) = Inr ms \<and> map_result dec ms = map_result (in_obj dec) (map enc xs)"
    using assms(2)
  proof (induction xs)
    case (Cons x xs)
    then obtain m ms where "enc x = JObj m" "map_result as_members (map enc xs) = Inr ms" "map_result dec ms = map_result (in_obj dec) (map enc xs)"
      by (metis list.set_intros)
    then show ?case by (simp cong: sum.case_cong)
  qed simp
  then show ?thesis by (auto simp: objs_field_def arr_member_def assms(1))
qed

interpretation wire_state: view_codec wire_encodeQuestState "in_obj (client_decodeQuestState load order)" "state_sendable load" "state_view order"
  for load order
proof
  fix q :: QuestState
  assume ok: "state_sendable load q"
  then obtain p where p: "qx_plan q = Some p" "plan_sendable load p" by (auto simp: state_sendable_def split: option.splits)
  define fs where "fs = (case wire_encodeQuestState q of JObj fs \<Rightarrow> fs | _ \<Rightarrow> [])"
  have fs: "wire_encodeQuestState q = JObj fs" by (simp add: wire_encodeQuestState_def fs_def)
  have m: "member ''summary'' fs = Some (wire_encodeQuestSummary (qx_summary q))" "member ''goal'' fs = Some (wire_encodeGoal (qx_goal q))"
    "member ''plan'' fs = Some (wire_encodePlan p)" "member ''events'' fs = Some (JArr (map wire_encodeEvent (qx_events q)))"
    by (simp_all add: fs_def wire_encodeQuestState_def member_Cons p)
  have e: "bind_result (objs_field ''events'' fs) (map_result (client_decodeEvent order)) = Inr (map (event_view order) (qx_events q))"
    using wire_objs_read [OF m(4), where dec = "client_decodeEvent order"] wire_event.dec_view_list [of "qx_events q" order] ok
    by (simp add: state_sendable_def list_all_iff wire_encodeEvent_def)
  show "in_obj (client_decodeQuestState load order) (wire_encodeQuestState q) = Inr (state_view order q)"
    using ok unfolding fs in_obj_simps client_decodeQuestState_def obj_field_in_obj [OF m(1)] obj_field_in_obj [OF m(3)] e
    by (simp add: client_goal_field_read [OF m(2)] wire_summary.dec_view wire_plan.dec_view p state_sendable_def state_view_def)
qed

text \<open>The zero plan is written with a date that no decoder accepts.\<close>

lemma zero_date_rejected: "\<exists>y. ParseDate (date_string (Date 0 0 0)) = Inl y"
proof -
  have "case ParseDate (date_string (Date 0 0 0)) of Inl _ \<Rightarrow> True | Inr _ \<Rightarrow> False" by code_simp
  then show ?thesis by (auto split: sum.splits)
qed

section \<open>What is sent is UTF-8\<close>

lemma format_rfc3339_utf8 [simp]: "valid_utf8 (format_rfc3339 t)" "valid_utf8 (wire_rfc3339 t)"
proof -
  have "ascii (format_rfc3339 t)" using ascii_times(1) [of t] by (simp add: rfc3339nano_def format_rfc3339_def)
  then show "valid_utf8 (format_rfc3339 t)" by (rule valid_ascii)
  then show "valid_utf8 (wire_rfc3339 t)" by (simp add: wire_rfc3339_def)
qed

lemma status_utf8 [simp]: "valid_utf8 (status_string st)"
  by (cases st) simp_all

lemma utf8_opt_str [simp]:
  "list_all (\<lambda>(k, v). valid_utf8 k \<and> utf8_json v) (opt_str k x) \<longleftrightarrow> x = None \<or> valid_utf8 k \<and> valid_utf8 (the x)"
  "list_all (\<lambda>(k, v). valid_utf8 k \<and> utf8_json v) (omitempty_strs k xs) \<longleftrightarrow> xs = [] \<or> valid_utf8 k \<and> list_all valid_utf8 xs"
  by (auto simp: opt_str_def omitempty_strs_def split: option.split)

lemma wire_goal_utf8: "goal_utf8 g \<Longrightarrow> utf8_json (wire_encodeGoal g)"
  by (simp add: goal_utf8_def wire_encodeGoal_def wire_goal_json_def wire_query_eq query_marshal_utf8)

lemma wire_venue_utf8: "venue_loads load v \<Longrightarrow> utf8_json (wire_encodeVenue v)"
  by (simp add: venue_loads_def wire_encodeVenue_def split: option.splits)

lemma wire_strategy_utf8 [simp]: "utf8_json (wire_encodeStrategy st)"
  by (simp add: wire_encodeStrategy_def split: option.split release_strategy.split)

lemma wire_plan_utf8: "plan_sendable load p \<Longrightarrow> utf8_json (wire_encodePlan p)"
  using wire_venue_utf8 [of load "pl_venue p"] wire_goal_utf8 [of "pl_goal p"]
  by (simp add: plan_sendable_def goal_row_ok_def wire_encodePlan_def) (simp add: list_all_iff)

lemma wire_summary_utf8: "summary_sendable q \<Longrightarrow> utf8_json (wire_encodeQuestSummary q)"
  by (cases "qs_completed_at q") (auto simp: summary_sendable_def wire_encodeQuestSummary_def)

lemma wire_state_utf8: "state_sendable load q \<Longrightarrow> utf8_json (wire_encodeQuestState q)"
  by (auto simp: state_sendable_def goal_row_ok_def wire_encodeQuestState_def wire_summary_utf8 wire_goal_utf8 wire_plan_utf8 list_all_iff
      split: option.splits)

lemma wire_account_utf8: "account_sendable a \<Longrightarrow> utf8_json (wire_encodeAccount a)"
  by (cases "ar_disabled_at a") (auto simp: account_sendable_def wire_encodeAccount_def)

lemma wire_token_utf8: "token_sendable t \<Longrightarrow> utf8_json (tokenResponse t)"
  by (cases "tr_last_seen t"; cases "tr_revoked_at t") (auto simp: token_sendable_def tokenResponse_def)

lemma zero_plan_utf8: "utf8_json (wire_encodePlan zero_plan)"
  by code_simp

section \<open>Accounts and tokens\<close>

interpretation wire_account: view_codec wire_encodeAccount "in_obj client_decodeAccount" account_sendable account_secs
proof
  fix a :: AccountRow
  assume ok: "account_sendable a"
  define fs where "fs = (case wire_encodeAccount a of JObj fs \<Rightarrow> fs | _ \<Rightarrow> [])"
  have fs: "wire_encodeAccount a = JObj fs" by (simp add: wire_encodeAccount_def fs_def)
  have m: "member ''id'' fs = Some (JStr (ar_id a))" "member ''user_id'' fs = Some (JStr (ar_user a))"
    "member ''email'' fs = Some (JStr (ar_resy_email a))"
    "member ''display_name'' fs = (if ar_display_name a = [] then None else Some (JStr (ar_display_name a)))"
    "member ''created_at'' fs = Some (JStr (wire_rfc3339 (ar_created_at a)))" "member ''disabled_at'' fs = map_option (JStr \<circ> wire_rfc3339) (ar_disabled_at a)"
    by (simp_all add: fs_def wire_encodeAccount_def member_Cons member_append option.map_comp split: option.split)
  show "in_obj client_decodeAccount (wire_encodeAccount a) = Inr (account_secs a)"
    using ok by (simp add: fs client_decodeAccount_def account_secs_def account_sendable_def read_str(1) [OF m(1)] read_str(1) [OF m(2)]
        read_str(1) [OF m(3)] read_str(2) [OF m(4)] read_time(1) [OF m(5)] read_opt_time(1) [OF m(6)])
qed

interpretation wire_token: view_codec tokenResponse "in_obj client_decodeToken" token_sendable token_view
proof
  fix t :: TokenRow
  assume ok: "token_sendable t"
  define fs where "fs = (case tokenResponse t of JObj fs \<Rightarrow> fs | _ \<Rightarrow> [])"
  have fs: "tokenResponse t = JObj fs" by (simp add: tokenResponse_def fs_def)
  have m: "member ''id'' fs = Some (JStr (tr_id t))" "member ''scope'' fs = Some (JStr (tr_scopes t))"
    "member ''label'' fs = Some (JStr (tr_label t))" "member ''created_at'' fs = Some (JStr (format_rfc3339 (tr_created_at t)))"
    "member ''last_seen'' fs = map_option (JStr \<circ> format_rfc3339) (tr_last_seen t)"
    "member ''revoked_at'' fs = map_option (JStr \<circ> format_rfc3339) (tr_revoked_at t)"
    by (simp_all add: fs_def tokenResponse_def member_Cons member_append option.map_comp split: option.split)
  show "in_obj client_decodeToken (tokenResponse t) = Inr (token_view t)"
    using ok by (simp add: fs client_decodeToken_def token_view_def token_sendable_def read_str(1) [OF m(1)] read_str(1) [OF m(2)]
        read_str(1) [OF m(3)] read_time(2) [OF m(4)] read_opt_time(2) [OF m(5)] read_opt_time(2) [OF m(6)])
qed

end
