(* ===== verification/HttpFacts.thy ===== *)
theory HttpFacts
  imports HttpClient WireFacts ServiceSpec
begin

text \<open>The client against the daemon: what an exchange amounts to once the caller is authenticated, verb by verb.\<close>

section \<open>Errors across the wire\<close>

definition seen_error :: "svc_error \<Rightarrow> members \<Rightarrow> api_error" where
  "seen_error err details = (case MapError err of (status, code) \<Rightarrow>
     \<lparr>ae_status = status, ae_code = code, ae_message = (if status = 500 then ''internal server error'' else coerce_utf8 (sx_text err)),
      ae_details = map (\<lambda>(k, v). (coerce_utf8 k, marshaled v)) details, ae_sentinel = codeToSentinel code\<rparr>)"

lemma MapError_status: "400 \<le> fst (MapError err)"
  by (simp add: MapError_def Let_def)

lemma MapError_utf8 [simp]: "valid_utf8 (snd (MapError err))"
  by (simp add: MapError_def Let_def)

lemma parse_envelope: "parseErrorEnvelope (rs_status (WriteErrorDetails err ds)) (rs_body (WriteErrorDetails err ds)) = seen_error err ds"
  by (simp add: parseErrorEnvelope_def WriteErrorDetails_def seen_error_def case_prod_unfold Let_def str_member_def obj_member_def
      member_Cons if_distrib [of coerce_utf8])

declare marshaled.simps [simp del]

text \<open>A list of documents is UTF-8 if each of them is.\<close>

lemma utf8_list: "list_all ok xs \<Longrightarrow> (\<And>x. ok x \<Longrightarrow> utf8_json (enc x)) \<Longrightarrow> list_all utf8_json (map enc xs)"
  by (simp add: list_all_iff)

section \<open>An authenticated exchange\<close>

definition to_daemon :: "daemon \<Rightarrow> hstate exchange" where
  "to_daemon d rq h = (case serve d rq h of (resp, h1) \<Rightarrow> (Inr resp, h1))"

definition authed :: "daemon \<Rightarrow> client \<Rightarrow> hstate \<Rightarrow> user_id \<times> string \<Rightarrow> hstate \<Rightarrow> bool" where
  "authed d cl h who h1 \<longleftrightarrow> cl_token cl \<noteq> [] \<and> authenticate d (''Bearer '' @ cl_token cl) h = (Inr who, h1)"

definition outcome :: "http_response \<Rightarrow> client_error + json option" where
  "outcome resp = (if rs_status resp < 200 \<or> 300 \<le> rs_status resp then Inl (EHttp (parseErrorEnvelope (rs_status resp) (rs_body resp)))
     else Inr (rs_body resp))"

lemma outcome_simps [simp]:
  "outcome (WriteErrorDetails err ds) = Inl (EHttp (seen_error err ds))" "outcome (WriteError err) = Inl (EHttp (seen_error err []))"
  "outcome (WriteJSON 200 j) = Inr (Some (marshaled j))" "outcome (WriteJSON 201 j) = Inr (Some (marshaled j))" "outcome no_content = Inr None"
proof -
  have "300 \<le> rs_status (WriteErrorDetails err ds)" for err ds
    using MapError_status [of err] by (simp add: WriteErrorDetails_def case_prod_unfold Let_def)
  then show "outcome (WriteErrorDetails err ds) = Inl (EHttp (seen_error err ds))" for ds by (simp add: outcome_def parse_envelope)
  then show "outcome (WriteError err) = Inl (EHttp (seen_error err []))" by (simp add: WriteError_def)
qed (simp_all add: outcome_def WriteJSON_def no_content_def)

lemma do_authed:
  assumes "authed d cl h who h1" "route d who (newRequest cl m p q b) (hs_sys h1) = (resp, s)"
  shows "client_do (to_daemon d) (newRequest cl m p q b) h = (outcome resp, h1\<lparr>hs_sys := s\<rparr>)"
proof -
  have "rq_auth (newRequest cl m p q b) = ''Bearer '' @ cl_token cl" using assms(1) by (simp add: newRequest_def authed_def)
  then show ?thesis using assms by (simp add: client_do_def to_daemon_def serve_def authed_def outcome_def)
qed

lemma into_simps [simp]:
  "into dec (Inl e, h) = (Inl e, h)" "into dec (Inr (Some j), h) = (map_err EDecode (in_obj dec j), h)"
  by (simp_all add: into_def in_obj_def)

text \<open>What the client makes of the service's answer.\<close>

definition answer :: "members \<Rightarrow> ('a \<Rightarrow> 'b) \<Rightarrow> svc_error + 'a \<Rightarrow> client_error + 'b" where
  "answer ds view r = (case r of Inl err \<Rightarrow> Inl (EHttp (seen_error err ds)) | Inr x \<Rightarrow> Inr (view x))"

lemma answer_simps [simp]: "answer ds view (Inl err) = Inl (EHttp (seen_error err ds))" "answer ds view (Inr x) = Inr (view x)"
  by (simp_all add: answer_def)

definition sends :: "('a \<Rightarrow> bool) \<Rightarrow> svc_error + 'a \<Rightarrow> bool" where
  "sends ok r \<longleftrightarrow> (case r of Inl _ \<Rightarrow> True | Inr x \<Rightarrow> ok x)"

lemma sends_simps [simp]: "sends ok (Inl err)" "sends ok (Inr x) \<longleftrightarrow> ok x"
  by (simp_all add: sends_def)

section \<open>Paths and parameters\<close>

text \<open>An id whose bytes need no escaping and which is not a dot segment reaches the handler as it is.\<close>

definition safe_id :: "string \<Rightarrow> bool" where
  "safe_id k \<longleftrightarrow> k \<noteq> [] \<and> list_all path_byte_kept k \<and> k \<noteq> ''.'' \<and> k \<noteq> ''..''"

lemma PathEscape_safe: "safe_id k \<Longrightarrow> PathEscape k = k"
proof -
  have "list_all path_byte_kept xs \<Longrightarrow> PathEscape xs = xs" for xs by (induction xs) (simp_all add: PathEscape_def)
  then show "safe_id k \<Longrightarrow> ?thesis" by (simp add: safe_id_def)
qed

lemma splitCSV_item: "CHR '','' \<notin> set x \<Longrightarrow> splitCSV_from cur (x @ CHR '','' # r) = (if cur @ x = [] then [] else [cur @ x]) @ splitCSV_from [] r"
  "CHR '','' \<notin> set x \<Longrightarrow> splitCSV_from cur x = (if cur @ x = [] then [] else [cur @ x])"
  by (induction x arbitrary: cur) auto

lemma splitCSV_join:
  assumes "list_all (\<lambda>x. x \<noteq> [] \<and> CHR '','' \<notin> set x) xs"
  shows "splitCSV (join_with '','' xs) = xs"
  using assms
proof (induction xs)
  case (Cons x xs)
  then show ?case by (cases xs) (auto simp: splitCSV_def splitCSV_item)
qed (simp add: splitCSV_def)

lemma status_text_plain: "status_string st \<noteq> [] \<and> CHR '','' \<notin> set (status_string st)"
  by (cases st) simp_all

lemma parseStatusList_join: "parseStatusList (if ss = [] then [] else join_with '','' (map status_string ss)) = Inr ss"
proof (cases "ss = []")
  case False
  have s: "splitCSV (join_with '','' (map status_string ss)) = map status_string ss"
    by (rule splitCSV_join) (simp add: list_all_iff status_text_plain)
  then have "join_with '','' (map status_string ss) \<noteq> []" using False by (auto simp: splitCSV_def)
  moreover have "map_result (\<lambda>raw. case statusFromString raw of None \<Rightarrow> Inl (WStatus raw) | Some st \<Rightarrow> Inr st) (map status_string ts) = Inr ts" for ts
    by (induction ts) simp_all
  ultimately show ?thesis using False s by (simp add: parseStatusList_def)
qed (simp add: parseStatusList_def)

lemma Atoi_show_int: "0 \<le> n \<Longrightarrow> n < 2 ^ 63 \<Longrightarrow> Atoi (show_int n) = Some n"
proof -
  assume n: "0 \<le> n" "n < 2 ^ 63"
  have s: "show_int n = show_nat (nat n)" using n by (simp add: fmt_int_def zero_pad_def)
  obtain c r where c: "show_nat (nat n) = c # r" by (cases "show_nat (nat n)") auto
  then have "is_digit c" using show_nat_digits [of c "nat n"] by simp
  then have "c \<noteq> CHR ''-''" "c \<noteq> CHR ''+''" by (auto simp: is_digit_def digits_def)
  then show ?thesis using n read_digits_show_nat [of "nat n"] by (simp add: Atoi_def s c parse_uint_def)
qed

definition filter_view :: "QuestListFilter \<Rightarrow> QuestListFilter" where
  "filter_view f = (let moment = (\<lambda>t. if secs t = 0 then None else Some (secs t)) in
     \<lparr>lf_status = lf_status f, lf_account = Option.bind (lf_account f) null_if_empty, lf_since = Option.bind (lf_since f) moment,
      lf_until = Option.bind (lf_until f) moment, lf_limit = max 0 (lf_limit f), lf_cursor = lf_cursor f\<rparr>)"

lemma query_values:
  "query_value ''status'' (list_query f) = (if lf_status f = [] then [] else join_with '','' (map status_string (lf_status f)))"
  "query_value ''account_id'' (list_query f) = (case lf_account f of None \<Rightarrow> [] | Some a \<Rightarrow> a)"
  "query_value ''since'' (list_query f) = (case lf_since f of None \<Rightarrow> [] | Some t \<Rightarrow> format_rfc3339 t)"
  "query_value ''until'' (list_query f) = (case lf_until f of None \<Rightarrow> [] | Some t \<Rightarrow> format_rfc3339 t)"
  "query_value ''limit'' (list_query f) = (if 0 < lf_limit f then show_int (lf_limit f) else [])"
  "query_value ''cursor'' (list_query f) = lf_cursor f"
  by (simp_all add: query_value_def list_query_def map_of_append_Some split: option.split)

lemma parse_moment:
  "opt_range t \<Longrightarrow> parseRFC3339 (case t of None \<Rightarrow> [] | Some x \<Rightarrow> format_rfc3339 x) = Inr (case t of None \<Rightarrow> 0 | Some x \<Rightarrow> secs x)"
  by (auto simp: parseRFC3339_def opt_range_def format_rfc3339_parse split: option.splits)

lemma parseListFilter_list_query:
  assumes "opt_range (lf_since f)" "opt_range (lf_until f)" "lf_limit f < 2 ^ 63"
  shows "parseListFilter (list_query f) = Inr (filter_view f)"
proof -
  have limit: "(if query_value ''limit'' (list_query f) = [] then Inr 0
      else case Atoi (query_value ''limit'' (list_query f)) of None \<Rightarrow> Inl (WLimit x) | Some n \<Rightarrow> Inr n) = Inr (max 0 (lf_limit f))" for x
  proof (cases "0 < lf_limit f")
    case True
    then have "Atoi (show_int (lf_limit f)) = Some (lf_limit f)" using assms(3) by (simp add: Atoi_show_int)
    moreover from this have "show_int (lf_limit f) \<noteq> []" by (auto simp: Atoi_def parse_uint_def)
    ultimately show ?thesis using True by (simp add: query_values)
  qed (simp add: query_values)
  show ?thesis
    unfolding parseListFilter_def limit
    by (auto simp: query_values parseStatusList_join parse_moment assms filter_view_def is_zero_def null_if_empty_def Let_def split: option.splits)
qed

section \<open>Verbs\<close>

lemma read_list:
  assumes "view_codec enc (in_obj dec) ok view" "list_all ok xs" "\<And>x. \<exists>m. enc x = JObj m"
  shows "bind_result (objs_field k [(k, JArr (map enc xs))]) (map_result dec) = Inr (map view xs)"
proof -
  have "bind_result (objs_field k [(k, JArr (map enc xs))]) (map_result dec) = map_result (in_obj dec) (map enc xs)"
    by (rule wire_objs_read) (simp_all add: member_Cons assms(3))
  also have "\<dots> = Inr (map view xs)" using assms(2) by (intro view_codec.dec_view_list [OF assms(1)]) (simp add: list_all_iff)
  finally show ?thesis .
qed

lemmas route_simps = route_def newRequest_def reads_def body_members_def Let_def

lemma remote_ResolveVenue:
  assumes "authed d cl h who h1" "fst who \<noteq> []" "q \<noteq> None" "ResolveVenue (dm_service d) (fst who) q (hs_sys h1) = (r, s)"
    and "sends (venue_loads (cl_load_location cl)) r" and q: "query_utf8 q"
  shows "client_ResolveVenue cl (to_daemon d) q h = (answer [] (\<lambda>v. v) r, h1\<lparr>hs_sys := s\<rparr>)"
proof -
  have "bind_result (obj_member ''venue_query'' [(''venue_query'', query_marshal (wire_encodeVenueQuery q))]) query_unmarshal = Inr (wire_encodeVenueQuery q)"
    using query_marshal_roundtrip by (simp add: obj_member_def member_Cons)
  then have "route d who (newRequest cl MPost [''v1'', ''venues'', ''resolve''] [] (Some (JObj [(''venue_query'', query_marshal (wire_encodeVenueQuery q))])))
      (hs_sys h1) = (case r of Inl err \<Rightarrow> WriteError err | Inr v \<Rightarrow> WriteJSON 200 (wire_encodeVenue v), s)"
    using assms(2-4) query_marshal_utf8 [OF q]
    by (simp add: route_simps newResolveVenueHandler_def wire_query_eq wire_query_roundtrip split: sum.split)
  from do_authed [OF assms(1) this] assms(5) show ?thesis
    by (cases r) (simp_all add: client_ResolveVenue_def client_encodes wire_venue.dec_enc wire_venue_utf8)
qed

lemma goal_doc_utf8: "goal_row_ok g \<Longrightarrow> utf8_json (wire_encodeGoal g)"
  by (simp add: goal_row_ok_def wire_goal_utf8)

definition opt_utf8 :: "string option \<Rightarrow> bool" where
  "opt_utf8 x \<longleftrightarrow> (case x of None \<Rightarrow> True | Some s \<Rightarrow> valid_utf8 s)"

lemma opt_utf8_the [simp]: "x = None \<or> valid_utf8 (the x) \<longleftrightarrow> opt_utf8 x"
  by (simp add: opt_utf8_def split: option.split)

lemma goal_request_read:
  assumes "goal_row_ok g" "gl_venue_query g \<noteq> None"
  shows "\<exists>w. goal_request ((''goal'', wire_encodeGoal g) # opt_str ''plan_hash'' a @ opt_str ''idempotency_key'' b) = Inr w \<and> wire_decodeGoal w = Inr g"
    "\<exists>w. goal_request [(''goal'', wire_encodeGoal g)] = Inr w \<and> wire_decodeGoal w = Inr g"
proof -
  obtain gs where gs: "wire_encodeGoal g = JObj gs" by (simp add: wire_encodeGoal_def wire_goal_json_def)
  obtain w where "goal_unmarshal (wire_encodeGoal g) = Inr w" "wire_decodeGoal w = Inr g"
    using wire_goal.dec_enc [of g] assms by (cases "goal_unmarshal (wire_encodeGoal g)") auto
  then show "\<exists>w. goal_request ((''goal'', wire_encodeGoal g) # opt_str ''plan_hash'' a @ opt_str ''idempotency_key'' b) = Inr w \<and> wire_decodeGoal w = Inr g"
    "\<exists>w. goal_request [(''goal'', wire_encodeGoal g)] = Inr w \<and> wire_decodeGoal w = Inr g"
    by (simp_all add: goal_request_def obj_member_def member_Cons member_append gs)
qed

lemma remote_PlanQuest:
  assumes "authed d cl h who h1" "fst who \<noteq> []" "goal_row_ok g" "gl_venue_query g \<noteq> None"
    and "PlanQuest (dm_service d) (fst who) g (hs_sys h1) = (r, s)" "sends (plan_sendable (cl_load_location cl)) r"
  shows "client_PlanQuest cl (to_daemon d) g h = (answer [] plan_secs r, h1\<lparr>hs_sys := s\<rparr>)"
proof -
  have "route d who (newRequest cl MPost [''v1'', ''quests'', ''plan''] [] (Some (JObj [(''goal'', wire_encodeGoal g)]))) (hs_sys h1) =
      (case r of Inl err \<Rightarrow> WriteError err | Inr p \<Rightarrow> WriteJSON 200 (JObj [(''plan'', wire_encodePlan p)]), s)"
    using assms(2,5) goal_request_read(2) [OF assms(3,4)] goal_doc_utf8 [OF assms(3)]
    by (auto simp: route_simps newPlanQuestHandler_def split: sum.split)
  from do_authed [OF assms(1) this] assms(6) show ?thesis
    by (cases r) (simp_all add: client_PlanQuest_def client_encodes obj_field_in_obj member_Cons wire_plan.dec_view wire_plan_utf8)
qed

lemma remote_CreateQuest:
  assumes "authed d cl h who h1" "fst who \<noteq> []" "goal_row_ok g" "gl_venue_query g \<noteq> None"
    and "CreateQuest (dm_service d) (fst who) g opts (hs_sys h1) = ((k, err), s)"
    and "opt_utf8 (co_plan_hash opts)" "opt_utf8 (co_key opts)" "err = None \<Longrightarrow> valid_utf8 k"
  shows "client_CreateQuest cl (to_daemon d) g opts h =
    (answer [] (\<lambda>k. k) (case err of None \<Rightarrow> Inr k | Some e \<Rightarrow> Inl e), h1\<lparr>hs_sys := s\<rparr>)"
proof -
  let ?fs = "(''goal'', wire_encodeGoal g) # opt_str ''plan_hash'' (co_plan_hash opts) @ opt_str ''idempotency_key'' (co_key opts)"
  have "opt_str_member ''plan_hash'' ?fs = Inr (co_plan_hash opts)" "opt_str_member ''idempotency_key'' ?fs = Inr (co_key opts)"
    by (rule read_opt_str, simp add: member_Cons member_append split: option.split)+
  then obtain w where "createQuestRequest ?fs = Inr (w, opts)" "wire_decodeGoal w = Inr g"
    using goal_request_read(1) [OF assms(3,4), of "co_plan_hash opts" "co_key opts"] by (auto simp: createQuestRequest_def)
  then have "route d who (newRequest cl MPost [''v1'', ''quests''] [] (Some (JObj ?fs))) (hs_sys h1) =
      (case err of Some e \<Rightarrow> WriteError e | None \<Rightarrow> WriteJSON 201 (JObj [(''id'', JStr k)]), s)"
    using assms(2,5-7) goal_doc_utf8 [OF assms(3)] by (simp add: route_simps newCreateQuestHandler_def split: option.split)
  from do_authed [OF assms(1) this] assms(8) show ?thesis
    by (cases err) (simp_all add: client_CreateQuest_def client_encodes str_member_def member_Cons)
qed

lemma remote_GetQuest:
  assumes "authed d cl h who h1" "fst who \<noteq> []" "safe_id k" "GetQuest (dm_service d) (fst who) k (hs_sys h1) = (r, s)"
  shows "client_GetQuest cl (to_daemon d) k h = (bind_result (answer [(''quest_id'', JStr k)] (\<lambda>q. q) r)
    (\<lambda>q. map_err EDecode (in_obj (client_decodeQuestState (cl_load_location cl) (cl_map_order cl)) (marshaled (wire_encodeQuestState q)))), h1\<lparr>hs_sys := s\<rparr>)"
proof -
  have k: "k \<noteq> []" "PathEscape k = k" using assms(3) by (simp_all add: safe_id_def PathEscape_safe)
  then have "route d who (newRequest cl MGet [''v1'', ''quests'', k] [] None) (hs_sys h1) =
      (case r of Inl err \<Rightarrow> WriteErrorDetails err [(''quest_id'', JStr k)] | Inr q \<Rightarrow> WriteJSON 200 (wire_encodeQuestState q), s)"
    using assms(2,4) by (simp add: route_simps newGetQuestHandler_def ensureNonEmpty_def split: sum.split)
  from do_authed [OF assms(1) this] show ?thesis
    using k by (cases r) (simp_all add: client_GetQuest_def)
qed

lemma remote_ListQuests:
  assumes "authed d cl h who h1" "fst who \<noteq> []" "opt_range (lf_since f)" "opt_range (lf_until f)" "lf_limit f < 2 ^ 63"
    and "ListQuests (dm_service d) (fst who) (filter_view f) (hs_sys h1) = (r, s)" "sends (list_all summary_sendable) r"
  shows "client_ListQuests cl (to_daemon d) f h = (answer [] (map summary_secs) r, h1\<lparr>hs_sys := s\<rparr>)"
proof -
  have "route d who (newRequest cl MGet [''v1'', ''quests''] (list_query f) None) (hs_sys h1) =
      (case r of Inl err \<Rightarrow> WriteError err | Inr rows \<Rightarrow> WriteJSON 200 (JObj [(''quests'', JArr (map wire_encodeQuestSummary rows))]), s)"
    using assms(2,6) parseListFilter_list_query [OF assms(3-5)] by (simp add: route_simps newListQuestsHandler_def split: sum.split)
  note do_authed [OF assms(1) this]
  moreover have "bind_result (objs_field ''quests'' [(''quests'', JArr (map wire_encodeQuestSummary rows))]) (map_result client_decodeQuestSummary) = Inr (map summary_secs rows)"
    if "r = Inr rows" for rows
    by (rule read_list [OF wire_summary.view_codec_axioms]) (use that assms(7) in \<open>simp_all add: wire_encodeQuestSummary_def\<close>)
  moreover have "list_all utf8_json (map wire_encodeQuestSummary rows)" if "r = Inr rows" for rows
    by (rule utf8_list [OF _ wire_summary_utf8]) (use that assms(7) in simp)
  ultimately show ?thesis by (cases r) (simp_all add: client_ListQuests_def)
qed

definition completion :: "svc_error option \<Rightarrow> svc_error + unit" where
  "completion r = (case r of None \<Rightarrow> Inr () | Some err \<Rightarrow> Inl err)"

lemma completion_simps [simp]: "completion None = Inr ()" "completion (Some err) = Inl err"
  by (simp_all add: completion_def)

lemma remote_CancelQuest:
  assumes "authed d cl h who h1" "fst who \<noteq> []" "safe_id k" "CancelQuest (dm_service d) (fst who) k opts (hs_sys h1) = (r, s)"
    and "valid_utf8 (cn_reason opts)" "opt_utf8 (cn_key opts)"
  shows "client_CancelQuest cl (to_daemon d) k opts h = (answer [(''quest_id'', JStr k)] (\<lambda>x. x) (completion r), h1\<lparr>hs_sys := s\<rparr>)"
proof -
  have k: "k \<noteq> []" "PathEscape k = k" using assms(3) by (simp_all add: safe_id_def PathEscape_safe)
  let ?fs = "omitempty_str ''reason'' (cn_reason opts) @ opt_str ''idempotency_key'' (cn_key opts)"
  let ?body = "if cn_reason opts \<noteq> [] \<or> cn_key opts \<noteq> None then Some (JObj ?fs) else None"
  have "str_member ''reason'' ?fs = Inr (cn_reason opts)" by (rule read_str(2)) (simp add: member_append)
  moreover have "opt_str_member ''idempotency_key'' ?fs = Inr (cn_key opts)"
    by (rule read_opt_str) (simp add: member_append split: option.split)
  ultimately have "cancelQuestRequest ?fs = Inr opts" by (simp add: cancelQuestRequest_def)
  then have "route d who (newRequest cl MDelete [''v1'', ''quests'', k] [] ?body) (hs_sys h1) =
      (case r of Some err \<Rightarrow> WriteErrorDetails err [(''quest_id'', JStr k)] | None \<Rightarrow> no_content, s)"
    using assms(2,4-6) k by (cases opts) (auto simp: route_simps newCancelQuestHandler_def ensureNonEmpty_def split: option.split)
  from do_authed [OF assms(1) this] show ?thesis
    using k by (cases r) (simp_all add: client_CancelQuest_def)
qed

lemma remote_Login:
  assumes "authed d cl h who h1" "fst who \<noteq> []" "email \<noteq> []" "pw \<noteq> []" "Login (dm_service d) (fst who) email pw (hs_sys h1) = (r, s)"
    and "valid_utf8 email" "valid_utf8 pw" "sends valid_utf8 r"
  shows "client_Login cl (to_daemon d) email pw h = (answer [] (\<lambda>x. x) r, h1\<lparr>hs_sys := s\<rparr>)"
proof -
  have "route d who (newRequest cl MPost [''v1'', ''accounts'', ''login''] [] (Some (JObj [(''email'', JStr email), (''password'', JStr pw)]))) (hs_sys h1) =
      (case r of Inl err \<Rightarrow> WriteError err | Inr a \<Rightarrow> WriteJSON 201 (JObj [(''account_id'', JStr a)]), s)"
    using assms(2-7) by (simp add: route_simps newLoginHandler_def str_member_def member_Cons split: sum.split)
  from do_authed [OF assms(1) this] assms(8) show ?thesis
    by (cases r) (simp_all add: client_Login_def str_member_def member_Cons)
qed

lemma remote_ListAccounts:
  assumes "authed d cl h who h1" "fst who \<noteq> []" "ListAccounts (dm_service d) (fst who) (hs_sys h1) = (r, s)"
    and "sends (list_all account_sendable) r"
  shows "client_ListAccounts cl (to_daemon d) h = (answer [] (map account_secs) r, h1\<lparr>hs_sys := s\<rparr>)"
proof -
  have "route d who (newRequest cl MGet [''v1'', ''accounts''] [] None) (hs_sys h1) =
      (case r of Inl err \<Rightarrow> WriteError err | Inr rows \<Rightarrow> WriteJSON 200 (JObj [(''accounts'', JArr (map wire_encodeAccount rows))]), s)"
    using assms(2,3) by (simp add: route_simps newListAccountsHandler_def split: sum.split)
  note do_authed [OF assms(1) this]
  moreover have "bind_result (objs_field ''accounts'' [(''accounts'', JArr (map wire_encodeAccount rows))]) (map_result client_decodeAccount) = Inr (map account_secs rows)"
    if "r = Inr rows" for rows
    by (rule read_list [OF wire_account.view_codec_axioms]) (use that assms(4) in \<open>simp_all add: wire_encodeAccount_def\<close>)
  moreover have "list_all utf8_json (map wire_encodeAccount rows)" if "r = Inr rows" for rows
    by (rule utf8_list [OF _ wire_account_utf8]) (use that assms(4) in simp)
  ultimately show ?thesis by (cases r) (simp_all add: client_ListAccounts_def)
qed

definition bearer_secs :: "BearerToken \<Rightarrow> BearerToken" where
  "bearer_secs t = \<lparr>bt_id = bt_id t, bt_token = bt_token t, bt_label = bt_label t, bt_scope = bt_scope t,
     bt_created_at = secs (bt_created_at t)\<rparr>"

definition bearer_sendable :: "BearerToken \<Rightarrow> bool" where
  "bearer_sendable t \<longleftrightarrow> rfc_range (bt_created_at t) \<and>
     valid_utf8 (bt_id t) \<and> valid_utf8 (bt_token t) \<and> valid_utf8 (bt_label t) \<and> valid_utf8 (bt_scope t)"

lemma bearer_utf8: "bearer_sendable t \<Longrightarrow> utf8_json (issueTokenResponse t)"
  by (simp add: bearer_sendable_def issueTokenResponse_def)

interpretation wire_bearer: view_codec issueTokenResponse "in_obj client_decodeBearer" bearer_sendable bearer_secs
proof
  show "in_obj client_decodeBearer (issueTokenResponse t) = Inr (bearer_secs t)" if "bearer_sendable t" for t
    using that by (simp add: bearer_sendable_def issueTokenResponse_def client_decodeBearer_def bearer_secs_def client_time_field_def str_member_def member_Cons)
qed

lemma remote_IssueToken:
  assumes "authed d cl h who h1" "fst who \<noteq> []" "IssueToken (dm_service d) (snd who) (fst who) label scope (hs_sys h1) = (r, s)"
    and "sends bearer_sendable r" "valid_utf8 label" "valid_utf8 scope"
  shows "client_IssueToken cl (to_daemon d) label scope h = (answer [] bearer_secs r, h1\<lparr>hs_sys := s\<rparr>)"
proof -
  have "route d who (newRequest cl MPost [''v1'', ''auth'', ''tokens''] [] (Some (JObj [(''label'', JStr label), (''scope'', JStr scope)]))) (hs_sys h1) =
      (case r of Inl err \<Rightarrow> WriteError err | Inr t \<Rightarrow> WriteJSON 201 (issueTokenResponse t), s)"
    using assms(2,3,5,6) by (simp add: route_simps newIssueTokenHandler_def issueTokenRequest_def str_member_def member_Cons split: sum.split)
  from do_authed [OF assms(1) this] assms(4) show ?thesis
    by (cases r) (simp_all add: client_IssueToken_def wire_bearer.dec_view bearer_utf8)
qed

lemma remote_RevokeToken:
  assumes "authed d cl h who h1" "fst who \<noteq> []" "safe_id k" "RevokeToken (dm_service d) (snd who) (fst who) k (hs_sys h1) = (r, s)"
  shows "client_RevokeToken cl (to_daemon d) k h = (answer [(''token_id'', JStr k)] (\<lambda>x. x) (completion r), h1\<lparr>hs_sys := s\<rparr>)"
proof -
  have k: "k \<noteq> []" "PathEscape k = k" using assms(3) by (simp_all add: safe_id_def PathEscape_safe)
  then have "route d who (newRequest cl MDelete [''v1'', ''auth'', ''tokens'', k] [] None) (hs_sys h1) =
      (case r of Some err \<Rightarrow> WriteErrorDetails err [(''token_id'', JStr k)] | None \<Rightarrow> no_content, s)"
    using assms(2,4) by (simp add: route_simps newRevokeTokenHandler_def split: option.split)
  from do_authed [OF assms(1) this] show ?thesis
    using k by (cases r) (simp_all add: client_RevokeToken_def)
qed

lemma remote_ListTokens:
  assumes "authed d cl h who h1" "fst who \<noteq> []" "ListTokens (dm_service d) (snd who) (fst who) (hs_sys h1) = (r, s)"
    and "sends (list_all token_sendable) r"
  shows "client_ListTokens cl (to_daemon d) h = (answer [] (map token_view) r, h1\<lparr>hs_sys := s\<rparr>)"
proof -
  have "route d who (newRequest cl MGet [''v1'', ''auth'', ''tokens''] [] None) (hs_sys h1) =
      (case r of Inl err \<Rightarrow> WriteError err | Inr rows \<Rightarrow> WriteJSON 200 (JObj [(''tokens'', JArr (map tokenResponse rows))]), s)"
    using assms(2,3) by (simp add: route_simps newListTokensHandler_def split: sum.split)
  note do_authed [OF assms(1) this]
  moreover have "bind_result (objs_field ''tokens'' [(''tokens'', JArr (map tokenResponse rows))]) (map_result client_decodeToken) = Inr (map token_view rows)"
    if "r = Inr rows" for rows
    by (rule read_list [OF wire_token.view_codec_axioms]) (use that assms(4) in \<open>simp_all add: tokenResponse_def\<close>)
  moreover have "list_all utf8_json (map tokenResponse rows)" if "r = Inr rows" for rows
    by (rule utf8_list [OF _ wire_token_utf8]) (use that assms(4) in simp)
  ultimately show ?thesis by (cases r) (simp_all add: client_ListTokens_def)
qed

end
