(* ===== verification/HttpSpec.thy ===== *)
theory HttpSpec
  imports HttpFacts
begin

text \<open>The properties of the HTTP surface and its client, with their witnesses.\<close>

section \<open>An example client\<close>

definition ex_daemon :: daemon where
  "ex_daemon = \<lparr>dm_service = ex_service, dm_text = (\<lambda>_. ''why''), dm_write_time = (\<lambda>_. 0)\<rparr>"

definition ex_client :: client where
  "ex_client = \<lparr>cl_token = ''tok_ana'', cl_load_location = (\<lambda>_. Some utc), cl_map_order = (\<lambda>x. x)\<rparr>"

definition ex_token :: token_row where
  "ex_token = \<lparr>tk_id = ''tok_1'', tk_user = ''u_ana'', tk_hash = ''tok_ana'', tk_scopes = ''operator'', tk_label = ''laptop'',
     tk_created_at = 1767225600, tk_last_seen = None, tk_revoked_at = None\<rparr>"

text \<open>The daemon with one quest and one token, at an instant.\<close>

definition ex_host :: "instant \<Rightarrow> hstate" where
  "ex_host now = \<lparr>hs_sys = \<lparr>sy_w = (sy_w (ex_sys []))\<lparr>w_now := now\<rparr>, sy_q = (ex_qdb [ex_quest ''u_ana'' ''q_1''])\<lparr>q_tokens := [ex_token]\<rparr>\<rparr>,
     hs_touch = Map.empty\<rparr>"

lemma ex_bearer: "parseBearer (''Bearer '' @ ''tok_ana'') = Some ''tok_ana''"
  by code_simp

lemma ex_hashes [simp]: "sv_blake2b ex_service = (\<lambda>x. x)" "dm_service ex_daemon = ex_service"
  by (simp_all add: ex_service_def ex_daemon_def)

lemma ex_authed:
  "\<exists>h1. authed ex_daemon ex_client (ex_host now) (''u_ana'', ''operator'') h1 \<and> now_of (hs_sys h1) = now \<and>
     q_quests (sy_q (hs_sys h1)) = [ex_quest ''u_ana'' ''q_1''] \<and> q_events (sy_q (hs_sys h1)) = []"
proof -
  have t: "e_store_time ex_env n = 0" for n by (simp add: ex_env_def)
  show ?thesis
    using ex_bearer by (simp add: authed_def ex_client_def authenticate_def Let_def q_read_def q_exec_def live_io [OF ex_env_live(1)]
        store_FindTokenByHash_def ex_host_def live_token_def ex_token_def scanTokenRow_def shouldTouch_def
        store_TouchTokenSeen_def now_of_def after_store_def ex_qdb_def t)
qed

section \<open>Remote calls\<close>

datatype api_call =
    CallResolveVenue "venue_query option" | CallPlanQuest goal | CallCreateQuest goal CreateOpts | CallGetQuest string
  | CallListQuests QuestListFilter | CallCancelQuest string CancelOpts | CallLogin string string | CallListAccounts
  | CallIssueToken string string | CallRevokeToken string | CallListTokens

datatype api_result =
    GotVenue venue | GotPlan plan | GotQuestID string | GotQuest QuestState | GotQuests "QuestSummary list" | GotNothing
  | GotAccountID account_id | GotAccounts "AccountRow list" | GotToken BearerToken | GotTokens "TokenRow list"

text \<open>A verb of the client against the daemon.\<close>

fun remote :: "daemon \<Rightarrow> client \<Rightarrow> api_call \<Rightarrow> hstate \<Rightarrow> (client_error + api_result) \<times> hstate" where
  "remote d cl (CallResolveVenue q) h = apfst (map_sum id GotVenue) (client_ResolveVenue cl (to_daemon d) q h)"
| "remote d cl (CallPlanQuest g) h = apfst (map_sum id GotPlan) (client_PlanQuest cl (to_daemon d) g h)"
| "remote d cl (CallCreateQuest g opts) h = apfst (map_sum id GotQuestID) (client_CreateQuest cl (to_daemon d) g opts h)"
| "remote d cl (CallGetQuest k) h = apfst (map_sum id GotQuest) (client_GetQuest cl (to_daemon d) k h)"
| "remote d cl (CallListQuests f) h = apfst (map_sum id GotQuests) (client_ListQuests cl (to_daemon d) f h)"
| "remote d cl (CallCancelQuest k opts) h = apfst (map_sum id (\<lambda>_. GotNothing)) (client_CancelQuest cl (to_daemon d) k opts h)"
| "remote d cl (CallLogin email pw) h = apfst (map_sum id GotAccountID) (client_Login cl (to_daemon d) email pw h)"
| "remote d cl CallListAccounts h = apfst (map_sum id GotAccounts) (client_ListAccounts cl (to_daemon d) h)"
| "remote d cl (CallIssueToken label scope) h = apfst (map_sum id GotToken) (client_IssueToken cl (to_daemon d) label scope h)"
| "remote d cl (CallRevokeToken k) h = apfst (map_sum id (\<lambda>_. GotNothing)) (client_RevokeToken cl (to_daemon d) k h)"
| "remote d cl CallListTokens h = apfst (map_sum id GotTokens) (client_ListTokens cl (to_daemon d) h)"

text \<open>The service verb it stands for, called with the scope of the token.\<close>

fun as_request :: "string \<Rightarrow> api_call \<Rightarrow> request" where
  "as_request scope (CallResolveVenue q) = ReqResolveVenue q"
| "as_request scope (CallPlanQuest g) = ReqPlanQuest g"
| "as_request scope (CallCreateQuest g opts) = ReqCreateQuest g opts"
| "as_request scope (CallGetQuest k) = ReqGetQuest k"
| "as_request scope (CallListQuests f) = ReqListQuests (filter_view f)"
| "as_request scope (CallCancelQuest k opts) = ReqCancelQuest k opts"
| "as_request scope (CallLogin email pw) = ReqLogin email pw"
| "as_request scope CallListAccounts = ReqListAccounts"
| "as_request scope (CallIssueToken label sc) = ReqIssueToken scope label sc"
| "as_request scope (CallRevokeToken k) = ReqRevokeToken scope k"
| "as_request scope CallListTokens = ReqListTokens scope"

text \<open>What the client is told of the service's answer: values to the second, errors with their code and sentinel.\<close>

fun call_details :: "api_call \<Rightarrow> members" where
  "call_details (CallGetQuest k) = [(''quest_id'', JStr k)]"
| "call_details (CallCancelQuest k opts) = [(''quest_id'', JStr k)]"
| "call_details (CallRevokeToken k) = [(''token_id'', JStr k)]"
| "call_details call = []"

fun client_view :: "client \<Rightarrow> members \<Rightarrow> response \<Rightarrow> client_error + api_result" where
  "client_view cl ds (RespVenue r) = answer ds GotVenue r"
| "client_view cl ds (RespPlan r) = answer ds (GotPlan \<circ> plan_secs) r"
| "client_view cl ds (RespCreated r) = answer ds GotQuestID (case snd r of None \<Rightarrow> Inr (fst r) | Some err \<Rightarrow> Inl err)"
| "client_view cl ds (RespQuest r) = answer ds (GotQuest \<circ> state_view (cl_map_order cl)) r"
| "client_view cl ds (RespQuests r) = answer ds (GotQuests \<circ> map summary_secs) r"
| "client_view cl ds (RespDone r) = answer ds (\<lambda>_. GotNothing) (completion r)"
| "client_view cl ds (RespAccount r) = answer ds GotAccountID r"
| "client_view cl ds (RespAccounts r) = answer ds (GotAccounts \<circ> map account_secs) r"
| "client_view cl ds (RespToken r) = answer ds (GotToken \<circ> bearer_secs) r"
| "client_view cl ds (RespTokens r) = answer ds (GotTokens \<circ> map token_view) r"
| "client_view cl ds (RespStream r) = Inr GotNothing"

text \<open>The calls and answers the wire can carry.\<close>

fun call_ok :: "api_call \<Rightarrow> bool" where
  "call_ok (CallResolveVenue q) \<longleftrightarrow> q \<noteq> None \<and> query_utf8 q"
| "call_ok (CallPlanQuest g) \<longleftrightarrow> goal_row_ok g \<and> gl_venue_query g \<noteq> None"
| "call_ok (CallCreateQuest g opts) \<longleftrightarrow> goal_row_ok g \<and> gl_venue_query g \<noteq> None \<and> opt_utf8 (co_plan_hash opts) \<and> opt_utf8 (co_key opts)"
| "call_ok (CallGetQuest k) \<longleftrightarrow> safe_id k"
| "call_ok (CallListQuests f) \<longleftrightarrow> opt_range (lf_since f) \<and> opt_range (lf_until f) \<and> lf_limit f < 2 ^ 63"
| "call_ok (CallCancelQuest k opts) \<longleftrightarrow> safe_id k \<and> valid_utf8 (cn_reason opts) \<and> opt_utf8 (cn_key opts)"
| "call_ok (CallLogin email pw) \<longleftrightarrow> email \<noteq> [] \<and> pw \<noteq> [] \<and> valid_utf8 email \<and> valid_utf8 pw"
| "call_ok (CallIssueToken label scope) \<longleftrightarrow> valid_utf8 label \<and> valid_utf8 scope"
| "call_ok (CallRevokeToken k) \<longleftrightarrow> safe_id k"
| "call_ok call \<longleftrightarrow> True"

fun answer_sendable :: "(string \<Rightarrow> location option) \<Rightarrow> response \<Rightarrow> bool" where
  "answer_sendable load (RespVenue r) \<longleftrightarrow> sends (venue_loads load) r"
| "answer_sendable load (RespPlan r) \<longleftrightarrow> sends (plan_sendable load) r"
| "answer_sendable load (RespCreated r) \<longleftrightarrow> (snd r = None \<longrightarrow> valid_utf8 (fst r))"
| "answer_sendable load (RespQuest r) \<longleftrightarrow> sends (state_sendable load) r"
| "answer_sendable load (RespQuests r) \<longleftrightarrow> sends (list_all summary_sendable) r"
| "answer_sendable load (RespAccounts r) \<longleftrightarrow> sends (list_all account_sendable) r"
| "answer_sendable load (RespAccount r) \<longleftrightarrow> sends valid_utf8 r"
| "answer_sendable load (RespToken r) \<longleftrightarrow> sends bearer_sendable r"
| "answer_sendable load (RespTokens r) \<longleftrightarrow> sends (list_all token_sendable) r"
| "answer_sendable load r \<longleftrightarrow> True"

lemma map_sum_answer: "map_sum id f (answer ds view r) = answer ds (f \<circ> view) r"
  by (simp add: answer_def split: sum.split)

text \<open>C26: a verb of the client is the verb of the service. For a client whose token the daemon knows, each of
  the eleven unary verbs, sent over HTTP, leaves the system exactly as the same verb of the
  service called for the token's user and scope would, after the authentication, and the client
  is told the service's answer: the same venue, plan, quest, summaries, accounts or tokens, with
  times cut to the second, or an error with the status and code of the service's error and the
  sentinel its code stands for. Ids need no escaping, the texts sent and answered are UTF-8 (in the
  message of an error, bytes that are not become U+FFFD), times are within the years of RFC 3339, and a quest's plan could be rebuilt.\<close>

theorem remote_call_transparent:
  assumes "authed d cl h (u, scope) h1" "u \<noteq> []" "call_ok call"
    and "respond (dm_service d) u (as_request scope call) (hs_sys h1) = (r, s)" "answer_sendable (cl_load_location cl) r"
  shows "remote d cl call h = (client_view cl (call_details call) r, h1\<lparr>hs_sys := s\<rparr>)"
proof (cases call)
  case (CallGetQuest k)
  then obtain x where "r = RespQuest x" "GetQuest (dm_service d) u k (hs_sys h1) = (x, s)" using assms(4) by (auto simp: apfst_def map_prod_def split: prod.splits)
  then show ?thesis using assms CallGetQuest remote_GetQuest [OF assms(1), of k x s]
    by (cases x) (simp_all add: wire_state.dec_view wire_state_utf8)
qed (use assms in \<open>auto simp: map_sum_answer apfst_def map_prod_def comp_def
    remote_ResolveVenue remote_PlanQuest remote_CreateQuest remote_ListQuests remote_CancelQuest remote_Login
    remote_ListAccounts remote_IssueToken remote_RevokeToken remote_ListTokens split: prod.splits cong: option.case_cong\<close>)

theorem remote_call_transparent_witness:
  "\<exists>h1 r s. authed ex_daemon ex_client (ex_host ex_plan_now) (''u_ana'', ''operator'') h1 \<and>
     respond ex_service ''u_ana'' (ReqCancelQuest ''q_1'' \<lparr>cn_reason = ''plans changed'', cn_key = Some ''k1''\<rparr>) (hs_sys h1) = (r, s) \<and>
     remote ex_daemon ex_client (CallCancelQuest ''q_1'' \<lparr>cn_reason = ''plans changed'', cn_key = Some ''k1''\<rparr>) (ex_host ex_plan_now) =
       (client_view ex_client [(''quest_id'', JStr ''q_1'')] r, h1\<lparr>hs_sys := s\<rparr>)"
proof -
  let ?call = "CallCancelQuest ''q_1'' \<lparr>cn_reason = ''plans changed'', cn_key = Some ''k1''\<rparr>"
  obtain h1 where a: "authed ex_daemon ex_client (ex_host ex_plan_now) (''u_ana'', ''operator'') h1" using ex_authed by blast
  obtain r s where r: "respond (dm_service ex_daemon) ''u_ana'' (as_request ''operator'' ?call) (hs_sys h1) = (r, s)" by fastforce
  have "safe_id ''q_1''" by code_simp
  moreover have "opt_utf8 (Some ''k1'')" by (simp add: opt_utf8_def)
  moreover have "answer_sendable (cl_load_location ex_client) r" using r by (auto simp: apfst_def map_prod_def split: prod.splits)
  ultimately show ?thesis using a r remote_call_transparent [OF a _ _ r] by auto
qed

section \<open>Authentication\<close>

text \<open>The live row a header's token names, and a state that differs from another in the times tokens were last
  seen and in the clock only.\<close>

definition presented :: "daemon \<Rightarrow> string \<Rightarrow> sys \<Rightarrow> token_row option" where
  "presented d header s = Option.bind (parseBearer header) (\<lambda>token.
     if sv_blake2b (dm_service d) token = [] then None else find (live_token (sv_blake2b (dm_service d) token)) (q_tokens (sy_q s)))"

definition forget_seen :: "qdb \<Rightarrow> qdb" where
  "forget_seen q = q\<lparr>q_tokens := map (\<lambda>r. r\<lparr>tk_last_seen := None\<rparr>) (q_tokens q)\<rparr>"

definition only_seen :: "sys \<Rightarrow> sys \<Rightarrow> bool" where
  "only_seen s t \<longleftrightarrow> forget_seen (sy_q t) = forget_seen (sy_q s) \<and> w_db (sy_w t) = w_db (sy_w s)"

lemma touch_only_seen: "only_seen s (snd (q_exec e (\<lambda>io _. store_TouchTokenSeen io x now) s))"
  by (simp add: only_seen_def forget_seen_def q_exec_def store_TouchTokenSeen_def after_store_def comp_def case_prod_unfold split: option.split)

lemma read_only_seen: "q_read e f s = (r, s1) \<Longrightarrow> only_seen s1 t \<Longrightarrow> only_seen s t"
  by (auto simp: q_read_def q_exec_def only_seen_def after_store_def)

lemma shouldTouch_sys: "shouldTouch x now h = (b, h') \<Longrightarrow> hs_sys h' = hs_sys h"
  by (auto simp: shouldTouch_def split: option.splits if_splits)

lemma authenticate_cases:
  assumes "authenticate d header h = (r, h')"
  shows "case presented d header (hs_sys h) of
      None \<Rightarrow> r = Inl (unauthorized ''auth'')
    | Some row \<Rightarrow> r = (if store_io (sv_env (dm_service d)) (sy_w (hs_sys h)) 0 = None then Inr (tk_user row, tk_scopes row) else Inl (unauthorized ''auth''))"
    and "only_seen (hs_sys h) (hs_sys h')"
proof -
  let ?c = "dm_service d"
  show "only_seen (hs_sys h) (hs_sys h')"
  proof (cases "parseBearer header")
    case (Some token)
    obtain x s1 where x: "q_read (sv_env ?c) (\<lambda>io _. store_FindTokenByHash io (sv_blake2b ?c token)) (hs_sys h) = (x, s1)" by fastforce
    have "only_seen (hs_sys h) s1" "\<And>y. only_seen (hs_sys h) (snd (q_exec (sv_env ?c) (\<lambda>io _. store_TouchTokenSeen io y (now_of s1)) s1))"
      using read_only_seen [OF x] touch_only_seen by (simp_all add: only_seen_def)
    then show ?thesis
      using assms Some by (auto simp: authenticate_def Let_def x dest!: shouldTouch_sys split: sum.splits prod.splits if_splits)
  qed (use assms in \<open>simp add: authenticate_def only_seen_def\<close>)
  show "case presented d header (hs_sys h) of
      None \<Rightarrow> r = Inl (unauthorized ''auth'')
    | Some row \<Rightarrow> r = (if store_io (sv_env ?c) (sy_w (hs_sys h)) 0 = None then Inr (tk_user row, tk_scopes row) else Inl (unauthorized ''auth''))"
    using assms by (auto simp: authenticate_def presented_def q_read_def q_exec_def store_FindTokenByHash_def scanTokenRow_def Let_def
        split: option.splits prod.splits if_splits)
qed



text \<open>A sequence of authentications, each with the state of the system it starts in: other requests, and time, may
  come in between. The log has an entry for each that is granted a touch.\<close>

definition touch_entry :: "daemon \<Rightarrow> string \<Rightarrow> (string \<Rightarrow> instant option) \<Rightarrow> (string \<Rightarrow> instant option) \<Rightarrow> (string \<times> instant) list" where
  "touch_entry d header m m' = (case parseBearer header of None \<Rightarrow> []
     | Some token \<Rightarrow> let x = sv_blake2b (dm_service d) token in
         case m' x of None \<Rightarrow> [] | Some t \<Rightarrow> if m x = Some t then [] else [(x, t)])"

fun touch_log :: "daemon \<Rightarrow> (string \<times> sys) list \<Rightarrow> (string \<Rightarrow> instant option) \<Rightarrow> (string \<times> instant) list" where
  "touch_log d [] m = []"
| "touch_log d ((header, s) # rs) m =
     (let m' = hs_touch (snd (authenticate d header \<lparr>hs_sys = s, hs_touch = m\<rparr>)) in touch_entry d header m m' @ touch_log d rs m')"

lemma touch_gap: "\<not> time_sub now prev < touchInterval \<Longrightarrow> prev + touchInterval \<le> now"
  by (simp add: time_sub_def touchInterval_def max_duration_def min_duration_def millisecond_def)

lemma authenticate_touch:
  assumes "authenticate d header h = (r, h')"
  shows "hs_touch h' = hs_touch h \<and> sy_q (hs_sys h') = sy_q (hs_sys h) \<or>
    (\<exists>token t. parseBearer header = Some token \<and> hs_touch h' = (hs_touch h)(sv_blake2b (dm_service d) token \<mapsto> t) \<and>
       (\<forall>p. hs_touch h (sv_blake2b (dm_service d) token) = Some p \<longrightarrow> p + touchInterval \<le> t))"
proof -
  have h: "tr_hash info = x" if "store_FindTokenByHash io x q = Inr info" for io x q info
    using that by (auto simp: store_FindTokenByHash_def scanTokenRow_def live_token_def find_Some_iff split: if_splits option.splits)
  show ?thesis
    using assms touch_gap by (auto simp: authenticate_def q_read_def q_exec_def shouldTouch_def Let_def dest!: h
        split: option.splits prod.splits sum.splits if_splits)
qed

lemma touch_log_later:
  "(x, u) \<in> set (touch_log d rs m) \<Longrightarrow> m x = Some p \<Longrightarrow> p + touchInterval \<le> u"
proof (induction d rs m arbitrary: p rule: touch_log.induct)
  case (2 d header s rs m)
  let ?h = "\<lparr>hs_sys = s, hs_touch = m\<rparr>"
  obtain r h' where a: "authenticate d header ?h = (r, h')" by fastforce
  from authenticate_touch [OF a] show ?case
  proof (elim disjE conjE exE)
    assume "hs_touch h' = hs_touch ?h"
    then show ?thesis using 2 a by (auto simp: Let_def touch_entry_def split: option.splits if_splits)
  next
    fix token t
    assume t: "parseBearer header = Some token" "hs_touch h' = (hs_touch ?h)(sv_blake2b (dm_service d) token \<mapsto> t)"
      "\<forall>p. hs_touch ?h (sv_blake2b (dm_service d) token) = Some p \<longrightarrow> p + touchInterval \<le> t"
    have i: "0 < touchInterval" by (simp add: touchInterval_def millisecond_def)
    have IH: "(x, u) \<in> set (touch_log d rs (hs_touch h')) \<Longrightarrow> hs_touch h' x = Some q \<Longrightarrow> q + touchInterval \<le> u" for q
      using 2(1) [of "hs_touch h'" q] a by simp
    show ?thesis
    proof (cases "x = sv_blake2b (dm_service d) token")
      case True
      then have "p + touchInterval \<le> t" using t(3) 2(3) by simp
      then show ?thesis using 2(2) True t(1,2) i IH [of t] by (auto simp: Let_def a touch_entry_def split: if_splits)
    qed (use 2(2,3) t IH [of p] in \<open>auto simp: Let_def a touch_entry_def split: if_splits\<close>)
  qed
qed simp

text \<open>C30: touches are coalesced. Whatever requests come, in whatever states, two updates of the last-seen time
  of one token that the middleware issues are at least 1.5 seconds apart, and an authentication
  that is not granted one leaves the tables as they are.\<close>

theorem touches_coalesced:
  "sorted_wrt (\<lambda>(x, t) (y, u). x = y \<longrightarrow> t + 1500000000 \<le> u) (touch_log d rs m) \<and>
   (hs_touch (snd (authenticate d header h)) = hs_touch h \<longrightarrow> sy_q (hs_sys (snd (authenticate d header h))) = sy_q (hs_sys h))"
proof
  have i: "touchInterval = 1500000000" by (simp add: touchInterval_def millisecond_def)
  show "sorted_wrt (\<lambda>(x, t) (y, u). x = y \<longrightarrow> t + 1500000000 \<le> u) (touch_log d rs m)"
  proof (induction d rs m rule: touch_log.induct)
    case (2 d header s rs m)
    have "t + 1500000000 \<le> u" if "(x, t) \<in> set (touch_entry d header m m')" "(x, u) \<in> set (touch_log d rs m')" for x t u m'
      using that touch_log_later [of x u d rs m' t] i by (auto simp: touch_entry_def Let_def split: option.splits if_splits)
    moreover have "length (touch_entry d header m m') \<le> 1" for m' by (simp add: touch_entry_def Let_def split: option.split)
    ultimately show ?case using 2 by (auto simp: Let_def sorted_wrt_append sorted_wrt01)
  qed simp
  show "hs_touch (snd (authenticate d header h)) = hs_touch h \<longrightarrow> sy_q (hs_sys (snd (authenticate d header h))) = sy_q (hs_sys h)"
    using authenticate_touch [of d header h "fst (authenticate d header h)" "snd (authenticate d header h)"] i by (auto simp: fun_upd_idem_iff)
qed

theorem touches_coalesced_witness:
  "(let log = touch_log ex_daemon [(''Bearer '' @ ''tok_ana'', hs_sys (ex_host ex_plan_now)), (''Bearer '' @ ''tok_ana'', hs_sys (ex_host ex_plan_now))]
       Map.empty in
    log = [(''tok_ana'', ex_plan_now)] \<and> sorted_wrt (\<lambda>(x, t) (y, u). x = y \<longrightarrow> t + 1500000000 \<le> u) log)"
proof -
  have t: "e_store_time ex_env n = 0" for n by (simp add: ex_env_def)
  have "\<not> touchInterval \<le> time_sub ex_plan_now ex_plan_now" by code_simp
  then have "touch_log ex_daemon [(''Bearer '' @ ''tok_ana'', hs_sys (ex_host ex_plan_now)), (''Bearer '' @ ''tok_ana'', hs_sys (ex_host ex_plan_now))]
      Map.empty = [(''tok_ana'', ex_plan_now)]"
    using ex_bearer by (simp add: touch_entry_def authenticate_def Let_def q_read_def q_exec_def live_io [OF ex_env_live(1)]
        store_FindTokenByHash_def ex_host_def live_token_def ex_token_def scanTokenRow_def shouldTouch_def now_of_def after_store_def ex_qdb_def t)
  then show ?thesis unfolding Let_def using touches_coalesced [THEN conjunct1] by metis
qed

section \<open>Errors\<close>

text \<open>C29: errors survive the wire. The error a client builds from the response to a service error answers
  \<^verbatim>\<open>errors.Is\<close> with a sentinel the service error wraps, the provider's rate limit and expired session
  included, and carries its text, bytes that are no UTF-8 replaced; it has no sentinel exactly for the errors answered 500, which wrap none of the mapped
  sentinels, and of those the client learns nothing but the code \<^verbatim>\<open>internal\<close> and a fixed message.\<close>

theorem errors_survive:
  "let e = parseErrorEnvelope (rs_status (WriteErrorDetails err ds)) (rs_body (WriteErrorDetails err ds)) in
    case ae_sentinel e of
      Some (WSvc k) \<Rightarrow> k \<in> set (sx_is err) \<and> ae_message e = coerce_utf8 (sx_text err)
    | Some (WProv p) \<Rightarrow> sx_prov err = Some p \<and> ae_message e = coerce_utf8 (sx_text err)
    | None \<Rightarrow> ae_status e = 500 \<and> ae_code e = ''internal'' \<and> ae_message e = ''internal server error'' \<and>
        set (sx_is err) \<subseteq> {SvcNotImplemented} \<and> sx_prov err \<noteq> Some ErrRateLimited \<and> sx_prov err \<noteq> Some ErrAuthExpired"
proof -
  have "set (sx_is err) \<subseteq> {SvcNotImplemented}" if "MapError err = (500, ''internal'')"
  proof
    fix k
    assume "k \<in> set (sx_is err)"
    then show "k \<in> {SvcNotImplemented}" using that by - (cases k, simp_all add: MapError_def Let_def split: if_splits)
  qed
  then show ?thesis
    unfolding parse_envelope seen_error_def Let_def
    by (simp add: MapError_def Let_def codeToSentinel_def)
qed

section \<open>Reading a quest whose plan cannot be rebuilt\<close>

lemma zero_plan_rejected: "\<exists>we. in_obj (client_decodeQuestState load order) (marshaled (wire_encodeQuestState q)) = Inl we" if "qx_plan q = None"
proof -
  define fs where "fs = (case marshaled (wire_encodeQuestState q) of JObj fs \<Rightarrow> fs | _ \<Rightarrow> [])"
  have fs: "marshaled (wire_encodeQuestState q) = JObj fs" "member ''plan'' fs = Some (wire_encodePlan zero_plan)"
    by (simp_all add: wire_encodeQuestState_def fs_def member_Cons that marshaled.simps(3) zero_plan_utf8)
  obtain x where x: "ParseDate (date_string (Date 0 0 0)) = Inl x" using zero_date_rejected by blast
  obtain gs where gs: "wire_encodeGoal (pl_goal zero_plan) = JObj gs" by (simp add: wire_encodeGoal_def wire_goal_json_def)
  have "\<exists>we. bind_result (map_err WJson (goal_unmarshal (JObj gs))) client_decodeGoal = Inl we"
    unfolding gs [symmetric] wire_encodeGoal_def
    by (subst wire_goal_roundtrip) (simp_all add: zero_plan_def int64_def client_decodeGoal_def wire_query_eq wire_query_roundtrip
        string_forms_nonempty x)
  then obtain we where "bind_result (map_err WJson (goal_unmarshal (JObj gs))) client_decodeGoal = Inl we" by blast
  then have "client_goal_field ((''goal'', JObj gs) # ms) = Inl we" if "member ''goal'' ms = None" for ms
    using that by (simp add: client_goal_field_def obj_member_def member_Cons)
  then have "\<exists>we. in_obj (client_decodePlan load) (wire_encodePlan zero_plan) = Inl we"
    by (simp add: wire_encodePlan_def client_decodePlan_def gs member_Cons member_append)
  then have "\<exists>we. bind_result (obj_field ''plan'' fs) (client_decodePlan load) = Inl we" using obj_field_in_obj [OF fs(2)] by metis
  then show ?thesis
    by (auto simp: fs client_decodeQuestState_def bind_result_def split: sum.splits)
qed

lemma past_date_invalid:
  assumes "date_at (gl_date g) utc < todayStart now" "now \<le> later"
  shows "goal_Validate uni g later \<noteq> None"
proof -
  have "todayStart now \<le> todayStart later" using assms(2) by (simp add: todayStart_midnight zdiv_mono1 second_def)
  then show ?thesis using assms(1) by (auto simp: goal_Validate_def split: option.splits)
qed

lemma GetQuest_past:
  assumes "GetQuest c u k s = (Inr q, s')" "date_at (gl_date (qx_goal q)) utc < todayStart (now_of s)"
  shows "qx_plan q = None"
proof -
  have read: "now_of s \<le> now_of s1" if "q_read e f s = (r, s1)" for e f s r s1
    using that by (auto simp: q_read_def q_exec_def now_of_def after_store_def)
  have plan: "\<exists>err. fst (PlanQuest c u (qx_goal q) s2) = Inl err" if "now_of s \<le> now_of s2" for s2
    using past_date_invalid [OF assms(2) that, of "rv_uni (sv_resolver c)"] by (auto simp: PlanQuest_def Let_def)
  show ?thesis
    using assms(1) plan by (auto simp: GetQuest_def get_body_def split: if_splits prod.splits sum.splits dest!: read) (metis fst_conv order_trans sum.distinct(1))
qed

text \<open>C28: a quest can become unreadable over HTTP. When the service cannot rebuild the plan of a quest, it still
  returns the summary, the goal and the events; the client's call fails, because the zero plan is
  written with the date 0000-00-00, which the client cannot parse. From the day after its date,
  every quest is in this case.\<close>

theorem past_quest_unreadable:
  assumes "authed d cl h (u, scope) h1" "u \<noteq> []" "safe_id k" "GetQuest (dm_service d) u k (hs_sys h1) = (Inr q, s)"
    and "date_at (gl_date (qx_goal q)) utc < todayStart (now_of (hs_sys h1))"
  shows "\<exists>we. remote d cl (CallGetQuest k) h = (Inl (EDecode we), h1\<lparr>hs_sys := s\<rparr>)"
proof -
  have "qx_plan q = None" using assms(4,5) by (rule GetQuest_past)
  then show ?thesis
    using zero_plan_rejected [of q "cl_load_location cl" "cl_map_order cl"] remote_GetQuest [OF assms(1), of k "Inr q" s] assms(2-4) by auto
qed

theorem past_quest_unreadable_witness:
  "\<exists>we h1 s. remote ex_daemon ex_client (CallGetQuest ''q_1'') (ex_host (ex_plan_now + 365 * 86400 * second)) = (Inl (EDecode we), h1\<lparr>hs_sys := s\<rparr>)"
proof -
  let ?now = "ex_plan_now + 365 * 86400 * second"
  obtain h1 where a: "authed ex_daemon ex_client (ex_host ?now) (''u_ana'', ''operator'') h1" "now_of (hs_sys h1) = ?now"
    "q_quests (sy_q (hs_sys h1)) = [ex_quest ''u_ana'' ''q_1'']" "q_events (sy_q (hs_sys h1)) = []" using ex_authed by blast
  have g: "unmarshalGoalJSON (marshaled (marshalGoalJSON (ex_goal []))) = Inr (ex_goal [])" by (rule service_goal_codec.dec_enc [OF ex_goal_ok(1)]) simp
  have "\<exists>q s. GetQuest (dm_service ex_daemon) ''u_ana'' ''q_1'' (hs_sys h1) = (Inr q, s) \<and> qx_goal q = ex_goal []"
    using a(3,4) by (simp add: GetQuest_def get_body_def q_read_def q_exec_def live_io [OF ex_env_live(1)] store_GetQuest_def owned_quest_def
        scanQuestRow_def parseStatusDB_def store_ListQuestEvents_def limit_rows_def defaultEventLimit_def ex_quest_def g case_prod_unfold)
  then obtain q s where q: "GetQuest (dm_service ex_daemon) ''u_ana'' ''q_1'' (hs_sys h1) = (Inr q, s)" "qx_goal q = ex_goal []" by blast
  have "date_at (gl_date (ex_goal [])) utc < todayStart ?now" "safe_id ''q_1''" by code_simp+
  then show ?thesis using past_quest_unreadable [OF a(1) _ _ q(1)] q(2) a(2) by auto
qed

end
