(* ===== verification/Race.thy ===== *)
theory Race
  imports EngineLive
begin

text \<open>
  The booking race of \<^verbatim>\<open>engine/race.go\<close>: ranking of slots by preference and the
  race-and-cancel orchestration. The concurrent part is a state machine whose steps are the
  visible actions of the main goroutine and of the confirming goroutines; a schedule is a list
  of action labels, and \<open>race_step\<close> says which action is possible and what it does, so an
  execution under a schedule can be evaluated. The answers of \<^verbatim>\<open>PrepareSlot\<close> and
  \<^verbatim>\<open>ConfirmSlot\<close> are part of the labels. The clock of the race advances by tick labels; the
  caller's context is done from its cancellation instant on, the race context once it is
  cancelled by a winner or by the deferred cancel at the return.
\<close>

section \<open>Ranking\<close>

fun slot_priority :: "slot_preference list \<Rightarrow> slot \<Rightarrow> nat" where
  "slot_priority [] s = 0"
| "slot_priority (p # ps) s =
     (if sp_time p = sl_time s \<and> (sp_table_type p = [] \<or> sp_table_type p = sl_table_type s) then 0
      else Suc (slot_priority ps s))"

definition rankSlotsByPreference :: "slot list \<Rightarrow> slot_preference list \<Rightarrow> slot list" where
  "rankSlotsByPreference slots prefs = (if prefs = [] then slots else sort_key (slot_priority prefs) slots)"

fun pref_times :: "walltime list \<Rightarrow> slot_preference list \<Rightarrow> walltime list" where
  "pref_times seen [] = []"
| "pref_times seen (p # ps) = (if sp_time p \<in> set seen then pref_times seen ps
     else sp_time p # pref_times (sp_time p # seen) ps)"

definition slotPrefTimes :: "slot_preference list \<Rightarrow> walltime list" where
  "slotPrefTimes prefs = pref_times [] prefs"

section \<open>The race\<close>

datatype main_pc =
    MLoop nat | MPrepare nat | MWait nat instant | MJoin | MClosed
  | MBlocked provider_error | MReturned provider_error

datatype gor_pc = GConfirm | GGot confirmation | GSent | GExit

record gor =
  g_idx :: nat
  g_slot :: slot
  g_pc :: gor_pc

record race_cfg =
  rc_count :: nat
  rc_cancel_at :: "instant option"
  rc_gap :: duration

record race =
  r_pc :: main_pc
  r_now :: instant
  r_race_done :: bool
  r_gors :: "gor list"
  r_results :: "confirmation list"
  r_confirmed :: "confirmation list"
  r_prepares :: "instant list"

datatype label =
    LTick nat
  | LCheck
  | LPrepare "provider_error + slot"
  | LWaited
  | LWaitCanceled
  | LConfirm nat "provider_error + confirmation"
  | LSend nat
  | LDrop nat
  | LCancelRace nat
  | LJoin
  | LReturn

definition race_init :: "instant \<Rightarrow> race" where
  "race_init now = \<lparr>r_pc = MLoop 0, r_now = now, r_race_done = False, r_gors = [], r_results = [],
     r_confirmed = [], r_prepares = []\<rparr>"

definition parent_done :: "race_cfg \<Rightarrow> race \<Rightarrow> bool" where
  "parent_done cfg r = (case rc_cancel_at cfg of None \<Rightarrow> False | Some c \<Rightarrow> c \<le> r_now r)"

definition blocking :: "provider_error \<Rightarrow> bool" where
  "blocking p \<longleftrightarrow> pe_is p = Some ErrRateLimited \<or> pe_is p = Some ErrAntiBotChallenge"

definition set_gor :: "nat \<Rightarrow> gor_pc \<Rightarrow> race \<Rightarrow> race" where
  "set_gor k pc r = r\<lparr>r_gors := (r_gors r)[k := (r_gors r ! k)\<lparr>g_pc := pc\<rparr>]\<rparr>"

definition gor_at :: "nat \<Rightarrow> race \<Rightarrow> gor_pc option" where
  "gor_at k r = (if k < length (r_gors r) then Some (g_pc (r_gors r ! k)) else None)"

text \<open>The results channel has the capacity of the ranked slots; a send needs room.\<close>

fun race_step :: "race_cfg \<Rightarrow> label \<Rightarrow> race \<Rightarrow> race option" where
  "race_step cfg (LTick d) r = Some (r\<lparr>r_now := r_now r + int d\<rparr>)"
| "race_step cfg LCheck r = (case r_pc r of
     MLoop i \<Rightarrow> if i < rc_count cfg then
         (if parent_done cfg r \<or> r_race_done r then Some (r\<lparr>r_pc := MJoin\<rparr>)
          else Some (r\<lparr>r_pc := MPrepare i, r_prepares := r_prepares r @ [r_now r]\<rparr>))
       else Some (r\<lparr>r_pc := MJoin\<rparr>)
   | _ \<Rightarrow> None)"
| "race_step cfg (LPrepare res) r = (case r_pc r of
     MPrepare i \<Rightarrow> (case res of
         Inl p \<Rightarrow> if blocking p then Some (r\<lparr>r_pc := MBlocked p\<rparr>) else Some (r\<lparr>r_pc := MLoop (Suc i)\<rparr>)
       | Inr s \<Rightarrow> Some (r\<lparr>r_gors := r_gors r @ [\<lparr>g_idx = i, g_slot = s, g_pc = GConfirm\<rparr>],
             r_pc := (if i < rc_count cfg - 1 then MWait i (r_now r + rc_gap cfg) else MLoop (Suc i))\<rparr>))
   | _ \<Rightarrow> None)"
| "race_step cfg LWaited r = (case r_pc r of
     MWait i t \<Rightarrow> if t \<le> r_now r then Some (r\<lparr>r_pc := MLoop (Suc i)\<rparr>) else None | _ \<Rightarrow> None)"
| "race_step cfg LWaitCanceled r = (case r_pc r of
     MWait i t \<Rightarrow> if parent_done cfg r then Some (r\<lparr>r_pc := MJoin\<rparr>) else None | _ \<Rightarrow> None)"
| "race_step cfg (LConfirm k res) r = (if gor_at k r = Some GConfirm then
     (case res of Inl _ \<Rightarrow> Some (set_gor k GExit r)
      | Inr c \<Rightarrow> Some ((set_gor k (GGot c) r)\<lparr>r_confirmed := r_confirmed r @ [c]\<rparr>)) else None)"
| "race_step cfg (LSend k) r = (case gor_at k r of
     Some (GGot c) \<Rightarrow> if length (r_results r) < rc_count cfg
       then Some ((set_gor k GSent r)\<lparr>r_results := r_results r @ [c]\<rparr>) else None
   | _ \<Rightarrow> None)"
| "race_step cfg (LDrop k) r = (case gor_at k r of
     Some (GGot c) \<Rightarrow> if r_race_done r then Some (set_gor k GExit r) else None | _ \<Rightarrow> None)"
| "race_step cfg (LCancelRace k) r = (if gor_at k r = Some GSent
     then Some ((set_gor k GExit r)\<lparr>r_race_done := True\<rparr>) else None)"
| "race_step cfg LJoin r = (if r_pc r = MJoin \<and> list_all (\<lambda>g. g_pc g = GExit) (r_gors r)
     then Some (r\<lparr>r_pc := MClosed\<rparr>) else None)"
| "race_step cfg LReturn r = (case r_pc r of
     MBlocked p \<Rightarrow> Some (r\<lparr>r_pc := MReturned p, r_race_done := True\<rparr>) | _ \<Rightarrow> None)"

fun race_exec :: "race_cfg \<Rightarrow> label list \<Rightarrow> race \<Rightarrow> race option" where
  "race_exec cfg [] r = Some r"
| "race_exec cfg (l # ls) r = (case race_step cfg l r of None \<Rightarrow> None | Some r' \<Rightarrow> race_exec cfg ls r')"

text \<open>The idempotency keys of the goroutines of a race.\<close>

definition race_keys :: "(string \<Rightarrow> string) \<Rightarrow> intent \<Rightarrow> race \<Rightarrow> string list" where
  "race_keys sha i r = map (\<lambda>g. IdempotencyKey sha (Hash sha i) (sl_payload (g_slot g)) (int (g_idx g) + 1)) (r_gors r)"

section \<open>The whole function\<close>

definition failWithReason :: "env \<Rightarrow> string \<Rightarrow> string \<Rightarrow> engine_error \<Rightarrow> snipe_state \<Rightarrow> world
    \<Rightarrow> engine_error option \<times> snipe_state \<times> world" where
  "failWithReason e reason cause_text cause s w =
     (case state_Transition e StatusFailed EventFailed
         [(''reason'', AString reason), (''err'', AString cause_text)] s w of
        (err, s', w') \<Rightarrow> (Some (ERace reason err cause), s', w'))"

definition after_race :: "race \<Rightarrow> world \<Rightarrow> world" where
  "after_race r w = w\<lparr>w_now := max (w_now w) (r_now r), w_tick := Suc (w_tick w)\<rparr>"

definition race_config :: "env \<Rightarrow> engine \<Rightarrow> slot list \<Rightarrow> race_cfg" where
  "race_config e en ranked = \<lparr>rc_count = length ranked, rc_cancel_at = e_cancel_at e, rc_gap = pollInterval en\<rparr>"

text \<open>The end of the function, from the main goroutine's final state of the race on.\<close>

definition finish_race :: "env \<Rightarrow> race \<Rightarrow> snipe_state \<Rightarrow> world \<Rightarrow> (engine_error option \<times> snipe_state \<times> world) option" where
  "finish_race e r s w =
     (case r_pc r of
        MBlocked p \<Rightarrow> Some (failWithReason e ''prepare_blocked'' (pe_text p) (EProvider p) s w)
      | MClosed \<Rightarrow> Some (case r_results r of
            [] \<Rightarrow> failWithReason e ''all_attempts_failed'' ''no slot booked'' (EText ''no slot booked'') s w
          | c # _ \<Rightarrow>
              let s1 = s\<lparr>s_result := Some \<lparr>br_booked_at = co_booked_at c, br_confirmation_id = co_id c\<rparr>\<rparr> in
              state_Transition e StatusBooked EventBooked
                [(LogKeyVenueRef, AString (venue_ref_string (i_venue (s_intent s)))),
                 (''confirmation_id'', AString (co_id c))] s1 w)
      | _ \<Rightarrow> None)"

text \<open>\<open>sched\<close> is the interleaving; the result is \<open>None\<close> when it is not an execution that brings the
  main goroutine to the end of the race.\<close>

definition RunBookingRace :: "env \<Rightarrow> engine \<Rightarrow> bool \<Rightarrow> session \<Rightarrow> label list \<Rightarrow> snipe_state \<Rightarrow> world
    \<Rightarrow> (engine_error option \<times> snipe_state \<times> world) option" where
  "RunBookingRace e en is_preparer sess sched s w =
     (if \<not> en_has_provider en then Some (Some (EText ''RunBookingRace: requires a Provider''), s, w)
      else if \<not> is_preparer then Some (Some (EText ''RunBookingRace: provider does not implement SlotPreparer''), s, w)
      else case state_Transition e StatusFinding EventFound
             [(LogKeyVenueRef, AString (venue_ref_string (i_venue (s_intent s))))] s w of
        (Some err, s1, w1) \<Rightarrow> Some (Some (ERace ''enter Finding'' None err), s1, w1)
      | (None, s1, w1) \<Rightarrow>
        let i = s_intent s1; w2 = after_call e w1 in
        (case e_find e (w_tick w1) \<lparr>fr_venue = i_venue i, fr_date = i_date i, fr_party_size = i_party_size i,
               fr_times = slotPrefTimes (i_slot_prefs i), fr_session = Some sess\<rparr> of
           Inl p \<Rightarrow> Some (failWithReason e ''find_failed'' (pe_text p) (EProvider p) s1 w2)
         | Inr [] \<Rightarrow> Some (failWithReason e ''inventory_empty'' ''provider: inventory empty''
               (EProvider \<lparr>pe_is = Some ErrInventoryEmpty, pe_text = ''provider: inventory empty''\<rparr>) s1 w2)
         | Inr slots \<Rightarrow>
             let ranked = rankSlotsByPreference slots (i_slot_prefs i) in
             (case state_Transition e StatusBooking EventBookAttempted
                 [(LogKeyVenueRef, AString (venue_ref_string (i_venue i))),
                  (''slot_count'', AInt (go_len ranked))] s1 w2 of
                (Some err, s2, w3) \<Rightarrow> Some (Some (ERace ''enter Booking'' None err), s2, w3)
              | (None, s2, w3) \<Rightarrow>
                  (case race_exec (race_config e en ranked) sched (race_init (w_now w3)) of
                     None \<Rightarrow> None
                   | Some r \<Rightarrow> finish_race e r s2 (after_race r w3)))))"

end
