(* ===== verification/RaceFacts.thy ===== *)
theory RaceFacts
  imports Race
begin

text \<open>
  Invariants of the booking race. The locale \<open>race_invariant\<close> lifts what every action keeps to
  all executions; it is interpreted for the shape of the goroutine table, for the channel, for
  the winner and for the step measure.
\<close>

section \<open>Ranking\<close>

lemma slot_priority_le: "slot_priority ps s \<le> length ps"
  by (induction ps) auto

lemma rank_perm: "mset (rankSlotsByPreference slots prefs) = mset slots"
  by (simp add: rankSlotsByPreference_def)

text \<open>A preference accepts the slots of its time, and of its table type if it names one.\<close>

definition accepts :: "slot_preference \<Rightarrow> slot \<Rightarrow> bool" where
  "accepts p s \<longleftrightarrow> sp_time p = sl_time s \<and> (sp_table_type p \<noteq> [] \<longrightarrow> sl_table_type s = sp_table_type p)"

text \<open>The priority is the place of the first preference that accepts the slot.\<close>

lemma slot_priority_iff:
  "slot_priority ps s = k \<longleftrightarrow> k \<le> length ps \<and> (k < length ps \<longrightarrow> accepts (ps ! k) s) \<and> (\<forall>j < k. \<not> accepts (ps ! j) s)"
proof (induction ps arbitrary: k)
  case (Cons p ps)
  then show ?case by (cases k) (auto simp: accepts_def less_Suc_eq_0_disj)
qed auto

lemma slot_priority_accepts: "k < length ps \<Longrightarrow> accepts (ps ! k) s \<Longrightarrow> slot_priority ps s \<le> k"
  using slot_priority_iff [of ps s "slot_priority ps s"] by (meson not_le_imp_less)

lemma rank_order:
  assumes "i < j" "j < length slots" "k < length prefs" "accepts (prefs ! k) (rankSlotsByPreference slots prefs ! j)"
  shows "\<exists>k' \<le> k. accepts (prefs ! k') (rankSlotsByPreference slots prefs ! i)"
proof -
  let ?r = "rankSlotsByPreference slots prefs"
  have r: "?r = sort_key (slot_priority prefs) slots" using assms(3) by (auto simp: rankSlotsByPreference_def)
  then have "sorted (map (slot_priority prefs) ?r)" "length ?r = length slots" by simp_all
  then have "slot_priority prefs (?r ! i) \<le> slot_priority prefs (?r ! j)"
    using assms(1,2) sorted_nth_mono [of "map (slot_priority prefs) ?r" i j] by simp
  also have "\<dots> \<le> k" by (rule slot_priority_accepts [OF assms(3,4)])
  finally show ?thesis
    using slot_priority_iff [of prefs "?r ! i" "slot_priority prefs (?r ! i)"] assms(3) by auto
qed

lemma rank_stable:
  "filter (\<lambda>s. slot_priority prefs s = k) (rankSlotsByPreference slots prefs) =
   filter (\<lambda>s. slot_priority prefs s = k) slots"
  by (simp add: rankSlotsByPreference_def sort_key_stable)

lemma pref_times_set: "set (pref_times seen ps) = sp_time ` set ps - set seen"
  by (induction seen ps rule: pref_times.induct) auto

lemma pref_times_distinct: "distinct (pref_times seen ps)"
  by (induction seen ps rule: pref_times.induct) (auto simp: pref_times_set)

lemma pref_times_subseq: "subseq (pref_times seen ps) (map sp_time ps)"
  by (induction seen ps rule: pref_times.induct) auto

section \<open>Executions\<close>

lemma race_exec_append:
  "race_exec cfg (ls @ ms) r = (case race_exec cfg ls r of None \<Rightarrow> None | Some r' \<Rightarrow> race_exec cfg ms r')"
  by (induction ls arbitrary: r) (auto split: option.split)

definition reachable :: "race_cfg \<Rightarrow> race \<Rightarrow> bool" where
  "reachable cfg r \<longleftrightarrow> (\<exists>ls now. race_exec cfg ls (race_init now) = Some r)"

lemma reachable_init [simp]: "reachable cfg (race_init now)"
  unfolding reachable_def by (rule exI [of _ "[]"]) auto

lemma reachable_exec: "reachable cfg r \<Longrightarrow> race_exec cfg ls r = Some r' \<Longrightarrow> reachable cfg r'"
  unfolding reachable_def by (metis race_exec_append option.case(2))

locale race_invariant =
  fixes cfg :: race_cfg and inv :: "race \<Rightarrow> bool"
  assumes inv_init: "inv (race_init now)"
    and inv_step: "inv r \<Longrightarrow> race_step cfg l r = Some r' \<Longrightarrow> inv r'"
begin

lemma inv_exec: "inv r \<Longrightarrow> race_exec cfg ls r = Some r' \<Longrightarrow> inv r'"
  by (induction ls arbitrary: r) (auto split: option.splits dest: inv_step)

lemma inv_reachable: "reachable cfg r \<Longrightarrow> inv r"
  unfolding reachable_def using inv_exec inv_init by blast

end

lemma gor_at_Some: "gor_at k r = Some pc \<longleftrightarrow> k < length (r_gors r) \<and> g_pc (r_gors r ! k) = pc"
  by (auto simp: gor_at_def)

lemma set_gor_simps [simp]:
  "r_pc (set_gor k pc r) = r_pc r" "r_now (set_gor k pc r) = r_now r"
  "r_race_done (set_gor k pc r) = r_race_done r" "r_results (set_gor k pc r) = r_results r"
  "r_confirmed (set_gor k pc r) = r_confirmed r" "length (r_gors (set_gor k pc r)) = length (r_gors r)"
  by (simp_all add: set_gor_def)

lemma set_gor_idx [simp]: "map g_idx (r_gors (set_gor k pc r)) = map g_idx (r_gors r)"
proof -
  have "map g_idx (r_gors (set_gor k pc r)) = (map g_idx (r_gors r))[k := g_idx (r_gors r ! k)]"
    by (simp add: set_gor_def map_update)
  then show ?thesis by (cases "k < length (r_gors r)") (simp_all add: list_update_same_conv list_update_beyond)
qed

lemma set_gor_pcs [simp]: "map g_pc (r_gors (set_gor k pc r)) = (map g_pc (r_gors r))[k := pc]"
  by (simp add: set_gor_def map_update)

text \<open>The ways one action changes the race, without the bookkeeping of the program counters.\<close>

lemma race_step_cases:
  assumes "race_step cfg l r = Some r'"
  obtains (tick) d where "l = LTick d" "r' = r\<lparr>r_now := r_now r + int d\<rparr>"
  | (check) i where "l = LCheck" "r_pc r = MLoop i" "i < rc_count cfg" "\<not> r_race_done r" "\<not> parent_done cfg r"
      "r' = r\<lparr>r_pc := MPrepare i, r_prepares := r_prepares r @ [r_now r]\<rparr>"
  | (join_now) i where "l = LCheck" "r_pc r = MLoop i" "r' = r\<lparr>r_pc := MJoin\<rparr>"
  | (blocked) i p where "l = LPrepare (Inl p)" "r_pc r = MPrepare i" "blocking p" "r' = r\<lparr>r_pc := MBlocked p\<rparr>"
  | (skipped) i p where "l = LPrepare (Inl p)" "r_pc r = MPrepare i" "\<not> blocking p" "r' = r\<lparr>r_pc := MLoop (Suc i)\<rparr>"
  | (spawned) i s where "l = LPrepare (Inr s)" "r_pc r = MPrepare i"
      "r' = r\<lparr>r_gors := r_gors r @ [\<lparr>g_idx = i, g_slot = s, g_pc = GConfirm\<rparr>],
         r_pc := (if i < rc_count cfg - 1 then MWait i (r_now r + rc_gap cfg) else MLoop (Suc i))\<rparr>"
  | (waited) i t where "l = LWaited" "r_pc r = MWait i t" "t \<le> r_now r" "r' = r\<lparr>r_pc := MLoop (Suc i)\<rparr>"
  | (wait_canceled) i t where "l = LWaitCanceled" "r_pc r = MWait i t" "parent_done cfg r" "r' = r\<lparr>r_pc := MJoin\<rparr>"
  | (refused) k p where "l = LConfirm k (Inl p)" "gor_at k r = Some GConfirm" "r' = set_gor k GExit r"
  | (confirmed) k c where "l = LConfirm k (Inr c)" "gor_at k r = Some GConfirm"
      "r' = (set_gor k (GGot c) r)\<lparr>r_confirmed := r_confirmed r @ [c]\<rparr>"
  | (sent) k c where "l = LSend k" "gor_at k r = Some (GGot c)" "length (r_results r) < rc_count cfg"
      "r' = (set_gor k GSent r)\<lparr>r_results := r_results r @ [c]\<rparr>"
  | (dropped) k c where "l = LDrop k" "gor_at k r = Some (GGot c)" "r_race_done r" "r' = set_gor k GExit r"
  | (canceled) k where "l = LCancelRace k" "gor_at k r = Some GSent" "r' = (set_gor k GExit r)\<lparr>r_race_done := True\<rparr>"
  | (joined) "l = LJoin" "r_pc r = MJoin" "list_all (\<lambda>g. g_pc g = GExit) (r_gors r)" "r' = r\<lparr>r_pc := MClosed\<rparr>"
  | (returned) p where "l = LReturn" "r_pc r = MBlocked p" "r' = r\<lparr>r_pc := MReturned p, r_race_done := True\<rparr>"
proof (cases l)
  case (LTick d) then show thesis using assms by (intro tick [of d]) simp_all
next
  case LCheck then show thesis using assms
    by (auto split: main_pc.splits if_splits intro: check join_now)
next
  case (LPrepare res)
  then show thesis using assms
    by (cases res) (auto split: main_pc.splits if_splits intro: blocked skipped spawned)
next
  case LWaited then show thesis using assms by (auto split: main_pc.splits if_splits intro: waited)
next
  case LWaitCanceled then show thesis using assms by (auto split: main_pc.splits if_splits intro: wait_canceled)
next
  case (LConfirm k res)
  then show thesis using assms by (cases res) (auto split: if_splits intro: refused confirmed)
next
  case (LSend k)
  then show thesis using assms by (auto split: option.splits gor_pc.splits if_splits intro: sent)
next
  case (LDrop k)
  then show thesis using assms by (auto split: option.splits gor_pc.splits if_splits intro: dropped)
next
  case (LCancelRace k) then show thesis using assms by (auto split: if_splits intro: canceled)
next
  case LJoin then show thesis using assms by (auto split: if_splits intro: joined)
next
  case LReturn then show thesis using assms by (auto split: main_pc.splits intro: returned)
qed

section \<open>The goroutine table\<close>

fun pc_bound :: "race_cfg \<Rightarrow> main_pc \<Rightarrow> nat" where
  "pc_bound cfg (MLoop i) = i"
| "pc_bound cfg (MPrepare i) = i"
| "pc_bound cfg (MWait i t) = Suc i"
| "pc_bound cfg _ = rc_count cfg"

definition race_wf :: "race_cfg \<Rightarrow> race \<Rightarrow> bool" where
  "race_wf cfg r \<longleftrightarrow> sorted_wrt (<) (map g_idx (r_gors r)) \<and> (\<forall>i \<in> set (map g_idx (r_gors r)). i < pc_bound cfg (r_pc r)) \<and>
     pc_bound cfg (r_pc r) \<le> rc_count cfg \<and> (\<forall>i. r_pc r = MPrepare i \<longrightarrow> i < rc_count cfg) \<and>
     (\<forall>i t. r_pc r = MWait i t \<longrightarrow> Suc i < rc_count cfg)"

lemma race_wf_pc:
  "race_wf cfg r \<Longrightarrow> map g_idx (r_gors r') = map g_idx (r_gors r) \<Longrightarrow> r_pc r' = r_pc r \<Longrightarrow> race_wf cfg r'"
  by (simp add: race_wf_def)

lemma race_wf_later:
  "race_wf cfg r \<Longrightarrow> r_gors r' = r_gors r \<Longrightarrow> pc_bound cfg (r_pc r) \<le> pc_bound cfg (r_pc r') \<Longrightarrow>
   pc_bound cfg (r_pc r') \<le> rc_count cfg \<Longrightarrow> (\<And>i. r_pc r' = MPrepare i \<Longrightarrow> i < rc_count cfg) \<Longrightarrow>
   (\<And>i t. r_pc r' = MWait i t \<Longrightarrow> Suc i < rc_count cfg) \<Longrightarrow> race_wf cfg r'"
  unfolding race_wf_def by (metis less_le_trans)

interpretation wf_inv: race_invariant cfg "race_wf cfg" for cfg
proof
  show "race_wf cfg (race_init now)" for now by (simp add: race_wf_def race_init_def)
  fix r l r'
  assume wf: "race_wf cfg r" and "race_step cfg l r = Some r'"
  from this(2) show "race_wf cfg r'"
  proof (cases rule: race_step_cases)
    case (spawned i s)
    then show ?thesis using wf by (auto simp: race_wf_def sorted_wrt_append less_Suc_eq)
  qed (use wf in \<open>auto intro: race_wf_pc [of cfg r] race_wf_later [of cfg r] simp: race_wf_def\<close>)
qed

lemma race_wf_length: "race_wf cfg r \<Longrightarrow> length (r_gors r) \<le> rc_count cfg"
proof -
  assume wf: "race_wf cfg r"
  let ?xs = "map g_idx (r_gors r)"
  have "distinct ?xs" using wf by (simp add: race_wf_def strict_sorted_iff)
  then have "length ?xs = card (set ?xs)" by (metis distinct_card)
  also have "\<dots> \<le> card {..<rc_count cfg}"
    using wf by (intro card_mono) (auto simp: race_wf_def)
  finally show ?thesis by simp
qed

section \<open>The channel and the winner\<close>

definition settled_gor :: "gor \<Rightarrow> bool" where
  "settled_gor g \<longleftrightarrow> g_pc g = GSent \<or> g_pc g = GExit"

definition channel_ok :: "race \<Rightarrow> bool" where
  "channel_ok r \<longleftrightarrow> length (r_results r) \<le> length (filter settled_gor (r_gors r))"

lemma filter_update_length:
  "k < length xs \<Longrightarrow> length (filter P (xs[k := y])) + (if P (xs ! k) then 1 else 0) =
     length (filter P xs) + (if P y then 1 else 0)"
proof (induction xs arbitrary: k)
  case (Cons x xs)
  then show ?case by (cases k) auto
qed simp

lemma set_gor_settled:
  assumes "gor_at k r = Some pc"
  shows "length (filter settled_gor (r_gors (set_gor k pc' r))) + (if pc = GSent \<or> pc = GExit then 1 else 0) =
    length (filter settled_gor (r_gors r)) + (if pc' = GSent \<or> pc' = GExit then 1 else 0)"
proof -
  have k: "k < length (r_gors r)" "g_pc (r_gors r ! k) = pc" using assms by (simp_all add: gor_at_Some)
  then show ?thesis
    using filter_update_length [OF k(1), of settled_gor "(r_gors r ! k)\<lparr>g_pc := pc'\<rparr>"]
    by (auto simp: set_gor_def settled_gor_def split: if_splits)
qed

interpretation channel_inv: race_invariant cfg channel_ok for cfg
proof
  show "channel_ok (race_init now)" for now by (simp add: channel_ok_def race_init_def)
  fix r l r'
  assume ok: "channel_ok r" and "race_step cfg l r = Some r'"
  from this(2) show "channel_ok r'"
  proof (cases rule: race_step_cases)
    case (refused k p)
    then show ?thesis using ok set_gor_settled [OF refused(2), of GExit] by (auto simp: channel_ok_def)
  next
    case (confirmed k c)
    then show ?thesis using ok set_gor_settled [OF confirmed(2), of "GGot c"] by (auto simp: channel_ok_def)
  next
    case (sent k c)
    then show ?thesis using ok set_gor_settled [OF sent(2), of GSent] by (auto simp: channel_ok_def)
  next
    case (dropped k c)
    then show ?thesis using ok set_gor_settled [OF dropped(2), of GExit] by (auto simp: channel_ok_def)
  next
    case (canceled k)
    then show ?thesis using ok set_gor_settled [OF canceled(2), of GExit] by (auto simp: channel_ok_def)
  qed (use ok in \<open>auto simp: channel_ok_def settled_gor_def\<close>)
qed

text \<open>A goroutine that holds a confirmation always finds room in the channel.\<close>

lemma send_never_blocks:
  assumes "reachable cfg r" "gor_at k r = Some (GGot c)"
  shows "race_step cfg (LSend k) r \<noteq> None"
proof -
  have k: "k < length (r_gors r)" "g_pc (r_gors r ! k) = GGot c" using assms(2) by (simp_all add: gor_at_Some)
  then have "\<not> settled_gor (r_gors r ! k)" by (simp add: settled_gor_def)
  then have "length (filter settled_gor (r_gors r)) < length (r_gors r)"
    using k(1) by (meson length_filter_less nth_mem)
  also have "\<dots> \<le> rc_count cfg" using race_wf_length wf_inv.inv_reachable assms(1) by blast
  finally have "length (r_results r) < rc_count cfg"
    using channel_inv.inv_reachable [OF assms(1)] by (simp add: channel_ok_def)
  then show ?thesis using assms(2) by simp
qed

definition pcs :: "race \<Rightarrow> gor_pc list" where
  "pcs r = map g_pc (r_gors r)"

lemma pcs_simps [simp]:
  "pcs (r\<lparr>r_pc := m\<rparr>) = pcs r" "pcs (r\<lparr>r_now := t\<rparr>) = pcs r" "pcs (r\<lparr>r_race_done := b\<rparr>) = pcs r"
  "pcs (r\<lparr>r_results := cs\<rparr>) = pcs r" "pcs (r\<lparr>r_confirmed := cs\<rparr>) = pcs r"
  "pcs (r\<lparr>r_prepares := ts\<rparr>) = pcs r" "pcs (r\<lparr>r_gors := gs\<rparr>) = map g_pc gs"
  "pcs (set_gor k pc r) = (pcs r)[k := pc]" "length (pcs r) = length (r_gors r)"
  by (simp_all add: pcs_def)

lemma gor_at_pcs: "gor_at k r = Some pc \<longleftrightarrow> k < length (pcs r) \<and> pcs r ! k = pc"
  by (auto simp: gor_at_Some pcs_def)

lemma update_memD: "x \<in> set (xs[k := y]) \<Longrightarrow> x = y \<or> x \<in> set xs"
  using set_update_subset_insert [of xs k y] by blast

lemma update_keep: "x \<in> set xs \<Longrightarrow> x \<noteq> xs ! k \<Longrightarrow> x \<in> set (xs[k := y])"
  by (metis in_set_conv_nth length_list_update nth_list_update_neq)

definition winner_ok :: "race \<Rightarrow> bool" where
  "winner_ok r \<longleftrightarrow> set (r_results r) \<subseteq> set (r_confirmed r) \<and>
     (\<forall>c. GGot c \<in> set (pcs r) \<longrightarrow> c \<in> set (r_confirmed r)) \<and>
     ((\<forall>p. r_pc r \<noteq> MReturned p) \<longrightarrow>
        (r_race_done r \<or> GSent \<in> set (pcs r) \<longrightarrow> r_results r \<noteq> []) \<and>
        (r_confirmed r \<noteq> [] \<longrightarrow> r_results r \<noteq> [] \<or> (\<exists>c. GGot c \<in> set (pcs r))))"

lemma winner_step:
  assumes ok: "winner_ok r" and st: "race_step cfg l r = Some r'"
  shows "winner_ok r'"
  using st
proof (cases rule: race_step_cases)
  case (refused k p)
  then have "GGot c \<in> set (pcs r') \<longleftrightarrow> GGot c \<in> set (pcs r)" "GSent \<in> set (pcs r') \<Longrightarrow> GSent \<in> set (pcs r)" for c
    by (auto simp: gor_at_pcs dest: update_memD intro: update_keep)
  then show ?thesis using ok refused(3) unfolding winner_ok_def by auto
next
  case (confirmed k c)
  then have "GGot c \<in> set (pcs r')" "GSent \<in> set (pcs r') \<Longrightarrow> GSent \<in> set (pcs r)"
      "GGot d \<in> set (pcs r') \<Longrightarrow> d = c \<or> GGot d \<in> set (pcs r)" for d
    by (auto simp: gor_at_pcs intro: set_update_memI dest: update_memD)
  then show ?thesis using ok confirmed(3) unfolding winner_ok_def by auto
next
  case (sent k c)
  then have "GGot c \<in> set (pcs r)" "GGot d \<in> set (pcs r') \<Longrightarrow> GGot d \<in> set (pcs r)" for d
    by (auto simp: gor_at_pcs dest: update_memD) (metis nth_mem pcs_simps(9))
  then show ?thesis using ok sent(4) unfolding winner_ok_def by auto
next
  case (dropped k c)
  then have "GGot d \<in> set (pcs r') \<Longrightarrow> GGot d \<in> set (pcs r)" "GSent \<in> set (pcs r') \<Longrightarrow> GSent \<in> set (pcs r)" for d
    by (auto dest: update_memD)
  then show ?thesis using ok dropped(3,4) unfolding winner_ok_def by auto
next
  case (canceled k)
  then have "GSent \<in> set (pcs r)" "GGot d \<in> set (pcs r') \<Longrightarrow> GGot d \<in> set (pcs r)" for d
    by (auto simp: gor_at_pcs dest: update_memD) (metis nth_mem pcs_simps(9))
  then show ?thesis using ok canceled(3) unfolding winner_ok_def by auto
next
  case (spawned i s)
  then show ?thesis using ok by (auto simp: winner_ok_def pcs_def)
qed (use ok in \<open>auto simp: winner_ok_def\<close>)

interpretation winner_inv: race_invariant cfg winner_ok for cfg
proof
  show "winner_ok (race_init now)" for now by (simp add: winner_ok_def race_init_def pcs_def)
qed (rule winner_step)

section \<open>The end of the race\<close>

text \<open>The channel is closed only after every goroutine has returned.\<close>

definition closed_ok :: "race \<Rightarrow> bool" where
  "closed_ok r \<longleftrightarrow> (r_pc r = MClosed \<longrightarrow> set (pcs r) \<subseteq> {GExit})"

lemma exited_gor_at: "set (pcs r) \<subseteq> {GExit} \<Longrightarrow> gor_at k r = Some pc \<Longrightarrow> pc = GExit"
  unfolding gor_at_pcs by (metis nth_mem singletonD subsetD)

interpretation closed_inv: race_invariant cfg closed_ok for cfg
proof
  show "closed_ok (race_init now)" for now by (simp add: closed_ok_def race_init_def)
  fix r l r'
  assume ok: "closed_ok r" and "race_step cfg l r = Some r'"
  from this(2) show "closed_ok r'"
  proof (cases rule: race_step_cases)
    case joined
    then show ?thesis by (auto simp: closed_ok_def pcs_def list_all_iff)
  next
    case (spawned i s)
    then show ?thesis by (simp add: closed_ok_def)
  qed (use ok in \<open>auto simp: closed_ok_def dest: exited_gor_at update_memD\<close>)
qed

lemma closed_race:
  assumes "reachable cfg r" "r_pc r = MClosed"
  shows "set (pcs r) \<subseteq> {GExit}" "r_results r = [] \<longleftrightarrow> r_confirmed r = []" "set (r_results r) \<subseteq> set (r_confirmed r)"
proof -
  show ex: "set (pcs r) \<subseteq> {GExit}" using closed_inv.inv_reachable [OF assms(1)] assms(2) by (simp add: closed_ok_def)
  have "winner_ok r" by (rule winner_inv.inv_reachable [OF assms(1)])
  then show "set (r_results r) \<subseteq> set (r_confirmed r)" "r_results r = [] \<longleftrightarrow> r_confirmed r = []"
    using ex assms(2) by (auto simp: winner_ok_def)
qed

text \<open>Every action but the passing of time makes the measure smaller.\<close>

fun gor_left :: "gor_pc \<Rightarrow> nat" where
  "gor_left GConfirm = 3"
| "gor_left (GGot c) = 2"
| "gor_left GSent = 1"
| "gor_left GExit = 0"

fun main_left :: "nat \<Rightarrow> main_pc \<Rightarrow> nat" where
  "main_left n (MLoop i) = 7 * (n - i) + 3"
| "main_left n (MPrepare i) = 7 * (n - i) + 2"
| "main_left n (MWait i t) = 7 * (n - i) - 2"
| "main_left n MJoin = 2"
| "main_left n (MBlocked p) = 1"
| "main_left n _ = 0"

definition race_left :: "race_cfg \<Rightarrow> race \<Rightarrow> nat" where
  "race_left cfg r = main_left (rc_count cfg) (r_pc r) + sum_list (map gor_left (pcs r))"

fun is_tick :: "label \<Rightarrow> bool" where
  "is_tick (LTick d) = True"
| "is_tick _ = False"

lemma sum_list_update_less:
  "k < length xs \<Longrightarrow> f y < f (xs ! k) \<Longrightarrow> sum_list (map f (xs[k := y])) < sum_list (map f xs)" for f :: "'a \<Rightarrow> nat"
  by (induction xs arbitrary: k) (auto simp: nth_Cons split: nat.splits)

lemma race_left_step:
  assumes wf: "race_wf cfg r" and st: "race_step cfg l r = Some r'"
  shows "if is_tick l then race_left cfg r' = race_left cfg r else race_left cfg r' < race_left cfg r"
  using st
proof (cases rule: race_step_cases)
  case (spawned i s)
  then have "i < rc_count cfg" using wf by (simp add: race_wf_def)
  then show ?thesis using spawned by (auto simp: race_left_def pcs_def)
qed (use wf in \<open>auto simp: race_left_def race_wf_def gor_at_pcs intro!: sum_list_update_less\<close>)

lemma race_exec_actions:
  "race_wf cfg r \<Longrightarrow> race_exec cfg ls r = Some r' \<Longrightarrow>
   length (filter (\<lambda>l. \<not> is_tick l) ls) + race_left cfg r' \<le> race_left cfg r"
proof (induction ls arbitrary: r)
  case (Cons l ls)
  then obtain r1 where st: "race_step cfg l r = Some r1" and ex: "race_exec cfg ls r1 = Some r'"
    by (auto split: option.splits)
  have "race_wf cfg r1" by (rule wf_inv.inv_step [OF Cons.prems(1) st])
  then show ?case using Cons.IH [OF _ ex] race_left_step [OF Cons.prems(1) st] by (auto split: if_splits)
qed simp

lemma race_left_init [simp]: "race_left cfg (race_init now) = 7 * rc_count cfg + 3"
  by (simp add: race_left_def race_init_def pcs_def)

text \<open>Some goroutine can act until all are done, once the waiting time has passed.\<close>

definition race_over :: "race \<Rightarrow> bool" where
  "race_over r \<longleftrightarrow> (r_pc r = MClosed \<or> (\<exists>p. r_pc r = MReturned p)) \<and> set (pcs r) \<subseteq> {GExit}"

lemma race_progress_step:
  assumes "reachable cfg r" "\<not> race_over r"
  shows "\<exists>d l r'. \<not> is_tick l \<and> race_exec cfg [LTick d, l] r = Some r'"
proof (cases "set (pcs r) \<subseteq> {GExit}")
  case False
  then obtain k where k: "k < length (pcs r)" "pcs r ! k \<noteq> GExit"
    by (metis in_set_conv_nth singleton_iff subsetI)
  then have at: "gor_at k r = Some (pcs r ! k)" by (simp add: gor_at_pcs)
  have tick: "r\<lparr>r_now := r_now r + int 0\<rparr> = r" by simp
  show ?thesis
  proof (cases "pcs r ! k")
    case GConfirm
    then show ?thesis using at tick
      by (intro exI [of _ 0] exI [of _ "LConfirm k (Inl \<lparr>pe_is = None, pe_text = []\<rparr>)"]) simp
  next
    case (GGot c)
    then obtain r' where "race_step cfg (LSend k) r = Some r'" using send_never_blocks [OF assms(1)] at by fastforce
    then show ?thesis using tick by (intro exI [of _ 0] exI [of _ "LSend k"]) (simp del: race_step.simps(7))
  next
    case GSent
    then show ?thesis using at tick by (intro exI [of _ 0] exI [of _ "LCancelRace k"]) simp
  qed (use k in simp)
next
  case True
  then have ex: "list_all (\<lambda>g. g_pc g = GExit) (r_gors r)" by (auto simp: pcs_def list_all_iff)
  show ?thesis
  proof (cases "r_pc r")
    case (MLoop i)
    then show ?thesis by (intro exI [of _ 0] exI [of _ LCheck]) simp
  next
    case (MPrepare i)
    then show ?thesis by (intro exI [of _ 0] exI [of _ "LPrepare (Inl \<lparr>pe_is = None, pe_text = []\<rparr>)"]) (simp add: blocking_def)
  next
    case (MWait i t)
    then show ?thesis by (intro exI [of _ "nat (t - r_now r)"] exI [of _ LWaited]) simp
  next
    case MJoin
    then show ?thesis using ex by (intro exI [of _ 0] exI [of _ LJoin]) simp
  next
    case (MBlocked p)
    then show ?thesis by (intro exI [of _ 0] exI [of _ LReturn]) simp
  qed (use assms(2) True in \<open>auto simp: race_over_def\<close>)
qed

lemma race_can_finish:
  "reachable cfg r \<Longrightarrow> \<exists>ls r'. race_exec cfg ls r = Some r' \<and> race_over r'"
proof (induction "race_left cfg r" arbitrary: r rule: less_induct)
  case less
  show ?case
  proof (cases "race_over r")
    case True
    then show ?thesis by (intro exI [of _ "[]"]) auto
  next
    case False
    then obtain d l r1 where l: "\<not> is_tick l" and ex: "race_exec cfg [LTick d, l] r = Some r1"
      using race_progress_step [OF less.prems] by blast
    have "race_left cfg r1 < race_left cfg r"
      using race_exec_actions [OF wf_inv.inv_reachable [OF less.prems] ex] l by simp
    then obtain ls r' where "race_exec cfg ls r1 = Some r'" "race_over r'"
      using less.hyps reachable_exec [OF less.prems ex] by blast
    then show ?thesis using ex race_exec_append [of cfg "[LTick d, l]" ls r] by (metis option.case(2))
  qed
qed

end
