(* ===== verification/RaceSpec.thy ===== *)
theory RaceSpec
  imports RaceFacts EngineSpec
begin

text \<open>The properties of the booking race and of \<^verbatim>\<open>RunBookingRace\<close>, with their witnesses.\<close>

section \<open>The race alone\<close>

text \<open>The labels of an execution account for the confirmations and for a blocked preparation.\<close>

lemma race_exec_confirmed:
  "race_exec cfg ls r = Some r' \<Longrightarrow>
   set (r_confirmed r') = set (r_confirmed r) \<union> {c. \<exists>k. LConfirm k (Inr c) \<in> set ls}"
proof (induction ls arbitrary: r)
  case (Cons l ls)
  then obtain r1 where st: "race_step cfg l r = Some r1" and ex: "race_exec cfg ls r1 = Some r'"
    by (auto split: option.splits)
  have "set (r_confirmed r1) = set (r_confirmed r) \<union> {c. \<exists>k. l = LConfirm k (Inr c)}"
    using st by (cases rule: race_step_cases) auto
  then show ?case using Cons.IH [OF ex] by auto
qed simp

lemma race_exec_blocked:
  "race_exec cfg ls r = Some r' \<Longrightarrow> r_pc r' = MBlocked p \<Longrightarrow>
   r_pc r = MBlocked p \<or> blocking p \<and> LPrepare (Inl p) \<in> set ls"
proof (induction ls arbitrary: r)
  case (Cons l ls)
  then obtain r1 where st: "race_step cfg l r = Some r1" and ex: "race_exec cfg ls r1 = Some r'"
    by (auto split: option.splits)
  have "r_pc r1 = MBlocked p \<Longrightarrow> r_pc r = MBlocked p \<or> blocking p \<and> l = LPrepare (Inl p)"
    using st by (cases rule: race_step_cases) (auto split: if_splits)
  then show ?case using Cons.IH [OF ex Cons.prems(2)] by auto
qed simp

definition ex_slot :: "nat \<Rightarrow> slot" where
  "ex_slot n = \<lparr>sl_venue = \<lparr>vr_provider = ''resy'', vr_ref = ''1505''\<rparr>, sl_date = Date 2026 5 9,
     sl_time = WallTime (19 + int n) 0 0, sl_table_type = ''Dining Room'', sl_party_size = 2, sl_payload = None\<rparr>"

definition ex_conf :: "nat \<Rightarrow> confirmation" where
  "ex_conf n = \<lparr>co_id = (if n = 0 then ''r1'' else ''r2''), co_booked_at = ex_due, co_human_readable = []\<rparr>"

definition ex_cfg :: race_cfg where
  "ex_cfg = \<lparr>rc_count = 2, rc_cancel_at = None, rc_gap = 100 * millisecond\<rparr>"

text \<open>Both attempts are confirmed; the second one loses.\<close>

definition ex_sched :: "label list" where
  "ex_sched = [LCheck, LPrepare (Inr (ex_slot 0)), LTick 100000000, LWaited, LCheck, LPrepare (Inr (ex_slot 1)),
     LCheck, LConfirm 1 (Inr (ex_conf 1)), LConfirm 0 (Inr (ex_conf 0)), LSend 0, LCancelRace 0, LDrop 1, LJoin]"

lemma ex_race_runs: "\<exists>r. race_exec ex_cfg ex_sched (race_init now) = Some r \<and> r_pc r = MClosed \<and>
    r_now r = now + 100000000 \<and> r_results r = [ex_conf 0] \<and> r_confirmed r = [ex_conf 1, ex_conf 0]"
  by (simp add: ex_sched_def ex_cfg_def race_init_def parent_done_def gor_at_def set_gor_def millisecond_def)

text \<open>C8: no booking is lost in the race, however the goroutines interleave. When the race reaches
  the closing of the channel, every confirming goroutine has returned, and a winner is there
  exactly when the provider has confirmed some slot; the winner is one of the confirmed ones. A
  goroutine that holds a confirmation is never blocked by a full channel.\<close>

theorem race_no_lost_booking:
  assumes "race_exec cfg ls (race_init now) = Some r"
  shows "(r_pc r = MClosed \<longrightarrow> (\<forall>g \<in> set (r_gors r). g_pc g = GExit) \<and>
      (r_results r \<noteq> [] \<longleftrightarrow> (\<exists>k c. LConfirm k (Inr c) \<in> set ls)) \<and>
      (\<forall>c \<in> set (r_results r). \<exists>k. LConfirm k (Inr c) \<in> set ls)) \<and>
    (\<forall>k c. gor_at k r = Some (GGot c) \<longrightarrow> race_step cfg (LSend k) r \<noteq> None)"
proof -
  have reach: "reachable cfg r" using assms by (auto simp: reachable_def)
  have conf: "set (r_confirmed r) = {c. \<exists>k. LConfirm k (Inr c) \<in> set ls}"
    using race_exec_confirmed [OF assms] by (simp add: race_init_def)
  have "(\<forall>g \<in> set (r_gors r). g_pc g = GExit) \<and> (r_results r \<noteq> [] \<longleftrightarrow> (\<exists>k c. LConfirm k (Inr c) \<in> set ls)) \<and>
      (\<forall>c \<in> set (r_results r). \<exists>k. LConfirm k (Inr c) \<in> set ls)" if "r_pc r = MClosed"
    using closed_race [OF reach that] conf by (auto simp: pcs_def simp flip: set_empty)
  then show ?thesis using send_never_blocks [OF reach] by blast
qed

theorem race_no_lost_booking_witness:
  "\<exists>r. race_exec ex_cfg ex_sched (race_init ex_due) = Some r \<and> (\<forall>g \<in> set (r_gors r). g_pc g = GExit) \<and> r_results r \<noteq> []"
proof -
  obtain r where r: "race_exec ex_cfg ex_sched (race_init ex_due) = Some r" "r_pc r = MClosed" "r_results r = [ex_conf 0]"
    using ex_race_runs by blast
  then show ?thesis using race_no_lost_booking [OF r(1)] by simp
qed

text \<open>C10: the race terminates. However goroutines are scheduled and whatever the provider answers, a
  race over \<^verbatim>\<open>n\<close> slots makes at most \<^verbatim>\<open>7n + 3\<close> actions besides the passing of time, and from every
  point it can go on, with answers of the provider and time, until the function and all its
  goroutines have ended: there is no deadlock on the channel, the wait group or the contexts.\<close>

theorem race_terminates:
  assumes "race_exec cfg ls (race_init now) = Some r"
  shows "length (filter (\<lambda>l. \<not> is_tick l) ls) \<le> 7 * rc_count cfg + 3 \<and>
    (\<exists>ms r'. race_exec cfg ms r = Some r' \<and> race_over r')"
  using race_exec_actions [OF wf_inv.inv_init assms] race_can_finish [of cfg r] assms
  by (auto simp: reachable_def)

theorem race_terminates_witness:
  "length (filter (\<lambda>l. \<not> is_tick l) ex_sched) \<le> 17"
proof -
  obtain r where "race_exec ex_cfg ex_sched (race_init ex_due) = Some r" using ex_race_runs by blast
  from race_terminates [OF this] show ?thesis by (simp add: ex_cfg_def)
qed

text \<open>C40: the slots are tried in the order of the user's preferences. A preference accepts a slot of its
  time, and of its table type if it names one. The ranking keeps every slot of
  the provider's answer with its multiplicity; whatever preference accepts a slot, each slot ranked before it is accepted
  by that preference or an earlier one, so a slot no preference accepts comes after all those one accepts; and the slots whose
  first accepting preference is the same, or that none accepts, keep the order of the answer.\<close>

theorem ranking_stable_sorted:
  "mset (rankSlotsByPreference slots prefs) = mset slots \<and>
   (\<forall>i j k. i < j \<and> j < length slots \<and> k < length prefs \<and> accepts (prefs ! k) (rankSlotsByPreference slots prefs ! j) \<longrightarrow>
      (\<exists>k' \<le> k. accepts (prefs ! k') (rankSlotsByPreference slots prefs ! i))) \<and>
   (\<forall>k \<le> length prefs.
      filter (\<lambda>s. (k < length prefs \<longrightarrow> accepts (prefs ! k) s) \<and> (\<forall>j < k. \<not> accepts (prefs ! j) s)) (rankSlotsByPreference slots prefs) =
      filter (\<lambda>s. (k < length prefs \<longrightarrow> accepts (prefs ! k) s) \<and> (\<forall>j < k. \<not> accepts (prefs ! j) s)) slots)"
proof (intro conjI allI impI)
  show "filter (\<lambda>s. (k < length prefs \<longrightarrow> accepts (prefs ! k) s) \<and> (\<forall>j < k. \<not> accepts (prefs ! j) s)) (rankSlotsByPreference slots prefs) =
      filter (\<lambda>s. (k < length prefs \<longrightarrow> accepts (prefs ! k) s) \<and> (\<forall>j < k. \<not> accepts (prefs ! j) s)) slots" if "k \<le> length prefs" for k
    using rank_stable [of prefs k slots] that by (simp add: slot_priority_iff)
qed (use rank_perm rank_order in blast)+

definition ex_prefs :: "slot_preference list" where
  "ex_prefs = [\<lparr>sp_time = WallTime 19 0 0, sp_table_type = ''Bar''\<rparr>, \<lparr>sp_time = WallTime 19 0 0, sp_table_type = []\<rparr>]"

definition ex_offer :: "string \<Rightarrow> walltime \<Rightarrow> slot" where
  "ex_offer table t = (ex_slot 0)\<lparr>sl_time := t, sl_table_type := table\<rparr>"

theorem ranking_stable_sorted_witness:
  "rankSlotsByPreference [ex_offer ''Bar'' (WallTime 20 0 0), ex_offer ''Patio'' (WallTime 19 0 0), ex_offer ''Bar'' (WallTime 19 0 0)] ex_prefs =
     [ex_offer ''Bar'' (WallTime 19 0 0), ex_offer ''Patio'' (WallTime 19 0 0), ex_offer ''Bar'' (WallTime 20 0 0)] \<and>
   (\<exists>k \<le> 1. accepts (ex_prefs ! k) (ex_offer ''Bar'' (WallTime 19 0 0)))"
proof -
  have r: "rankSlotsByPreference [ex_offer ''Bar'' (WallTime 20 0 0), ex_offer ''Patio'' (WallTime 19 0 0), ex_offer ''Bar'' (WallTime 19 0 0)] ex_prefs =
     [ex_offer ''Bar'' (WallTime 19 0 0), ex_offer ''Patio'' (WallTime 19 0 0), ex_offer ''Bar'' (WallTime 20 0 0)]" by code_simp
  have "accepts (ex_prefs ! 1) (ex_offer ''Patio'' (WallTime 19 0 0))" "length ex_prefs = 2" by code_simp+
  then show ?thesis
    using ranking_stable_sorted [of "[ex_offer ''Bar'' (WallTime 20 0 0), ex_offer ''Patio'' (WallTime 19 0 0), ex_offer ''Bar'' (WallTime 19 0 0)]" ex_prefs,
        THEN conjunct2, THEN conjunct1, rule_format, of 0 1 1] r by simp
qed

section \<open>The whole function\<close>

text \<open>A move that first sets the result in memory, as the step to Booked does. The event log holds the attributes as they
  are read back: a text of the provider in them need not be UTF-8.\<close>

lemma TransitionSnipe_stored:
  "TransitionSnipe sha io s (ev\<lparr>ev_attrs := stored_attrs (ev_attrs ev)\<rparr>) d = TransitionSnipe sha io s ev d"
proof -
  have "insert_event sid (ev\<lparr>ev_attrs := stored_attrs (ev_attrs ev)\<rparr>) = insert_event sid ev" for sid
    by (rule ext) (simp add: insert_event_def EncodeAttrs_stored)
  then show ?thesis by (simp only: TransitionSnipe_def)
qed

lemma result_move:
  assumes p: "persisted s evs w" and run: "state_Transition e to et attrs (s\<lparr>s_result := res\<rparr>) w = (err, s', w')"
    and io: "store_io e w = io_ok" and c: "CanTransition (s_status s) to" "rfc_range (w_now w)" "result_row_ok res"
    and a: "\<forall>(k, v) \<in> set (stored_attrs attrs). valid_utf8 k \<and> attr_ok v"
  shows "err = None \<and> s' = s\<lparr>s_result := res, s_status := to, s_updated_at := w_now w\<rparr> \<and>
    (\<exists>ev. persisted s' (evs @ [ev]) w') \<and> w_now w \<le> w_now w'"
proof -
  let ?c = "s\<lparr>s_result := res, s_status := to, s_updated_at := w_now w\<rparr>"
  let ?ev = "\<lparr>ev_type = et, ev_at = w_now w, ev_attrs = (LogKeySnipeID, AString (s_id s)) # attrs\<rparr>"
  have ok: "snipe_row_ok ?c" "db_ok (w_db w)" "snipe_at (w_db w) (s_id ?c) \<noteq> None"
    using p c by (simp_all add: persisted_def snipe_row_ok_def)
  obtain d where d: "TransitionSnipe (e_sha e) io_ok ?c ?ev (w_db w) = (None, d)"
    using TransitionSnipe_total [OF ok] by blast
  then have out: "err = None" "s' = ?c" "w_db w' = d" "w_now w \<le> w_now w'"
    using run io c by (auto simp: state_Transition_def persist_swap_def Let_def)
  let ?stored = "?ev\<lparr>ev_attrs := stored_attrs (ev_attrs ?ev)\<rparr>"
  have "event_row_ok ?stored" using p c(2) a by (simp add: persisted_def event_row_ok_def stored_attrs_def)
  moreover have "TransitionSnipe (e_sha e) io_ok ?c ?stored (w_db w) = (None, d)"
    unfolding TransitionSnipe_stored by (rule d)
  ultimately have "persisted ?c (evs @ [?stored]) w'"
    using persisted_move [OF p _ _ _ ok(1) _ _ out(3)] p by (simp add: persisted_def)
  then show ?thesis using out by blast
qed

lemma plain_move:
  assumes p: "persisted s evs w" and run: "state_Transition e to et attrs s w = (err, s', w')"
    and "store_io e w = io_ok" "CanTransition (s_status s) to" "rfc_range (w_now w)" "\<forall>(k, v) \<in> set (stored_attrs attrs). valid_utf8 k \<and> attr_ok v"
  shows "err = None \<and> s' = s\<lparr>s_status := to, s_updated_at := w_now w\<rparr> \<and>
    (\<exists>ev. persisted s' (evs @ [ev]) w') \<and> w_now w \<le> w_now w'"
proof -
  have res: "result_row_ok (s_result s)" using p by (simp add: persisted_def snipe_row_ok_def)
  have same: "s\<lparr>s_result := s_result s\<rparr> = s" by simp
  show ?thesis using result_move [OF p _ assms(3-5) res assms(6), unfolded same, OF run] by blast
qed

lemma failWithReason_live:
  assumes "failWithReason e reason msg cause s w = (err, s', w')" "persisted s evs w" "live_env e"
    and "CanTransition (s_status s) StatusFailed" "rfc_range (w_now w)"
  shows "err \<noteq> None \<and> s_status s' = StatusFailed \<and> s_id s' = s_id s \<and> (\<exists>evs'. persisted s' evs' w')"
proof -
  obtain e1 s1 w1 where st: "state_Transition e StatusFailed EventFailed
      [(''reason'', AString reason), (''err'', AString msg)] s w = (e1, s1, w1)" by (metis prod_cases3)
  show ?thesis
    using plain_move [OF assms(2) st live_env_simps(2) [OF assms(3)] assms(4,5)] st assms(1)
    by (auto simp: failWithReason_def stored_attrs_def)
qed

lemma finish_race_live:
  assumes fin: "finish_race e r s w = Some (err, s', w')" and p: "persisted s evs w" and live: "live_env e"
    and sb: "s_status s = StatusBooking" "rfc_range (w_now w)"
    and conf: "\<forall>c \<in> set (r_results r). rfc_range (co_booked_at c) \<and> valid_utf8 (co_id c)"
  shows "(\<exists>evs'. persisted s' evs' w') \<and> s_id s' = s_id s \<and>
    (if r_pc r = MClosed \<and> r_results r \<noteq> [] then err = None \<and> s_status s' = StatusBooked \<and>
       s_result s' = Some \<lparr>br_booked_at = co_booked_at (hd (r_results r)), br_confirmation_id = co_id (hd (r_results r))\<rparr>
     else err \<noteq> None \<and> s_status s' = StatusFailed)"
proof (cases "r_pc r = MClosed \<and> r_results r \<noteq> []")
  case True
  then obtain c cs where c: "r_results r = c # cs" by (cases "r_results r") auto
  let ?res = "Some \<lparr>br_booked_at = co_booked_at c, br_confirmation_id = co_id c\<rparr>"
  have st: "state_Transition e StatusBooked EventBooked
      [(LogKeyVenueRef, AString (venue_ref_string (i_venue (s_intent s)))), (''confirmation_id'', AString (co_id c))]
      (s\<lparr>s_result := ?res\<rparr>) w = (err, s', w')"
    using fin True c by (simp add: finish_race_def Let_def)
  show ?thesis
    using result_move [OF p st live_env_simps(2) [OF live] _ sb(2)] True c conf sb
    by (auto simp: transition_table result_row_ok_def stored_attrs_def)
next
  case False
  then obtain reason msg cause where "failWithReason e reason msg cause s w = (err, s', w')"
    using fin by (auto simp: finish_race_def split: main_pc.splits list.splits)
  then show ?thesis using failWithReason_live [OF _ p live _ sb(2)] sb(1) False by (auto simp: transition_table)
qed

lemma after_race_simps [simp]: "w_db (after_race r w) = w_db w" "w_now w \<le> w_now (after_race r w)"
  by (simp_all add: after_race_def)

lemma state_Transition_now_le: "state_Transition e to et attrs s w = (err, s', w') \<Longrightarrow> w_now w \<le> w_now w'"
  by (auto simp: state_Transition_def persist_swap_def Let_def split: if_splits sum.splits prod.splits option.splits)

lemma failWithReason_now_le: "failWithReason e reason msg cause s w = (err, s', w') \<Longrightarrow> w_now w \<le> w_now w'"
  by (auto simp: failWithReason_def dest: state_Transition_now_le split: prod.splits)

lemma finish_race_now_le: "finish_race e r s w = Some (err, s', w') \<Longrightarrow> w_now w \<le> w_now w'"
  by (auto simp: finish_race_def Let_def dest: state_Transition_now_le failWithReason_now_le
      split: main_pc.splits list.splits)

definition has_slots :: "env \<Rightarrow> bool" where
  "has_slots e \<longleftrightarrow> (\<forall>n req. case e_find e n req of Inr (x # xs) \<Rightarrow> True | _ \<Rightarrow> False)"

lemma has_slotsD: "has_slots e \<Longrightarrow> \<exists>x xs. e_find e n req = Inr (x # xs)"
  unfolding has_slots_def by (drule spec [of _ n], drule spec [of _ req]) (auto split: sum.splits list.splits)

lemma RunBookingRace_cases:
  assumes run: "RunBookingRace e en True sess sched s w = Some (err, s', w')" and prov: "en_has_provider en"
    and live: "live_env e" and p: "persisted s evs w" and aw: "s_status s = StatusAwaiting"
    and t: "0 \<le> w_now w" "rfc_range (w_now w')"
  obtains (no_slots) reason msg cause s1 w1 evs1 where "failWithReason e reason msg cause s1 w1 = (err, s', w')"
      "persisted s1 evs1 w1" "s_status s1 = StatusFinding" "s_id s1 = s_id s" "rfc_range (w_now w1)" "\<not> has_slots e"
  | (raced) cfg now r s2 w2 evs2 where "race_exec cfg sched (race_init now) = Some r"
      "finish_race e r s2 w2 = Some (err, s', w')" "persisted s2 evs2 w2" "s_status s2 = StatusBooking"
      "s_id s2 = s_id s" "rfc_range (w_now w2)"
proof -
  let ?a1 = "[(LogKeyVenueRef, AString (venue_ref_string (i_venue (s_intent s))))]"
  obtain e1 s1 w1 where f: "state_Transition e StatusFinding EventFound ?a1 s w = (e1, s1, w1)" by (metis prod_cases3)
  have le1: "w_now w \<le> w_now w1" by (rule state_Transition_now_le [OF f])
  let ?w2 = "after_call e w1"
  have le2: "w_now w1 \<le> w_now ?w2" by simp
  have range: "rfc_range x" if "w_now w \<le> x" "x \<le> w_now w'" for x
    by (rule rfc_range_upto [OF _ _ t(2)]) (use that t in linarith)+
  have fnd: "e1 = None \<and> s1 = s\<lparr>s_status := StatusFinding, s_updated_at := w_now w\<rparr> \<and> (\<exists>ev. persisted s1 (evs @ [ev]) w1)"
    if "w_now w \<le> w_now w'"
    using plain_move [OF p f live_env_simps(2) [OF live]] that range aw by (auto simp: transition_table stored_attrs_def)
  let ?req = "\<lparr>fr_venue = i_venue (s_intent s1), fr_date = i_date (s_intent s1), fr_party_size = i_party_size (s_intent s1),
      fr_times = slotPrefTimes (i_slot_prefs (s_intent s1)), fr_session = Some sess\<rparr>"
  show thesis
  proof (cases e1)
    case (Some er)
    then have "w' = w1" using run f prov by (simp add: RunBookingRace_def)
    then show thesis using fnd le1 Some by simp
  next
    case None
    show thesis
    proof (cases "\<exists>x xs. e_find e (w_tick w1) ?req = Inr (x # xs)")
      case False
      then have ns: "\<not> has_slots e" using has_slotsD by blast
      obtain reason msg cause where fw: "failWithReason e reason msg cause s1 ?w2 = (err, s', w')"
        using run f prov None False by (auto simp: RunBookingRace_def Let_def split: sum.splits list.splits)
      have le: "w_now ?w2 \<le> w_now w'" "w_now w \<le> w_now ?w2"
        using failWithReason_now_le [OF fw] le1 le2 by linarith+
      then obtain ev where s1: "s1 = s\<lparr>s_status := StatusFinding, s_updated_at := w_now w\<rparr>" "persisted s1 (evs @ [ev]) w1"
        using fnd order_trans by blast
      then have "persisted s1 (evs @ [ev]) ?w2" by (simp add: persisted_def)
      from no_slots [OF fw this _ _ range [OF le(2,1)] ns] show thesis using s1(1) by simp
    next
      case True
      then obtain x xs where fr: "e_find e (w_tick w1) ?req = Inr (x # xs)" by blast
      let ?rk = "rankSlotsByPreference (x # xs) (i_slot_prefs (s_intent s1))"
      let ?a2 = "[(LogKeyVenueRef, AString (venue_ref_string (i_venue (s_intent s1)))), (''slot_count'', AInt (go_len ?rk))]"
      obtain e2 s2 w3 where b: "state_Transition e StatusBooking EventBookAttempted ?a2 s1 ?w2 = (e2, s2, w3)" by (metis prod_cases3)
      have le3: "w_now ?w2 \<le> w_now w3" by (rule state_Transition_now_le [OF b])
      have bk: "e2 = None \<and> s2 = s1\<lparr>s_status := StatusBooking, s_updated_at := w_now ?w2\<rparr> \<and> s1 = s\<lparr>s_status := StatusFinding, s_updated_at := w_now w\<rparr>
          \<and> (\<exists>evs2. persisted s2 evs2 w3)" if "w_now ?w2 \<le> w_now w'"
      proof -
        have le: "w_now w \<le> w_now ?w2" "w_now w \<le> w_now w'" using le1 le2 that by linarith+
        then obtain ev where s1: "s1 = s\<lparr>s_status := StatusFinding, s_updated_at := w_now w\<rparr>" "persisted s1 (evs @ [ev]) w1"
          using fnd by blast
        then have "persisted s1 (evs @ [ev]) ?w2" by (simp add: persisted_def)
        from plain_move [OF this b live_env_simps(2) [OF live]] range [OF le(1) that] s1(1)
        show ?thesis by (simp add: transition_table stored_attrs_def attr_ok_simps) blast
      qed
      show thesis
      proof (cases e2)
        case (Some er)
        then have "w' = w3" using run f prov None fr b by (simp add: RunBookingRace_def Let_def)
        then show thesis using bk le3 Some by simp
      next
        case None2: None
        obtain r where r: "race_exec (race_config e en ?rk) sched (race_init (w_now w3)) = Some r"
          "finish_race e r s2 (after_race r w3) = Some (err, s', w')"
          using run f prov None fr b None2 by (auto simp: RunBookingRace_def Let_def split: option.splits)
        have le: "w_now (after_race r w3) \<le> w_now w'" by (rule finish_race_now_le [OF r(2)])
        have le4: "w_now w3 \<le> w_now (after_race r w3)" by simp
        have "w_now ?w2 \<le> w_now w'" "w_now w \<le> w_now (after_race r w3)" using le le1 le2 le3 le4 by linarith+
        then obtain evs2 where s2: "persisted s2 evs2 w3" "s_status s2 = StatusBooking" "s_id s2 = s_id s"
          "rfc_range (w_now (after_race r w3))"
          using bk range le by auto
        show thesis by (rule raced [OF r _ s2(2-4)]) (use s2(1) in \<open>simp add: persisted_def\<close>)
      qed
    qed
  qed
qed

text \<open>C9: a race that ends has an honest outcome. In an environment without cancellation and store
  faults, \<^verbatim>\<open>RunBookingRace\<close> on an awaiting snipe leaves it, in memory and in the database, either
  Booked (returning nil, with the id of a confirmation the provider gave, which is UTF-8 as
  everything \<^verbatim>\<open>encoding/json\<close> reads) or Failed (returning an error). When the provider offers slots, confirms one of them and blocks no preparation, the
  snipe is Booked.\<close>

theorem booking_race_outcome:
  assumes run: "RunBookingRace e en True sess sched s w = Some (err, s', w')" and "en_has_provider en"
    and "live_env e" "persisted s evs w" "s_status s = StatusAwaiting" "0 \<le> w_now w" "rfc_range (w_now w')"
    and conf: "\<forall>k c. LConfirm k (Inr c) \<in> set sched \<longrightarrow> rfc_range (co_booked_at c) \<and> valid_utf8 (co_id c)"
  shows "(\<exists>evs'. persisted s' evs' w') \<and> s_id s' = s_id s \<and>
    (if err = None then s_status s' = StatusBooked \<and> (\<exists>k c. LConfirm k (Inr c) \<in> set sched \<and>
        s_result s' = Some \<lparr>br_booked_at = co_booked_at c, br_confirmation_id = co_id c\<rparr>)
     else s_status s' = StatusFailed) \<and>
    (has_slots e \<and> (\<exists>k c. LConfirm k (Inr c) \<in> set sched) \<and> (\<forall>p. LPrepare (Inl p) \<in> set sched \<longrightarrow> \<not> blocking p) \<longrightarrow>
     err = None)"
  using run assms(2-7)
proof (cases rule: RunBookingRace_cases)
  case (no_slots reason msg cause s1 w1 evs1)
  then show ?thesis
    using failWithReason_live [OF no_slots(1,2) assms(3) _ no_slots(5)] by (auto simp: transition_table)
next
  case (raced cfg now r s2 w2 evs2)
  have reach: "reachable cfg r" using raced(1) by (auto simp: reachable_def)
  have cs: "set (r_confirmed r) = {c. \<exists>k. LConfirm k (Inr c) \<in> set sched}"
    using race_exec_confirmed [OF raced(1)] by (simp add: race_init_def)
  have "winner_ok r" by (rule winner_inv.inv_reachable [OF reach])
  then have win: "\<forall>c \<in> set (r_results r). \<exists>k. LConfirm k (Inr c) \<in> set sched"
    using cs by (auto simp: winner_ok_def)
  then have out: "(\<exists>evs'. persisted s' evs' w') \<and> s_id s' = s_id s2 \<and>
    (if r_pc r = MClosed \<and> r_results r \<noteq> [] then err = None \<and> s_status s' = StatusBooked \<and>
       s_result s' = Some \<lparr>br_booked_at = co_booked_at (hd (r_results r)), br_confirmation_id = co_id (hd (r_results r))\<rparr>
     else err \<noteq> None \<and> s_status s' = StatusFailed)"
    using finish_race_live [OF raced(2,3) assms(3) raced(4,6)] conf by blast
  have "r_pc r = MClosed \<or> (\<exists>p. blocking p \<and> LPrepare (Inl p) \<in> set sched)"
    using raced(2) race_exec_blocked [OF raced(1)]
    by (auto simp: finish_race_def race_init_def split: main_pc.splits)
  moreover have "r_results r = [] \<longleftrightarrow> \<not> (\<exists>k c. LConfirm k (Inr c) \<in> set sched)" if "r_pc r = MClosed"
    using closed_race(2) [OF reach that] cs by (auto simp flip: set_empty)
  moreover have "r_results r \<noteq> [] \<Longrightarrow> \<exists>k. LConfirm k (Inr (hd (r_results r))) \<in> set sched"
    using win hd_in_set by blast
  ultimately show ?thesis using out raced(5) by (auto split: if_splits)
qed

section \<open>Witnesses\<close>

definition ex_await :: snipe_state where
  "ex_await = ex_snipe\<lparr>s_status := StatusAwaiting\<rparr>"

definition ex_race_world :: world where
  "ex_race_world = ex_world\<lparr>w_db := snd (CreateSnipe (\<lambda>x. x) io_ok ex_await empty_db)\<rparr>"

definition ex_race_env :: env where
  "ex_race_env = ex_env\<lparr>e_find := (\<lambda>_ _. Inr [ex_slot 1, ex_slot 0])\<rparr>"

definition ex_race_session :: session where
  "ex_race_session = \<lparr>ss_provider = ''resy'', ss_user = ''ana@example.com'', ss_expires_at = 0\<rparr>"

lemma ex_await_persisted: "persisted ex_await [] ex_race_world"
proof -
  have ok: "snipe_row_ok ex_await" using ex_snipe_row_ok by (simp add: ex_await_def snipe_row_ok_def)
  obtain d where d: "CreateSnipe (\<lambda>x. x) io_ok ex_await empty_db = (None, d)"
    using CreateSnipe_total [OF ok empty_db_ok, where sha = "\<lambda>x. x"] empty_snipe_at by auto
  then show ?thesis
    using CreateSnipe_refines [OF d ok empty_db_ok] CreateSnipe_db_ok [OF d ok empty_db_ok] ok
    by (simp add: persisted_def ex_race_world_def abs_create_def) (simp add: ex_await_def)
qed

lemma ex_race_simps [simp]:
  "w_now ex_race_world = ex_due" "s_status ex_await = StatusAwaiting" "s_id ex_await = ''snp_1''"
  "s_result ex_await = None" "en_has_provider ex_engine"
  by (simp_all add: ex_race_world_def ex_await_def ex_snipe_def ex_engine_def)

lemma rank_length [simp]: "length (rankSlotsByPreference slots prefs) = length slots"
  using rank_perm [of slots prefs] by (metis size_mset)

text \<open>The function up to the start of the race, when store and provider answer at once.\<close>

lemma RunBookingRace_enters:
  assumes io: "\<And>w1. w_now w1 = w_now w \<Longrightarrow> store_io e w1 = io_ok" and p: "persisted s evs w"
    and s: "s_status s = StatusAwaiting" "en_has_provider en" "rfc_range (w_now w)"
    and now: "e_store_time e = (\<lambda>_. 0)" "e_call_time e = (\<lambda>_. 0)" and slots: "e_find e = (\<lambda>_ _. Inr (x # xs))"
  obtains s2 w2 evs2 where "persisted s2 evs2 w2" "s_status s2 = StatusBooking" "s_id s2 = s_id s"
    "s_result s2 = s_result s" "w_now w2 = w_now w"
    "RunBookingRace e en True sess sched s w =
       (case race_exec (race_config e en (rankSlotsByPreference (x # xs) (i_slot_prefs (s_intent s)))) sched (race_init (w_now w)) of
          None \<Rightarrow> None | Some r \<Rightarrow> finish_race e r s2 (after_race r w2))"
proof -
  let ?a1 = "[(LogKeyVenueRef, AString (venue_ref_string (i_venue (s_intent s))))]"
  obtain e1 s1 w1 where f: "state_Transition e StatusFinding EventFound ?a1 s w = (e1, s1, w1)" by (metis prod_cases3)
  have s1: "e1 = None \<and> s1 = s\<lparr>s_status := StatusFinding, s_updated_at := w_now w\<rparr> \<and> (\<exists>ev. persisted s1 (evs @ [ev]) w1)"
    using plain_move [OF p f io] s by (auto simp: transition_table stored_attrs_def)
  let ?w1 = "after_call e w1"
  have n1: "w_now ?w1 = w_now w" using state_Transition_now [OF now(1), of _ _ _ s w] f now by (simp add: after_call_def) (metis snd_conv)
  obtain ev where "persisted s1 (evs @ [ev]) w1" using s1 by blast
  then have p1: "persisted s1 (evs @ [ev]) ?w1" by (simp add: persisted_def)
  let ?rk = "rankSlotsByPreference (x # xs) (i_slot_prefs (s_intent s))"
  let ?a2 = "[(LogKeyVenueRef, AString (venue_ref_string (i_venue (s_intent s)))), (''slot_count'', AInt (go_len ?rk))]"
  obtain e2 s2 w2 where b: "state_Transition e StatusBooking EventBookAttempted ?a2 s1 ?w1 = (e2, s2, w2)" by (metis prod_cases3)
  have s2: "e2 = None \<and> s2 = s1\<lparr>s_status := StatusBooking, s_updated_at := w_now ?w1\<rparr> \<and> (\<exists>ev'. persisted s2 ((evs @ [ev]) @ [ev']) w2)"
    using plain_move [OF p1 b io [OF n1]] s s1 n1 by (auto simp: transition_table stored_attrs_def attr_ok_simps)
  have n2: "w_now w2 = w_now w" using state_Transition_now [OF now(1), of _ _ _ s1 ?w1] b n1 by (metis snd_conv)
  obtain evs2 where p2: "persisted s2 evs2 w2" using s2 by blast
  have eqs: "e1 = None" "s1 = s\<lparr>s_status := StatusFinding, s_updated_at := w_now w\<rparr>"
    "e2 = None" "s2 = s\<lparr>s_status := StatusBooking, s_updated_at := w_now ?w1\<rparr>" using s1 s2 by simp_all
  show thesis
    by (rule that [OF p2 _ _ _ n2]) (use eqs f b slots s n2 in \<open>simp_all add: RunBookingRace_def Let_def cong: option.case_cong\<close>)
qed

lemma ex_race_config: "length slots = 2 \<Longrightarrow>
    race_config (ex_race_env\<lparr>e_cancel_at := c\<rparr>) ex_engine (rankSlotsByPreference slots prefs) = ex_cfg\<lparr>rc_cancel_at := c\<rparr>"
  by (simp add: race_config_def ex_cfg_def pollInterval_def ex_engine_def defaultBookingPolicy_def)

lemma ex_race_quiet: "w_now w1 = ex_due \<Longrightarrow> (\<And>c. cancel = Some c \<Longrightarrow> ex_due < c) \<Longrightarrow> store_io (ex_race_env\<lparr>e_cancel_at := cancel\<rparr>) w1 = io_ok"
  by (auto simp: store_io_def ctx_done_def ex_race_env_def ex_env_def split: option.splits)

lemma ex_race_enters:
  assumes cancel: "\<And>c. cancel = Some c \<Longrightarrow> ex_due < c"
    and r: "race_exec (ex_cfg\<lparr>rc_cancel_at := cancel\<rparr>) sched (race_init ex_due) = Some r"
  shows "\<exists>s2 w2 evs2. persisted s2 evs2 w2 \<and> s_status s2 = StatusBooking \<and> s_id s2 = ''snp_1'' \<and>
    s_result s2 = None \<and> w_now w2 = ex_due \<and>
    RunBookingRace (ex_race_env\<lparr>e_cancel_at := cancel\<rparr>) ex_engine True ex_race_session sched ex_await ex_race_world =
      finish_race (ex_race_env\<lparr>e_cancel_at := cancel\<rparr>) r s2 (after_race r w2)"
proof -
  let ?e = "ex_race_env\<lparr>e_cancel_at := cancel\<rparr>"
  have e: "e_store_time ?e = (\<lambda>_. 0)" "e_call_time ?e = (\<lambda>_. 0)" "e_find ?e = (\<lambda>_ _. Inr [ex_slot 1, ex_slot 0])"
    by (simp_all add: ex_race_env_def ex_env_def)
  have io: "store_io ?e w1 = io_ok" if "w_now w1 = w_now ex_race_world" for w1
    using ex_race_quiet cancel that by simp
  show ?thesis
  proof (rule RunBookingRace_enters [OF io ex_await_persisted _ _ _ e, where sess = ex_race_session and sched = sched and en = ex_engine])
    fix s2 w2 evs2
    assume p: "persisted s2 evs2 w2" "s_status s2 = StatusBooking" "s_id s2 = s_id ex_await"
      "s_result s2 = s_result ex_await" "w_now w2 = w_now ex_race_world"
      "RunBookingRace ?e ex_engine True ex_race_session sched ex_await ex_race_world =
         (case race_exec (race_config ?e ex_engine (rankSlotsByPreference [ex_slot 1, ex_slot 0] (i_slot_prefs (s_intent ex_await))))
            sched (race_init (w_now ex_race_world)) of
            None \<Rightarrow> None | Some r \<Rightarrow> finish_race ?e r s2 (after_race r w2))"
    show ?thesis
      by (rule exI [of _ s2], rule exI [of _ w2], rule exI [of _ evs2]) (use p r in \<open>simp add: ex_race_config\<close>)
  qed simp_all
qed

lemma ex_race_env_live: "live_env ex_race_env" "has_slots ex_race_env"
  by (simp_all add: live_env_def has_slots_def ex_race_env_def ex_env_def)

lemma ex_race_env_cancel: "ex_race_env\<lparr>e_cancel_at := None\<rparr> = ex_race_env" "ex_cfg\<lparr>rc_cancel_at := None\<rparr> = ex_cfg"
  by (simp_all add: ex_race_env_def ex_env_def ex_cfg_def)

lemma ex_later_range: "rfc_range (ex_due + 100000000)"
  by code_simp

lemma finish_race_now:
  "e_store_time e = (\<lambda>_. 0) \<Longrightarrow> finish_race e r s w = Some (err, s', w') \<Longrightarrow> w_now w' = w_now w"
  using state_Transition_now [of e]
  by (auto simp: finish_race_def failWithReason_def Let_def split: main_pc.splits list.splits prod.splits) (metis snd_conv)+

lemma finish_race_ends:
  assumes "r_pc r = MClosed \<or> (\<exists>p. r_pc r = MBlocked p)"
  obtains err s' w' where "finish_race e r s w = Some (err, s', w')"
proof -
  have "finish_race e r s w \<noteq> None" using assms by (elim disjE exE) (simp_all add: finish_race_def del: not_None_eq)
  then obtain x where "finish_race e r s w = Some x" by blast
  then show thesis using that by (cases x) simp
qed

lemma ex_booking: "\<exists>s' w'. RunBookingRace ex_race_env ex_engine True ex_race_session ex_sched ex_await ex_race_world = Some (None, s', w')
    \<and> w_now w' = ex_due + 100000000"
proof -
  obtain r where r: "race_exec ex_cfg ex_sched (race_init ex_due) = Some r" "r_pc r = MClosed" "r_now r = ex_due + 100000000"
    "r_results r = [ex_conf 0]" using ex_race_runs by blast
  obtain s2 w2 evs2 where p: "persisted s2 evs2 w2" "s_status s2 = StatusBooking" "w_now w2 = ex_due"
    "RunBookingRace ex_race_env ex_engine True ex_race_session ex_sched ex_await ex_race_world =
       finish_race ex_race_env r s2 (after_race r w2)"
    using ex_race_enters [of None ex_sched r] r(1) unfolding ex_race_env_cancel by auto
  have now: "w_now (after_race r w2) = ex_due + 100000000" using p(3) r(3) by (simp add: after_race_def)
  obtain err s' w' where fin: "finish_race ex_race_env r s2 (after_race r w2) = Some (err, s', w')"
    using finish_race_ends r(2) by blast
  have "persisted s2 evs2 (after_race r w2)" using p(1) by (simp add: persisted_def)
  then have "err = None"
    using finish_race_live [OF fin _ ex_race_env_live(1) p(2)] now r ex_later_range
    by (auto simp: ex_conf_def split: if_splits)
  moreover have "w_now w' = ex_due + 100000000"
    using finish_race_now [OF _ fin] now by (simp add: ex_race_env_def ex_env_def)
  ultimately show ?thesis using fin p(4) by auto
qed

theorem booking_race_outcome_witness:
  "\<exists>s' w'. RunBookingRace ex_race_env ex_engine True ex_race_session ex_sched ex_await ex_race_world = Some (None, s', w') \<and>
     s_status s' = StatusBooked \<and> (\<exists>evs'. persisted s' evs' w')"
proof -
  obtain s' w' where run: "RunBookingRace ex_race_env ex_engine True ex_race_session ex_sched ex_await ex_race_world = Some (None, s', w')"
    and now: "w_now w' = ex_due + 100000000" using ex_booking by blast
  have "\<forall>k c. LConfirm k (Inr c) \<in> set ex_sched \<longrightarrow> rfc_range (co_booked_at c) \<and> valid_utf8 (co_id c)"
    by (auto simp: ex_sched_def ex_conf_def)
  then show ?thesis
    using booking_race_outcome [OF run _ ex_race_env_live(1) ex_await_persisted] run now ex_later_range by auto
qed

text \<open>Two schedules: the second preparation is rate limited while the first slot is being confirmed,
  and the caller's context is cancelled while the first slot is being confirmed.\<close>

definition ex_blocked_sched :: "label list" where
  "ex_blocked_sched = [LCheck, LPrepare (Inr (ex_slot 0)), LTick 100000000, LWaited, LCheck,
     LConfirm 0 (Inr (ex_conf 0)), LPrepare (Inl \<lparr>pe_is = Some ErrRateLimited, pe_text = ''429''\<rparr>)]"

definition ex_shutdown_sched :: "label list" where
  "ex_shutdown_sched = [LCheck, LPrepare (Inr (ex_slot 0)), LTick 1, LConfirm 0 (Inr (ex_conf 0)), LSend 0,
     LCancelRace 0, LWaitCanceled, LJoin]"

definition ex_shutdown_env :: env where
  "ex_shutdown_env = ex_race_env\<lparr>e_cancel_at := Some (ex_due + 1)\<rparr>"

lemma ex_blocked_race: "\<exists>r p. race_exec ex_cfg ex_blocked_sched (race_init ex_due) = Some r \<and> r_pc r = MBlocked p \<and>
    r_now r = ex_due + 100000000 \<and> r_results r = []"
  by (simp add: ex_blocked_sched_def ex_cfg_def race_init_def parent_done_def gor_at_def set_gor_def millisecond_def blocking_def)

lemma ex_shutdown_race: "\<exists>r. race_exec (ex_cfg\<lparr>rc_cancel_at := Some (ex_due + 1)\<rparr>) ex_shutdown_sched (race_init ex_due) = Some r \<and>
    r_pc r = MClosed \<and> r_now r = ex_due + 1 \<and> r_results r = [ex_conf 0]"
  by (simp add: ex_shutdown_sched_def ex_cfg_def race_init_def parent_done_def gor_at_def set_gor_def millisecond_def)

lemma ex_blocked_booking: "\<exists>err s' w' evs. RunBookingRace ex_race_env ex_engine True ex_race_session ex_blocked_sched ex_await ex_race_world =
    Some (Some err, s', w') \<and> persisted s' evs w' \<and> s_id s' = ''snp_1'' \<and> s_status s' = StatusFailed \<and> s_result s' = None"
proof -
  obtain r p where r: "race_exec ex_cfg ex_blocked_sched (race_init ex_due) = Some r" "r_pc r = MBlocked p"
    "r_now r = ex_due + 100000000" "r_results r = []" using ex_blocked_race by blast
  obtain s2 w2 evs2 where s2: "persisted s2 evs2 w2" "s_status s2 = StatusBooking" "w_now w2 = ex_due" "s_result s2 = None"
    "s_id s2 = ''snp_1''" "RunBookingRace ex_race_env ex_engine True ex_race_session ex_blocked_sched ex_await ex_race_world =
       finish_race ex_race_env r s2 (after_race r w2)"
    using ex_race_enters [of None ex_blocked_sched r] r(1) unfolding ex_race_env_cancel by auto
  have now: "rfc_range (w_now (after_race r w2))" using s2(3) r(3) ex_later_range by (simp add: after_race_def)
  obtain err s' w' where st: "state_Transition ex_race_env StatusFailed EventFailed
      [(''reason'', AString ''prepare_blocked''), (''err'', AString (pe_text p))] s2 (after_race r w2) = (err, s', w')"
    by (metis prod_cases3)
  have "persisted s2 evs2 (after_race r w2)" using s2(1) by (simp add: persisted_def)
  from plain_move [OF this st live_env_simps(2) [OF ex_race_env_live(1)] _ now]
  have "s' = s2\<lparr>s_status := StatusFailed, s_updated_at := w_now (after_race r w2)\<rparr>" "\<exists>evs. persisted s' evs w'"
    using s2(2) by (auto simp: transition_table stored_attrs_def)
  then show ?thesis using s2 r(2) st by (auto simp: finish_race_def failWithReason_def)
qed

lemma ex_shutdown_booking: "\<exists>err s' w' s2 evs. RunBookingRace ex_shutdown_env ex_engine True ex_race_session ex_shutdown_sched ex_await ex_race_world =
    Some (Some err, s', w') \<and> s_result s' \<noteq> None \<and> persisted s2 evs w' \<and> s_id s2 = ''snp_1'' \<and> s_status s2 = StatusBooking \<and> s_result s2 = None"
proof -
  obtain r where r: "race_exec (ex_cfg\<lparr>rc_cancel_at := Some (ex_due + 1)\<rparr>) ex_shutdown_sched (race_init ex_due) = Some r" "r_pc r = MClosed"
    "r_now r = ex_due + 1" "r_results r = [ex_conf 0]" using ex_shutdown_race by blast
  obtain s2 w2 evs2 where s2: "persisted s2 evs2 w2" "s_status s2 = StatusBooking" "w_now w2 = ex_due" "s_result s2 = None"
    "s_id s2 = ''snp_1''" "RunBookingRace ex_shutdown_env ex_engine True ex_race_session ex_shutdown_sched ex_await ex_race_world =
       finish_race ex_shutdown_env r s2 (after_race r w2)"
    using ex_race_enters [of "Some (ex_due + 1)" ex_shutdown_sched r] r(1) unfolding ex_shutdown_env_def by auto
  let ?w = "after_race r w2"
  let ?s = "s2\<lparr>s_result := Some \<lparr>br_booked_at = co_booked_at (ex_conf 0), br_confirmation_id = co_id (ex_conf 0)\<rparr>\<rparr>"
  have "ctx_done ex_shutdown_env ?w" using s2(3) r(3) by (simp add: ctx_done_def ex_shutdown_env_def after_race_def)
  then have io: "store_io ex_shutdown_env ?w = (\<lambda>_. Some ErrCanceled)" by (simp add: store_io_def)
  let ?attrs = "[(LogKeyVenueRef, AString (venue_ref_string (i_venue (s_intent s2)))), (''confirmation_id'', AString (co_id (ex_conf 0)))]"
  let ?c = "?s\<lparr>s_status := StatusBooked, s_updated_at := w_now ?w\<rparr>"
  let ?ev = "\<lparr>ev_type = EventBooked, ev_at = w_now ?w, ev_attrs = (LogKeySnipeID, AString (s_id s2)) # ?attrs\<rparr>"
  obtain err s' w' where ps: "persist_swap ex_shutdown_env ?s ?c ?ev ?w = (err, s', w')" by (metis prod_cases3)
  then have fin: "finish_race ex_shutdown_env r s2 ?w = Some (err, s', w')"
    using r(2,4) s2(2) by (simp add: finish_race_def state_Transition_def transition_table Let_def)
  from ps have out: "err \<noteq> None \<and> s' = ?s \<and> w_db w' = w_db ?w"
    using TransitionSnipe_canceled by (cases rule: persist_swap_cases) (auto simp: io)
  then have "persisted s2 evs2 w'" using s2(1) by (simp add: persisted_def)
  then show ?thesis using fin out s2 by auto
qed

text \<open>a confirmed booking can be missing from the database. If a preparation is rate limited while
  an earlier slot is being confirmed, \<^verbatim>\<open>RunBookingRace\<close> returns without waiting for that
  confirmation, and the snipe is stored as Failed without the reservation that was made. If the
  context is cancelled while a slot is being confirmed, the step to Booked is not stored: the
  state in memory has a result, the database still says Booking, without one.\<close>

theorem confirmed_booking_unrecorded:
  "(\<exists>err s' w' s2. RunBookingRace ex_race_env ex_engine True ex_race_session ex_blocked_sched ex_await ex_race_world =
      Some (Some err, s', w') \<and> LConfirm 0 (Inr (ex_conf 0)) \<in> set ex_blocked_sched \<and>
      snipe_at (w_db w') ''snp_1'' = Some s2 \<and> s_status s2 = StatusFailed \<and> s_result s2 = None) \<and>
   (\<exists>err s' w' s2. RunBookingRace ex_shutdown_env ex_engine True ex_race_session ex_shutdown_sched ex_await ex_race_world =
      Some (Some err, s', w') \<and> LConfirm 0 (Inr (ex_conf 0)) \<in> set ex_shutdown_sched \<and> s_result s' \<noteq> None \<and>
      snipe_at (w_db w') ''snp_1'' = Some s2 \<and> s_status s2 = StatusBooking \<and> s_result s2 = None)"
proof (rule conjI)
  have "LConfirm 0 (Inr (ex_conf 0)) \<in> set ex_blocked_sched" by (simp add: ex_blocked_sched_def)
  then show "\<exists>err s' w' s2. RunBookingRace ex_race_env ex_engine True ex_race_session ex_blocked_sched ex_await ex_race_world =
      Some (Some err, s', w') \<and> LConfirm 0 (Inr (ex_conf 0)) \<in> set ex_blocked_sched \<and>
      snipe_at (w_db w') ''snp_1'' = Some s2 \<and> s_status s2 = StatusFailed \<and> s_result s2 = None"
    using ex_blocked_booking by (fastforce simp: persisted_def)
  have "LConfirm 0 (Inr (ex_conf 0)) \<in> set ex_shutdown_sched" by (simp add: ex_shutdown_sched_def)
  then show "\<exists>err s' w' s2. RunBookingRace ex_shutdown_env ex_engine True ex_race_session ex_shutdown_sched ex_await ex_race_world =
      Some (Some err, s', w') \<and> LConfirm 0 (Inr (ex_conf 0)) \<in> set ex_shutdown_sched \<and> s_result s' \<noteq> None \<and>
      snipe_at (w_db w') ''snp_1'' = Some s2 \<and> s_status s2 = StatusBooking \<and> s_result s2 = None"
    using ex_shutdown_booking by (fastforce simp: persisted_def)
qed

end
