(* ===== verification/JsonText.thy ===== *)
theory JsonText
  imports GoalCodec "HOL-Library.List_Lexorder" "HOL-Library.Char_ord" "HOL-Library.AList" "HOL-Library.Multiset"
begin

text \<open>
  The texts the Resy adapter exchanges: \<^verbatim>\<open>json.Unmarshal\<close>'s reading of a text as a document
  (with its limit on nesting, its escapes and its replacement of malformed UTF-8), the two base64
  encodings a token may use, form and query encoding, and the canonical form of header names.
\<close>

section \<open>JSON texts\<close>

definition json_space :: "char \<Rightarrow> bool" where
  "json_space c \<longleftrightarrow> c \<in> {CHR 0x20, CHR 0x09, CHR 0x0A, CHR 0x0D}"

definition skip_space :: "string \<Rightarrow> string" where
  "skip_space s = dropWhile json_space s"

definition some_digits :: "string \<Rightarrow> (string \<times> string) option" where
  "some_digits s = (case takeWhile is_digit s of [] \<Rightarrow> None | ds \<Rightarrow> Some (ds, dropWhile is_digit s))"

text \<open>The fraction and the exponent of a number, each with the rest of the text.\<close>

definition frac_part :: "string \<Rightarrow> (string \<times> string) option" where
  "frac_part s = (case s of
       c # r \<Rightarrow> if c = CHR ''.'' then map_option (apfst (Cons c)) (some_digits r) else Some ([], s)
     | [] \<Rightarrow> Some ([], []))"

definition exp_part :: "string \<Rightarrow> (string \<times> string) option" where
  "exp_part s = (case s of
       c # r \<Rightarrow> if c \<in> set ''eE'' then
           (case r of d # t \<Rightarrow> if d \<in> set ''+-'' then map_option (apfst (\<lambda>ds. c # d # ds)) (some_digits t)
                               else map_option (apfst (Cons c)) (some_digits r)
            | [] \<Rightarrow> None)
         else Some ([], s)
     | [] \<Rightarrow> Some ([], []))"

definition json_number :: "string \<Rightarrow> (json \<times> string) option" where
  "json_number s =
     (let neg = prefix ''-'' s; r = (if neg then tl s else s) in
      case some_digits r of None \<Rightarrow> None
      | Some (ds, r1) \<Rightarrow>
        if hd ds = CHR ''0'' \<and> tl ds \<noteq> [] then None
        else case frac_part r1 of None \<Rightarrow> None
        | Some (fr, r2) \<Rightarrow>
          case exp_part r2 of None \<Rightarrow> None
          | Some (ex, r3) \<Rightarrow>
            let n = int (the (read_digits 0 ds)) in
            Some (if fr = [] \<and> ex = [] then JInt (if neg then - n else n)
                  else JNum ((if neg then ''-'' else []) @ ds @ fr @ ex), r3))"

section \<open>JSON strings\<close>

text \<open>The UTF-8 form of a code point.\<close>

definition utf8 :: "nat \<Rightarrow> string" where
  "utf8 n =
     (if n < 128 then [char_of n]
      else if n < 2048 then [char_of (192 + n div 64), char_of (128 + n mod 64)]
      else if n < 65536 then [char_of (224 + n div 4096), char_of (128 + n div 64 mod 64), char_of (128 + n mod 64)]
      else [char_of (240 + n div 262144), char_of (128 + n div 4096 mod 64), char_of (128 + n div 64 mod 64), char_of (128 + n mod 64)])"

definition hex4 :: "string \<Rightarrow> (nat \<times> string) option" where
  "hex4 s = (case s of
       a # b # c # d # r \<Rightarrow> (case (unhex a, unhex b, unhex c, unhex d) of
           (Some w, Some x, Some y, Some z) \<Rightarrow> Some (4096 * w + 256 * x + 16 * y + z, r)
         | _ \<Rightarrow> None)
     | _ \<Rightarrow> None)"

text \<open>A \<^verbatim>\<open>\\u\<close> escape after its first two bytes: a surrogate counts only as the first of a pair.\<close>

definition unicode_escape :: "string \<Rightarrow> (string \<times> string) option" where
  "unicode_escape s = (case hex4 s of None \<Rightarrow> None
     | Some (n, r) \<Rightarrow>
         if n < 55296 \<or> 57343 < n then Some (utf8 n, r)
         else (case r of
             x # y # t \<Rightarrow>
               if x = CHR 0x5C \<and> y = CHR ''u'' then
                 (case hex4 t of None \<Rightarrow> None
                  | Some (m, t') \<Rightarrow>
                      if n < 56320 \<and> 56320 \<le> m \<and> m \<le> 57343
                      then Some (utf8 (65536 + 1024 * (n - 55296) + (m - 56320)), t') else Some (replacement, r))
               else Some (replacement, r)
           | _ \<Rightarrow> Some (replacement, r)))"

definition plain_escapes :: "(char \<times> char) list" where
  "plain_escapes = [(CHR 0x22, CHR 0x22), (CHR 0x5C, CHR 0x5C), (CHR ''/'', CHR ''/''), (CHR ''b'', CHR 0x08),
     (CHR ''f'', CHR 0x0C), (CHR ''n'', CHR 0x0A), (CHR ''r'', CHR 0x0D), (CHR ''t'', CHR 0x09)]"

text \<open>The next piece of a string's contents.\<close>

definition json_piece :: "char \<Rightarrow> string \<Rightarrow> (string \<times> string) option" where
  "json_piece c r =
     (if c = CHR 0x5C then
        (case r of [] \<Rightarrow> None
         | e # r' \<Rightarrow> if e = CHR ''u'' then unicode_escape r'
             else map_option (\<lambda>x. ([x], r')) (map_of plain_escapes e))
      else if byte c < 32 then None
      else if byte c < 128 then Some ([c], r)
      else case utf8_len (c # r) of None \<Rightarrow> Some (replacement, r)
         | Some n \<Rightarrow> Some (take n (c # r), drop (n - 1) r))"

lemma hex4_shorter: "hex4 s = Some (n, r) \<Longrightarrow> length r < length s"
  by (auto simp: hex4_def split: list.splits option.splits)

lemma unicode_escape_shorter: "unicode_escape s = Some (b, r) \<Longrightarrow> length r < length s"
  by (fastforce simp: unicode_escape_def split: option.splits prod.splits if_splits list.splits dest!: hex4_shorter)

lemma json_piece_shorter: "json_piece c r = Some (b, r') \<Longrightarrow> length r' \<le> length r"
  by (auto simp: json_piece_def split: list.splits option.splits if_splits dest!: unicode_escape_shorter)

function json_chars :: "string \<Rightarrow> (string \<times> string) option" where
  "json_chars [] = None"
| "json_chars (c # r) = (if c = CHR 0x22 then Some ([], r)
     else case json_piece c r of None \<Rightarrow> None
       | Some (b, r') \<Rightarrow> map_option (apfst (append b)) (json_chars r'))"
  by pat_completeness auto
termination by (relation "measure length") (auto dest: json_piece_shorter)

definition json_key :: "string \<Rightarrow> (string \<times> string) option" where
  "json_key s = (case s of c # r \<Rightarrow> if c = CHR 0x22 then json_chars r else None | [] \<Rightarrow> None)"

section \<open>JSON documents\<close>

definition max_nesting :: nat where
  "max_nesting = 10000"

lemma skip_space_shorter: "skip_space s = c # r \<Longrightarrow> length r < length s"
  using length_dropWhile_le [of json_space s] by (simp add: skip_space_def)

text \<open>A value, the elements of an array after its bracket and the members of an object after
  its brace, with the depth left. What follows a part is shorter than the part, so the tests of
  lengths, which make the recursion end, always succeed.\<close>

function json_value :: "nat \<Rightarrow> string \<Rightarrow> (json \<times> string) option"
  and json_elems :: "nat \<Rightarrow> string \<Rightarrow> (json list \<times> string) option"
  and json_fields :: "nat \<Rightarrow> string \<Rightarrow> (members \<times> string) option" where
  "json_value d s =
     (case skip_space s of [] \<Rightarrow> None
      | c # r \<Rightarrow>
        if c = CHR 0x22 then map_option (apfst JStr) (json_chars r)
        else if c = CHR ''['' then
          (if d = 0 then None
           else if prefix '']'' (skip_space r) then Some (JArr [], tl (skip_space r))
           else map_option (apfst JArr) (json_elems (d - 1) r))
        else if c = CHR ''{'' then
          (if d = 0 then None
           else if prefix ''}'' (skip_space r) then Some (JObj [], tl (skip_space r))
           else map_option (apfst JObj) (json_fields (d - 1) r))
        else if prefix ''null'' (c # r) then Some (JNull, drop 3 r)
        else if prefix ''true'' (c # r) then Some (JBool True, drop 3 r)
        else if prefix ''false'' (c # r) then Some (JBool False, drop 4 r)
        else json_number (c # r))"
| "json_elems d s =
     (case json_value d s of None \<Rightarrow> None
      | Some (v, r) \<Rightarrow>
        (case skip_space r of [] \<Rightarrow> None
         | c # t \<Rightarrow>
           if c = CHR '']'' then Some ([v], t)
           else if c = CHR '','' \<and> length t < length s then map_option (apfst (Cons v)) (json_elems d t)
           else None))"
| "json_fields d s =
     (case json_key (skip_space s) of None \<Rightarrow> None
      | Some (k, r) \<Rightarrow>
        (case skip_space r of [] \<Rightarrow> None
         | c # t \<Rightarrow>
           if c = CHR '':'' \<and> length t < length s then
             (case json_value d t of None \<Rightarrow> None
              | Some (v, r1) \<Rightarrow>
                (case skip_space r1 of [] \<Rightarrow> None
                 | c1 # t1 \<Rightarrow>
                   if c1 = CHR ''}'' then Some ([(k, v)], t1)
                   else if c1 = CHR '','' \<and> length t1 < length s then map_option (apfst (Cons (k, v))) (json_fields d t1)
                   else None))
           else None))"
  by pat_completeness auto

termination
  by (relation "measure (\<lambda>x. case x of Inl (_, s) \<Rightarrow> 2 * length s | Inr (Inl (_, s)) \<Rightarrow> 2 * length s + 1
        | Inr (Inr (_, s)) \<Rightarrow> 2 * length s + 1)")
     (auto dest: skip_space_shorter)

declare json_value.simps [simp del] json_elems.simps [simp del] json_fields.simps [simp del]

definition json_read :: "string \<Rightarrow> json option" where
  "json_read s = (case json_value max_nesting s of
       Some (v, r) \<Rightarrow> if skip_space r = [] then Some v else None
     | None \<Rightarrow> None)"

section \<open>Base64\<close>

definition base64_value :: "char \<Rightarrow> char \<Rightarrow> char \<Rightarrow> nat option" where
  "base64_value p62 p63 c =
     (if 65 \<le> byte c \<and> byte c \<le> 90 then Some (byte c - 65)
      else if 97 \<le> byte c \<and> byte c \<le> 122 then Some (byte c - 71)
      else if is_digit c then Some (digit_val c + 52)
      else if c = p62 then Some 62 else if c = p63 then Some 63 else None)"

definition three_bytes :: "nat \<Rightarrow> nat \<Rightarrow> nat \<Rightarrow> nat \<Rightarrow> string" where
  "three_bytes w x y z = [char_of (4 * w + x div 16), char_of (16 * (x mod 16) + y div 4), char_of (64 * (y mod 4) + z)]"

text \<open>\<open>pad\<close> says whether the last group is filled with equals signs or cut short.\<close>

fun base64_groups :: "(char \<Rightarrow> nat option) \<Rightarrow> bool \<Rightarrow> string \<Rightarrow> string option" where
  "base64_groups v pad [] = Some []"
| "base64_groups v pad [a] = None"
| "base64_groups v pad [a, b] = (case (v a, v b) of
     (Some w, Some x) \<Rightarrow> if pad then None else Some (take 1 (three_bytes w x 0 0)) | _ \<Rightarrow> None)"
| "base64_groups v pad [a, b, c] = (case (v a, v b, v c) of
     (Some w, Some x, Some y) \<Rightarrow> if pad then None else Some (take 2 (three_bytes w x y 0)) | _ \<Rightarrow> None)"
| "base64_groups v pad (a # b # c # d # r) = (case (v a, v b) of
     (Some w, Some x) \<Rightarrow>
       (case v c of
          Some y \<Rightarrow> (case v d of
              Some z \<Rightarrow> map_option (append (three_bytes w x y z)) (base64_groups v pad r)
            | None \<Rightarrow> if pad \<and> d = CHR ''='' \<and> r = [] then Some (take 2 (three_bytes w x y 0)) else None)
        | None \<Rightarrow> if pad \<and> c = CHR ''='' \<and> d = CHR ''='' \<and> r = [] then Some (take 1 (three_bytes w x 0 0)) else None)
   | _ \<Rightarrow> None)"

definition strip_newlines :: "string \<Rightarrow> string" where
  "strip_newlines s = filter (\<lambda>c. c \<noteq> CHR 0x0A \<and> c \<noteq> CHR 0x0D) s"

definition RawURLEncoding_decode :: "string \<Rightarrow> string option" where
  "RawURLEncoding_decode s = base64_groups (base64_value CHR ''-'' CHR ''_'') False (strip_newlines s)"

definition StdEncoding_decode :: "string \<Rightarrow> string option" where
  "StdEncoding_decode s = base64_groups (base64_value CHR ''+'' CHR ''/'') True (strip_newlines s)"

section \<open>Forms and headers\<close>

definition query_byte_kept :: "char \<Rightarrow> bool" where
  "query_byte_kept c \<longleftrightarrow> is_letter c \<or> is_digit c \<or> c \<in> set ''-_.~''"

definition upper_hex :: "nat \<Rightarrow> char" where
  "upper_hex n = ''0123456789ABCDEF'' ! n"

definition QueryEscape :: "string \<Rightarrow> string" where
  "QueryEscape s = concat (map (\<lambda>c. if query_byte_kept c then [c] else if c = CHR '' '' then ''+''
     else [CHR ''%'', upper_hex (byte c div 16), upper_hex (byte c mod 16)]) s)"

text \<open>\<^verbatim>\<open>Values.Encode\<close>: sorted by key, one value each.\<close>

definition Encode :: "(string \<times> string) list \<Rightarrow> string" where
  "Encode vs = join_with ''&'' (map (\<lambda>(k, v). QueryEscape k @ ''='' @ QueryEscape v) (sort_key fst vs))"

definition token_byte :: "char \<Rightarrow> bool" where
  "token_byte c \<longleftrightarrow> is_letter c \<or> is_digit c \<or> c \<in> set (''!#$%&*+-.^_|~'' @ [CHR 0x27, CHR 0x60])"

definition upper_char :: "char \<Rightarrow> char" where
  "upper_char c = (if 97 \<le> byte c \<and> byte c \<le> 122 then char_of (byte c - 32) else c)"

fun canonical_bytes :: "bool \<Rightarrow> string \<Rightarrow> string" where
  "canonical_bytes up [] = []"
| "canonical_bytes up (c # r) = (if up then upper_char c else lower_char c) # canonical_bytes (c = CHR ''-'') r"

definition CanonicalHeaderKey :: "string \<Rightarrow> string" where
  "CanonicalHeaderKey k = (if list_all token_byte k then canonical_bytes True k else k)"

type_synonym headers = "(string \<times> string) list"

definition header_put :: "string \<Rightarrow> string \<Rightarrow> headers \<Rightarrow> headers" where
  "header_put k v h = AList.update k v h"

definition header_Set :: "string \<Rightarrow> string \<Rightarrow> headers \<Rightarrow> headers" where
  "header_Set k v h = header_put (CanonicalHeaderKey k) v h"

section \<open>A form is read back\<close>

lemma unhex_upper_hex: "n < 16 \<Longrightarrow> unhex (upper_hex n) = Some n \<and> query_byte_kept (upper_hex n)"
proof -
  have "\<forall>n \<in> set [0..<16]. unhex (upper_hex n) = Some n \<and> query_byte_kept (upper_hex n)" by code_simp
  then show "n < 16 \<Longrightarrow> ?thesis" by simp
qed

lemma query_byte_plain: "query_byte_kept c \<Longrightarrow> c \<noteq> CHR ''%'' \<and> c \<noteq> CHR ''+'' \<and> c \<noteq> CHR ''&'' \<and> c \<noteq> CHR ''='' \<and> c \<noteq> CHR '';''"
  by (auto simp: query_byte_kept_def is_letter_def is_digit_def digits_def byte_def)

lemma QueryEscape_Cons: "QueryEscape (c # s) = (if query_byte_kept c then [c] else if c = CHR '' '' then ''+''
     else [CHR ''%'', upper_hex (byte c div 16), upper_hex (byte c mod 16)]) @ QueryEscape s"
  by (simp add: QueryEscape_def)

lemma byte_lt: "byte c < 256"
  unfolding byte_def by (rule nat_of_char_less_256)

lemma unescape_QueryEscape: "unescape EncQuery (QueryEscape s) = Some s"
proof (induction s)
  case (Cons c s)
  have "char_of (16 * (byte c div 16) + byte c mod 16) = c" by (simp add: byte_def)
  then show ?case
    using Cons query_byte_plain [of c] unhex_upper_hex [of "byte c div 16"] unhex_upper_hex [of "byte c mod 16"] byte_lt [of c]
    by (simp add: QueryEscape_Cons less_mult_imp_div_less)
qed (simp add: QueryEscape_def)

lemma QueryEscape_plain: "c \<in> set (QueryEscape s) \<Longrightarrow> c \<noteq> CHR ''&'' \<and> c \<noteq> CHR ''='' \<and> c \<noteq> CHR '';''"
proof (induction s)
  case (Cons b s)
  then show ?case
    using query_byte_plain [of b] unhex_upper_hex [of "byte b div 16"] unhex_upper_hex [of "byte b mod 16"]
      query_byte_plain [of "upper_hex (byte b div 16)"] query_byte_plain [of "upper_hex (byte b mod 16)"] byte_lt [of b]
    by (auto simp: QueryEscape_Cons less_mult_imp_div_less split: if_splits)
qed (simp add: QueryEscape_def)

lemma splitOn_last: "x \<notin> set s \<Longrightarrow> splitOn x s = [s]"
  by (induction s) auto

lemma splitOn_item: "x \<notin> set s \<Longrightarrow> splitOn x (s @ x # r) = s # splitOn x r"
proof (induction s)
  case Nil
  show ?case by (cases "splitOn x r") (auto elim: splitOn.elims split: list.splits if_splits)
qed (auto split: list.splits)

lemma splitOn_join: "\<forall>s \<in> set xs. x \<notin> set s \<Longrightarrow> xs \<noteq> [] \<Longrightarrow> splitOn x (join_with [x] xs) = xs"
proof (induction xs)
  case (Cons s xs)
  then show ?case by (cases xs) (simp_all add: splitOn_last splitOn_item)
qed simp

lemma form_lookup: "query_lookup (map (\<lambda>(k, v). QueryEscape k @ ''='' @ QueryEscape v) vs) x =
    (case map_of vs x of None \<Rightarrow> [] | Some v \<Rightarrow> v)"
proof (induction vs)
  case (Cons kv vs)
  obtain k v where kv: "kv = (k, v)" by (cases kv)
  have eq: "CHR ''='' \<notin> set (QueryEscape k)" and "CHR '';'' \<notin> set (QueryEscape k @ ''='' @ QueryEscape v)"
    using QueryEscape_plain by fastforce+
  then have "takeWhile (\<lambda>c. c \<noteq> CHR ''='') (QueryEscape k @ CHR ''='' # QueryEscape v) = QueryEscape k"
    "dropWhile (\<lambda>c. c \<noteq> CHR ''='') (QueryEscape k @ CHR ''='' # QueryEscape v) = CHR ''='' # QueryEscape v"
    by (subst takeWhile_append2 dropWhile_append2, auto)+
  then show ?case using Cons \<open>CHR '';'' \<notin> _\<close> by (simp add: kv cut_def unescape_QueryEscape)
qed simp

text \<open>\<^verbatim>\<open>ParseQuery\<close> of an encoded form, at a key.\<close>

definition form_value :: "string \<Rightarrow> string \<Rightarrow> string" where
  "form_value body k = query_lookup (splitOn CHR ''&'' body) k"

lemma form_value_Encode:
  assumes "distinct (map fst vs)" "(k, v) \<in> set vs"
  shows "form_value (Encode vs) k = v"
proof -
  let ?vs = "sort_key fst vs"
  have "mset (map fst ?vs) = mset (map fst vs)" by simp
  then have "distinct (map fst ?vs)" using assms(1) mset_eq_imp_distinct_iff by blast
  then have "map_of ?vs k = Some v" using assms(2) by (intro map_of_is_SomeI) simp_all
  moreover have "?vs \<noteq> []" using assms(2) by (metis empty_iff empty_set set_sort)
  moreover have "\<forall>s \<in> set (map (\<lambda>(k, v). QueryEscape k @ ''='' @ QueryEscape v) ?vs). CHR ''&'' \<notin> set s"
    using QueryEscape_plain by fastforce
  ultimately show ?thesis using form_lookup [of ?vs k] by (simp add: form_value_def Encode_def splitOn_join)
qed

end
