(* ===== verification/Resy.thy ===== *)
theory Resy
  imports JsonText SnipeStore Providers "HOL-Library.Word" "HOL-Library.AList"
begin

text \<open>
  The transit layer of the Resy adapter (\<^verbatim>\<open>internal/resy\<close>): the classification of responses
  (\<^verbatim>\<open>errors.go\<close>), the client and its single exchange (\<^verbatim>\<open>client.go\<close>), signing and the one retry
  (\<^verbatim>\<open>sign_retry.go\<close>), and sessions (\<^verbatim>\<open>session.go\<close>). An error is a constructor for its origin, with
  the status and the excerpt it carries; \<open>resy_is\<close> is the sentinel \<^verbatim>\<open>errors.Is\<close> sees in it. What the adapter cannot
  decide is a \<open>resy_env\<close>: how the \<open>n\<close>-th exchange and the \<open>n\<close>-th call of the signer end and how long
  they take, the context's cancellation, the order in which a map is ranged over. What it
  changes is a \<open>resy_world\<close>: the clock, the sessions in the database, the booking keys already
  sent, and the requests that left, each with its instant.
\<close>

section \<open>Errors\<close>

datatype resy_error =
    Classified sentinel nat string
  | Signal sentinel
  | ServerError nat string
  | UnexpectedStatus nat string
  | Transport string
  | BadInput string
  | WrongType string
  | BadResponse string
  | MFAError string
  | KeyReused string
  | StoreFailed store_error

fun resy_is :: "resy_error \<Rightarrow> sentinel option" where
  "resy_is (Classified k _ _) = Some k"
| "resy_is (Signal k) = Some k"
| "resy_is (MFAError _) = Some ErrMFARequired"
| "resy_is _ = None"

definition truncate_text :: "string \<Rightarrow> nat \<Rightarrow> string" where
  "truncate_text s n = (if length s \<le> n then s else take n s @ ''...'')"

definition wrapWithBody :: "sentinel \<Rightarrow> nat \<Rightarrow> string \<Rightarrow> resy_error" where
  "wrapWithBody k status body = Classified k status (truncate_text body 128)"

definition contains :: "string \<Rightarrow> string \<Rightarrow> bool" where
  "contains s p \<longleftrightarrow> find_sub p s \<noteq> None"

definition antibot_markers :: "string list" where
  "antibot_markers = [''captcha'', ''challenge'', ''denied'', ''blocked'', ''perimeterx'', ''px-captcha'']"

definition isAntiBotBody :: "(string \<Rightarrow> string) \<Rightarrow> string \<Rightarrow> bool" where
  "isAntiBotBody uni body = list_ex (contains (ToLower uni body)) antibot_markers"

text \<open>\<^verbatim>\<open>json.Unmarshal\<close> into a struct.\<close>

definition unmarshal :: "(members \<Rightarrow> json_error + 'a) \<Rightarrow> string \<Rightarrow> 'a option" where
  "unmarshal dec body = (case json_read body of None \<Rightarrow> None
     | Some j \<Rightarrow> (case bind_result (as_members j) dec of Inl _ \<Rightarrow> None | Inr x \<Rightarrow> Some x))"

definition extractSpecificCode :: "string \<Rightarrow> string" where
  "extractSpecificCode body = (case unmarshal (str_member ''specific_code'') body of None \<Rightarrow> [] | Some s \<Rightarrow> s)"

definition isMFARequiredBody :: "string \<Rightarrow> bool" where
  "isMFARequiredBody body = (case unmarshal (bool_member ''mfa_required'') body of None \<Rightarrow> False | Some b \<Rightarrow> b)"

definition objs_member :: "string \<Rightarrow> members \<Rightarrow> json_error + members list" where
  "objs_member k fs = bind_result (arr_member k fs) (map_result as_members)"

definition isEmptyFindBody :: "string \<Rightarrow> bool" where
  "isEmptyFindBody body =
     (case unmarshal (\<lambda>fs. bind_result (obj_member ''results'' fs) (objs_member ''venues'')) body of
        None \<Rightarrow> False
      | Some vs \<Rightarrow> vs = [] \<and> contains body ([CHR 0x22] @ ''venues'' @ [CHR 0x22]))"

definition classify2xx :: "string \<Rightarrow> resy_error option" where
  "classify2xx body =
     (if isMFARequiredBody body then Some (Signal ErrMFARequired)
      else if isEmptyFindBody body then Some (Signal ErrInventoryEmpty) else None)"

text \<open>\<^verbatim>\<open>strings.ToUpper\<close> has an ASCII path and a path through the Unicode tables.\<close>

definition ToUpper :: "(string \<Rightarrow> string) \<Rightarrow> string \<Rightarrow> string" where
  "ToUpper uni s = (if ascii s then map upper_char s else uni s)"

definition specific_codes :: "(string \<times> sentinel) list" where
  "specific_codes = [(''BOOK_TOKEN_EXPIRED'', ErrBookTokenExpired), (''SLOT_NOT_AVAILABLE'', ErrSlotTaken),
     (''SLOT_TAKEN'', ErrSlotTaken), (''SLOT_UNAVAILABLE'', ErrSlotTaken), (''AUTH_REQUIRED'', ErrAuthExpired),
     (''AUTH_EXPIRED'', ErrAuthExpired), (''RATE_LIMITED'', ErrRateLimited)]"

record case_tables =
  ct_lower :: "string \<Rightarrow> string"
  ct_upper :: "string \<Rightarrow> string"

definition classify :: "case_tables \<Rightarrow> nat \<Rightarrow> string \<Rightarrow> resy_error option" where
  "classify ct status body =
     (if status = 200 \<or> status = 201 then classify2xx body
      else if status = 401 then Some (wrapWithBody ErrAuthExpired status body)
      else if status = 429 then Some (wrapWithBody ErrRateLimited status body)
      else if status = 410 then Some (wrapWithBody ErrBookTokenExpired status body)
      else if status = 404 then Some (wrapWithBody ErrVenueNotFound status body)
      else if status = 409 then Some (wrapWithBody ErrSlotTaken status body)
      else if status = 403 then
        (if isAntiBotBody (ct_lower ct) body then Some (wrapWithBody ErrAntiBotChallenge status body)
         else Some (wrapWithBody ErrAuthExpired status body))
      else let code = extractSpecificCode body in
        case (if code = [] then None else map_of specific_codes (ToUpper (ct_upper ct) code)) of
          Some k \<Rightarrow> Some (wrapWithBody k status body)
        | None \<Rightarrow> if 500 \<le> status \<and> status < 600 then Some (ServerError status (truncate_text body 256))
            else Some (UnexpectedStatus status (truncate_text body 256)))"

section \<open>The client\<close>

definition providerID :: provider_id where
  "providerID = ''resy''"

definition DefaultBaseURL :: string where
  "DefaultBaseURL = ''https://api.resy.com''"

definition DefaultAPIKey :: string where
  "DefaultAPIKey = ''VbWk7s3L4KiK5fzlO7JD3Q5EYolJI7n5''"

definition DefaultUserAgent :: string where
  "DefaultUserAgent = ''Mozilla/5.0 (Macintosh; Intel Mac OS X 10_15_7) '' @
     ''AppleWebKit/537.36 (KHTML, like Gecko) Chrome/143.0.0.0 Safari/537.36''"

definition originHost :: string where
  "originHost = ''https://widgets.resy.com''"

definition refererURL :: string where
  "refererURL = ''https://widgets.resy.com/''"

text \<open>A client: whether sessions are persisted, and whether the signer is \<^verbatim>\<open>sign.Noop\<close>.\<close>

record resy_client =
  rc_base_url :: string
  rc_api_key :: string
  rc_user_agent :: string
  rc_store :: bool
  rc_noop :: bool

datatype client_option =
    WithBaseURL string | WithAPIKey string | WithUserAgent string | WithStore
  | WithSigner "bool option"

text \<open>The argument of \<open>WithSigner\<close> is \<open>None\<close> for nil, else whether the signer is the no-op one.\<close>

fun apply_option :: "client_option \<Rightarrow> resy_client \<Rightarrow> resy_client" where
  "apply_option (WithBaseURL u) c = c\<lparr>rc_base_url := u\<rparr>"
| "apply_option (WithAPIKey k) c = c\<lparr>rc_api_key := k\<rparr>"
| "apply_option (WithUserAgent a) c = c\<lparr>rc_user_agent := a\<rparr>"
| "apply_option WithStore c = c\<lparr>rc_store := True\<rparr>"
| "apply_option (WithSigner None) c = c\<lparr>rc_noop := True\<rparr>"
| "apply_option (WithSigner (Some noop)) c = c\<lparr>rc_noop := noop\<rparr>"

definition resolveAPIKey :: "string \<Rightarrow> string" where
  "resolveAPIKey v = (if v \<noteq> [] then v else DefaultAPIKey)"

text \<open>The first argument is the value of \<^verbatim>\<open>RESY_API_KEY\<close>.\<close>

definition NewClient :: "string \<Rightarrow> client_option list \<Rightarrow> resy_client" where
  "NewClient key opts = fold apply_option opts
     \<lparr>rc_base_url = DefaultBaseURL, rc_api_key = resolveAPIKey key, rc_user_agent = DefaultUserAgent, rc_store = False, rc_noop = True\<rparr>"

section \<open>The exchange\<close>

record resy_request =
  rr_method :: string
  rr_url :: string
  rr_body :: string
  rr_headers :: headers

record resy_reply =
  rp_status :: nat
  rp_header :: headers
  rp_body :: string

record resy_response =
  re_status :: nat
  re_request_id :: string
  re_header :: headers

record resy_env =
  rn_cases :: case_tables
  rn_quote :: "string \<Rightarrow> string"
  rn_load_location :: "string \<Rightarrow> location option"
  rn_cancel_at :: "instant option"
  rn_io :: "nat \<Rightarrow> io"
  rn_time :: "nat \<Rightarrow> nat"
  rn_late :: "nat \<Rightarrow> nat"
  rn_ctx_first :: "nat \<Rightarrow> bool"
  rn_net :: "nat \<Rightarrow> resy_request \<Rightarrow> string + resy_reply"
  rn_sign :: "nat \<Rightarrow> string \<Rightarrow> headers \<times> string option"
  rn_order :: "nat \<Rightarrow> headers \<Rightarrow> headers"

record resy_world =
  rw_now :: instant
  rw_tick :: nat
  rw_db :: db
  rw_seen :: "string list"
  rw_sent :: "(instant \<times> resy_request) list"

text \<open>\<^verbatim>\<open>strconv.Quote\<close>, with the printable characters beyond ASCII left to the tables.\<close>

definition quote_byte :: "char \<Rightarrow> string" where
  "quote_byte c =
     (case map_of [(CHR 0x22, CHR 0x22), (CHR 0x5C, CHR 0x5C), (CHR 0x07, CHR ''a''), (CHR 0x08, CHR ''b''), (CHR 0x0C, CHR ''f''),
        (CHR 0x0A, CHR ''n''), (CHR 0x0D, CHR ''r''), (CHR 0x09, CHR ''t''), (CHR 0x0B, CHR ''v'')] c of
        Some e \<Rightarrow> [CHR 0x5C, e]
      | None \<Rightarrow> if byte c < 32 \<or> byte c = 127 then [CHR 0x5C, CHR ''x'', hex_char (byte c div 16), hex_char (byte c mod 16)] else [c])"

definition Quote :: "(string \<Rightarrow> string) \<Rightarrow> string \<Rightarrow> string" where
  "Quote uni s = (if ascii s then [CHR 0x22] @ concat (map quote_byte s) @ [CHR 0x22] else uni s)"

definition applyHeaders :: "resy_client \<Rightarrow> resy_env \<Rightarrow> string \<Rightarrow> headers \<Rightarrow> headers" where
  "applyHeaders c e token h0 =
     (let h1 = header_Set ''Accept'' ''application/json, text/plain, */*'' h0;
          h2 = header_Set ''Authorization'' (''ResyAPI api_key='' @ Quote (rn_quote e) (rc_api_key c)) h1;
          h3 = (if token \<noteq> [] then header_put ''x-resy-auth-token'' token (header_Set ''X-Resy-Universal-Auth'' token h2) else h2);
          h4 = header_Set ''Content-Type'' ''application/x-www-form-urlencoded'' h3;
          h5 = header_Set ''Origin'' originHost h4;
          h6 = header_Set ''Referer'' refererURL h5;
          h7 = header_Set ''X-Origin'' originHost h6 in
      header_Set ''User-Agent'' (rc_user_agent c) h7)"

definition put_extra :: "headers \<Rightarrow> headers \<Rightarrow> headers" where
  "put_extra extra h = fold (\<lambda>(k, v) h. if v = [] then h else header_Set k v h) extra h"

definition header_Get :: "string \<Rightarrow> headers \<Rightarrow> string" where
  "header_Get k h = (case map_of h (CanonicalHeaderKey k) of None \<Rightarrow> [] | Some v \<Rightarrow> v)"

fun firstNonEmpty :: "string list \<Rightarrow> string" where
  "firstNonEmpty [] = []"
| "firstNonEmpty (v # vs) = (if v \<noteq> [] then v else firstNonEmpty vs)"

definition defaultPerCallTimeout :: duration where
  "defaultPerCallTimeout = 30 * second"

definition rctx_done :: "resy_env \<Rightarrow> resy_world \<Rightarrow> bool" where
  "rctx_done e w = (case rn_cancel_at e of None \<Rightarrow> False | Some c \<Rightarrow> c \<le> rw_now w)"

definition full_url :: "resy_client \<Rightarrow> string \<Rightarrow> (string \<times> string) list \<Rightarrow> string" where
  "full_url c path query = rc_base_url c @ path @ (if query \<noteq> [] then ''?'' @ Encode query else [])"

text \<open>An exchange is given up at the context's cancellation and at the latest after the per-call
  timeout, which the context or \<^verbatim>\<open>http.Client\<close> enforces. A request is one call of \<^verbatim>\<open>http.Client.Do\<close> on the default
  client: the redirects that \<^verbatim>\<open>net/http\<close> follows within it, repeating a POST on a 307 or 308, are not modelled, nor is the
  option that swaps the client.\<close>

definition give_up_at :: "resy_env \<Rightarrow> instant \<Rightarrow> instant" where
  "give_up_at e now = (case rn_cancel_at e of None \<Rightarrow> now + defaultPerCallTimeout
     | Some c \<Rightarrow> min c (now + defaultPerCallTimeout))"

definition doWithExtraHeaders :: "resy_client \<Rightarrow> resy_env \<Rightarrow> string \<Rightarrow> string \<Rightarrow> (string \<times> string) list \<Rightarrow> string \<Rightarrow> string \<Rightarrow> headers
    \<Rightarrow> resy_world \<Rightarrow> (resy_error + (string \<times> resy_response)) \<times> resy_world" where
  "doWithExtraHeaders c e meth path query body token extra w =
     (let n = rw_tick w; w1 = w\<lparr>rw_tick := Suc n\<rparr>; url = full_url c path query in
      if url_Parse url = None then (Inl (Transport ''build request''), w1)
      else if rctx_done e w then (Inl (Transport ''context canceled''), w1)
      else let rq = \<lparr>rr_method = meth, rr_url = url, rr_body = body,
                 rr_headers = put_extra (rn_order e n extra) (applyHeaders c e token [])\<rparr>;
               ends = rw_now w + int (rn_time e n); stop = give_up_at e (rw_now w);
               w2 = w1\<lparr>rw_sent := rw_sent w @ [(rw_now w, rq)]\<rparr> in
        if stop < ends \<or> stop = ends \<and> rn_ctx_first e n then (Inl (Transport ''deadline exceeded''), w2\<lparr>rw_now := stop\<rparr>)
        else let w3 = w2\<lparr>rw_now := ends\<rparr> in
          case rn_net e n rq of
            Inl t \<Rightarrow> (Inl (Transport t), w3)
          | Inr r \<Rightarrow> (Inr (rp_body r, \<lparr>re_status = rp_status r,
                re_request_id = firstNonEmpty [header_Get ''X-Request-Id'' (rp_header r), header_Get ''x-request-id'' (rp_header r)],
                re_header = rp_header r\<rparr>), w3))"

definition resy_do :: "resy_client \<Rightarrow> resy_env \<Rightarrow> string \<Rightarrow> string \<Rightarrow> (string \<times> string) list \<Rightarrow> string \<Rightarrow> string
    \<Rightarrow> resy_world \<Rightarrow> (resy_error + (string \<times> resy_response)) \<times> resy_world" where
  "resy_do c e meth path query body token w = doWithExtraHeaders c e meth path query body token [] w"

section \<open>Signing and the retry\<close>

definition signRetryFloor :: duration where
  "signRetryFloor = 100 * millisecond"

definition mergeHeaders :: "headers \<Rightarrow> headers \<Rightarrow> headers" where
  "mergeHeaders base overlay = (if overlay = [] then base else fold (\<lambda>(k, v) out. AList.update k v out) base overlay)"

text \<open>\<^verbatim>\<open>Signer.Sign\<close> and \<^verbatim>\<open>Signer.Reset\<close>: the no-op signer answers at once, any other takes its time. An
  error of either is logged only.\<close>

definition takes_time :: "resy_env \<Rightarrow> resy_world \<Rightarrow> resy_world" where
  "takes_time e w = w\<lparr>rw_now := rw_now w + int (rn_time e (rw_tick w)), rw_tick := Suc (rw_tick w)\<rparr>"

definition Sign :: "resy_client \<Rightarrow> resy_env \<Rightarrow> string \<Rightarrow> resy_world \<Rightarrow> headers \<times> resy_world" where
  "Sign c e path w = (if rc_noop c then ([], w) else (fst (rn_sign e (rw_tick w) path), takes_time e w))"

definition attemptSigned :: "resy_client \<Rightarrow> resy_env \<Rightarrow> string \<Rightarrow> string \<Rightarrow> (string \<times> string) list \<Rightarrow> string \<Rightarrow> string \<Rightarrow> headers
    \<Rightarrow> resy_world \<Rightarrow> (resy_error + (string \<times> resy_response)) \<times> resy_world" where
  "attemptSigned c e meth path query body token extra w =
     (case Sign c e path w of (hs, w1) \<Rightarrow>
        doWithExtraHeaders c e meth path query body token (mergeHeaders extra hs) w1)"

definition waitFloor :: "resy_env \<Rightarrow> duration \<Rightarrow> resy_world \<Rightarrow> bool \<times> resy_world" where
  "waitFloor e d w =
     (if d \<le> 0 then (True, w)
      else let n = rw_tick w; fires = rw_now w + d + int (rn_late e n); w1 = w\<lparr>rw_tick := Suc n\<rparr> in
        case rn_cancel_at e of
          None \<Rightarrow> (True, w1\<lparr>rw_now := fires\<rparr>)
        | Some at \<Rightarrow> if at < fires \<or> at = fires \<and> rn_ctx_first e n then (False, w1\<lparr>rw_now := max (rw_now w) at\<rparr>)
            else (True, w1\<lparr>rw_now := fires\<rparr>))"

definition doSignedAndRetry :: "resy_client \<Rightarrow> resy_env \<Rightarrow> string \<Rightarrow> string \<Rightarrow> (string \<times> string) list \<Rightarrow> string \<Rightarrow> string \<Rightarrow> headers
    \<Rightarrow> resy_world \<Rightarrow> (resy_error + (string \<times> resy_response)) \<times> resy_world" where
  "doSignedAndRetry c e meth path query body token extra w =
     (case attemptSigned c e meth path query body token extra w of
        (Inl err, w1) \<Rightarrow> (Inl err, w1)
      | (Inr (bs, resp), w1) \<Rightarrow>
          (case classify (rn_cases e) (re_status resp) bs of
             None \<Rightarrow> (Inr (bs, resp), w1)
           | Some cls \<Rightarrow>
               if resy_is cls \<noteq> Some ErrAntiBotChallenge then (Inr (bs, resp), w1)
               else if rc_noop c then (Inr (bs, resp), w1)
               else case waitFloor e signRetryFloor (takes_time e w1) of
                   (False, w2) \<Rightarrow> (Inr (bs, resp), w2)
                 | (True, w2) \<Rightarrow> attemptSigned c e meth path query body token extra w2))"

section \<open>Sessions\<close>

record resy_session =
  rs_user :: user_id
  rs_jwt :: string
  rs_expires_at :: instant

definition session_view :: "resy_session \<Rightarrow> session" where
  "session_view s = \<lparr>ss_provider = providerID, ss_user = rs_user s, ss_expires_at = rs_expires_at s\<rparr>"

text \<open>\<^verbatim>\<open>time.Unix\<close>: seconds are shifted to the internal epoch in 64 bits.\<close>

definition time_Unix :: "int \<Rightarrow> instant" where
  "time_Unix s = sint (word_of_int (s + 62135596800) :: 64 word) * second"

definition parseJWTExp :: "string \<Rightarrow> resy_error + instant" where
  "parseJWTExp token =
     (case splitOn CHR ''.'' token of
        [header, body, signature] \<Rightarrow>
          (case (case RawURLEncoding_decode body of Some p \<Rightarrow> Some p | None \<Rightarrow> StdEncoding_decode body) of
             None \<Rightarrow> Inl (BadResponse ''decode JWT payload'')
           | Some p \<Rightarrow>
               (case unmarshal (int_member ''exp'') p of
                  None \<Rightarrow> Inl (BadResponse ''parse JWT claims'')
                | Some x \<Rightarrow> if x = 0 then Inl (BadResponse ''JWT has no exp claim'') else Inr (time_Unix x)))
      | _ \<Rightarrow> Inl (BadResponse ''not a JWT''))"

end
