(* ===== verification/ResyCalls.thy ===== *)
theory ResyCalls
  imports Resy
begin

text \<open>
  The endpoints of the Resy adapter, a definition per method of \<^verbatim>\<open>resy.Client\<close>: search and
  resolution of venues, calendars, availability, the two halves of a booking with the tracker of
  idempotency keys, login and sessions. A response struct is the tuple or record of the fields
  that are read, but every declared field is decoded, so a field of the wrong type fails the
  call. A value behind an interface is a case of a datatype whose other case is a foreign type. The session
  of a \<^verbatim>\<open>FindRequest\<close> is passed beside it.
\<close>

section \<open>Response shapes\<close>

record find_slot =
  fs_token :: string
  fs_type :: string
  fs_id :: int
  fs_start :: string
  fs_end :: string

definition decode_find_slot :: "members \<Rightarrow> json_error + find_slot" where
  "decode_find_slot fs =
     bind_result (obj_member ''config'' fs) (\<lambda>cf.
     bind_result (str_member ''token'' cf) (\<lambda>tok.
     bind_result (str_member ''type'' cf) (\<lambda>ty.
     bind_result (int_member ''id'' cf) (\<lambda>i.
     bind_result (obj_member ''date'' fs) (\<lambda>dt.
     bind_result (str_member ''start'' dt) (\<lambda>a.
     bind_result (str_member ''end'' dt) (\<lambda>b.
       Inr \<lparr>fs_token = tok, fs_type = ty, fs_id = i, fs_start = a, fs_end = b\<rparr>)))))))"

definition decode_find_venue :: "members \<Rightarrow> json_error + find_slot list" where
  "decode_find_venue fs =
     bind_result (bind_result (objs_member ''slots'' fs) (map_result decode_find_slot)) (\<lambda>slots.
     bind_result (obj_member ''venue'' fs) (\<lambda>v.
     bind_result (str_member ''name'' v) (\<lambda>_. Inr slots)))"

definition decode_FindResponse :: "members \<Rightarrow> json_error + find_slot list list" where
  "decode_FindResponse fs =
     bind_result (obj_member ''results'' fs) (\<lambda>rs.
     bind_result (objs_member ''venues'' rs) (map_result decode_find_venue))"

record details =
  dt_book_token :: string
  dt_payment_methods :: "int list"

definition decode_DetailsResponse :: "members \<Rightarrow> json_error + details" where
  "decode_DetailsResponse fs =
     bind_result (obj_member ''book_token'' fs) (\<lambda>bt.
     bind_result (str_member ''value'' bt) (\<lambda>tok.
     bind_result (obj_member ''user'' fs) (\<lambda>us.
     bind_result (bind_result (objs_member ''payment_methods'' us) (map_result (\<lambda>pm.
         bind_result (int_member ''id'' pm) (\<lambda>i. bind_result (str_member ''display'' pm) (\<lambda>_. Inr i))))) (\<lambda>pms.
       Inr \<lparr>dt_book_token = tok, dt_payment_methods = pms\<rparr>))))"

definition decode_BookResponse :: "members \<Rightarrow> json_error + (string \<times> int)" where
  "decode_BookResponse fs =
     bind_result (str_member ''resy_token'' fs) (\<lambda>tok.
     bind_result (int_member ''reservation_id'' fs) (\<lambda>i. Inr (tok, i)))"

text \<open>The venue's id, name and time zone.\<close>

definition decode_VenueResponse :: "members \<Rightarrow> json_error + (int \<times> string \<times> string)" where
  "decode_VenueResponse fs =
     bind_result (obj_member ''id'' fs) (\<lambda>ib.
     bind_result (int_member ''resy'' ib) (\<lambda>i.
     bind_result (str_member ''name'' fs) (\<lambda>nm.
     bind_result (str_member ''url_slug'' fs) (\<lambda>_.
     bind_result (obj_member ''locale'' fs) (\<lambda>lc.
     bind_result (str_member ''currency'' lc) (\<lambda>_.
     bind_result (str_member ''time_zone'' lc) (\<lambda>tz. Inr (i, nm, tz))))))))"

text \<open>A hit's id, name and slug.\<close>

definition decode_SearchHit :: "members \<Rightarrow> json_error + (int \<times> string \<times> string)" where
  "decode_SearchHit fs =
     bind_result (obj_member ''id'' fs) (\<lambda>ib.
     bind_result (int_member ''resy'' ib) (\<lambda>i.
     bind_result (str_member ''name'' fs) (\<lambda>nm.
     bind_result (str_member ''url_slug'' fs) (\<lambda>slug.
     bind_result (obj_member ''location'' fs) (\<lambda>lc.
     bind_result (str_member ''code'' lc) (\<lambda>_.
     bind_result (str_member ''name'' lc) (\<lambda>_. Inr (i, nm, slug))))))))"

definition decode_SearchResponse :: "members \<Rightarrow> json_error + (int \<times> string \<times> string) list" where
  "decode_SearchResponse fs =
     bind_result (obj_member ''search'' fs) (\<lambda>sb.
     bind_result (objs_member ''hits'' sb) (map_result decode_SearchHit))"

text \<open>A date and the reservation column of its inventory.\<close>

definition decode_CalendarResponse :: "members \<Rightarrow> json_error + (string \<times> string) list" where
  "decode_CalendarResponse fs =
     bind_result (objs_member ''scheduled'' fs) (map_result (\<lambda>day.
       bind_result (str_member ''date'' day) (\<lambda>d.
       bind_result (obj_member ''inventory'' day) (\<lambda>inv.
       bind_result (str_member ''reservation'' inv) (\<lambda>r.
       bind_result (str_member ''event_times'' inv) (\<lambda>_. Inr (d, r)))))))"

record auth_envelope =
  au_token :: string
  au_mfa_required :: bool
  au_challenge_id :: string
  au_challenge_type :: string

definition decode_authResponseEnvelope :: "members \<Rightarrow> json_error + auth_envelope" where
  "decode_authResponseEnvelope fs =
     bind_result (int_member ''id'' fs) (\<lambda>_.
     bind_result (map_result (\<lambda>k. str_member k fs) [''em_address'', ''first_name'', ''last_name'', ''mobile_number'']) (\<lambda>_.
     bind_result (str_member ''token'' fs) (\<lambda>tok.
     bind_result (bind_result (obj_member ''payment_method'' fs) (int_member ''id'')) (\<lambda>_.
     bind_result (bool_member ''mfa_required'' fs) (\<lambda>mfa.
     bind_result (str_member ''challenge_id'' fs) (\<lambda>ci.
     bind_result (str_member ''challenge_type'' fs) (\<lambda>cty.
       Inr \<lparr>au_token = tok, au_mfa_required = mfa, au_challenge_id = ci, au_challenge_type = cty\<rparr>)))))))"

section \<open>Sessions and slots behind their interfaces\<close>

datatype prov_session = ResySession resy_session | OtherSession string

datatype credentials = ResyCredentials string string | OtherCredentials string

definition dayFromSlot :: "slot \<Rightarrow> string" where
  "dayFromSlot s = (if date_is_zero (sl_date s) then [] else date_string (sl_date s))"

text \<open>The response an endpoint goes on with: the exchange succeeded and its classification is nil.\<close>

definition accepted :: "resy_env \<Rightarrow> (resy_error + (string \<times> resy_response)) \<times> resy_world \<Rightarrow> (resy_error + string) \<times> resy_world" where
  "accepted e r = (case r of (Inl err, w) \<Rightarrow> (Inl err, w)
     | (Inr (bs, resp), w) \<Rightarrow> (case classify (rn_cases e) (re_status resp) bs of Some cls \<Rightarrow> (Inl cls, w) | None \<Rightarrow> (Inr bs, w)))"

section \<open>Availability\<close>

definition parseSlotWallTime :: "string \<Rightarrow> string + walltime" where
  "parseSlotWallTime s = (case splitOn CHR '' '' (TrimSpace s) of
       [d, t] \<Rightarrow> ParseWallTime t | _ \<Rightarrow> Inl s)"

definition found_slot :: "find_request \<Rightarrow> find_slot \<Rightarrow> resy_error + slot" where
  "found_slot req s = (case parseSlotWallTime (fs_start s) of
       Inl _ \<Rightarrow> Inl (BadResponse ''parse start'')
     | Inr t \<Rightarrow> Inr \<lparr>sl_venue = fr_venue req, sl_date = fr_date req, sl_time = t, sl_table_type = fs_type s,
         sl_party_size = fr_party_size req,
         sl_payload = Some \<lparr>sl_config_id = fs_token s, sl_template_id = show_int (fs_id s), sl_seating_type = fs_type s,
           sl_book_token = [], sl_payment_method_id = 0\<rparr>\<rparr>)"

definition find_query :: "find_request \<Rightarrow> (string \<times> string) list" where
  "find_query req = [(''lat'', ''0''), (''long'', ''0''), (''day'', date_string (fr_date req)),
     (''party_size'', show_int (fr_party_size req)), (''venue_id'', vr_ref (fr_venue req))]"

definition find_token :: "prov_session option \<Rightarrow> string" where
  "find_token sess = (case sess of Some (ResySession rs) \<Rightarrow> rs_jwt rs | _ \<Rightarrow> [])"

definition Find :: "resy_client \<Rightarrow> resy_env \<Rightarrow> find_request \<Rightarrow> prov_session option \<Rightarrow> resy_world \<Rightarrow> (resy_error + slot list) \<times> resy_world" where
  "Find c e req sess w =
     (if vr_provider (fr_venue req) \<noteq> providerID then (Inl (BadInput ''provider mismatch''), w)
      else if vr_ref (fr_venue req) = [] then (Inl (BadInput ''empty venue ref''), w)
      else if date_is_zero (fr_date req) then (Inl (BadInput ''date is required''), w)
      else if fr_party_size req \<le> 0 then (Inl (BadInput ''party_size > 0 required''), w)
      else case accepted e (doSignedAndRetry c e ''GET'' ''/4/find'' (find_query req) [] (find_token sess) [] w) of
          (Inl err, w1) \<Rightarrow> (Inl err, w1)
        | (Inr bs, w1) \<Rightarrow>
            (case unmarshal decode_FindResponse bs of None \<Rightarrow> (Inl (BadResponse ''parse response''), w1)
             | Some venues \<Rightarrow>
                 (case map_result (found_slot req) (concat venues) of
                    Inl err \<Rightarrow> (Inl err, w1)
                  | Inr [] \<Rightarrow> (Inl (Signal ErrInventoryEmpty), w1)
                  | Inr slots \<Rightarrow> (Inr slots, w1))))"

definition isAvailable :: "string \<Rightarrow> bool" where
  "isAvailable s \<longleftrightarrow> s \<notin> {''sold-out'', ''sold_out'', ''soldout'', ''closed'', []}"

definition calendar_day_of :: "string \<times> string \<Rightarrow> resy_error + calendar_day" where
  "calendar_day_of x = (case ParseDate (fst x) of Inl _ \<Rightarrow> Inl (BadResponse ''bad date'')
     | Inr d \<Rightarrow> Inr \<lparr>cd_date = d, cd_available = isAvailable (snd x)\<rparr>)"

definition calendar_query :: "venue_ref \<Rightarrow> date_range \<Rightarrow> (string \<times> string) list" where
  "calendar_query ref r = [(''venue_id'', vr_ref ref),
     (''num_seats'', show_int (if dr_party_size r \<le> 0 then 2 else dr_party_size r)),
     (''start_date'', date_string (dr_start r)), (''end_date'', date_string (dr_end r))]"

definition Calendar :: "resy_client \<Rightarrow> resy_env \<Rightarrow> venue_ref \<Rightarrow> date_range \<Rightarrow> resy_world \<Rightarrow> (resy_error + calendar) \<times> resy_world" where
  "Calendar c e ref r w =
     (if vr_provider ref \<noteq> providerID then (Inl (BadInput ''provider mismatch''), w)
      else if vr_ref ref = [] then (Inl (BadInput ''empty venue ref''), w)
      else if date_is_zero (dr_start r) \<or> date_is_zero (dr_end r) then (Inl (BadInput ''DateRange requires Start and End''), w)
      else case accepted e (doSignedAndRetry c e ''GET'' ''/4/venue/calendar'' (calendar_query ref r) [] [] [] w) of
          (Inl err, w1) \<Rightarrow> (Inl err, w1)
        | (Inr bs, w1) \<Rightarrow>
            (case unmarshal decode_CalendarResponse bs of None \<Rightarrow> (Inl (BadResponse ''parse response''), w1)
             | Some days \<Rightarrow> (bind_result (map_result calendar_day_of days) (\<lambda>ds. Inr \<lparr>cal_venue = ref, cal_days = ds\<rparr>), w1)))"

section \<open>Venues\<close>

definition isJSONNull :: "string \<Rightarrow> bool" where
  "isJSONNull b \<longleftrightarrow> TrimSpace b = ''null''"

definition resy_ResolveVenue :: "resy_client \<Rightarrow> resy_env \<Rightarrow> string \<Rightarrow> string \<Rightarrow> resy_world \<Rightarrow> (resy_error + venue) \<times> resy_world" where
  "resy_ResolveVenue c e slug0 city0 w =
     (let slug = TrimSpace slug0; city = TrimSpace city0 in
      if slug = [] then (Inl (BadInput ''slug is required''), w)
      else if city = [] then (Inl (BadInput ''city is required''), w)
      else case accepted e (resy_do c e ''GET'' ''/3/venue'' [(''url_slug'', slug), (''location'', city)] [] [] w) of
          (Inl err, w1) \<Rightarrow> (Inl err, w1)
        | (Inr bs, w1) \<Rightarrow>
            if bs = [] \<or> isJSONNull bs then (Inl (Signal ErrVenueNotFound), w1)
            else case unmarshal decode_VenueResponse bs of None \<Rightarrow> (Inl (Signal ErrParseFailure), w1)
            | Some (i, nm, tz) \<Rightarrow>
                if i = 0 then (Inl (Signal ErrParseFailure), w1)
                else if tz = [] then (Inl (Signal ErrParseFailure), w1)
                else case rn_load_location e tz of None \<Rightarrow> (Inl (Signal ErrParseFailure), w1)
                | Some loc \<Rightarrow>
                    let v = \<lparr>v_provider = providerID, v_ref = show_int i, v_name = nm, v_tz = Some loc\<rparr> in
                    case venue_validate v of Some _ \<Rightarrow> (Inl (BadResponse ''invalid venue''), w1) | None \<Rightarrow> (Inr v, w1))"

definition searchPerPage :: int where
  "searchPerPage = 25"

definition hit_venue :: "int \<times> string \<times> string \<Rightarrow> venue" where
  "hit_venue h = \<lparr>v_provider = providerID, v_ref = show_int (fst h), v_name = fst (snd h), v_tz = None\<rparr>"

definition SearchVenuesByName :: "resy_client \<Rightarrow> resy_env \<Rightarrow> string \<Rightarrow> resy_world \<Rightarrow> (resy_error + venue list) \<times> resy_world" where
  "SearchVenuesByName c e query w =
     (let q = TrimSpace query in
      if q = [] then (Inl (BadInput ''query is required''), w)
      else let body = json_text (JObj [(''query'', JStr q), (''per_page'', JInt searchPerPage), (''types'', JArr [JStr ''venue''])]) in
        case accepted e (doWithExtraHeaders c e ''POST'' ''/3/venuesearch/search'' [] body [] [(''Content-Type'', ''application/json'')] w) of
          (Inl err, w1) \<Rightarrow> (Inl err, w1)
        | (Inr bs, w1) \<Rightarrow>
            (case unmarshal decode_SearchResponse bs of None \<Rightarrow> (Inl (Signal ErrParseFailure), w1)
             | Some hits \<Rightarrow> (Inr (map hit_venue (filter (\<lambda>(i, nm, slug). \<not> (i = 0 \<or> slug = [])) hits)), w1)))"

section \<open>Bookings\<close>

definition IdempotencyKeyHeader :: string where
  "IdempotencyKeyHeader = ''X-Resy-Idempotency-Key''"

definition idempotency_check :: "string \<Rightarrow> resy_world \<Rightarrow> resy_error option \<times> resy_world" where
  "idempotency_check key w =
     (if key = [] then (None, w)
      else if key \<in> set (rw_seen w) then (Some (KeyReused (take 8 key)), w)
      else (None, w\<lparr>rw_seen := key # rw_seen w\<rparr>))"

definition details_query :: "string \<Rightarrow> slot \<Rightarrow> (string \<times> string) list" where
  "details_query cfg s = [(''config_id'', cfg), (''day'', dayFromSlot s), (''party_size'', show_int (sl_party_size s))]"

definition fetchDetails :: "resy_client \<Rightarrow> resy_env \<Rightarrow> string \<Rightarrow> slot \<Rightarrow> string \<Rightarrow> resy_world \<Rightarrow> (resy_error + details) \<times> resy_world" where
  "fetchDetails c e cfg s jwt w =
     (case accepted e (doSignedAndRetry c e ''GET'' ''/3/details'' (details_query cfg s) [] jwt [] w) of
        (Inl err, w1) \<Rightarrow> (Inl err, w1)
      | (Inr bs, w1) \<Rightarrow> (case unmarshal decode_DetailsResponse bs of None \<Rightarrow> (Inl (BadResponse ''parse''), w1) | Some d \<Rightarrow> (Inr d, w1)))"

definition book_form :: "string \<Rightarrow> int \<Rightarrow> (string \<times> string) list" where
  "book_form tok pm = [(''book_token'', tok),
     (''struct_payment_method'', [CHR ''{'', CHR 0x22] @ ''id'' @ [CHR 0x22] @ '':'' @ show_int pm @ ''}'')]"

definition postBookWithIdempotency :: "resy_client \<Rightarrow> resy_env \<Rightarrow> string \<Rightarrow> int \<Rightarrow> string \<Rightarrow> string \<Rightarrow> resy_world
    \<Rightarrow> (resy_error + confirmation) \<times> resy_world" where
  "postBookWithIdempotency c e tok pm jwt key w =
     (case accepted e (doSignedAndRetry c e ''POST'' ''/3/book'' [] (Encode (book_form tok pm)) jwt [(IdempotencyKeyHeader, key)] w) of
        (Inl err, w1) \<Rightarrow> (Inl err, w1)
      | (Inr bs, w1) \<Rightarrow>
          (case unmarshal decode_BookResponse bs of None \<Rightarrow> (Inl (BadResponse ''parse''), w1)
           | Some (tok', i) \<Rightarrow>
               if tok' = [] then (Inl (BadResponse ''response had no resy_token''), w1)
               else (Inr \<lparr>co_id = tok', co_booked_at = rw_now w1,
                      co_human_readable = ''Reservation '' @ show_int i @ '' (token '' @ tok' @ '')''\<rparr>, w1)))"

definition postBook :: "resy_client \<Rightarrow> resy_env \<Rightarrow> string \<Rightarrow> int \<Rightarrow> string \<Rightarrow> resy_world \<Rightarrow> (resy_error + confirmation) \<times> resy_world" where
  "postBook c e tok pm jwt w = postBookWithIdempotency c e tok pm jwt [] w"

text \<open>The two halves of a booking: fetch the details, then post with what they gave.\<close>

definition book_details :: "details \<Rightarrow> resy_error + (string \<times> int)" where
  "book_details det =
     (if dt_book_token det = [] then Inl (BadResponse ''/3/details returned no book_token'')
      else case dt_payment_methods det of [] \<Rightarrow> Inl (BadResponse ''no payment method on file'')
        | pm # _ \<Rightarrow> Inr (dt_book_token det, pm))"

definition Book :: "resy_client \<Rightarrow> resy_env \<Rightarrow> slot \<Rightarrow> prov_session \<Rightarrow> resy_world \<Rightarrow> (resy_error + confirmation) \<times> resy_world" where
  "Book c e s sess w =
     (case sess of OtherSession t \<Rightarrow> (Inl (WrongType t), w)
      | ResySession rs \<Rightarrow>
        (case sl_payload s of None \<Rightarrow> (Inl (WrongType ''nil''), w)
         | Some p \<Rightarrow>
           (case fetchDetails c e (sl_config_id p) s (rs_jwt rs) w of
              (Inl err, w1) \<Rightarrow> (Inl err, w1)
            | (Inr det, w1) \<Rightarrow>
                (case book_details det of Inl err \<Rightarrow> (Inl err, w1)
                 | Inr (tok, pm) \<Rightarrow> postBook c e tok pm (rs_jwt rs) w1))))"

definition BookWithIdempotency :: "resy_client \<Rightarrow> resy_env \<Rightarrow> slot \<Rightarrow> prov_session \<Rightarrow> string \<Rightarrow> resy_world
    \<Rightarrow> (resy_error + confirmation) \<times> resy_world" where
  "BookWithIdempotency c e s sess key w =
     (case idempotency_check key w of
        (Some err, w0) \<Rightarrow> (Inl err, w0)
      | (None, w0) \<Rightarrow>
        (case sess of OtherSession t \<Rightarrow> (Inl (WrongType t), w0)
         | ResySession rs \<Rightarrow>
           (case sl_payload s of None \<Rightarrow> (Inl (WrongType ''nil''), w0)
            | Some p \<Rightarrow>
              (case fetchDetails c e (sl_config_id p) s (rs_jwt rs) w0 of
                 (Inl err, w1) \<Rightarrow> (Inl err, w1)
               | (Inr det, w1) \<Rightarrow>
                   (case book_details det of Inl err \<Rightarrow> (Inl err, w1)
                    | Inr (tok, pm) \<Rightarrow> postBookWithIdempotency c e tok pm (rs_jwt rs) key w1)))))"

definition decodeDetails :: "string \<Rightarrow> resy_error + details" where
  "decodeDetails bs = (case unmarshal decode_DetailsResponse bs of None \<Rightarrow> Inl (BadResponse ''parse'') | Some d \<Rightarrow> Inr d)"

definition PrepareSlot :: "resy_client \<Rightarrow> resy_env \<Rightarrow> slot \<Rightarrow> prov_session \<Rightarrow> resy_world \<Rightarrow> (resy_error + slot) \<times> resy_world" where
  "PrepareSlot c e s sess w =
     (case sess of OtherSession t \<Rightarrow> (Inl (WrongType t), w)
      | ResySession rs \<Rightarrow>
        (case sl_payload s of None \<Rightarrow> (Inl (WrongType ''nil''), w)
         | Some p \<Rightarrow>
           if sl_config_id p = [] then (Inl (BadInput ''ConfigID is required''), w)
           else case accepted e (doSignedAndRetry c e ''GET'' ''/3/details'' (details_query (sl_config_id p) s) [] (rs_jwt rs) [] w) of
              (Inl err, w1) \<Rightarrow> (Inl err, w1)
            | (Inr bs, w1) \<Rightarrow>
                (bind_result (decodeDetails bs) (\<lambda>det.
                 bind_result (book_details det) (\<lambda>(tok, pm).
                   Inr (s\<lparr>sl_payload := Some (p\<lparr>sl_book_token := tok, sl_payment_method_id := pm\<rparr>)\<rparr>))), w1)))"

definition ConfirmSlot :: "resy_client \<Rightarrow> resy_env \<Rightarrow> slot \<Rightarrow> prov_session \<Rightarrow> string \<Rightarrow> resy_world
    \<Rightarrow> (resy_error + confirmation) \<times> resy_world" where
  "ConfirmSlot c e s sess key w =
     (case sess of OtherSession t \<Rightarrow> (Inl (WrongType t), w)
      | ResySession rs \<Rightarrow>
        (case sl_payload s of None \<Rightarrow> (Inl (WrongType ''nil''), w)
         | Some p \<Rightarrow>
           if sl_book_token p = [] then (Inl (BadInput ''BookToken is required''), w)
           else if sl_payment_method_id p = 0 then (Inl (BadInput ''PaymentMethodID is required''), w)
           else case idempotency_check key w of
               (Some err, w0) \<Rightarrow> (Inl err, w0)
             | (None, w0) \<Rightarrow> postBookWithIdempotency c e (sl_book_token p) (sl_payment_method_id p) (rs_jwt rs) key w0))"

section \<open>Login and sessions\<close>

definition session_io :: "resy_env \<Rightarrow> resy_world \<Rightarrow> io" where
  "session_io e w = (if rctx_done e w then (\<lambda>_. Some ErrCanceled) else rn_io e (rw_tick w))"

text \<open>The session store is the SQLite store behind an adapter that copies the rows' fields.\<close>

definition persist_session :: "resy_env \<Rightarrow> resy_session \<Rightarrow> resy_world \<Rightarrow> store_error option \<times> resy_world" where
  "persist_session e s w =
     (case UpsertSession (session_io e w) \<lparr>se_user = rs_user s, se_provider = providerID, se_jwt = rs_jwt s,
          se_expires_at = rs_expires_at s, se_created_at = rw_now w, se_updated_at = rw_now w\<rparr> (rw_db w) of
        (r, d) \<Rightarrow> (r, (takes_time e w)\<lparr>rw_db := d\<rparr>))"

definition resy_Login :: "resy_client \<Rightarrow> resy_env \<Rightarrow> credentials \<Rightarrow> resy_world \<Rightarrow> (resy_error + resy_session) \<times> resy_world" where
  "resy_Login c e creds w =
     (case creds of OtherCredentials t \<Rightarrow> (Inl (WrongType t), w)
      | ResyCredentials email pw \<Rightarrow>
        if email = [] \<or> pw = [] then (Inl (BadInput ''email and password are required''), w)
        else case resy_do c e ''POST'' ''/3/auth/password'' [] (Encode [(''email'', email), (''password'', pw)]) [] w of
          (Inl err, w1) \<Rightarrow> (Inl err, w1)
        | (Inr (bs, resp), w1) \<Rightarrow>
            if re_status resp = 401 then (Inl (Signal ErrAuthExpired), w1)
            else if re_status resp < 200 \<or> 300 \<le> re_status resp then (Inl (UnexpectedStatus (re_status resp) (truncate_text bs 256)), w1)
            else case unmarshal decode_authResponseEnvelope bs of None \<Rightarrow> (Inl (BadResponse ''parse response''), w1)
            | Some env \<Rightarrow>
                if au_mfa_required env then
                  (Inl (MFAError (if au_challenge_id env = [] then au_challenge_type env else au_challenge_id env)), w1)
                else if au_token env = [] then (Inl (BadResponse ''response had no token''), w1)
                else case parseJWTExp (au_token env) of Inl err \<Rightarrow> (Inl err, w1)
                | Inr exp \<Rightarrow>
                    let sess = \<lparr>rs_user = email, rs_jwt = au_token env, rs_expires_at = exp\<rparr> in
                    if rc_store c then
                      (case persist_session e sess w1 of (Some err, w2) \<Rightarrow> (Inl (StoreFailed err), w2) | (None, w2) \<Rightarrow> (Inr sess, w2))
                    else (Inr sess, w1))"

definition CompleteMFA :: "string \<Rightarrow> string \<Rightarrow> resy_error + resy_session" where
  "CompleteMFA challenge code =
     (if challenge = [] \<or> code = [] then Inl (BadInput ''challenge and code are required'')
      else Inl (BadInput ''not implemented in Phase 1''))"

definition LoadSession :: "resy_client \<Rightarrow> resy_env \<Rightarrow> user_id \<Rightarrow> resy_world \<Rightarrow> (resy_error + resy_session) \<times> resy_world" where
  "LoadSession c e user w =
     (if \<not> rc_store c then (Inl (BadInput ''no SessionStore configured''), w)
      else case GetSession (session_io e w) user providerID (rw_now w) (rw_db w) of
          (_, Some err) \<Rightarrow> (Inl (StoreFailed err), takes_time e w)
        | (Some row, None) \<Rightarrow> (Inr \<lparr>rs_user = se_user row, rs_jwt = se_jwt row, rs_expires_at = se_expires_at row\<rparr>, takes_time e w)
        | (None, None) \<Rightarrow> (Inl (StoreFailed ErrNotFound), takes_time e w))"

definition Ping :: "resy_client \<Rightarrow> resy_env \<Rightarrow> prov_session \<Rightarrow> resy_world \<Rightarrow> resy_error option \<times> resy_world" where
  "Ping c e sess w =
     (case sess of OtherSession t \<Rightarrow> (Some (WrongType t), w)
      | ResySession rs \<Rightarrow>
        if IsSessionExpired (session_view rs) (rw_now w) then (Some (Signal ErrAuthExpired), w)
        else case resy_do c e ''GET'' ''/2/user'' [] [] (rs_jwt rs) w of
          (Inl err, w1) \<Rightarrow> (Some err, w1)
        | (Inr (bs, resp), w1) \<Rightarrow>
            if re_status resp = 401 then (Some (Signal ErrAuthExpired), w1)
            else if re_status resp < 200 \<or> 300 \<le> re_status resp then (Some (UnexpectedStatus (re_status resp) []), w1)
            else (None, w1))"

end
