(* ===== verification/ResyFacts.thy ===== *)
theory ResyFacts
  imports ResyCalls
begin

text \<open>
  What a call of the Resy adapter sends. \<open>posts P n w w'\<close> says that from \<open>w\<close> to \<open>w'\<close> at most \<open>n\<close>
  requests left, all of them within that time and all satisfying \<open>P\<close>; the interface \<open>exchange_op\<close>
  states it of a call that also leaves the booking keys alone.
\<close>

section \<open>Requests sent\<close>

definition posts :: "(resy_request \<Rightarrow> bool) \<Rightarrow> nat \<Rightarrow> resy_world \<Rightarrow> resy_world \<Rightarrow> bool" where
  "posts P n w w' \<longleftrightarrow> rw_now w \<le> rw_now w' \<and>
     (\<exists>new. rw_sent w' = rw_sent w @ new \<and> length new \<le> n \<and> (\<forall>(t, rq) \<in> set new. rw_now w \<le> t \<and> t \<le> rw_now w' \<and> P rq))"

lemma posts_quiet: "rw_now w \<le> rw_now w' \<Longrightarrow> rw_sent w' = rw_sent w \<Longrightarrow> posts P n w w'"
  by (simp add: posts_def)

lemma posts_trans:
  assumes "posts P m w1 w2" "posts P n w2 w3"
  shows "posts P (m + n) w1 w3"
proof -
  obtain xs ys where "rw_sent w3 = rw_sent w1 @ xs @ ys" "length xs \<le> m" "length ys \<le> n"
      "\<forall>(t, rq) \<in> set xs. rw_now w1 \<le> t \<and> t \<le> rw_now w2 \<and> P rq" "\<forall>(t, rq) \<in> set ys. rw_now w2 \<le> t \<and> t \<le> rw_now w3 \<and> P rq"
    using assms by (auto simp: posts_def)
  then show ?thesis using assms by (intro posts_def [THEN iffD2] conjI exI [of _ "xs @ ys"]) (force simp: posts_def)+
qed

lemma posts_mono: "posts P m w w' \<Longrightarrow> m \<le> n \<Longrightarrow> (\<And>rq. P rq \<Longrightarrow> Q rq) \<Longrightarrow> posts Q n w w'"
  by (force simp: posts_def)

locale exchange_op =
  fixes call :: "resy_world \<Rightarrow> 'r \<times> resy_world"
    and P :: "resy_request \<Rightarrow> bool"
    and n :: nat
  assumes sends: "posts P n w (snd (call w))"
    and keys_kept: "rw_seen (snd (call w)) = rw_seen w"
begin

lemma sent: "call w = (r, w') \<Longrightarrow> posts P n w w' \<and> rw_seen w' = rw_seen w"
  using sends [of w] keys_kept [of w] by simp

end

section \<open>Headers\<close>

lemma canonical_keys [simp]:
  "CanonicalHeaderKey ''Accept'' = ''Accept''" "CanonicalHeaderKey ''Authorization'' = ''Authorization''"
  "CanonicalHeaderKey ''X-Resy-Universal-Auth'' = ''X-Resy-Universal-Auth''" "CanonicalHeaderKey ''Content-Type'' = ''Content-Type''"
  "CanonicalHeaderKey ''Origin'' = ''Origin''" "CanonicalHeaderKey ''Referer'' = ''Referer''"
  "CanonicalHeaderKey ''X-Origin'' = ''X-Origin''" "CanonicalHeaderKey ''User-Agent'' = ''User-Agent''"
  "CanonicalHeaderKey ''X-Resy-Idempotency-Key'' = ''X-Resy-Idempotency-Key''"
  by code_simp+

lemma map_of_header_Set [simp]: "map_of (header_Set k v h) x = (if x = CanonicalHeaderKey k then Some v else map_of h x)"
  by (simp add: header_Set_def header_put_def update_conv)

lemma applyHeaders_no_key: "map_of (applyHeaders c e token []) IdempotencyKeyHeader = None"
  by (simp add: applyHeaders_def IdempotencyKeyHeader_def Let_def header_put_def update_conv)

lemma put_extra_Cons: "put_extra ((k, v) # ex) h = put_extra ex (if v = [] then h else header_Set k v h)"
  by (simp add: put_extra_def)

text \<open>The order of the extra headers does not matter at a name to which they give one value.\<close>

lemma put_extra_at:
  "(\<And>k v. (k, v) \<in> set ex \<Longrightarrow> CanonicalHeaderKey k = K \<Longrightarrow> v = x) \<Longrightarrow>
   map_of (put_extra ex h) K = (if x \<noteq> [] \<and> K \<in> CanonicalHeaderKey ` fst ` set ex then Some x else map_of h K)"
proof (induction ex arbitrary: h)
  case Nil
  show ?case by (simp add: put_extra_def)
next
  case (Cons kv ex)
  obtain k v where kv: "kv = (k, v)" by (cases kv)
  have "map_of (put_extra ex h') K = (if x \<noteq> [] \<and> K \<in> CanonicalHeaderKey ` fst ` set ex then Some x else map_of h' K)" for h'
    using Cons.prems by (intro Cons.IH) auto
  moreover have "CanonicalHeaderKey k = K \<Longrightarrow> v = x" using Cons.prems [of k v] kv by simp
  ultimately show ?case by (auto simp: kv put_extra_Cons)
qed

lemma mergeHeaders_set:
  "set (mergeHeaders [] hs) = set hs" "set (mergeHeaders [(k, v)] hs) \<subseteq> insert (k, v) (set hs)"
  "(k, v) \<in> set (mergeHeaders [(k, v)] hs)"
proof -
  have "set (AList.update k v hs) \<subseteq> insert (k, v) (set hs) \<and> (k, v) \<in> set (AList.update k v hs)"
    by (induction hs) auto
  then show "set (mergeHeaders [(k, v)] hs) \<subseteq> insert (k, v) (set hs)" "(k, v) \<in> set (mergeHeaders [(k, v)] hs)"
    by (auto simp: mergeHeaders_def)
qed (simp add: mergeHeaders_def)

section \<open>One exchange\<close>

definition request_of :: "resy_client \<Rightarrow> resy_env \<Rightarrow> string \<Rightarrow> string \<Rightarrow> (string \<times> string) list \<Rightarrow> string \<Rightarrow> string \<Rightarrow> headers \<Rightarrow> nat \<Rightarrow> resy_request" where
  "request_of c e meth path query body token extra n =
     \<lparr>rr_method = meth, rr_url = full_url c path query, rr_body = body,
      rr_headers = put_extra (rn_order e n extra) (applyHeaders c e token [])\<rparr>"

lemma give_up_at_later: "\<not> rctx_done e w \<Longrightarrow> rw_now w \<le> give_up_at e (rw_now w)"
  by (auto simp: give_up_at_def rctx_done_def defaultPerCallTimeout_def second_def split: option.splits)

lemma give_up_at_le: "give_up_at e t \<le> t + defaultPerCallTimeout"
  by (simp add: give_up_at_def split: option.splits)

text \<open>The ways an exchange ends: it sends nothing, or its one request at once.\<close>

lemma doWithExtraHeaders_cases:
  assumes "doWithExtraHeaders c e meth path query body token extra w = (r, w')"
  obtains (unsent) err where "r = Inl err" "w' = w\<lparr>rw_tick := Suc (rw_tick w)\<rparr>"
  | (sent) "rw_sent w' = rw_sent w @ [(rw_now w, request_of c e meth path query body token extra (rw_tick w))]"
      "rw_now w \<le> rw_now w'" "rw_now w' \<le> rw_now w + defaultPerCallTimeout" "rw_seen w' = rw_seen w" "rw_db w' = rw_db w"
      "rw_tick w' = Suc (rw_tick w)"
proof -
  let ?rq = "request_of c e meth path query body token extra (rw_tick w)"
  note unfolded = assms [unfolded doWithExtraHeaders_def Let_def, folded request_of_def]
  show thesis
  proof (cases "url_Parse (full_url c path query) = None \<or> rctx_done e w")
    case True
    then show thesis using unfolded that(1) by (auto split: if_splits)
  next
    case False
    then have "rw_now w \<le> give_up_at e (rw_now w)" using give_up_at_later by blast
    then show thesis using that(2) unfolded False give_up_at_le [of e "rw_now w"] by (auto split: if_splits sum.splits)
  qed
qed

interpretation do_op: exchange_op "doWithExtraHeaders c e meth path query body token extra"
    "\<lambda>rq. \<exists>n. rq = request_of c e meth path query body token extra n" 1 for c e meth path query body token extra
proof
  fix w
  obtain r w' where eq: "doWithExtraHeaders c e meth path query body token extra w = (r, w')" by fastforce
  then have "posts (\<lambda>rq. \<exists>n. rq = request_of c e meth path query body token extra n) 1 w w' \<and> rw_seen w' = rw_seen w"
    by (cases rule: doWithExtraHeaders_cases) (auto simp: posts_def)
  then show "posts (\<lambda>rq. \<exists>n. rq = request_of c e meth path query body token extra n) 1 w
      (snd (doWithExtraHeaders c e meth path query body token extra w))"
    "rw_seen (snd (doWithExtraHeaders c e meth path query body token extra w)) = rw_seen w" by (simp_all add: eq)
qed

section \<open>Signed exchanges\<close>

definition signed_headers :: "resy_client \<Rightarrow> resy_env \<Rightarrow> string \<Rightarrow> headers set" where
  "signed_headers c e path = (if rc_noop c then {[]} else range (\<lambda>n. fst (rn_sign e n path)))"

definition signed_request :: "resy_client \<Rightarrow> resy_env \<Rightarrow> string \<Rightarrow> string \<Rightarrow> (string \<times> string) list \<Rightarrow> string \<Rightarrow> string \<Rightarrow> headers \<Rightarrow> resy_request \<Rightarrow> bool" where
  "signed_request c e meth path query body token extra rq \<longleftrightarrow>
     (\<exists>n. \<exists>hs \<in> signed_headers c e path. rq = request_of c e meth path query body token (mergeHeaders extra hs) n)"

lemma takes_time_simps [simp]:
  "rw_sent (takes_time e w) = rw_sent w" "rw_seen (takes_time e w) = rw_seen w" "rw_now w \<le> rw_now (takes_time e w)"
  "rw_db (takes_time e w) = rw_db w"
  by (simp_all add: takes_time_def)

lemma Sign_cases: "Sign c e path w = (hs, w') \<Longrightarrow> hs \<in> signed_headers c e path \<and> rw_sent w' = rw_sent w \<and> rw_seen w' = rw_seen w
    \<and> rw_db w' = rw_db w \<and> rw_now w \<le> rw_now w' \<and> (rc_noop c \<longrightarrow> w' = w)"
  by (auto simp: Sign_def signed_headers_def split: if_splits)

interpretation attempt_op: exchange_op "attemptSigned c e meth path query body token extra"
    "signed_request c e meth path query body token extra" 1 for c e meth path query body token extra
proof
  fix w
  obtain hs w1 where hs: "Sign c e path w = (hs, w1)" by fastforce
  let ?r = "doWithExtraHeaders c e meth path query body token (mergeHeaders extra hs) w1"
  have eq: "attemptSigned c e meth path query body token extra w = ?r" by (simp add: attemptSigned_def hs)
  have "posts (signed_request c e meth path query body token extra) 0 w w1"
    using Sign_cases [OF hs] by (simp add: posts_quiet)
  moreover have "posts (signed_request c e meth path query body token extra) 1 w1 (snd ?r)"
    by (rule posts_mono [OF do_op.sends]) (use Sign_cases [OF hs] in \<open>auto simp: signed_request_def\<close>)
  ultimately show "posts (signed_request c e meth path query body token extra) 1 w (snd (attemptSigned c e meth path query body token extra w))"
    using posts_trans [of _ 0 w w1 1] eq by simp
  show "rw_seen (snd (attemptSigned c e meth path query body token extra w)) = rw_seen w"
    using do_op.keys_kept Sign_cases [OF hs] eq by simp
qed

lemma waitFloor_quiet: "waitFloor e d w = (b, w') \<Longrightarrow> rw_sent w' = rw_sent w \<and> rw_seen w' = rw_seen w \<and> rw_db w' = rw_db w \<and> rw_now w \<le> rw_now w'
    \<and> (b \<longrightarrow> rw_now w + d \<le> rw_now w')"
  by (auto simp: waitFloor_def Let_def split: if_splits option.splits)

lemma retry_unfold:
  assumes "attemptSigned c e meth path query body token extra w = (r1, w1)"
  shows "doSignedAndRetry c e meth path query body token extra w =
    (case r1 of Inl err \<Rightarrow> (Inl err, w1)
     | Inr (bs, resp) \<Rightarrow>
         if rc_noop c \<or> map_option resy_is (classify (rn_cases e) (re_status resp) bs) \<noteq> Some (Some ErrAntiBotChallenge) then (r1, w1)
         else case waitFloor e signRetryFloor (takes_time e w1) of
             (False, w2) \<Rightarrow> (r1, w2) | (True, w2) \<Rightarrow> attemptSigned c e meth path query body token extra w2)"
  using assms by (auto simp: doSignedAndRetry_def split: sum.splits option.splits)

interpretation retry_op: exchange_op "doSignedAndRetry c e meth path query body token extra"
    "signed_request c e meth path query body token extra" "if rc_noop c then 1 else 2" for c e meth path query body token extra
proof
  fix w
  let ?P = "signed_request c e meth path query body token extra"
  let ?n = "if rc_noop c then 1 else 2 :: nat"
  obtain r1 w1 where a: "attemptSigned c e meth path query body token extra w = (r1, w1)" by fastforce
  have one: "posts ?P 1 w w1" "rw_seen w1 = rw_seen w" using attempt_op.sent [OF a] by auto
  obtain b w2 where b: "waitFloor e signRetryFloor (takes_time e w1) = (b, w2)" by fastforce
  have wait: "posts ?P 0 w1 w2" "rw_seen w2 = rw_seen w1"
    using waitFloor_quiet [OF b] by (auto intro!: posts_quiet intro: order_trans [OF takes_time_simps(3)])
  let ?r = "attemptSigned c e meth path query body token extra w2"
  have "posts ?P 2 w (snd ?r)" "posts ?P 1 w w2"
    using posts_trans [OF posts_trans [OF one(1) wait(1)] attempt_op.sends] posts_trans [OF one(1) wait(1)]
    by (auto simp: numeral_2_eq_2)
  then show "posts ?P ?n w (snd (doSignedAndRetry c e meth path query body token extra w))"
    using one by (auto simp: retry_unfold [OF a] b intro: posts_mono split: sum.splits bool.splits)
  show "rw_seen (snd (doSignedAndRetry c e meth path query body token extra w)) = rw_seen w"
    using one wait attempt_op.keys_kept [of c e meth path query body token extra w2]
    by (auto simp: retry_unfold [OF a] b split: sum.splits bool.splits)
qed

section \<open>Calls without a booking key\<close>

definition key_of :: "resy_request \<Rightarrow> string option" where
  "key_of rq = map_of (rr_headers rq) IdempotencyKeyHeader"

text \<open>What is assumed of the environment: a map is ranged over in some order of its entries, and the signer adds no
  header whose canonical name is that of the booking key.\<close>

definition fair_env :: "resy_client \<Rightarrow> resy_env \<Rightarrow> bool" where
  "fair_env c e \<longleftrightarrow> (\<forall>n h. set (rn_order e n h) = set h) \<and>
     (\<forall>path. \<forall>hs \<in> signed_headers c e path. IdempotencyKeyHeader \<notin> CanonicalHeaderKey ` fst ` set hs)"

lemma canonical_key_header [simp]: "CanonicalHeaderKey IdempotencyKeyHeader = IdempotencyKeyHeader"
  by (simp add: IdempotencyKeyHeader_def)

lemma request_key:
  assumes "\<forall>n h. set (rn_order e n h) = set h" "\<And>k v. (k, v) \<in> set extra \<Longrightarrow> CanonicalHeaderKey k = IdempotencyKeyHeader \<Longrightarrow> v = x"
  shows "key_of (request_of c e meth path query body token extra n) =
    (if x \<noteq> [] \<and> IdempotencyKeyHeader \<in> CanonicalHeaderKey ` fst ` set extra then Some x else None)"
  using put_extra_at [of "rn_order e n extra" IdempotencyKeyHeader x] assms
  by (simp add: key_of_def request_of_def applyHeaders_no_key)

lemma signed_key:
  assumes "fair_env c e" "signed_request c e meth path query body token [(IdempotencyKeyHeader, key)] rq"
  shows "key_of rq = (if key = [] then None else Some key)"
proof -
  obtain n hs where rq: "rq = request_of c e meth path query body token (mergeHeaders [(IdempotencyKeyHeader, key)] hs) n"
      and hs: "hs \<in> signed_headers c e path" using assms(2) by (auto simp: signed_request_def)
  have foreign: "(k, v) \<in> set hs \<Longrightarrow> CanonicalHeaderKey k \<noteq> IdempotencyKeyHeader" for k v
    using assms(1) hs by (force simp: fair_env_def)
  have "key_of rq = (if key \<noteq> [] \<and> IdempotencyKeyHeader \<in> CanonicalHeaderKey ` fst ` set (mergeHeaders [(IdempotencyKeyHeader, key)] hs) then Some key else None)"
    unfolding rq using assms(1) mergeHeaders_set(2) foreign by (intro request_key) (fastforce simp: fair_env_def)+
  moreover have "IdempotencyKeyHeader \<in> CanonicalHeaderKey ` fst ` set (mergeHeaders [(IdempotencyKeyHeader, key)] hs)"
    using mergeHeaders_set(3) by (force intro: image_eqI [of _ _ IdempotencyKeyHeader])
  ultimately show ?thesis by simp
qed

lemma unsigned_key:
  assumes "fair_env c e" "signed_request c e meth path query body token [] rq"
  shows "key_of rq = None"
proof -
  obtain n hs where rq: "rq = request_of c e meth path query body token (mergeHeaders [] hs) n"
      and hs: "hs \<in> signed_headers c e path" using assms(2) by (auto simp: signed_request_def)
  have "(k, v) \<in> set (mergeHeaders [] hs) \<Longrightarrow> CanonicalHeaderKey k = IdempotencyKeyHeader \<Longrightarrow> v = []" for k v
    using assms(1) hs by (force simp: fair_env_def mergeHeaders_set)
  then show ?thesis unfolding rq using assms(1) request_key [of e _ "[]"] by (simp add: fair_env_def)
qed

text \<open>A call that neither sends nor records a key.\<close>

abbreviation keyless :: "(resy_world \<Rightarrow> 'r \<times> resy_world) \<Rightarrow> bool" where
  "keyless call \<equiv> exchange_op call (\<lambda>rq. key_of rq = None) 4"

lemma keyless_signed: "fair_env c e \<Longrightarrow> extra = [] \<or> extra = [(IdempotencyKeyHeader, [])] \<Longrightarrow>
    exchange_op (doSignedAndRetry c e meth path query body token extra) (\<lambda>rq. key_of rq = None) 2"
  by unfold_locales (auto intro!: posts_mono [OF retry_op.sends] dest: unsigned_key signed_key simp: retry_op.keys_kept)

lemma keyless_plain: "fair_env c e \<Longrightarrow> extra = [] \<or> extra = [(''Content-Type'', v)] \<Longrightarrow>
    exchange_op (doWithExtraHeaders c e meth path query body token extra) (\<lambda>rq. key_of rq = None) 2"
proof (unfold_locales, goal_cases)
  case (1 w)
  then have "key_of (request_of c e meth path query body token extra n) = None" for n
    using request_key [of e extra "[]"] by (auto simp: fair_env_def IdempotencyKeyHeader_def)
  then show ?case by (intro posts_mono [OF do_op.sends]) auto
qed (simp add: do_op.keys_kept)

text \<open>A call that goes on with the answer of another, or not at all, sends what both send.\<close>

lemma op_then:
  assumes "exchange_op f P m" "\<And>r. exchange_op (g r) P n" "m + n \<le> k"
  shows "exchange_op (\<lambda>w. case f w of (r, w1) \<Rightarrow> g r w1) P k"
proof
  fix w
  obtain r w1 where f: "f w = (r, w1)" by fastforce
  note one = exchange_op.sent [OF assms(1) f]
  show "posts P k w (snd (case f w of (r, w1) \<Rightarrow> g r w1))"
    using posts_mono [OF posts_trans [OF conjunct1 [OF one] exchange_op.sends [OF assms(2) [of r]]] assms(3)] by (simp add: f)
  show "rw_seen (snd (case f w of (r, w1) \<Rightarrow> g r w1)) = rw_seen w"
    using one exchange_op.keys_kept [OF assms(2)] by (simp add: f)
qed

lemma op_world:
  assumes "exchange_op f P n" "\<And>w. snd (g w) = w \<or> snd (g w) = snd (f w)" "n \<le> k"
  shows "exchange_op g P k"
proof
  fix w
  show "posts P k w (snd (g w))"
    using assms(2) [of w] posts_mono [OF exchange_op.sends [OF assms(1)] assms(3)] by (auto intro: posts_quiet)
  show "rw_seen (snd (g w)) = rw_seen w"
    using assms(2) [of w] exchange_op.keys_kept [OF assms(1)] by auto
qed

lemma accepted_world: "snd (accepted e r) = snd r"
  by (auto simp: accepted_def split: prod.splits sum.splits option.splits)

lemma accepted_cases:
  "accepted e r = (Inl err, w1) \<Longrightarrow> snd r = w1" "accepted e r = (Inr bs, w1) \<Longrightarrow> snd r = w1"
  using accepted_world [of e r] by simp_all

lemma op_return: "exchange_op (\<lambda>w. (r w, w)) P n"
  by unfold_locales (auto intro: posts_quiet)

text \<open>The methods end in the world their last exchange left.\<close>

lemmas endpoint_splits = sum.splits option.splits prod.splits list.splits if_splits

lemma Find_world: "snd (Find c e req sess w) = w \<or>
    snd (Find c e req sess w) = snd (doSignedAndRetry c e ''GET'' ''/4/find'' (find_query req) [] (find_token sess) [] w)"
  by (auto simp: Find_def dest: accepted_cases split: endpoint_splits)

lemma Calendar_world: "snd (Calendar c e ref r w) = w \<or>
    snd (Calendar c e ref r w) = snd (doSignedAndRetry c e ''GET'' ''/4/venue/calendar'' (calendar_query ref r) [] [] [] w)"
  by (auto simp: Calendar_def dest: accepted_cases split: endpoint_splits)

lemma resolve_world: "snd (resy_ResolveVenue c e slug city w) = w \<or> snd (resy_ResolveVenue c e slug city w) =
    snd (doWithExtraHeaders c e ''GET'' ''/3/venue'' [(''url_slug'', TrimSpace slug), (''location'', TrimSpace city)] [] [] [] w)"
  by (auto simp: resy_ResolveVenue_def resy_do_def Let_def dest: accepted_cases split: endpoint_splits)

lemma search_world: "snd (SearchVenuesByName c e q w) = w \<or> (\<exists>body. snd (SearchVenuesByName c e q w) =
    snd (doWithExtraHeaders c e ''POST'' ''/3/venuesearch/search'' [] body [] [(''Content-Type'', ''application/json'')] w))"
  by (auto simp: SearchVenuesByName_def Let_def dest: accepted_cases split: endpoint_splits)

lemma fetchDetails_world: "snd (fetchDetails c e cfg s jwt w) =
    snd (doSignedAndRetry c e ''GET'' ''/3/details'' (details_query cfg s) [] jwt [] w)"
  by (auto simp: fetchDetails_def dest: accepted_cases split: endpoint_splits)

lemma post_world: "snd (postBookWithIdempotency c e tok pm jwt key w) =
    snd (doSignedAndRetry c e ''POST'' ''/3/book'' [] (Encode (book_form tok pm)) jwt [(IdempotencyKeyHeader, key)] w)"
  by (auto simp: postBookWithIdempotency_def dest: accepted_cases split: endpoint_splits)

lemma PrepareSlot_world: "snd (PrepareSlot c e s sess w) = w \<or>
    (\<exists>cfg jwt. snd (PrepareSlot c e s sess w) = snd (doSignedAndRetry c e ''GET'' ''/3/details'' (details_query cfg s) [] jwt [] w))"
  by (auto simp: PrepareSlot_def dest: accepted_cases split: endpoint_splits prov_session.splits)

lemma Ping_world: "snd (Ping c e sess w) = w \<or> (\<exists>jwt. snd (Ping c e sess w) = snd (doWithExtraHeaders c e ''GET'' ''/2/user'' [] [] jwt [] w))"
  by (auto simp: Ping_def resy_do_def split: endpoint_splits prov_session.splits) (metis snd_conv)+

lemma op_choice:
  assumes "\<And>w. snd (g w) = w \<or> (\<exists>x. snd (g w) = snd (f x w))" "\<And>x. exchange_op (f x) P n" "n \<le> k"
  shows "exchange_op g P k"
proof
  fix w
  show "posts P k w (snd (g w))"
    using assms(1) [of w] posts_mono [OF exchange_op.sends [OF assms(2)] assms(3)] by (auto intro: posts_quiet)
  show "rw_seen (snd (g w)) = rw_seen w"
    using assms(1) [of w] exchange_op.keys_kept [OF assms(2)] by auto
qed

lemma endpoints_keyless:
  assumes "fair_env c e"
  shows "keyless (Find c e req sess)" "keyless (Calendar c e ref r)" "keyless (resy_ResolveVenue c e slug city)"
    "keyless (SearchVenuesByName c e q)" "keyless (PrepareSlot c e s sess')" "keyless (Ping c e sess')"
    "exchange_op (fetchDetails c e cfg s jwt) (\<lambda>rq. key_of rq = None) 2"
    "exchange_op (postBookWithIdempotency c e tok pm jwt []) (\<lambda>rq. key_of rq = None) 2"
proof -
  note retried = keyless_signed [OF assms disjI1 [OF refl]] and plain = keyless_plain [OF assms]
  show "keyless (Find c e req sess)" by (rule op_world [OF retried Find_world]) simp
  show "keyless (Calendar c e ref r)" by (rule op_world [OF retried Calendar_world]) simp
  show "keyless (resy_ResolveVenue c e slug city)" by (rule op_world [OF plain resolve_world]) simp_all
  show "keyless (SearchVenuesByName c e q)" by (rule op_choice [OF search_world plain]) simp_all
  show "keyless (Ping c e sess')" by (rule op_choice [OF Ping_world plain]) simp_all
  show "exchange_op (fetchDetails c e cfg s jwt) (\<lambda>rq. key_of rq = None) 2" by (rule op_world [OF retried disjI2 [OF fetchDetails_world]]) simp
  show "exchange_op (postBookWithIdempotency c e tok pm jwt []) (\<lambda>rq. key_of rq = None) 2"
    by (rule op_world [OF keyless_signed [OF assms] disjI2 [OF post_world]]) simp_all
  show "keyless (PrepareSlot c e s sess')"
    by (rule op_choice [where f = "\<lambda>(cfg, jwt). doSignedAndRetry c e ''GET'' ''/3/details'' (details_query cfg s) [] jwt []" and n = 2])
       (use PrepareSlot_world [of c e s sess'] retried in auto)
qed

section \<open>Sessions\<close>

definition quiet :: "resy_world \<Rightarrow> resy_world \<Rightarrow> bool" where
  "quiet w w' \<longleftrightarrow> rw_sent w' = rw_sent w \<and> rw_seen w' = rw_seen w \<and> rw_now w \<le> rw_now w'"

lemma op_quiet:
  assumes "exchange_op f P n" "\<And>w. quiet w (snd (g w)) \<or> quiet (snd (f w)) (snd (g w))"
  shows "exchange_op g P n"
proof
  fix w
  show "posts P n w (snd (g w))"
    using assms(2) [of w] exchange_op.sends [OF assms(1), of w] posts_trans [of P n w "snd (f w)" 0 "snd (g w)"]
    by (auto simp: quiet_def intro: posts_quiet)
  show "rw_seen (snd (g w)) = rw_seen w"
    using assms(2) [of w] exchange_op.keys_kept [OF assms(1), of w] by (auto simp: quiet_def)
qed

lemma persist_quiet: "persist_session e s w = (r, w') \<Longrightarrow> quiet w w'"
  by (auto simp: persist_session_def quiet_def split: prod.splits)

lemma Login_world: "quiet w (snd (resy_Login c e creds w)) \<or> (\<exists>email pw. creds = ResyCredentials email pw \<and>
    quiet (snd (doWithExtraHeaders c e ''POST'' ''/3/auth/password'' [] (Encode [(''email'', email), (''password'', pw)]) [] [] w))
      (snd (resy_Login c e creds w)))"
  by (cases creds)
     (auto simp: resy_Login_def resy_do_def Let_def quiet_def [of w w] quiet_def [of x x for x] dest: persist_quiet split: endpoint_splits)

lemma sessions_keyless:
  assumes "fair_env c e"
  shows "keyless (resy_Login c e creds)" "keyless (LoadSession c e user)"
proof -
  have two: "exchange_op (doWithExtraHeaders c e ''POST'' ''/3/auth/password'' [] body [] []) (\<lambda>rq. key_of rq = None) 4" for body
    by (rule op_world [OF keyless_plain [OF assms]]) auto
  show "keyless (LoadSession c e user)"
    by (rule op_quiet [OF two]) (auto simp: LoadSession_def quiet_def split: endpoint_splits)
  show "keyless (resy_Login c e creds)"
  proof (cases creds)
    case (ResyCredentials email pw)
    then show ?thesis using Login_world [of _ c e creds] by (intro op_quiet [OF two]) auto
  next
    case (OtherCredentials t)
    then show ?thesis using Login_world [of _ c e creds] by (intro op_quiet [OF two]) auto
  qed
qed

section \<open>Booking keys\<close>

text \<open>How many of the requests sent carry a key.\<close>

definition keyed :: "string \<Rightarrow> resy_world \<Rightarrow> nat" where
  "keyed k w = length (filter (\<lambda>(t, rq). key_of rq = Some k) (rw_sent w))"

lemma posts_unkeyed: "posts (\<lambda>rq. key_of rq = None) n w w' \<Longrightarrow> keyed k w' = keyed k w"
  by (fastforce simp: posts_def keyed_def filter_empty_conv)

lemma posts_keyed:
  assumes "posts (\<lambda>rq. key_of rq = Some key) n w w'"
  shows "keyed k w' \<le> keyed k w + (if k = key then n else 0)"
proof -
  obtain new where new: "rw_sent w' = rw_sent w @ new" "length new \<le> n" "\<forall>(t, rq) \<in> set new. key_of rq = Some key"
    using assms by (force simp: posts_def)
  have "k \<noteq> key \<Longrightarrow> filter (\<lambda>(t, rq). key_of rq = Some k) new = []" using new(3) by (auto simp: filter_empty_conv)
  moreover have "length (filter (\<lambda>(t, rq). key_of rq = Some k) new) \<le> n" using new(2) length_filter_le order_trans by blast
  ultimately show ?thesis by (auto simp: keyed_def new(1))
qed

text \<open>What a call does to the keys: it leaves them alone, or it takes one that was not taken.\<close>

definition takes_key :: "nat \<Rightarrow> resy_world \<Rightarrow> resy_world \<Rightarrow> bool" where
  "takes_key n w w' \<longleftrightarrow> rw_seen w' = rw_seen w \<and> (\<forall>k. keyed k w' = keyed k w) \<or>
     (\<exists>key. key \<notin> set (rw_seen w) \<and> rw_seen w' = key # rw_seen w \<and> (\<forall>k. keyed k w' \<le> keyed k w + (if k = key then n else 0)))"

lemma takes_key_refl: "takes_key n w w"
  by (simp add: takes_key_def)

lemma keyless_takes:
  assumes "exchange_op f (\<lambda>rq. key_of rq = None) m"
  shows "takes_key n w (snd (f w))"
  using exchange_op.keys_kept [OF assms] posts_unkeyed [OF exchange_op.sends [OF assms]] by (simp add: takes_key_def)

lemma post_keyed:
  assumes "fair_env c e" "key \<noteq> []"
  shows "keyed k (snd (postBookWithIdempotency c e tok pm jwt key w)) \<le> keyed k w + (if k = key then (if rc_noop c then 1 else 2) else 0)"
    "rw_seen (snd (postBookWithIdempotency c e tok pm jwt key w)) = rw_seen w"
proof -
  have "posts (\<lambda>rq. key_of rq = Some key) (if rc_noop c then 1 else 2) w (snd (postBookWithIdempotency c e tok pm jwt key w))"
    unfolding post_world by (rule posts_mono [OF retry_op.sends]) (use signed_key [OF assms(1)] assms(2) in auto)
  from posts_keyed [OF this]
  show "keyed k (snd (postBookWithIdempotency c e tok pm jwt key w)) \<le> keyed k w + (if k = key then (if rc_noop c then 1 else 2) else 0)" .
qed (simp add: post_world retry_op.keys_kept)

lemma check_cases:
  assumes "idempotency_check key w = (r, w')"
  shows "key = [] \<and> r = None \<and> w' = w \<or> (\<exists>err. r = Some err) \<and> key \<in> set (rw_seen w) \<and> w' = w \<or>
    key \<noteq> [] \<and> r = None \<and> key \<notin> set (rw_seen w) \<and> w' = w\<lparr>rw_seen := key # rw_seen w\<rparr>"
  using assms by (auto simp: idempotency_check_def split: if_splits)

text \<open>Taking a key and posting with it, after calls that have nothing to do with keys.\<close>

lemma checked_takes:
  assumes fair: "fair_env c e" and check: "idempotency_check key w = (None, w0)"
    and kept: "rw_seen w1 = rw_seen w0" "\<And>k. keyed k w1 = keyed k w0"
    and ends: "w' = w1 \<or> (\<exists>tok pm jwt. w' = snd (postBookWithIdempotency c e tok pm jwt key w1))"
  shows "takes_key (if rc_noop c then 1 else 2) w w'"
proof (cases "key = []")
  case True
  then have "takes_key (if rc_noop c then 1 else 2) w1 w'"
    using ends keyless_takes [OF endpoints_keyless(8) [OF fair]] takes_key_refl by auto
  moreover have "w0 = w" using True check by (simp add: idempotency_check_def)
  ultimately show ?thesis using kept by (simp add: takes_key_def)
next
  case False
  then have w0: "key \<notin> set (rw_seen w)" "w0 = w\<lparr>rw_seen := key # rw_seen w\<rparr>" using check_cases [OF check] by auto
  then have "keyed k w0 = keyed k w" for k by (simp add: keyed_def)
  moreover have "rw_seen w' = rw_seen w1" using ends post_keyed(2) [OF fair False] by auto
  moreover have "keyed k w' \<le> keyed k w1 + (if k = key then (if rc_noop c then 1 else 2) else 0)" for k
    using ends by (elim disjE exE ssubst) (rule le_add1 post_keyed(1) [OF fair False])+
  ultimately show ?thesis using w0 kept by (auto simp: takes_key_def intro!: disjI2)
qed

lemma ConfirmSlot_takes:
  assumes "fair_env c e"
  shows "takes_key (if rc_noop c then 1 else 2) w (snd (ConfirmSlot c e s sess key w))"
proof -
  obtain r w0 where check: "idempotency_check key w = (r, w0)" by fastforce
  show ?thesis
  proof (cases r)
    case None
    have "takes_key (if rc_noop c then 1 else 2) w (snd (postBookWithIdempotency c e tok pm jwt key w0))" for tok pm jwt
      using check None by (intro checked_takes [OF assms, of key w w0 w0]) auto
    then show ?thesis using check None takes_key_refl by (auto simp: ConfirmSlot_def split: prov_session.splits option.splits)
  next
    case (Some err)
    then have "w0 = w" using check_cases [OF check] by auto
    then show ?thesis using check Some takes_key_refl by (auto simp: ConfirmSlot_def split: prov_session.splits option.splits)
  qed
qed

lemma BookWithIdempotency_takes:
  assumes "fair_env c e"
  shows "takes_key (if rc_noop c then 1 else 2) w (snd (BookWithIdempotency c e s sess key w))"
proof -
  obtain r w0 where check: "idempotency_check key w = (r, w0)" by fastforce
  show ?thesis
  proof (cases r)
    case None
    show ?thesis
    proof (cases "\<exists>rs p. sess = ResySession rs \<and> sl_payload s = Some p")
      case True
      then obtain rs p where sess: "sess = ResySession rs" "sl_payload s = Some p" by blast
      obtain r1 w1 where f: "fetchDetails c e (sl_config_id p) s (rs_jwt rs) w0 = (r1, w1)" by fastforce
      have "snd (BookWithIdempotency c e s sess key w) = w1 \<or>
          (\<exists>tok pm jwt. snd (BookWithIdempotency c e s sess key w) = snd (postBookWithIdempotency c e tok pm jwt key w1))"
        by (auto simp: BookWithIdempotency_def check None sess f split: sum.splits)
      then show ?thesis
        using exchange_op.sent [OF endpoints_keyless(7) [OF assms] f] posts_unkeyed check None
        by (intro checked_takes [OF assms, of key w w0 w1]) auto
    next
      case False
      then have "snd (BookWithIdempotency c e s sess key w) = w0"
        by (cases sess; cases "sl_payload s") (auto simp: BookWithIdempotency_def check None)
      then show ?thesis using check None by (intro checked_takes [OF assms, of key w w0 w0]) auto
    qed
  next
    case (Some err)
    then have "w0 = w" using check_cases [OF check] by auto
    then show ?thesis using check Some by (simp add: BookWithIdempotency_def takes_key_def)
  qed
qed

lemma Book_keyless:
  assumes "fair_env c e"
  shows "keyless (Book c e s sess)"
proof (cases "\<exists>rs p. sess = ResySession rs \<and> sl_payload s = Some p")
  case True
  then obtain rs p where sess: "sess = ResySession rs" "sl_payload s = Some p" by blast
  define rest where "rest r w1 = (case bind_result r book_details of Inl err \<Rightarrow> (Inl err, w1)
     | Inr (tok, pm) \<Rightarrow> postBookWithIdempotency c e tok pm (rs_jwt rs) [] w1)" for r w1
  have "Book c e s sess = (\<lambda>w. case fetchDetails c e (sl_config_id p) s (rs_jwt rs) w of (r, w1) \<Rightarrow> rest r w1)"
    by (rule ext) (auto simp: Book_def sess rest_def postBook_def split: sum.splits prod.splits)
  moreover have "exchange_op (rest r) (\<lambda>rq. key_of rq = None) 2" for r
    unfolding rest_def by (cases "bind_result r book_details")
      (auto intro!: op_return endpoints_keyless(8) [OF assms] split: prod.splits)
  ultimately show ?thesis using op_then [OF endpoints_keyless(7) [OF assms], of rest 2 4] by simp
next
  case False
  then have "snd (Book c e s sess w) = w" for w by (cases sess; cases "sl_payload s") (auto simp: Book_def)
  then show ?thesis by (intro op_world [OF op_return [of "\<lambda>_. ()"]]) auto
qed

end
