(* ===== verification/JsonFacts.thy ===== *)
theory JsonFacts
  imports JsonText
begin

text \<open>
  What \<^verbatim>\<open>json.Marshal\<close> writes, \<^verbatim>\<open>json.Unmarshal\<close> reads back: \<open>json_read\<close> inverts \<open>json_text\<close> on ASCII documents
  whose nesting is within the limit.
\<close>

section \<open>Strings\<close>

lemma unhex_hex_char: "n < 16 \<Longrightarrow> unhex (hex_char n) = Some n"
proof -
  have "\<forall>n \<in> set [0..<16]. unhex (hex_char n) = Some n" by code_simp
  then show "n < 16 \<Longrightarrow> ?thesis" by simp
qed

lemma short_escapes_read: "map_of short_escapes c = Some d \<Longrightarrow> map_of plain_escapes d = Some c \<and> d \<noteq> CHR ''u''"
  by (auto simp: short_escapes_def plain_escapes_def split: if_splits)

lemma append_single: "append [c] = Cons c"
  by (rule ext) simp

lemma json_esc_read:
  assumes "byte c < 128"
  shows "json_chars (json_esc c @ r) = map_option (apfst (Cons c)) (json_chars r)"
proof (cases "map_of short_escapes c")
  case (Some d)
  then show ?thesis using short_escapes_read [OF Some] by (simp add: json_esc_def json_piece_def append_single)
next
  case None
  have plain: "c \<noteq> CHR 0x22" "c \<noteq> CHR 0x5C" using None by (auto simp: short_escapes_def)
  show ?thesis
  proof (cases "byte c < 32 \<or> c \<in> set ''<>&''")
    case True
    have zero: "unhex CHR ''0'' = Some 0" by (simp add: unhex_def is_digit_def digits_def digit_val_def)
    have "hex4 (CHR ''0'' # CHR ''0'' # hex_char (byte c div 16) # hex_char (byte c mod 16) # r) = Some (byte c, r)"
      using assms by (simp add: hex4_def zero unhex_hex_char less_mult_imp_div_less)
    then have "unicode_escape (CHR ''0'' # CHR ''0'' # hex_char (byte c div 16) # hex_char (byte c mod 16) # r) = Some ([c], r)"
      using assms by (simp add: unicode_escape_def utf8_def) (simp add: byte_def)
    then show ?thesis using True None by (simp add: json_esc_def json_piece_def append_single)
  next
    case False
    then show ?thesis using None plain assms by (auto simp: json_esc_def json_piece_def append_single)
  qed
qed

lemma json_body_read: "ascii s \<Longrightarrow> json_chars (json_body s @ CHR 0x22 # r) = Some (s, r)"
  by (induction s) (simp_all add: ascii_def json_esc_read)

section \<open>Numbers\<close>

text \<open>What may follow a value.\<close>

definition value_end :: "string \<Rightarrow> bool" where
  "value_end r \<longleftrightarrow> r = [] \<or> hd r \<in> {CHR '','', CHR '']'', CHR ''}''}"

lemma show_nat_zero: "hd (show_nat n) = CHR ''0'' \<Longrightarrow> n = 0"
proof (induction n rule: show_nat.induct)
  case (1 n)
  show ?case
  proof (cases "n < 10")
    case True
    then have "digit_char n = digit_char 0" using 1(2) by (simp add: show_nat.simps [of n])
    then show ?thesis using True digit_char_inject [of n 0] by simp
  next
    case False
    then have "hd (show_nat (n div 10)) = CHR ''0''"
      using 1(2) show_nat_nonempty [of "n div 10"] by (simp add: show_nat.simps [of n])
    then show ?thesis using 1(1) False by simp
  qed
qed

lemma some_digits_read:
  assumes "value_end r"
  shows "some_digits (show_nat n @ r) = Some (show_nat n, r)"
proof -
  have "\<not> is_digit (hd r)" if "r \<noteq> []" using assms that by (auto simp: value_end_def is_digit_def digits_def)
  then have "takeWhile is_digit (show_nat n @ r) = show_nat n" "dropWhile is_digit (show_nat n @ r) = r"
    using show_nat_digits by (cases r; auto)+
  then show ?thesis using show_nat_nonempty [of n] by (cases "show_nat n") (simp_all add: some_digits_def)
qed

lemma no_fraction: "value_end r \<Longrightarrow> frac_part r = Some ([], r) \<and> exp_part r = Some ([], r)"
  by (cases r) (auto simp: value_end_def frac_part_def exp_part_def)

lemma json_number_read:
  assumes "value_end r"
  shows "json_number (show_int n @ r) = Some (JInt n, r)"
proof -
  have digits: "json_number (show_nat m @ r) = Some (JInt (int m), r)" "json_number (''-'' @ show_nat m @ r) = Some (JInt (- int m), r)" for m
  proof -
    have "\<not> (hd (show_nat m) = CHR ''0'' \<and> tl (show_nat m) \<noteq> [])" using show_nat_zero [of m] by (cases "m = 0") (auto simp: show_nat.simps [of 0])
    moreover obtain c t where c: "show_nat m = c # t" by (cases "show_nat m") auto
    then have "c \<noteq> CHR ''-''" using show_nat_digits [of c m] not_is_digit_minus by auto
    ultimately show "json_number (show_nat m @ r) = Some (JInt (int m), r)" "json_number (''-'' @ show_nat m @ r) = Some (JInt (- int m), r)"
      using no_fraction [OF assms] some_digits_read [OF assms, of m] read_digits_show_nat [of m] by (simp_all add: json_number_def c)
  qed
  show ?thesis
  proof (cases "n < 0")
    case True
    then have "show_int n = ''-'' @ show_nat (nat (- n))" by (simp add: fmt_int_def zero_pad_def)
    then show ?thesis using digits(2) [of "nat (- n)"] True by simp
  next
    case False
    then have "show_int n = show_nat (nat n)" by (simp add: fmt_int_def zero_pad_def)
    then show ?thesis using digits(1) [of "nat n"] False by simp
  qed
qed

section \<open>Documents\<close>

fun json_depth :: "json \<Rightarrow> nat" where
  "json_depth (JArr xs) = Suc (fold max (map json_depth xs) 0)"
| "json_depth (JObj fs) = Suc (fold max (map (\<lambda>(k, v). json_depth v) fs) 0)"
| "json_depth _ = 0"

lemma fold_max_le: "fold max ns (a :: nat) \<le> d \<longleftrightarrow> a \<le> d \<and> (\<forall>n \<in> set ns. n \<le> d)"
  by (induction ns arbitrary: a) auto

lemma text_start: "json_ascii j \<Longrightarrow> skip_space (json_text j @ r) = json_text j @ r"
proof -
  assume "json_ascii j"
  then have k: "json_text j \<noteq> []" "char_kind (hd (json_text j)) < 6"
    using json_text_head json_kind_bound [of j] by (blast, metis)
  then obtain c t where c: "json_text j = c # t" by (cases "json_text j") auto
  have "\<forall>c \<in> set [CHR 0x20, CHR 0x09, CHR 0x0A, CHR 0x0D]. char_kind c = 6" by code_simp
  then have "json_space c \<Longrightarrow> char_kind c = 6" by (auto simp: json_space_def)
  then have "\<not> json_space c" using k(2) c by auto
  then show ?thesis by (simp add: skip_space_def c)
qed

lemma skip_mark [simp]: "skip_space (CHR '','' # t) = CHR '','' # t" "skip_space (CHR '']'' # t) = CHR '']'' # t"
  "skip_space (CHR ''}'' # t) = CHR ''}'' # t" "skip_space (CHR '':'' # t) = CHR '':'' # t" "skip_space (CHR 0x22 # t) = CHR 0x22 # t"
  "skip_space (CHR ''['' # t) = CHR ''['' # t" "skip_space (CHR ''{'' # t) = CHR ''{'' # t" "skip_space [] = []"
  by (simp_all add: skip_space_def json_space_def)

definition reads :: "nat \<Rightarrow> json \<Rightarrow> bool" where
  "reads d j \<longleftrightarrow> json_ascii j \<and> (\<forall>r. value_end r \<longrightarrow> json_value d (json_text j @ r) = Some (j, r))"

lemma value_end_marks [simp]: "value_end (CHR '','' # t)" "value_end (CHR '']'' # t)" "value_end (CHR ''}'' # t)" "value_end []"
  by (simp_all add: value_end_def)

lemma elems_read: "xs \<noteq> [] \<Longrightarrow> \<forall>x \<in> set xs. reads d x \<Longrightarrow>
    json_elems d (join_with '','' (map json_text xs) @ CHR '']'' # r) = Some (xs, r)"
proof (induction xs)
  case (Cons x xs)
  then show ?case by (cases xs) (simp_all add: json_elems.simps reads_def)
qed simp

lemma fields_read: "fs \<noteq> [] \<Longrightarrow> \<forall>(k, v) \<in> set fs. ascii k \<and> reads d v \<Longrightarrow>
    json_fields d (join_with '','' (map (\<lambda>(k, v). json_string k @ '':'' @ json_text v) fs) @ CHR ''}'' # r) = Some (fs, r)"
proof (induction fs)
  case (Cons kv fs)
  obtain k v where kv: "kv = (k, v)" by (cases kv)
  show ?case using Cons
    by (cases fs) (simp_all add: kv json_fields.simps reads_def json_string_def json_key_def json_body_read)
qed simp

lemma literals_read:
  "json_value d (CHR ''n'' # CHR ''u'' # CHR ''l'' # CHR ''l'' # r) = Some (JNull, r)"
  "json_value d (CHR ''t'' # CHR ''r'' # CHR ''u'' # CHR ''e'' # r) = Some (JBool True, r)"
  "json_value d (CHR ''f'' # CHR ''a'' # CHR ''l'' # CHR ''s'' # CHR ''e'' # r) = Some (JBool False, r)"
  by (simp_all add: json_value.simps skip_space_def json_space_def)

lemma json_value_read: "json_ascii j \<Longrightarrow> json_depth j \<le> d \<Longrightarrow> reads d j"
proof (induction j arbitrary: d)
  case (JInt n)
  have "json_value d (show_int n @ r) = json_number (show_int n @ r)" for r
  proof -
    obtain c t where c: "show_int n = c # t" "char_kind c = 2" using show_int_head [of n] by (cases "show_int n") auto
    then have "skip_space (show_int n @ r) = c # t @ r" using text_start [of "JInt n" r] by simp
    moreover have "c \<noteq> CHR 0x22 \<and> c \<noteq> CHR ''['' \<and> c \<noteq> CHR ''{'' \<and> c \<noteq> CHR ''n'' \<and> c \<noteq> CHR ''t'' \<and> c \<noteq> CHR ''f''"
      using c(2) char_kinds by auto
    ultimately show ?thesis using c(1) by (auto simp: json_value.simps)
  qed
  then show ?case by (simp add: reads_def json_number_read)
next
  case (JStr s)
  then show ?case by (simp add: reads_def json_value.simps json_string_def json_body_read)
next
  case (JArr xs)
  have "fold max (map json_depth xs) 0 \<le> d - 1" using JArr(3) by simp
  then have "\<forall>x \<in> set xs. reads (d - 1) x" using JArr(1,2) by (auto simp: list_all_iff fold_max_le)
  moreover have "\<not> prefix '']'' (skip_space (join_with '','' (map json_text xs) @ CHR '']'' # r))" if "xs \<noteq> []" for r
  proof -
    obtain x ys where x: "xs = x # ys" using \<open>xs \<noteq> []\<close> by (cases xs) auto
    then have "json_ascii x" using JArr(2) by simp
    then have head: "json_text x \<noteq> []" "char_kind (hd (json_text x)) < 6" and sp: "skip_space (json_text x @ t) = json_text x @ t" for t
      using json_text_head [of x] json_kind_bound [of x] text_start by (blast, metis, blast)
    moreover have "hd (json_text x) \<noteq> CHR '']''" using head(2) char_kinds(7) by auto
    ultimately show ?thesis by (cases ys; cases "json_text x") (simp_all add: x)
  qed
  ultimately show ?case using JArr elems_read [of xs "d - 1"]
    by (cases "xs = []") (auto simp: reads_def json_value.simps)
next
  case (JObj fs)
  have "fold max (map (\<lambda>(k, v). json_depth v) fs) 0 \<le> d - 1" using JObj(3) by simp
  then have "\<forall>(k, v) \<in> set fs. ascii k \<and> reads (d - 1) v" using JObj(1,2) by (fastforce simp: list_all_iff fold_max_le)
  moreover have "\<not> prefix ''}'' (skip_space (join_with '','' (map (\<lambda>(k, v). json_string k @ '':'' @ json_text v) fs) @ CHR ''}'' # r))" if "fs \<noteq> []" for r
    using that by (cases fs; cases "tl fs") (auto simp: json_string_def)
  ultimately show ?case using JObj fields_read [of fs "d - 1"]
    by (cases "fs = []") (auto simp: reads_def json_value.simps)
qed (simp_all add: reads_def literals_read)

lemma json_read_text:
  assumes "json_ascii j" "json_depth j \<le> max_nesting"
  shows "json_read (json_text j) = Some j"
proof -
  have "json_value max_nesting (json_text j @ []) = Some (j, [])"
    using json_value_read [OF assms] value_end_marks(4) unfolding reads_def by blast
  then show ?thesis by (simp add: json_read_def)
qed

end
