(* ===== verification/ResySpec.thy ===== *)
theory ResySpec
  imports ResyFacts JsonFacts StoreSpec
begin

text \<open>
  Properties of the Resy adapter: booking keys, the retry after an anti-bot challenge, what an availability answer
  becomes, the two halves of a booking, and sessions from login to expiry.
\<close>

section \<open>Sequences of calls\<close>

datatype resy_call =
    CallFind find_request "prov_session option"
  | CallCalendar venue_ref date_range
  | CallResolve string string
  | CallSearch string
  | CallPrepare slot prov_session
  | CallConfirm slot prov_session string
  | CallBook slot prov_session
  | CallBookKeyed slot prov_session string
  | CallLogin credentials
  | CallLoad user_id
  | CallPing prov_session

fun perform :: "resy_client \<Rightarrow> resy_env \<Rightarrow> resy_call \<Rightarrow> resy_world \<Rightarrow> resy_world" where
  "perform c e (CallFind req sess) w = snd (Find c e req sess w)"
| "perform c e (CallCalendar ref r) w = snd (Calendar c e ref r w)"
| "perform c e (CallResolve slug city) w = snd (resy_ResolveVenue c e slug city w)"
| "perform c e (CallSearch q) w = snd (SearchVenuesByName c e q w)"
| "perform c e (CallPrepare s sess) w = snd (PrepareSlot c e s sess w)"
| "perform c e (CallConfirm s sess key) w = snd (ConfirmSlot c e s sess key w)"
| "perform c e (CallBook s sess) w = snd (Book c e s sess w)"
| "perform c e (CallBookKeyed s sess key) w = snd (BookWithIdempotency c e s sess key w)"
| "perform c e (CallLogin creds) w = snd (resy_Login c e creds w)"
| "perform c e (CallLoad user) w = snd (LoadSession c e user w)"
| "perform c e (CallPing sess) w = snd (Ping c e sess w)"

lemma perform_takes: "fair_env c e \<Longrightarrow> takes_key (if rc_noop c then 1 else 2) w (perform c e call w)"
  by (cases call) (simp_all only: perform.simps ConfirmSlot_takes BookWithIdempotency_takes
      keyless_takes [OF endpoints_keyless(1)] keyless_takes [OF endpoints_keyless(2)] keyless_takes [OF endpoints_keyless(3)]
      keyless_takes [OF endpoints_keyless(4)] keyless_takes [OF endpoints_keyless(5)] keyless_takes [OF endpoints_keyless(6)]
      keyless_takes [OF Book_keyless] keyless_takes [OF sessions_keyless(1)] keyless_takes [OF sessions_keyless(2)])

definition keys_once :: "nat \<Rightarrow> resy_world \<Rightarrow> bool" where
  "keys_once n w \<longleftrightarrow> (\<forall>k. keyed k w \<le> n \<and> (0 < keyed k w \<longrightarrow> k \<in> set (rw_seen w)))"

lemma keys_once_step:
  assumes "keys_once n w" "takes_key n w w'"
  shows "keys_once n w'"
  using assms(2) unfolding takes_key_def
proof (elim disjE exE conjE)
  fix key
  assume key: "key \<notin> set (rw_seen w)" "rw_seen w' = key # rw_seen w" "\<forall>k. keyed k w' \<le> keyed k w + (if k = key then n else 0)"
  have "keyed k w' \<le> n \<and> (0 < keyed k w' \<longrightarrow> k \<in> set (rw_seen w'))" for k
  proof (cases "k = key")
    case True
    then have "keyed k w = 0" using assms(1) key(1) by (auto simp: keys_once_def)
    then show ?thesis using key(2) spec [OF key(3), of k] True by simp
  next
    case False
    then have "keyed k w' \<le> keyed k w" using spec [OF key(3), of k] by simp
    moreover have "keyed k w \<le> n" "0 < keyed k w \<longrightarrow> k \<in> set (rw_seen w)" using assms(1) by (simp_all add: keys_once_def)
    ultimately show ?thesis using key(2) by auto
  qed
  then show ?thesis by (simp add: keys_once_def)
qed (use assms(1) in \<open>simp add: keys_once_def\<close>)

text \<open>C11: A booking key is not sent twice. Whatever calls are made of a client that has sent nothing
  yet, in whatever order and however each exchange ends, at most one request carries a given booking
  key, or two (a request and its retry) when a signer is installed. It is assumed that the
  signer itself adds no header that canonicalizes to the key's name. A request is one call of \<^verbatim>\<open>http.Client.Do\<close>; redirects
  that \<^verbatim>\<open>net/http\<close> follows within it are not counted.\<close>

theorem booking_key_sent_once:
  assumes "fair_env c e" "rw_sent w = []"
  shows "keyed k (fold (perform c e) calls w) \<le> (if rc_noop c then 1 else 2)"
proof -
  have "keys_once (if rc_noop c then 1 else 2) w" using assms(2) by (simp add: keys_once_def keyed_def)
  then have "keys_once (if rc_noop c then 1 else 2) (fold (perform c e) calls w)"
  proof (induction calls arbitrary: w)
    case (Cons call calls)
    then show ?case using keys_once_step perform_takes [OF assms(1)] by simp
  qed simp
  then show ?thesis by (simp add: keys_once_def)
qed

section \<open>A concrete client\<close>

definition ex_cases :: case_tables where
  "ex_cases = \<lparr>ct_lower = (\<lambda>s. s), ct_upper = (\<lambda>s. s)\<rparr>"

text \<open>A network that answers the \<open>n\<close>-th exchange from a list of replies.\<close>

definition ex_resy_env :: "(nat \<Rightarrow> string + resy_reply) \<Rightarrow> headers \<Rightarrow> resy_env" where
  "ex_resy_env net hs = \<lparr>rn_cases = ex_cases, rn_quote = (\<lambda>s. s), rn_load_location = (\<lambda>_. Some utc), rn_cancel_at = None,
     rn_io = (\<lambda>_. io_ok), rn_time = (\<lambda>_. 1), rn_late = (\<lambda>_. 0), rn_ctx_first = (\<lambda>_. False), rn_net = (\<lambda>n _. net n),
     rn_sign = (\<lambda>_ _. (hs, None)), rn_order = (\<lambda>_ h. h)\<rparr>"

definition ex_reply :: "nat \<Rightarrow> json \<Rightarrow> string + resy_reply" where
  "ex_reply status j = Inr \<lparr>rp_status = status, rp_header = [], rp_body = json_text j\<rparr>"

definition ex_resy_world :: resy_world where
  "ex_resy_world = \<lparr>rw_now = ex_now, rw_tick = 0, rw_db = empty_db, rw_seen = [], rw_sent = []\<rparr>"

definition ex_signing :: resy_client where
  "ex_signing = NewClient [] [WithBaseURL ''http://r'', WithStore, WithSigner (Some False)]"

definition ex_rsession :: prov_session where
  "ex_rsession = ResySession \<lparr>rs_user = ''ana@example.com'', rs_jwt = ''jwt'', rs_expires_at = 0\<rparr>"

definition ex_prepared :: slot where
  "ex_prepared = \<lparr>sl_venue = \<lparr>vr_provider = ''resy'', vr_ref = ''1505''\<rparr>, sl_date = Date 2026 1 2, sl_time = WallTime 19 0 0,
     sl_table_type = ''Dining Room'', sl_party_size = 2,
     sl_payload = Some \<lparr>sl_config_id = ''cfg'', sl_template_id = ''7'', sl_seating_type = ''Dining Room'', sl_book_token = ''tok'',
       sl_payment_method_id = 9\<rparr>\<rparr>"

lemma ex_fair: "IdempotencyKeyHeader \<notin> CanonicalHeaderKey ` fst ` set hs \<Longrightarrow> fair_env c (ex_resy_env net hs)"
  by (simp add: fair_env_def ex_resy_env_def signed_headers_def)

text \<open>A challenged post is retried under its key, and a second call with that key is refused.\<close>

definition ex_challenged :: resy_env where
  "ex_challenged = ex_resy_env (\<lambda>n. if n < 2 then ex_reply 403 (JStr ''captcha'') else ex_reply 409 JNull) [(''X-Px'', ''1'')]"

theorem booking_key_sent_once_witness:
  "keyed ''k1'' (fold (perform ex_signing ex_challenged)
     [CallConfirm ex_prepared ex_rsession ''k1'', CallConfirm ex_prepared ex_rsession ''k1''] ex_resy_world) = 2" (is "?n = 2")
proof (rule antisym)
  have noop: "rc_noop ex_signing = False" by code_simp
  have "fair_env ex_signing ex_challenged" unfolding ex_challenged_def by (rule ex_fair) code_simp
  then have "?n \<le> (if rc_noop ex_signing then 1 else 2)"
    by (rule booking_key_sent_once) (simp add: ex_resy_world_def)
  then show "?n \<le> 2" by (simp only: noop if_False)
  show "2 \<le> ?n" by code_simp
qed

section \<open>The retry\<close>

lemma upper_codes: "k \<in> snd ` set specific_codes \<Longrightarrow> k \<noteq> ErrAntiBotChallenge"
  by (auto simp: specific_codes_def)

lemma classify_antibot: "map_option resy_is (classify ct st body) = Some (Some ErrAntiBotChallenge) \<longleftrightarrow>
    st = 403 \<and> isAntiBotBody (ct_lower ct) body"
proof -
  have "map_of specific_codes code \<noteq> Some ErrAntiBotChallenge" for code
    using upper_codes map_of_SomeD by force
  then show ?thesis
    by (auto simp: classify_def classify2xx_def wrapWithBody_def Let_def split: option.splits if_splits)
qed

text \<open>What an attempt sends, in time, and when it must send.\<close>

lemma attempt_cases:
  assumes "attemptSigned c e meth path query body token extra w = (r, w')"
  shows "(\<exists>err. r = Inl err) \<and> rw_sent w' = rw_sent w \<or>
    (\<exists>t rq n. rw_now w \<le> t \<and> t \<le> rw_now w' \<and> signed_request c e meth path query body token extra rq \<and>
       rw_sent w' = rw_sent w @ [(t, rq)] \<and> (\<forall>bs resp. r = Inr (bs, resp) \<longrightarrow>
         (\<exists>rep. rn_net e n rq = Inr rep \<and> rp_body rep = bs \<and> rp_status rep = re_status resp)))"
    "rc_noop c \<Longrightarrow> rw_now w' \<le> rw_now w + defaultPerCallTimeout"
    "url_Parse (full_url c path query) \<noteq> None \<Longrightarrow> rn_cancel_at e = None \<Longrightarrow> rw_sent w' \<noteq> rw_sent w"
    "rw_sent w' \<noteq> rw_sent w \<Longrightarrow> url_Parse (full_url c path query) \<noteq> None"
proof -
  obtain hs w1 where hs: "Sign c e path w = (hs, w1)" by fastforce
  note sign = Sign_cases [OF hs]
  have d: "doWithExtraHeaders c e meth path query body token (mergeHeaders extra hs) w1 = (r, w')"
    using assms by (simp add: attemptSigned_def hs)
  let ?rq = "request_of c e meth path query body token (mergeHeaders extra hs) (rw_tick w1)"
  have rq: "signed_request c e meth path query body token extra ?rq" using sign by (auto simp: signed_request_def)
  have reply: "r = Inr (bs, resp) \<Longrightarrow> rw_sent w' = rw_sent w1 @ [(rw_now w1, ?rq)] \<and>
      (\<exists>rep. rn_net e (rw_tick w1) ?rq = Inr rep \<and> rp_body rep = bs \<and> rp_status rep = re_status resp)" for bs resp
    using d by (auto simp: doWithExtraHeaders_def Let_def request_of_def split: if_splits sum.splits)
  show "(\<exists>err. r = Inl err) \<and> rw_sent w' = rw_sent w \<or>
    (\<exists>t rq n. rw_now w \<le> t \<and> t \<le> rw_now w' \<and> signed_request c e meth path query body token extra rq \<and>
       rw_sent w' = rw_sent w @ [(t, rq)] \<and> (\<forall>bs resp. r = Inr (bs, resp) \<longrightarrow>
         (\<exists>rep. rn_net e n rq = Inr rep \<and> rp_body rep = bs \<and> rp_status rep = re_status resp)))"
    using d
  proof (cases rule: doWithExtraHeaders_cases)
    case unsent
    then show ?thesis using sign by auto
  next
    case sent
    then show ?thesis using sign rq reply by (intro disjI2 exI [of _ "rw_now w1"] exI [of _ ?rq] exI [of _ "rw_tick w1"]) auto
  qed
  show "rc_noop c \<Longrightarrow> rw_now w' \<le> rw_now w + defaultPerCallTimeout"
    using d by (cases rule: doWithExtraHeaders_cases) (use sign in \<open>auto simp: defaultPerCallTimeout_def second_def\<close>)
  show "url_Parse (full_url c path query) \<noteq> None \<Longrightarrow> rn_cancel_at e = None \<Longrightarrow> rw_sent w' \<noteq> rw_sent w"
    using d sign by (auto simp: doWithExtraHeaders_def Let_def rctx_done_def split: if_splits sum.splits)
  show "rw_sent w' \<noteq> rw_sent w \<Longrightarrow> url_Parse (full_url c path query) \<noteq> None"
    using d sign by (auto simp: doWithExtraHeaders_def Let_def split: if_splits)
qed

lemma retry_cases:
  assumes "doSignedAndRetry c e meth path query body token extra w = (r, w')"
    "attemptSigned c e meth path query body token extra w = (r1, w1)"
  obtains (same) "r = r1" "w' = w1" "\<And>bs resp. r1 = Inr (bs, resp) \<Longrightarrow> re_status resp = 403 \<Longrightarrow>
      isAntiBotBody (ct_lower (rn_cases e)) bs \<Longrightarrow> rc_noop c"
  | (waited) b w2 bs resp where "\<not> rc_noop c" "r1 = Inr (bs, resp)" "re_status resp = 403" "isAntiBotBody (ct_lower (rn_cases e)) bs"
      "waitFloor e signRetryFloor (takes_time e w1) = (b, w2)"
      "if b then attemptSigned c e meth path query body token extra w2 = (r, w') else r = r1 \<and> w' = w2 \<and> rn_cancel_at e \<noteq> None"
proof (cases "\<exists>bs resp. r1 = Inr (bs, resp) \<and> re_status resp = 403 \<and> isAntiBotBody (ct_lower (rn_cases e)) bs \<and> \<not> rc_noop c")
  case True
  then obtain bs resp where c: "r1 = Inr (bs, resp)" "re_status resp = 403" "isAntiBotBody (ct_lower (rn_cases e)) bs" "\<not> rc_noop c" by blast
  obtain b w2 where b: "waitFloor e signRetryFloor (takes_time e w1) = (b, w2)" by fastforce
  then have "\<not> b \<Longrightarrow> rn_cancel_at e \<noteq> None" by (auto simp: waitFloor_def Let_def split: if_splits option.splits)
  moreover obtain z where "classify (rn_cases e) (re_status resp) bs = Some z" "resy_is z = Some ErrAntiBotChallenge"
    using c(2,3) classify_antibot [of "rn_cases e" "re_status resp" bs] by auto
  ultimately show thesis using waited [OF c(4) c(1-3) b] assms(1) c(1,4) b
    by (cases b) (simp_all add: retry_unfold [OF assms(2)])
next
  case False
  have "(r, w') = (r1, w1)"
  proof (cases r1)
    case (Inr x)
    obtain bs resp where x: "x = (bs, resp)" by (cases x)
    then have "rc_noop c \<or> map_option resy_is (classify (rn_cases e) (re_status resp) bs) \<noteq> Some (Some ErrAntiBotChallenge)"
      using False Inr classify_antibot by blast
    then show ?thesis using assms(1) Inr x by (simp add: retry_unfold [OF assms(2)])
  qed (use assms(1) in \<open>simp add: retry_unfold [OF assms(2)]\<close>)
  then show thesis using same False by auto
qed


definition ex_blocked :: resy_env where
  "ex_blocked = ex_resy_env (\<lambda>_. ex_reply 403 (JStr ''captcha'')) []"


section \<open>Answers\<close>

text \<open>The answer of a signed call is the reply to the last request sent.\<close>

lemma retry_answer:
  assumes "doSignedAndRetry c e meth path query body token extra w = (Inr (bs, resp), w')"
  shows "\<exists>old t rq n rep. rw_sent w' = rw_sent w @ old @ [(t, rq)] \<and> signed_request c e meth path query body token extra rq \<and>
    rn_net e n rq = Inr rep \<and> rp_body rep = bs \<and> rp_status rep = re_status resp" (is "?answered w w' bs resp")
proof -
  obtain r1 w1 where a: "attemptSigned c e meth path query body token extra w = (r1, w1)" by fastforce
  have one: "?answered w w1 bs' resp'" if r1: "r1 = Inr (bs', resp')" for bs' resp'
  proof -
    from attempt_cases(1) [OF a] r1 obtain t rq n rep where "rw_sent w1 = rw_sent w @ [] @ [(t, rq)]"
        "signed_request c e meth path query body token extra rq" "rn_net e n rq = Inr rep" "rp_body rep = bs'" "rp_status rep = re_status resp'"
      by auto
    then show ?thesis by blast
  qed
  show ?thesis
    using assms a
  proof (cases rule: retry_cases)
    case same
    then show ?thesis using one by simp
  next
    case (waited b w2 bs1 resp1)
    have w2: "rw_sent w2 = rw_sent w1" using waitFloor_quiet [OF waited(5)] by simp
    obtain new where w1: "rw_sent w1 = rw_sent w @ new" using attempt_op.sent [OF a] by (auto simp: posts_def)
    show ?thesis
    proof (cases b)
      case True
      then have "attemptSigned c e meth path query body token extra w2 = (Inr (bs, resp), w')" using waited(6) by simp
      from attempt_cases(1) [OF this] obtain t rq n rep where "rw_sent w' = rw_sent w @ new @ [(t, rq)]"
          "signed_request c e meth path query body token extra rq" "rn_net e n rq = Inr rep" "rp_body rep = bs" "rp_status rep = re_status resp"
        by (auto simp: w2 w1)
      then show ?thesis by blast
    next
      case False
      then show ?thesis using waited(2,6) one w2 by simp
    qed
  qed
qed

lemma classify_None: "classify ct st body = None \<Longrightarrow> st = 200 \<or> st = 201"
  by (auto simp: classify_def Let_def split: if_splits option.splits)

lemma accepted_answer:
  assumes "accepted e (doSignedAndRetry c e meth path query body token extra w) = (Inr bs, w')"
  shows "\<exists>old t rq n rep. rw_sent w' = rw_sent w @ old @ [(t, rq)] \<and> signed_request c e meth path query body token extra rq \<and>
    rn_net e n rq = Inr rep \<and> rp_body rep = bs \<and> (rp_status rep = 200 \<or> rp_status rep = 201)"
proof -
  obtain resp where d: "doSignedAndRetry c e meth path query body token extra w = (Inr (bs, resp), w')"
      and c: "classify (rn_cases e) (re_status resp) bs = None"
    using assms by (auto simp: accepted_def split: prod.splits sum.splits option.splits)
  obtain old t rq n rep where a: "rw_sent w' = rw_sent w @ old @ [(t, rq)]" "signed_request c e meth path query body token extra rq"
      "rn_net e n rq = Inr rep" "rp_body rep = bs" "rp_status rep = re_status resp"
    using retry_answer [OF d] by blast
  moreover have "rp_status rep = 200 \<or> rp_status rep = 201" using classify_None [OF c] a(5) by simp
  ultimately show ?thesis by blast
qed

lemma signed_request_parts:
  "signed_request c e meth path query body token extra rq \<Longrightarrow> rr_method rq = meth \<and> rr_url rq = full_url c path query \<and> rr_body rq = body"
  by (auto simp: signed_request_def request_of_def)

section \<open>Availability\<close>

definition slot_from :: "find_request \<Rightarrow> slot \<Rightarrow> find_slot \<Rightarrow> bool" where
  "slot_from req s f \<longleftrightarrow> sl_venue s = fr_venue req \<and> sl_date s = fr_date req \<and> sl_party_size s = fr_party_size req \<and>
     parseSlotWallTime (fs_start f) = Inr (sl_time s) \<and> sl_table_type s = fs_type f \<and>
     (\<exists>p. sl_payload s = Some p \<and> sl_config_id p = fs_token f \<and> sl_seating_type p = fs_type f \<and> sl_book_token p = [] \<and> sl_payment_method_id p = 0)"

lemma found_slots: "map_result (found_slot req) fs = Inr slots \<Longrightarrow> list_all2 (slot_from req) slots fs"
proof (induction fs arbitrary: slots)
  case (Cons f fs)
  then show ?case by (auto simp: found_slot_def slot_from_def bind_result_def split: sum.splits)
qed simp

text \<open>C14: What \<^verbatim>\<open>Find\<close> returns is what Resy offers. On success the last request sent is the GET of
  \<^verbatim>\<open>/4/find\<close> whose query decodes to the request's date, party and venue, its answer has status
  200 or 201, and the slots are, in order and one for one, those of its venues, each with the
  request's venue, date and party, the time and type the answer gives, and the token for
  \<^verbatim>\<open>/3/details\<close>, not yet prepared. There is at least one.\<close>

theorem find_returns_the_offer:
  assumes "Find c e req sess w = (Inr slots, w')"
  shows "slots \<noteq> [] \<and> (\<exists>old t rq n rep venues. rw_sent w' = rw_sent w @ old @ [(t, rq)] \<and> rr_method rq = ''GET'' \<and>
    (\<exists>q. rr_url rq = rc_base_url c @ ''/4/find?'' @ q \<and> form_value q ''day'' = date_string (fr_date req) \<and>
       form_value q ''party_size'' = show_int (fr_party_size req) \<and> form_value q ''venue_id'' = vr_ref (fr_venue req)) \<and>
    rn_net e n rq = Inr rep \<and> (rp_status rep = 200 \<or> rp_status rep = 201) \<and>
    unmarshal decode_FindResponse (rp_body rep) = Some venues \<and> list_all2 (slot_from req) slots (concat venues))"
proof -
  obtain bs venues where a: "accepted e (doSignedAndRetry c e ''GET'' ''/4/find'' (find_query req) [] (find_token sess) [] w) = (Inr bs, w')"
      and v: "unmarshal decode_FindResponse bs = Some venues" "map_result (found_slot req) (concat venues) = Inr slots" "slots \<noteq> []"
    using assms by (auto simp: Find_def split: if_splits prod.splits sum.splits option.splits list.splits)
  obtain old t rq n rep where b: "rw_sent w' = rw_sent w @ old @ [(t, rq)]" "rn_net e n rq = Inr rep" "rp_body rep = bs"
      "rp_status rep = 200 \<or> rp_status rep = 201" and rq: "signed_request c e ''GET'' ''/4/find'' (find_query req) [] (find_token sess) [] rq"
    using accepted_answer [OF a] by blast
  have "rr_url rq = rc_base_url c @ ''/4/find?'' @ Encode (find_query req)" "rr_method rq = ''GET''"
    using signed_request_parts [OF rq] by (simp_all add: full_url_def find_query_def)
  moreover have "form_value (Encode (find_query req)) ''day'' = date_string (fr_date req)"
      "form_value (Encode (find_query req)) ''party_size'' = show_int (fr_party_size req)"
      "form_value (Encode (find_query req)) ''venue_id'' = vr_ref (fr_venue req)"
    by (rule form_value_Encode; simp add: find_query_def)+
  ultimately show ?thesis using b v found_slots [OF v(2)] by blast
qed

definition ex_offer :: json where
  "ex_offer = JObj [(''results'', JObj [(''venues'', JArr [JObj [(''slots'', JArr [JObj
     [(''config'', JObj [(''token'', JStr ''cfg''), (''type'', JStr ''Bar''), (''id'', JInt 7)]),
      (''date'', JObj [(''start'', JStr ''2026-01-02 19:00:00'')])]])]])])]"

definition ex_find :: find_request where
  "ex_find = \<lparr>fr_venue = \<lparr>vr_provider = ''resy'', vr_ref = ''1505''\<rparr>, fr_date = Date 2026 1 2, fr_party_size = 2, fr_times = [], fr_session = None\<rparr>"

text \<open>An exchange that works, without a signer.\<close>

lemma plain_answer:
  assumes "rc_noop c" "url_Parse (full_url c path query) \<noteq> None" "rn_cancel_at e = None" "int (rn_time e (rw_tick w)) < defaultPerCallTimeout"
    "\<And>rq. rn_net e (rw_tick w) rq = Inr rep" "classify (rn_cases e) (rp_status rep) (rp_body rep) = None"
  shows "\<exists>w'. accepted e (doSignedAndRetry c e meth path query body token extra w) = (Inr (rp_body rep), w') \<and> rw_tick w' = Suc (rw_tick w)"
  using assms by (simp add: accepted_def doSignedAndRetry_def attemptSigned_def Sign_def doWithExtraHeaders_def Let_def rctx_done_def give_up_at_def)

text \<open>A document in the body is what the adapter reads.\<close>

lemma unmarshal_text: "json_ascii j \<Longrightarrow> json_depth j \<le> max_nesting \<Longrightarrow>
    unmarshal dec (json_text j) = (case bind_result (as_members j) dec of Inl _ \<Rightarrow> None | Inr x \<Rightarrow> Some x)"
  by (simp add: unmarshal_def json_read_text)

lemma classify_text:
  assumes "json_ascii j" "json_depth j \<le> max_nesting" "st = 200 \<or> st = 201"
    "bind_result (as_members j) (bool_member ''mfa_required'') \<noteq> Inr True"
    "bind_result (as_members j) (\<lambda>fs. bind_result (obj_member ''results'' fs) (objs_member ''venues'')) \<noteq> Inr [] \<or>
       \<not> contains (json_text j) ([CHR 0x22] @ ''venues'' @ [CHR 0x22])"
  shows "classify ct st (json_text j) = None"
  using assms
  by (auto simp: classify_def classify2xx_def isMFARequiredBody_def isEmptyFindBody_def unmarshal_text split: sum.splits)

lemma ex_plain_answer:
  assumes "url_Parse (full_url (NewClient [] opts) path query) \<noteq> None" "classify ex_cases st (json_text j) = None"
    "rc_noop (NewClient [] opts)" "net (rw_tick w) = ex_reply st j"
  shows "\<exists>w'. accepted (ex_resy_env net hs) (doSignedAndRetry (NewClient [] opts) (ex_resy_env net hs) meth path query body token extra w) =
    (Inr (json_text j), w') \<and> rw_tick w' = Suc (rw_tick w)"
  using plain_answer [of "NewClient [] opts" path query "ex_resy_env net hs" w "\<lparr>rp_status = st, rp_header = [], rp_body = json_text j\<rparr>" meth body token extra] assms
  by (simp add: ex_resy_env_def ex_reply_def defaultPerCallTimeout_def second_def)

definition ex_offered :: find_slot where
  "ex_offered = \<lparr>fs_token = ''cfg'', fs_type = ''Bar'', fs_id = 7, fs_start = ''2026-01-02 19:00:00'', fs_end = []\<rparr>"

theorem find_returns_the_offer_witness:
  "\<exists>s w'. Find (NewClient [] []) (ex_resy_env (\<lambda>_. ex_reply 200 ex_offer) []) ex_find None ex_resy_world = (Inr [s], w') \<and> slot_from ex_find s ex_offered"
proof -
  let ?e = "ex_resy_env (\<lambda>_. ex_reply 200 ex_offer) []"
  have doc: "json_ascii ex_offer" "json_depth ex_offer \<le> max_nesting" by code_simp+
  have "bind_result (as_members ex_offer) decode_FindResponse = Inr [[ex_offered]]" by code_simp
  then have parsed: "unmarshal decode_FindResponse (json_text ex_offer) = Some [[ex_offered]]" by (simp add: unmarshal_text doc)
  have "classify ex_cases 200 (json_text ex_offer) = None" by (rule classify_text [OF doc]) code_simp+
  moreover have "url_Parse (full_url (NewClient [] []) ''/4/find'' (find_query ex_find)) \<noteq> None" "rc_noop (NewClient [] [])" by code_simp+
  ultimately obtain w' where
    "accepted ?e (doSignedAndRetry (NewClient [] []) ?e ''GET'' ''/4/find'' (find_query ex_find) [] [] [] ex_resy_world) = (Inr (json_text ex_offer), w')"
    using ex_plain_answer [of "[]" "''/4/find''" "find_query ex_find" 200 ex_offer "\<lambda>_. ex_reply 200 ex_offer" ex_resy_world] by blast
  moreover have "found_slot ex_find ex_offered = Inr (ex_prepared\<lparr>sl_table_type := ''Bar'', sl_payload := Some \<lparr>sl_config_id = ''cfg'',
      sl_template_id = ''7'', sl_seating_type = ''Bar'', sl_book_token = [], sl_payment_method_id = 0\<rparr>\<rparr>)" by code_simp
  moreover have "\<not> (vr_provider (fr_venue ex_find) \<noteq> providerID)" "vr_ref (fr_venue ex_find) \<noteq> []" "\<not> date_is_zero (fr_date ex_find)"
    "\<not> fr_party_size ex_find \<le> 0" by code_simp+
  ultimately obtain s where run: "Find (NewClient [] []) ?e ex_find None ex_resy_world = (Inr [s], w')"
    by (simp add: Find_def find_token_def parsed del: json_text.simps)
  obtain n rq rep venues where "rn_net ?e n rq = Inr rep" "unmarshal decode_FindResponse (rp_body rep) = Some venues"
      "list_all2 (slot_from ex_find) [s] (concat venues)"
    using find_returns_the_offer [OF run] by blast
  then have "slot_from ex_find s ex_offered" using parsed by (auto simp: ex_resy_env_def ex_reply_def simp del: json_text.simps)
  then show ?thesis using run by blast
qed

end
