(* ===== verification/BookingSpec.thy ===== *)
theory BookingSpec
  imports ResySpec
begin

text \<open>
  Properties of the Resy adapter, continued: how the two halves of a booking fit together, and the
  life of a session from its login to its expiry.
\<close>

section \<open>The two halves of a booking\<close>

definition payment_json :: "int \<Rightarrow> string" where
  "payment_json pm = [CHR ''{'', CHR 0x22] @ ''id'' @ [CHR 0x22] @ '':'' @ show_int pm @ ''}''"

lemma book_form_values:
  "form_value (Encode (book_form tok pm)) ''book_token'' = tok"
  "form_value (Encode (book_form tok pm)) ''struct_payment_method'' = payment_json pm"
  by (rule form_value_Encode; simp add: book_form_def payment_json_def)+

lemma book_details_ok: "book_details det = Inr (tok, pm) \<Longrightarrow> tok = dt_book_token det \<and> tok \<noteq> [] \<and> pm = hd (dt_payment_methods det)"
  by (auto simp: book_details_def split: if_splits list.splits)

lemma PrepareSlot_ok:
  assumes "PrepareSlot c e s sess w = (Inr s', w')"
  shows "\<exists>rs p bs det. sess = ResySession rs \<and> sl_payload s = Some p \<and>
    accepted e (doSignedAndRetry c e ''GET'' ''/3/details'' (details_query (sl_config_id p) s) [] (rs_jwt rs) [] w) = (Inr bs, w') \<and>
    unmarshal decode_DetailsResponse bs = Some det \<and> dt_book_token det \<noteq> [] \<and>
    s' = s\<lparr>sl_payload := Some (p\<lparr>sl_book_token := dt_book_token det, sl_payment_method_id := hd (dt_payment_methods det)\<rparr>)\<rparr>"
proof -
  obtain rs p where sp: "sess = ResySession rs" "sl_payload s = Some p" "sl_config_id p \<noteq> []"
    using assms by (auto simp: PrepareSlot_def split: prov_session.splits option.splits if_splits)
  obtain q w1 where q: "accepted e (doSignedAndRetry c e ''GET'' ''/3/details'' (details_query (sl_config_id p) s) [] (rs_jwt rs) [] w) = (q, w1)"
    by fastforce
  obtain bs where bs: "q = Inr bs" "w1 = w'" using assms by (cases q) (auto simp: PrepareSlot_def sp q)
  obtain det where det: "unmarshal decode_DetailsResponse bs = Some det"
    using assms by (cases "unmarshal decode_DetailsResponse bs") (auto simp: PrepareSlot_def sp q bs decodeDetails_def)
  obtain x where x: "book_details det = Inr x"
    using assms by (cases "book_details det") (auto simp: PrepareSlot_def sp q bs decodeDetails_def det)
  then have "dt_book_token det \<noteq> []" "s' = s\<lparr>sl_payload := Some (p\<lparr>sl_book_token := dt_book_token det, sl_payment_method_id := hd (dt_payment_methods det)\<rparr>)\<rparr>"
    using assms book_details_ok [of det "fst x" "snd x"] by (auto simp: PrepareSlot_def sp q bs decodeDetails_def det split: prod.splits)
  then show ?thesis using sp q bs det by blast
qed

lemma post_ok:
  assumes "postBookWithIdempotency c e tok pm jwt key w = (Inr conf, w')"
  shows "(\<exists>bs. accepted e (doSignedAndRetry c e ''POST'' ''/3/book'' [] (Encode (book_form tok pm)) jwt [(IdempotencyKeyHeader, key)] w) = (Inr bs, w')) \<and>
    co_id conf \<noteq> [] \<and> co_booked_at conf = rw_now w'"
  using assms by (auto simp: postBookWithIdempotency_def split: prod.splits sum.splits option.splits if_splits)

lemma post_sends:
  "\<exists>new. rw_sent (snd (postBookWithIdempotency c e tok pm jwt key w)) = rw_sent w @ new \<and> (\<forall>(t, rq) \<in> set new. rr_method rq = ''POST'' \<and>
     rr_url rq = rc_base_url c @ ''/3/book'' \<and> form_value (rr_body rq) ''book_token'' = tok \<and>
     form_value (rr_body rq) ''struct_payment_method'' = payment_json pm)"
proof -
  obtain new where "rw_sent (snd (postBookWithIdempotency c e tok pm jwt key w)) = rw_sent w @ new"
      "\<forall>(t, rq) \<in> set new. signed_request c e ''POST'' ''/3/book'' [] (Encode (book_form tok pm)) jwt [(IdempotencyKeyHeader, key)] rq"
    using retry_op.sends [of c e "''POST''" "''/3/book''" "[]" "Encode (book_form tok pm)" jwt "[(IdempotencyKeyHeader, key)]" w]
    by (fastforce simp: post_world posts_def)
  then show ?thesis using signed_request_parts by (fastforce simp: full_url_def book_form_values)
qed

text \<open>C13: The halves of a booking fit together. A prepared slot is the slot it was given, with the
  non-empty book token and the first payment method of the details Resy answered. Confirming
  it sends nothing but POSTs of \<^verbatim>\<open>/3/book\<close> whose form decodes to that token and that payment method;
  a confirmation is only returned after such a post, has an id, and is stamped with the time of the answer;
  and a key that was already sent, or a payment method with the id 0, which \<^verbatim>\<open>PrepareSlot\<close> lets through, is refused
  without any request.\<close>

theorem prepared_slot_confirms:
  assumes "PrepareSlot c e s sess w = (Inr s', w1)" "ConfirmSlot c e s' sess key w2 = (r, w3)"
  shows "\<exists>p det n rq rep. sl_payload s = Some p \<and> rn_net e n rq = Inr rep \<and> unmarshal decode_DetailsResponse (rp_body rep) = Some det \<and>
    dt_book_token det \<noteq> [] \<and>
    s' = s\<lparr>sl_payload := Some (p\<lparr>sl_book_token := dt_book_token det, sl_payment_method_id := hd (dt_payment_methods det)\<rparr>)\<rparr> \<and>
    (\<exists>new. rw_sent w3 = rw_sent w2 @ new \<and> (\<forall>(t, rq) \<in> set new. rr_method rq = ''POST'' \<and> rr_url rq = rc_base_url c @ ''/3/book'' \<and>
       form_value (rr_body rq) ''book_token'' = dt_book_token det \<and>
       form_value (rr_body rq) ''struct_payment_method'' = payment_json (hd (dt_payment_methods det))) \<and>
       (\<forall>conf. r = Inr conf \<longrightarrow> new \<noteq> [] \<and> co_id conf \<noteq> [] \<and> co_booked_at conf = rw_now w3)) \<and>
    (hd (dt_payment_methods det) = 0 \<or> key \<noteq> [] \<and> key \<in> set (rw_seen w2) \<longrightarrow> isl r \<and> w3 = w2)"
proof -
  obtain rs p bs det where p: "sess = ResySession rs" "sl_payload s = Some p"
    and a: "accepted e (doSignedAndRetry c e ''GET'' ''/3/details'' (details_query (sl_config_id p) s) [] (rs_jwt rs) [] w) = (Inr bs, w1)"
    and det: "unmarshal decode_DetailsResponse bs = Some det" "dt_book_token det \<noteq> []"
      "s' = s\<lparr>sl_payload := Some (p\<lparr>sl_book_token := dt_book_token det, sl_payment_method_id := hd (dt_payment_methods det)\<rparr>)\<rparr>"
    using PrepareSlot_ok [OF assms(1)] by blast
  let ?tok = "dt_book_token det" and ?pm = "hd (dt_payment_methods det)"
  obtain n rq rep where net: "rn_net e n rq = Inr rep" "rp_body rep = bs" using accepted_answer [OF a] by blast
  obtain chk w0 where chk: "idempotency_check key w2 = (chk, w0)" by fastforce
  have run: "(r, w3) = (if ?pm = 0 then (Inl (BadInput ''PaymentMethodID is required''), w2)
      else case chk of Some err \<Rightarrow> (Inl err, w0) | None \<Rightarrow> postBookWithIdempotency c e ?tok ?pm (rs_jwt rs) key w0)"
    using assms(2) by (cases "?pm = 0"; cases chk) (simp_all add: ConfirmSlot_def chk det p)
  have kept: "rw_sent w0 = rw_sent w2" using check_cases [OF chk] by auto
  have posted: "new \<noteq> [] \<and> co_id conf \<noteq> [] \<and> co_booked_at conf = rw_now w3"
    if "r = Inr conf" "rw_sent w3 = rw_sent w2 @ new" for conf new
  proof -
    have "postBookWithIdempotency c e ?tok ?pm (rs_jwt rs) key w0 = (Inr conf, w3)"
      using run that(1) by (auto split: if_splits option.splits)
    from post_ok [OF this] show ?thesis using accepted_answer that(2) kept by fastforce
  qed
  have refused: "?pm = 0 \<or> key \<noteq> [] \<and> key \<in> set (rw_seen w2) \<Longrightarrow> isl r \<and> w3 = w2"
    using run check_cases [OF chk] by (auto split: if_splits option.splits)
  have "\<exists>new. rw_sent w3 = rw_sent w2 @ new \<and> (\<forall>(t, rq) \<in> set new. rr_method rq = ''POST'' \<and> rr_url rq = rc_base_url c @ ''/3/book'' \<and>
       form_value (rr_body rq) ''book_token'' = ?tok \<and> form_value (rr_body rq) ''struct_payment_method'' = payment_json ?pm)"
    using run kept post_sends [of c e ?tok ?pm "rs_jwt rs" key w0] snd_conv [of r w3] by (cases chk) (auto split: if_splits)
  then show ?thesis using p(2) net det posted refused by blast
qed

definition ex_booked :: json where
  "ex_booked = JObj [(''resy_token'', JStr ''r1''), (''reservation_id'', JInt 12)]"

definition ex_details :: json where
  "ex_details = JObj [(''book_token'', JObj [(''value'', JStr ''bt'')]), (''user'', JObj [(''payment_methods'', JArr [JObj [(''id'', JInt 5)]])])]"

definition ex_booking_env :: resy_env where
  "ex_booking_env = ex_resy_env (\<lambda>n. if n = 0 then ex_reply 200 ex_details else ex_reply 201 ex_booked) []"

theorem prepared_slot_confirms_witness:
  "\<exists>s' w1 conf w3. PrepareSlot (NewClient [] []) ex_booking_env ex_prepared ex_rsession ex_resy_world = (Inr s', w1) \<and>
     ConfirmSlot (NewClient [] []) ex_booking_env s' ex_rsession ''k1'' w1 = (Inr conf, w3) \<and> co_id conf = ''r1'' \<and>
     (\<exists>(t, rq) \<in> set (rw_sent w3). form_value (rr_body rq) ''book_token'' = ''bt'')"
proof -
  let ?c = "NewClient [] []" and ?e = ex_booking_env 
    and ?p = "\<lparr>sl_config_id = ''cfg'', sl_template_id = ''7'', sl_seating_type = ''Dining Room'', sl_book_token = ''tok'', sl_payment_method_id = 9\<rparr>"
  let ?p' = "?p\<lparr>sl_book_token := ''bt'', sl_payment_method_id := 5\<rparr>"
  have p: "sl_payload ex_prepared = Some ?p" by (simp add: ex_prepared_def)
  have docs: "json_ascii ex_details" "json_depth ex_details \<le> max_nesting" "json_ascii ex_booked" "json_depth ex_booked \<le> max_nesting" by code_simp+
  have "bind_result (as_members ex_details) decode_DetailsResponse = Inr \<lparr>dt_book_token = ''bt'', dt_payment_methods = [5]\<rparr>"
    "bind_result (as_members ex_booked) decode_BookResponse = Inr (''r1'', 12)" by code_simp+
  then have det: "unmarshal decode_DetailsResponse (json_text ex_details) = Some \<lparr>dt_book_token = ''bt'', dt_payment_methods = [5]\<rparr>"
    and booked: "unmarshal decode_BookResponse (json_text ex_booked) = Some (''r1'', 12)" by (simp_all add: unmarshal_text docs)
  have clean: "classify ex_cases 200 (json_text ex_details) = None" "classify ex_cases 201 (json_text ex_booked) = None"
    by (rule classify_text [OF docs(1,2)]; code_simp) (rule classify_text [OF docs(3,4)]; code_simp)
  have "url_Parse (full_url ?c ''/3/details'' (details_query ''cfg'' ex_prepared)) \<noteq> None" "rc_noop ?c" by code_simp+
  from ex_plain_answer [OF this(1) clean(1) this(2), of "\<lambda>n. if n = 0 then ex_reply 200 ex_details else ex_reply 201 ex_booked" ex_resy_world "[]" "''GET''" "[]" "''jwt''" "[]"]
  obtain w1 where w1: "accepted ?e (doSignedAndRetry ?c ?e ''GET'' ''/3/details'' (details_query ''cfg'' ex_prepared) [] ''jwt'' [] ex_resy_world) = (Inr (json_text ex_details), w1)"
      "rw_tick w1 = 1" by (auto simp: ex_booking_env_def ex_resy_world_def simp del: json_text.simps)
  define s2 where "s2 = ex_prepared\<lparr>sl_payload := Some ?p'\<rparr>"
  have prep: "PrepareSlot ?c ?e ex_prepared ex_rsession ex_resy_world = (Inr s2, w1)"
    using w1(1) by (simp add: s2_def PrepareSlot_def ex_rsession_def p decodeDetails_def det book_details_def del: json_text.simps)
  have "rw_seen w1 = []"
    using exchange_op.sent [OF endpoints_keyless(5) prep] ex_fair [of "[]"] by (simp add: ex_booking_env_def ex_resy_world_def)
  then have chk: "idempotency_check ''k1'' w1 = (None, w1\<lparr>rw_seen := [''k1'']\<rparr>)" by (simp add: idempotency_check_def)
  have "url_Parse (full_url ?c ''/3/book'' []) \<noteq> None" "rc_noop ?c" by code_simp+
  from ex_plain_answer [OF this(1) clean(2) this(2), of "\<lambda>n. if n = 0 then ex_reply 200 ex_details else ex_reply 201 ex_booked" "w1\<lparr>rw_seen := [''k1'']\<rparr>" "[]" "''POST''" "Encode (book_form ''bt'' 5)" "''jwt''" "[(IdempotencyKeyHeader, ''k1'')]"]
  obtain w3 where w3: "accepted ?e (doSignedAndRetry ?c ?e ''POST'' ''/3/book'' [] (Encode (book_form ''bt'' 5)) ''jwt'' [(IdempotencyKeyHeader, ''k1'')] (w1\<lparr>rw_seen := [''k1'']\<rparr>))
      = (Inr (json_text ex_booked), w3)" by (auto simp: ex_booking_env_def w1(2) simp del: json_text.simps)
  define cf where "cf = \<lparr>co_id = ''r1'', co_booked_at = rw_now w3, co_human_readable = ''Reservation '' @ show_int 12 @ '' (token '' @ ''r1'' @ '')''\<rparr>"
  have "postBookWithIdempotency ?c ?e ''bt'' 5 ''jwt'' ''k1'' (w1\<lparr>rw_seen := [''k1'']\<rparr>) = (Inr cf, w3)"
    by (simp only: postBookWithIdempotency_def w3 booked prod.case sum.case option.case if_False list.distinct cf_def)
  then have conf: "ConfirmSlot ?c ?e s2 ex_rsession ''k1'' w1 = (Inr cf, w3)"
    by (simp add: ConfirmSlot_def ex_rsession_def chk s2_def)
  obtain p0 and det' :: details and new where paid: "s2 = ex_prepared\<lparr>sl_payload := Some (p0\<lparr>sl_book_token := dt_book_token det', sl_payment_method_id := hd (dt_payment_methods det')\<rparr>)\<rparr>"
      and new: "rw_sent w3 = rw_sent w1 @ new" "\<And>t rq. (t, rq) \<in> set new \<Longrightarrow> form_value (rr_body rq) ''book_token'' = dt_book_token det'" "new \<noteq> []"
  proof -
    from prepared_slot_confirms [OF prep conf] obtain p0 and det' :: details and new where
        "s2 = ex_prepared\<lparr>sl_payload := Some (p0\<lparr>sl_book_token := dt_book_token det', sl_payment_method_id := hd (dt_payment_methods det')\<rparr>)\<rparr>"
        "rw_sent w3 = rw_sent w1 @ new"
        "\<forall>(t, rq) \<in> set new. rr_method rq = ''POST'' \<and> rr_url rq = rc_base_url ?c @ ''/3/book'' \<and> form_value (rr_body rq) ''book_token'' = dt_book_token det' \<and>
           form_value (rr_body rq) ''struct_payment_method'' = payment_json (hd (dt_payment_methods det'))"
        "\<forall>conf. (Inr cf :: resy_error + confirmation) = Inr conf \<longrightarrow> new \<noteq> [] \<and> co_id conf \<noteq> [] \<and> co_booked_at conf = rw_now w3"
      by blast
    then show thesis using that [of det' p0 new] by auto
  qed
  have "dt_book_token det' = ''bt''"
    using arg_cong [OF paid, of "\<lambda>s. sl_book_token (the (sl_payload s))"] by (simp add: s2_def)
  moreover obtain t rq where "(t, rq) \<in> set new" using new(3) by (cases new) auto
  ultimately have "\<exists>(t, rq) \<in> set (rw_sent w3). form_value (rr_body rq) ''book_token'' = ''bt''" using new(1,2) by auto
  moreover have "co_id cf = ''r1''" by (simp add: cf_def)
  ultimately show ?thesis using prep conf by blast
qed

section \<open>Sessions\<close>

lemma do_db: "rw_db (snd (doWithExtraHeaders c e meth path query body token extra w)) = rw_db w"
proof -
  obtain r w' where eq: "doWithExtraHeaders c e meth path query body token extra w = (r, w')" by fastforce
  then have "rw_db w' = rw_db w" by (cases rule: doWithExtraHeaders_cases) auto
  then show ?thesis by (simp add: eq)
qed

lemma Login_persists:
  assumes "resy_Login c e (ResyCredentials email pw) w = (Inr s, w')" "rc_store c"
  shows "\<exists>w1. rs_user s = email \<and> rw_db w1 = rw_db w \<and> rw_now w \<le> rw_now w1 \<and> persist_session e s w1 = (None, w')"
proof -
  obtain q w1 where q: "resy_do c e ''POST'' ''/3/auth/password'' [] (Encode [(''email'', email), (''password'', pw)]) [] w = (q, w1)" by fastforce
  have w1: "rw_db w1 = rw_db w" "rw_now w \<le> rw_now w1"
  proof -
    have "rw_db (snd (q, w1)) = rw_db w" unfolding q [symmetric, unfolded resy_do_def] by (rule do_db)
    then show "rw_db w1 = rw_db w" by simp
    show "rw_now w \<le> rw_now w1" using do_op.sent [OF q [unfolded resy_do_def]] by (simp add: posts_def)
  qed
  obtain bs resp where r: "q = Inr (bs, resp)" using assms(1) by (cases q) (auto simp: resy_Login_def q split: if_splits)
  obtain env where u: "unmarshal decode_authResponseEnvelope bs = Some env"
    using assms(1) by (cases "unmarshal decode_authResponseEnvelope bs") (simp_all add: resy_Login_def q r split: if_splits)
  obtain exp where x: "parseJWTExp (au_token env) = Inr exp"
    using assms(1) by (cases "parseJWTExp (au_token env)") (simp_all add: resy_Login_def q r u split: if_splits)
  let ?s = "\<lparr>rs_user = email, rs_jwt = au_token env, rs_expires_at = exp\<rparr>"
  obtain f v where v: "persist_session e ?s w1 = (f, v)" by fastforce
  have "f = None \<and> s = ?s \<and> v = w'"
    using assms(1) by (cases f) (simp_all add: resy_Login_def q r u x v assms(2) split: if_splits)
  then show ?thesis using w1 v by auto
qed

lemma time_Unix_exact: "- (2 ^ 62) \<le> s \<Longrightarrow> s < 2 ^ 62 \<Longrightarrow> time_Unix s = from_unix_sec s"
  by (simp add: time_Unix_def from_unix_sec_def signed_of_int signed_take_bit_int_eq_self distrib_right del: of_int_add)

text \<open>C15: A session lives from its login to its expiry. After a login that succeeded, a first one or a
  renewal, and until the store's rows change, \<^verbatim>\<open>LoadSession\<close> returns exactly the session the login
  returned, with the expiry read from its token, before that instant, and the store's expiry error from it on; from then on
  \<^verbatim>\<open>Ping\<close> answers that the session has expired without sending anything. This needs the e-mail to have no
  account besides the one of the sessions, which belongs to no homelab user: the lookup goes by the e-mail alone and
  can return the token of another account with it. The clock and the expiry are
  within the years a stored time can have, the store's statements succeed and the context is not cancelled.\<close>

theorem session_until_expiry:
  assumes "resy_Login c e (ResyCredentials email pw) w = (Inr s, w1)" "rc_store c" "sole_account email (rw_db w)"
    "rn_io e = (\<lambda>_. io_ok)" "rn_cancel_at e = None" "rfc_range (rs_expires_at s)" "rfc_range (rw_now w)" "rfc_range (rw_now w1)"
    "rw_db w2 = rw_db w1"
  shows "rs_user s = email \<and>
    fst (LoadSession c e email w2) = (if rs_expires_at s \<noteq> 0 \<and> rs_expires_at s \<le> rw_now w2 then Inl (StoreFailed ErrSessionExpired) else Inr s) \<and>
    (rs_expires_at s \<noteq> 0 \<and> rs_expires_at s \<le> rw_now w2 \<longrightarrow> Ping c e (ResySession s) w2 = (Some (Signal ErrAuthExpired), w2))"
proof -
  obtain v where v: "rs_user s = email" "rw_db v = rw_db w" "rw_now w \<le> rw_now v" "persist_session e s v = (None, w1)"
    using Login_persists [OF assms(1,2)] by blast
  define row where "row = \<lparr>se_user = email, se_provider = providerID, se_jwt = rs_jwt s, se_expires_at = rs_expires_at s,
     se_created_at = rw_now v, se_updated_at = rw_now v\<rparr>"
  have io: "session_io e u = io_ok" for u using assms(4,5) by (simp add: session_io_def rctx_done_def)
  have late: "rw_now v \<le> rw_now w1" using persist_quiet [OF v(4)] by (simp add: quiet_def)
  have up: "UpsertSession io_ok row (rw_db w) = (None, rw_db w1)"
    using v(4) by (auto simp: persist_session_def io v(1,2) row_def split: prod.splits)
  have "session_ok row" using assms(6) rfc_range_between [OF assms(7,8) v(3) late] by (simp add: session_ok_def row_def)
  then obtain got where got: "GetSession io_ok email providerID (rw_now w2) (rw_db w2) =
      (Some got, if rs_expires_at s \<noteq> 0 \<and> rs_expires_at s \<le> rw_now w2 then Some ErrSessionExpired else None)"
      "se_user got = email" "se_jwt got = rs_jwt s" "se_expires_at got = rs_expires_at s"
    using GetSession_written [OF up, of "rw_now w2"] assms(3) unfolding assms(9) by (auto simp: row_def)
  have "fst (LoadSession c e email w2) = (if rs_expires_at s \<noteq> 0 \<and> rs_expires_at s \<le> rw_now w2 then Inl (StoreFailed ErrSessionExpired) else Inr s)"
    using assms(2) v(1) got by (simp add: LoadSession_def io)
  moreover have "rs_expires_at s \<noteq> 0 \<and> rs_expires_at s \<le> rw_now w2 \<Longrightarrow> Ping c e (ResySession s) w2 = (Some (Signal ErrAuthExpired), w2)"
    by (simp add: Ping_def IsSessionExpired_def session_view_def is_zero_def not_less)
  ultimately show ?thesis using v(1) by blast
qed

definition ex_auth :: json where
  "ex_auth = JObj [(''token'', JStr ''h.eyJleHAiOjE4MDAwMDAwMDB9.s''), (''id'', JInt 1)]"

lemma ex_plain_do:
  assumes "url_Parse (full_url c path []) \<noteq> None"
  shows "\<exists>resp w'. resy_do c (ex_resy_env (\<lambda>_. ex_reply st j) hs) meth path [] body token w = (Inr (json_text j, resp), w') \<and>
    re_status resp = st \<and> rw_db w' = rw_db w \<and> rw_now w' = rw_now w + 1"
  using assms
  by (simp add: resy_do_def doWithExtraHeaders_def Let_def rctx_done_def give_up_at_def ex_resy_env_def ex_reply_def defaultPerCallTimeout_def second_def)

lemma ex_exp_text: "show_int 1800000000 = ''1800000000''"
  by (simp add: fmt_int_def zero_pad_def show_nat.simps digit_char_def digits_def)

lemma ex_claims_text: "json_text (JObj [(''exp'', JInt 1800000000)]) = ''{'' @ [CHR 0x22] @ ''exp'' @ [CHR 0x22] @ '':1800000000}''"
  by (simp add: ex_exp_text) code_simp

text \<open>A session that expires in January 2027.\<close>

theorem session_until_expiry_witness:
  "\<exists>s w1. resy_Login (NewClient [] [WithStore]) (ex_resy_env (\<lambda>_. ex_reply 200 ex_auth) []) (ResyCredentials ''ana@example.com'' ''pw'') ex_resy_world = (Inr s, w1) \<and>
     rs_expires_at s = from_unix_sec 1800000000 \<and>
     (\<forall>t. fst (LoadSession (NewClient [] [WithStore]) (ex_resy_env (\<lambda>_. ex_reply 200 ex_auth) []) ''ana@example.com'' (w1\<lparr>rw_now := t\<rparr>)) =
        (if from_unix_sec 1800000000 \<le> t then Inl (StoreFailed ErrSessionExpired) else Inr s))"
proof -
  let ?c = "NewClient [] [WithStore]" and ?e = "ex_resy_env (\<lambda>_. ex_reply 200 ex_auth) []"
  let ?form = "Encode [(''email'', ''ana@example.com''), (''password'', ''pw'')]" and ?tok = "''h.eyJleHAiOjE4MDAwMDAwMDB9.s''"
  have "url_Parse (full_url ?c ''/3/auth/password'' []) \<noteq> None" and store: "rc_store ?c" by code_simp+
  then obtain resp w' where sent: "resy_do ?c ?e ''POST'' ''/3/auth/password'' [] ?form [] ex_resy_world = (Inr (json_text ex_auth, resp), w')"
      "re_status resp = 200" "rw_db w' = empty_db" "rw_now w' = ex_now + 1"
    using ex_plain_do [of ?c "''/3/auth/password''" 200 ex_auth "[]" "''POST''" ?form "[]" ex_resy_world] by (auto simp: ex_resy_world_def)
  have doc: "json_ascii ex_auth" "json_depth ex_auth \<le> max_nesting" by code_simp+
  let ?env = "\<lparr>au_token = ?tok, au_mfa_required = False, au_challenge_id = [], au_challenge_type = []\<rparr>"
  have "bind_result (as_members ex_auth) decode_authResponseEnvelope = Inr ?env" by code_simp
  then have dec: "unmarshal decode_authResponseEnvelope (json_text ex_auth) = Some ?env" by (simp add: unmarshal_text doc)
  have "splitOn CHR ''.'' ?tok = [''h'', ''eyJleHAiOjE4MDAwMDAwMDB9'', ''s'']" by code_simp
  moreover have "RawURLEncoding_decode ''eyJleHAiOjE4MDAwMDAwMDB9'' = Some (json_text (JObj [(''exp'', JInt 1800000000)]))"
  proof -
    have "RawURLEncoding_decode ''eyJleHAiOjE4MDAwMDAwMDB9'' = Some (''{'' @ [CHR 0x22] @ ''exp'' @ [CHR 0x22] @ '':1800000000}'')" by code_simp
    then show ?thesis by (simp only: ex_claims_text)
  qed
  moreover have "unmarshal (int_member ''exp'') (json_text (JObj [(''exp'', JInt 1800000000)])) = Some 1800000000"
    by (subst unmarshal_text) (simp_all add: max_nesting_def int_member_def member_def ascii_def byte_def int64_def)
  ultimately have jwt: "parseJWTExp ?tok = Inr (from_unix_sec 1800000000)"
    by (simp add: parseJWTExp_def time_Unix_exact del: json_text.simps splitOn.simps)
  define s where "s = \<lparr>rs_user = ''ana@example.com'', rs_jwt = ?tok, rs_expires_at = from_unix_sec 1800000000\<rparr>"
  obtain w1 where w1: "persist_session ?e s w' = (None, w1)" "rw_now w1 = ex_now + 2"
  proof -
    have "fresh_user ''ana@example.com'' empty_db" by (simp add: fresh_user_def empty_db_def)
    then show thesis using that sent(3,4)
      by (simp add: persist_session_def session_io_def rctx_done_def ex_resy_env_def UpsertSession_fresh takes_time_def s_def)
  qed
  have run: "resy_Login ?c ?e (ResyCredentials ''ana@example.com'' ''pw'') ex_resy_world = (Inr s, w1)"
    using w1(1) by (simp add: resy_Login_def sent(1,2) dec jwt store s_def Let_def)
  have ranges: "rfc_range (from_unix_sec 1800000000)" "rfc_range ex_now" "rfc_range (ex_now + 2)" by code_simp+
  have "fst (LoadSession ?c ?e ''ana@example.com'' (w1\<lparr>rw_now := t\<rparr>)) =
      (if rs_expires_at s \<noteq> 0 \<and> rs_expires_at s \<le> t then Inl (StoreFailed ErrSessionExpired) else Inr s)" for t
    using session_until_expiry [OF run store, of "w1\<lparr>rw_now := t\<rparr>"] ranges w1(2)
    by (simp add: sole_account_def empty_db_def ex_resy_world_def ex_resy_env_def s_def)
  then show ?thesis using run by (auto simp: s_def from_unix_sec_def second_def)
qed

section \<open>What the adapter does besides\<close>

text \<open>A failure of the upstream carries none of the sentinels every provider error is to wrap.\<close>

lemma server_error_unclassified: "\<exists>err. classify ct 503 [] = Some err \<and> resy_is err = None"
proof -
  have "extractSpecificCode [] = []" by code_simp
  then show ?thesis by (simp add: classify_def Let_def)
qed

text \<open>A search answer that mentions venues outside a results envelope is taken for an empty
  availability answer, hits or not.\<close>

definition ex_search :: json where
  "ex_search = JObj [(''search'', JObj [(''hits'', JArr [JObj [(''id'', JObj [(''resy'', JInt 5)]), (''url_slug'', JStr ''a'')]])]),
     (''venues'', JArr [])]"

lemma search_taken_for_empty: "classify ct 200 (json_text ex_search) = Some (Signal ErrInventoryEmpty)"
proof -
  have doc: "json_ascii ex_search" "json_depth ex_search \<le> max_nesting" by code_simp+
  have "bind_result (as_members ex_search) (bool_member ''mfa_required'') = Inr False"
    "bind_result (as_members ex_search) (\<lambda>fs. bind_result (obj_member ''results'' fs) (objs_member ''venues'')) = Inr []"
    "contains (json_text ex_search) ([CHR 0x22] @ ''venues'' @ [CHR 0x22])" by code_simp+
  then show ?thesis
    by (simp add: classify_def classify2xx_def isMFARequiredBody_def isEmptyFindBody_def unmarshal_text doc del: append.simps)
qed

text \<open>A signer's header overrides the booking key when it spells the name differently and its
  entry is ranged over last.\<close>

lemma signer_overrides_key:
  "key_of (request_of ex_signing (ex_blocked\<lparr>rn_order := \<lambda>_. rev\<rparr>) ''POST'' ''/3/book'' [] [] []
     (mergeHeaders [(IdempotencyKeyHeader, ''k1'')] [(''x-resy-idempotency-key'', ''k2'')]) 0) = Some ''k2''"
  by code_simp

text \<open>A booking that fails before anything is sent has used its key up.\<close>

lemma key_used_without_request:
  "key \<noteq> [] \<Longrightarrow> key \<notin> set (rw_seen w) \<Longrightarrow>
   key \<in> set (rw_seen (snd (BookWithIdempotency c e s (OtherSession t) key w))) \<and> rw_sent (snd (BookWithIdempotency c e s (OtherSession t) key w)) = rw_sent w"
  by (simp add: BookWithIdempotency_def idempotency_check_def)

end
