(* ===== verification/Spec2Isabelle.thy ===== *)
theory Spec2Isabelle
  imports AccessSpec HttpSpec RaceSpec BookingSpec
begin

text \<open>
  A verification library for resy-snipe, a program that books restaurant reservations at the
  instant they are released.

  \<^bold>\<open>The program.\<close> A user states a goal: a venue, a date, a party, a window of times. The service layer
  (\<^verbatim>\<open>internal/service\<close>) resolves the venue through a cache (\<^verbatim>\<open>internal/resolver\<close>), plans how to
  get the table (\<^verbatim>\<open>internal/planner\<close>), stores the quest in the tenant's rows of a SQLite database
  (\<^verbatim>\<open>internal/store\<close>) and submits its intent to the workflow engine (\<^verbatim>\<open>internal/engine\<close>). The engine
  moves a snipe through the life cycle of \<^verbatim>\<open>internal/domain\<close>, waits for the release, polls the
  provider, races the bookable slots, persists every move with its event, and notifies its
  subscribers; a subscription of the service streams them to the client. The verbs of the service
  are reached over HTTP (\<^verbatim>\<open>internal/transport/http\<close>) by a client (\<^verbatim>\<open>internal/client/http\<close>) with
  the same interface.

  \<^bold>\<open>The model.\<close> A theory per component, named after it, then theories of facts and, last, the
  properties with their witnesses.
  \<^item> \<open>Prelude\<close>: results, the \<open>codec\<close> interface, lists and digits. \<open>GoText\<close>, \<open>GoTime\<close>, \<open>TimeFormat\<close>,
    \<open>Json\<close>: what the program uses of \<^verbatim>\<open>strings\<close>, \<^verbatim>\<open>strconv\<close>, \<^verbatim>\<open>net/url\<close>, \<^verbatim>\<open>time\<close> and \<^verbatim>\<open>encoding/json\<close>.
    A string is its bytes; an instant is nanoseconds since year 1. \<open>Utf8\<close>: which strings are well-formed, and what
    \<^verbatim>\<open>encoding/json\<close> makes of the others: every byte that starts no sequence becomes U+FFFD. Every document the
    program stores or sends goes through it (\<open>marshaled\<close>), and what is exact for UTF-8 texts is stated for these.
  \<^item> \<open>Domain\<close>, \<open>Lifecycle\<close>, \<open>Goal\<close>, \<open>Plan\<close>, \<open>PlanText\<close>: the values of \<^verbatim>\<open>internal/domain\<close>, their hashes and
    canonical texts, the status table and \<^verbatim>\<open>SnipeState\<close>.
  \<^item> \<open>StoreCodec\<close>, \<open>SnipeStore\<close>, \<open>GoalCodec\<close>, \<open>QuestStore\<close>: the columns and tables of \<^verbatim>\<open>internal/store\<close>. A
    database is a record of row lists; each operation takes the outcome of each of its SQL
    statements, so every failure is a case.
  \<^item> \<open>Providers\<close>, \<open>Subscribe\<close>, \<open>Engine\<close>, \<open>Race\<close>: the provider seam, the engine's event stream, its
    entry points, and the booking race as a step function over the actions of its goroutines.
  \<^item> \<open>Planner\<close>: slots, drop moments, strategies and plans.
  \<^item> \<open>Resolver\<close>, \<open>Service\<close>, \<open>ServiceQuests\<close>, \<open>ServiceAuth\<close>, \<open>QuestStream\<close>: links and cached resolution, and
    the verbs of \<^verbatim>\<open>service.Standard\<close> over both databases. The live phase of a subscription is a
    step relation of the emitting and the receiving goroutine.
  \<^item> \<open>Wire\<close>, \<open>HttpApi\<close>, \<open>HttpClient\<close>: the JSON structs of both ends, the server's error table, bearer check,
    handlers and routes, and the client's verbs over an exchange with that server.
  \<^item> \<open>JsonText\<close>, \<open>Resy\<close>, \<open>ResyCalls\<close>: the Resy adapter of \<^verbatim>\<open>internal/resy\<close> over bodies that are texts: the
    reading of a text as a document, base64, forms and header names; classification, the signed
    exchange and its retry, sessions; and a definition per method of its client.

  The environment (\<open>env\<close>, \<open>resolver\<close>, \<open>service\<close>, \<open>resy_env\<close>) answers what the program cannot decide: how each
  statement and provider call ends and how long it takes, when the context is cancelled, how late
  a timer fires, which branch of a select is taken, what the random source yields. SHA-256,
  BLAKE2b, the time zone database and the Unicode tables are functions of it; theorems about
  hashes assume a digest without collisions.

  \<^bold>\<open>The lemmas.\<close> \<open>StoreFacts\<close> reads the tables as a map from ids to snipes and their logs and shows that each
  operation implements the update of that map. \<open>EngineFacts\<close>, \<open>EngineInv\<close>, \<open>EngineProps\<close>, \<open>EngineLive\<close>:
  the engine's steps, what they keep, when they act, and that they end. \<open>RaceFacts\<close>: what every
  interleaving of a race keeps. \<open>QuestFacts\<close> (the interface \<open>tenant_op\<close>) and \<open>ServiceFacts\<close>: a store
  call, and so a verb, keeps other tenants' rows. \<open>ServiceView\<close> (\<open>view_op\<close>): its answer depends on
  its own tenant's. \<open>ServiceFrame\<close> (\<open>frame\<close>, \<open>audited_frame\<close>) and \<open>ServiceAudit\<close> (\<open>write_frame\<close>, \<open>token_frame\<close>): what a verb
  leaves alone, and the rows it logs. \<open>TokenFacts\<close>: the token table through histories of requests. \<open>WireFacts\<close> (\<open>view_codec\<close>): what the client decodes of a struct the
  server sent; \<open>HttpFacts\<close>: a client's verb answers what the verb of the service does. \<open>JsonFacts\<close>:
  the reader inverts the writer; \<open>ResyFacts\<close> (\<open>exchange_op\<close>): what a call of the adapter sends. Every interface is interpreted on the model's operations.

  \<^bold>\<open>The properties\<close> are in \<open>DomainSpec\<close>, \<open>StoreSpec\<close>, \<open>EngineSpec\<close>, \<open>RaceSpec\<close>, \<open>PlannerSpec\<close>, \<open>ServiceSpec\<close>,
  \<open>AccessSpec\<close>, \<open>HttpSpec\<close>, \<open>ResySpec\<close> and \<open>BookingSpec\<close>, each after a text that states it;
  \<open>ServiceExample\<close> is the daemon the service's
  witnesses run on.

  \<^bold>\<open>Bounds and loops.\<close> Polling loops are recursive functions with a measure on the time left; the poll
  interval is at least 100 ms, so they end. Races are executed along a schedule, which is
  bounded by seven actions per slot and three more. Subscriber ids are 64-bit words. A JSON text
  is read to a nesting of 10000, the limit of the library. No other
  definition has fuel.

  \<^bold>\<open>Not modelled.\<close> What \<^verbatim>\<open>net/http\<close> does within one call: the redirects a client follows, which repeat a POST on a 307
  or 308, and the check of header values; the option that swaps the Resy adapter's HTTP client. The process that adapter runs to sign requests (\<^verbatim>\<open>internal/resy/sign\<close>); of the HTTP layers, the
  listener, health and proxy set-up and the client's parser of the event stream's text; the
  daemon's boot (\<^verbatim>\<open>internal/daemon\<close>) and the command line (\<^verbatim>\<open>cmd/resy-snipe\<close>), which are input and
  output around the verbs; the sealing of secrets (\<^verbatim>\<open>internal/secrets\<close>), which rests on third-party
  cryptography; migrations, which are SQL scripts; the clock, which is the environment's. Logging
  has no counterpart, and a mutex is the atomicity of a step.
\<close>

end
